(* ===== verification/Prelude.thy ===== *)
theory Prelude
  imports Main "HOL-Library.Word" "HOL-Library.Sublist"
begin

text \<open>
  Shared vocabulary of the development: the C++ types the sources use, failing
  computations, little-endian object representation of integers, and the generic lemmas on
  lists, results and words that the component theories share.

  \<^item> \<open>cpp_error\<close> and \<open>'a result\<close>: every \<^verbatim>\<open>assert\<close>, out-of-range access, null
    dereference and library exception of the sources is a value \<open>Inl e\<close>, so that a function
    that returns normally is a value \<open>Inr x\<close>. The collection \<open>result_simps\<close> carries the
    rewriting of sequenced computations.
  \<^item> \<open>wrap32\<close>: conversion to a 32-bit two's complement \<^verbatim>\<open>int\<close>; \<open>size_of_int\<close>: the
    conversion of an \<^verbatim>\<open>int\<close> or \<^verbatim>\<open>short\<close> to a 64-bit \<^verbatim>\<open>size_t\<close>; \<open>c_rem\<close>: the C++
    remainder, which takes the sign of the dividend.
  \<^item> \<open>le16\<close>, \<open>le32\<close> and their inverses: the bytes of an integer in the memory of a
    little-endian machine, which is what \<^verbatim>\<open>memcpy\<close> and \<^verbatim>\<open>append(&x, sizeof(x))\<close> see.
\<close>

named_theorems result_simps
named_theorems wire_simps

subsection \<open>Failing computations\<close>

datatype cpp_error =
    AssertionFailed
  | OutOfBounds
  | NullDeref
  | DanglingReference
  | LengthError
  | BadCast
  | SystemError
  | Terminate

type_synonym 'a result = "cpp_error + 'a"

definition rbind :: "'e + 'a \<Rightarrow> ('a \<Rightarrow> 'e + 'b) \<Rightarrow> 'e + 'b" where
  "rbind x f = (case x of Inl e \<Rightarrow> Inl e | Inr a \<Rightarrow> f a)"

definition cpp_assert :: "bool \<Rightarrow> unit result" where
  "cpp_assert P = (if P then Inr () else Inl AssertionFailed)"

lemma rbind_simps [simp, result_simps]:
  "rbind (Inl e) f = Inl e"
  "rbind (Inr a) f = f a"
  by (simp_all add: rbind_def)

lemma rbind_eq_Inr [result_simps]:
  "rbind x f = Inr y \<longleftrightarrow> (\<exists>a. x = Inr a \<and> f a = Inr y)"
  by (auto simp: rbind_def split: sum.splits)

lemma rbind_eq_Inl [result_simps]:
  "rbind x f = Inl e \<longleftrightarrow> x = Inl e \<or> (\<exists>a. x = Inr a \<and> f a = Inl e)"
  by (auto simp: rbind_def split: sum.splits)

lemma rbind_assoc: "rbind (rbind x f) g = rbind x (\<lambda>a. rbind (f a) g)"
  by (cases x) simp_all

lemma rbind_cong [fundef_cong]:
  "x = x' \<Longrightarrow> (\<And>a. x' = Inr a \<Longrightarrow> f a = f' a) \<Longrightarrow> rbind x f = rbind x' f'"
  by (auto simp: rbind_def split: sum.splits)

lemma cpp_assert_simps [simp, result_simps]:
  "cpp_assert P = Inr u \<longleftrightarrow> P"
  "cpp_assert P = Inl e \<longleftrightarrow> \<not> P \<and> e = AssertionFailed"
  by (auto simp: cpp_assert_def)

lemma rbind_assert [simp, result_simps]:
  "rbind (cpp_assert P) f = (if P then f () else Inl AssertionFailed)"
  by (simp add: cpp_assert_def)

subsection \<open>Machine integers\<close>

type_synonym int16 = "16 word"
type_synonym int32 = "32 word"

definition wrap32 :: "int \<Rightarrow> int" where
  "wrap32 n = sint (word_of_int n :: 32 word)"

definition size_of_int :: "int \<Rightarrow> nat" where
  "size_of_int n = nat (n mod 2 ^ 64)"

definition c_rem :: "int \<Rightarrow> int \<Rightarrow> int" where
  "c_rem a b = sgn a * (\<bar>a\<bar> mod \<bar>b\<bar>)"

definition INT_MAX :: int where
  "INT_MAX = 2147483647"

lemma wrap32_range: "- (2 ^ 31) \<le> wrap32 n \<and> wrap32 n < 2 ^ 31"
  using sint_greater_eq [of "word_of_int n :: 32 word"] sint_less [of "word_of_int n :: 32 word"]
  by (simp add: wrap32_def)

lemma sint_word_of_int_32:
  assumes "- (2 ^ 31) \<le> n" and "n < 2 ^ 31"
  shows "sint (word_of_int n :: 32 word) = n"
  using assms by (simp add: sint_sbintrunc' signed_take_bit_int_eq_self)

lemma sint_word_of_int_16:
  assumes "- (2 ^ 15) \<le> n" and "n < 2 ^ 15"
  shows "sint (word_of_int n :: 16 word) = n"
  using assms by (simp add: sint_sbintrunc' signed_take_bit_int_eq_self)

lemma sint_word_of_nat:
  "n < 2 ^ 31 \<Longrightarrow> sint (word_of_nat n :: 32 word) = int n"
  "n < 2 ^ 15 \<Longrightarrow> sint (word_of_nat n :: 16 word) = int n"
  using sint_word_of_int_32 [of "int n"] sint_word_of_int_16 [of "int n"] by simp_all

lemma scast_word_of_nat:
  "n < 2 ^ 15 \<Longrightarrow> (scast (word_of_nat n :: 16 word) :: 32 word) = word_of_nat n"
  by (simp add: scast_eq sint_word_of_nat)

lemma wrap32_id: "- (2 ^ 31) \<le> n \<Longrightarrow> n < 2 ^ 31 \<Longrightarrow> wrap32 n = n"
  unfolding wrap32_def by (rule sint_word_of_int_32)

lemma size_of_int_nonneg: "0 \<le> n \<Longrightarrow> n < 2 ^ 64 \<Longrightarrow> size_of_int n = nat n"
  by (simp add: size_of_int_def)

lemma size_of_int_neg: "- (2 ^ 63) \<le> n \<Longrightarrow> n < 0 \<Longrightarrow> 2 ^ 63 \<le> size_of_int n"
proof -
  assume lo: "- (2 ^ 63) \<le> n" and hi: "n < 0"
  have "n mod 2 ^ 64 = n + 2 ^ 64"
    using mod_pos_pos_trivial [of "n + 2 ^ 64" "2 ^ 64"] lo hi by simp
  with lo show ?thesis by (simp add: size_of_int_def)
qed

subsection \<open>Object representation of integers\<close>

definition le16 :: "int16 \<Rightarrow> char list" where
  "le16 w = [char_of (unat w), char_of (unat w div 256)]"

definition le32 :: "int32 \<Rightarrow> char list" where
  "le32 w = [char_of (unat w), char_of (unat w div 256),
             char_of (unat w div 65536), char_of (unat w div 16777216)]"

fun rd16 :: "char list \<Rightarrow> int16" where
  "rd16 [a, b] = word_of_nat (of_char a + 256 * of_char b)"
| "rd16 _ = 0"

fun rd32 :: "char list \<Rightarrow> int32" where
  "rd32 [a, b, c, d] =
     word_of_nat (of_char a + 256 * of_char b + 65536 * of_char c + 16777216 * of_char d)"
| "rd32 _ = 0"

lemma length_le [simp]: "length (le16 x) = 2" "length (le32 y) = 4"
  by (simp_all add: le16_def le32_def)

lemma nat_digits2: "(n::nat) < 65536 \<Longrightarrow> n mod 256 + 256 * (n div 256) = n"
  using div_mult_mod_eq [of n 256] by linarith

lemma nat_div_256:
  "(n::nat) div 65536 = n div 256 div 256" "n div 16777216 = n div 256 div 256 div 256"
  by (simp_all add: div_mult2_eq [symmetric])

lemma nat_digit:
  "(a::nat) < 256 \<Longrightarrow> (a + 256 * m) div 256 = m" "(a::nat) < 256 \<Longrightarrow> (a + 256 * m) mod 256 = a"
  by simp_all

lemma nat_digits4:
  "n mod 256 + 256 * (n div 256 mod 256) + 65536 * (n div 65536 mod 256)
     + 16777216 * (n div 16777216) = (n::nat)"
  unfolding nat_div_256
  using div_mult_mod_eq [of n 256] div_mult_mod_eq [of "n div 256" 256]
    div_mult_mod_eq [of "n div 256 div 256" 256]
  by linarith

lemma rd16_le16 [simp, wire_simps]: "rd16 (le16 w) = w"
proof -
  have "unat w < 65536" using unsigned_less [of w] by simp
  then show ?thesis
    by (simp add: le16_def nat_digits2 del: of_nat_add of_nat_mult)
qed

lemma rd32_le32 [simp, wire_simps]: "rd32 (le32 w) = w"
proof -
  have "unat w < 4294967296" using unsigned_less [of w] by simp
  then show ?thesis
    by (simp add: le32_def nat_digits4 del: of_nat_add of_nat_mult)
qed

lemma of_char_less: "(of_char c :: nat) < 256"
  by (metis of_char_of char_of_char mod_less_divisor zero_less_numeral)

lemma char_of_nat_eq_iff: "char_of (n::nat) = c \<longleftrightarrow> n mod 256 = of_char c"
  by (simp add: char_of_eq_iff take_bit_eq_mod)

lemma le16_rd16 [wire_simps]: "length cs = 2 \<Longrightarrow> le16 (rd16 cs) = cs"
proof -
  assume "length cs = 2"
  then obtain a b where cs: "cs = [a, b]" by (auto simp: numeral_eq_Suc length_Suc_conv)
  let ?n = "of_char a + 256 * of_char b :: nat"
  have a: "of_char a < (256::nat)" and b: "of_char b < (256::nat)"
    by (simp_all add: of_char_less)
  then have "?n < 65536" by linarith
  then have u: "unat (word_of_nat ?n :: int16) = ?n"
    by (simp add: unat_of_nat del: of_nat_add of_nat_mult)
  have "?n mod 256 = of_char a" "?n div 256 mod 256 = of_char b"
    using a b by simp_all
  with u show ?thesis
    by (simp add: cs le16_def char_of_nat_eq_iff del: of_nat_add of_nat_mult)
qed

lemma le32_rd32 [wire_simps]: "length cs = 4 \<Longrightarrow> le32 (rd32 cs) = cs"
proof -
  assume "length cs = 4"
  then obtain a b c d where cs: "cs = [a, b, c, d]"
    by (auto simp: numeral_eq_Suc length_Suc_conv)
  let ?n = "of_char a + 256 * of_char b + 65536 * of_char c + 16777216 * of_char d :: nat"
  have a: "of_char a < (256::nat)" and b: "of_char b < (256::nat)"
    and c: "of_char c < (256::nat)" and d: "of_char d < (256::nat)"
    by (simp_all add: of_char_less)
  then have "?n < 4294967296" by linarith
  then have u: "unat (word_of_nat ?n :: int32) = ?n"
    by (simp add: unat_of_nat del: of_nat_add of_nat_mult)
  have n: "?n = of_char a + 256 * (of_char b + 256 * (of_char c + 256 * of_char d))" by simp
  have "?n mod 256 = of_char a" "?n div 256 mod 256 = of_char b"
    "?n div 65536 mod 256 = of_char c" "?n div 16777216 mod 256 = of_char d"
    unfolding nat_div_256 n using a b c d by (simp_all only: nat_digit mod_less)
  then show ?thesis using u
    by (simp add: cs le32_def char_of_nat_eq_iff del: of_nat_add of_nat_mult)
qed

subsection \<open>Lists\<close>

lemma take_drop_append_left:
  "n + k \<le> length xs \<Longrightarrow> take k (drop n (xs @ ys)) = take k (drop n xs)"
  by simp

lemma list_eq_2E:
  assumes "length xs = 2"
  obtains a b where "xs = [a, b]"
  using assms by (auto simp: numeral_2_eq_2 length_Suc_conv)

lemma drop_nonempty_iff: "drop n xs \<noteq> [] \<longleftrightarrow> n < length xs"
  by (simp add: linorder_not_le)

section \<open>Decimal numerals\<close>

fun dec_digits :: "nat \<Rightarrow> string" where
  "dec_digits n =
     (if n < 10 then [char_of (48 + n)] else dec_digits (n div 10) @ [char_of (48 + n mod 10)])"

declare dec_digits.simps [simp del]

end
