(* ===== verification/Buffer.thy ===== *)
theory Buffer
  imports Prelude
begin

text \<open>
  The growing byte buffer of \<^verbatim>\<open>asio/internal/Buffer.h\<close> and \<^verbatim>\<open>Buffer.cpp\<close>: a vector of
  bytes with a reader and a writer index. Every method of the class is a definition here.
  Pointers into the buffer (\<^verbatim>\<open>begin()\<close>, \<^verbatim>\<open>peek()\<close>, \<^verbatim>\<open>beginWrite()\<close>) are offsets into the
  vector; dereferencing one goes through \<open>load\<close> and \<open>store\<close>, which fail with
  \<open>OutOfBounds\<close> outside the vector. An \<^verbatim>\<open>assert\<close> that does not hold is the value
  \<open>Inl AssertionFailed\<close>. Indices are \<open>nat\<close>: the subtractions of the source do not wrap in
  the states \<open>buf_inv\<close> describes, which are the ones the methods produce, and a
  \<^verbatim>\<open>std::vector\<close> never grows to \<open>2 ^ 63\<close> bytes.

  The theory shows that the buffer implements a queue of bytes: \<open>contents\<close> abstracts a state
  to the bytes between the indices, and the interface \<open>byte_stream\<close> states what a client of
  the buffer relies on.
\<close>

section \<open>State\<close>

record buffer =
  buf_vec :: "char list"
  readerIndex :: nat
  writerIndex :: nat

definition kCheapPrepend :: nat where
  "kCheapPrepend = 0"

definition kInitialSize :: nat where
  "kInitialSize = 4096"

section \<open>Memory accesses and standard algorithms\<close>

definition load :: "nat \<Rightarrow> nat \<Rightarrow> buffer \<Rightarrow> char list result" where
  "load p n b =
     (if p + n \<le> length (buf_vec b) then Inr (take n (drop p (buf_vec b))) else Inl OutOfBounds)"

definition store :: "nat \<Rightarrow> char list \<Rightarrow> buffer \<Rightarrow> buffer result" where
  "store p d b =
     (if p + length d \<le> length (buf_vec b)
      then Inr (b\<lparr>buf_vec := take p (buf_vec b) @ d @ drop (p + length d) (buf_vec b)\<rparr>)
      else Inl OutOfBounds)"

definition load_array :: "char list \<Rightarrow> nat \<Rightarrow> char list result" where
  "load_array d len = (if len \<le> length d then Inr (take len d) else Inl OutOfBounds)"

definition vec_resize :: "nat \<Rightarrow> char list \<Rightarrow> char list" where
  "vec_resize n xs = take n xs @ replicate (n - length xs) (CHR 0x00)"

function copy_fwd :: "char list \<Rightarrow> nat \<Rightarrow> nat \<Rightarrow> nat \<Rightarrow> char list" where
  "copy_fwd xs i j dest =
     (if i < j then copy_fwd (xs[dest := xs ! i]) (Suc i) j (Suc dest) else xs)"
  by pat_completeness auto
termination
  by (relation "measure (\<lambda>(xs, i, j, dest). j - i)") auto

declare copy_fwd.simps [simp del]

definition std_copy :: "char list \<Rightarrow> nat \<Rightarrow> nat \<Rightarrow> nat \<Rightarrow> char list result" where
  "std_copy xs i j dest =
     (if j \<le> length xs \<and> dest + (j - i) \<le> length xs
      then Inr (copy_fwd xs i j dest) else Inl OutOfBounds)"

section \<open>Observers\<close>

definition readableBytes :: "buffer \<Rightarrow> nat" where
  "readableBytes b = writerIndex b - readerIndex b"

definition writableBytes :: "buffer \<Rightarrow> nat" where
  "writableBytes b = length (buf_vec b) - writerIndex b"

definition prependableBytes :: "buffer \<Rightarrow> nat" where
  "prependableBytes b = readerIndex b"

definition begin_ptr :: "buffer \<Rightarrow> nat" where
  "begin_ptr b = 0"

definition peek :: "buffer \<Rightarrow> nat" where
  "peek b = begin_ptr b + readerIndex b"

definition beginWrite :: "buffer \<Rightarrow> nat" where
  "beginWrite b = begin_ptr b + writerIndex b"

text \<open>The size of a buffer is what is left to read, the measure of the loops that consume it.\<close>

instantiation buffer_ext :: (type) size
begin

definition size_buffer_ext :: "'a buffer_scheme \<Rightarrow> nat" where
  "size_buffer_ext b = writerIndex b - readerIndex b"

instance ..

end

lemma size_buffer [simp]: "size b = readableBytes b"
  by (simp add: size_buffer_ext_def readableBytes_def)

section \<open>Operations\<close>

definition Buffer_new :: "nat \<Rightarrow> buffer result" where
  "Buffer_new initialSize =
     (let b = \<lparr>buf_vec = replicate (kCheapPrepend + initialSize) (CHR 0x00),
               readerIndex = kCheapPrepend, writerIndex = kCheapPrepend\<rparr> in
      rbind (cpp_assert (readableBytes b = 0)) (\<lambda>_.
      rbind (cpp_assert (writableBytes b = kInitialSize)) (\<lambda>_.
      rbind (cpp_assert (prependableBytes b = kCheapPrepend)) (\<lambda>_. Inr b))))"

definition Buffer_swap :: "buffer \<Rightarrow> buffer \<Rightarrow> buffer \<times> buffer" where
  "Buffer_swap b rhs =
     (\<lparr>buf_vec = buf_vec rhs, readerIndex = readerIndex rhs, writerIndex = writerIndex rhs\<rparr>,
      \<lparr>buf_vec = buf_vec b, readerIndex = readerIndex b, writerIndex = writerIndex b\<rparr>)"

definition retrieveAll :: "buffer \<Rightarrow> buffer" where
  "retrieveAll b = b\<lparr>readerIndex := kCheapPrepend, writerIndex := kCheapPrepend\<rparr>"

definition retrieve :: "nat \<Rightarrow> buffer \<Rightarrow> buffer result" where
  "retrieve len b =
     rbind (cpp_assert (len \<le> readableBytes b)) (\<lambda>_.
       if len < readableBytes b then Inr (b\<lparr>readerIndex := readerIndex b + len\<rparr>)
       else Inr (retrieveAll b))"

definition retrieveUntil :: "nat \<Rightarrow> buffer \<Rightarrow> buffer result" where
  "retrieveUntil endp b =
     rbind (cpp_assert (peek b \<le> endp)) (\<lambda>_.
     rbind (cpp_assert (endp \<le> beginWrite b)) (\<lambda>_.
     retrieve (endp - peek b) b))"

definition retrieveInt32 :: "buffer \<Rightarrow> buffer result" where
  "retrieveInt32 b = retrieve 4 b"

definition retrieveInt16 :: "buffer \<Rightarrow> buffer result" where
  "retrieveInt16 b = retrieve 2 b"

definition retrieveInt8 :: "buffer \<Rightarrow> buffer result" where
  "retrieveInt8 b = retrieve 1 b"

definition retrieveAsString :: "nat \<Rightarrow> buffer \<Rightarrow> (string \<times> buffer) result" where
  "retrieveAsString len b =
     rbind (cpp_assert (len \<le> readableBytes b)) (\<lambda>_.
     rbind (load (peek b) len b) (\<lambda>s.
     rbind (retrieve len b) (\<lambda>b'. Inr (s, b'))))"

definition retrieveAllAsString :: "buffer \<Rightarrow> (string \<times> buffer) result" where
  "retrieveAllAsString b = retrieveAsString (readableBytes b) b"

definition hasWritten :: "nat \<Rightarrow> buffer \<Rightarrow> buffer" where
  "hasWritten len b = b\<lparr>writerIndex := writerIndex b + len\<rparr>"

definition makeSpace :: "nat \<Rightarrow> buffer \<Rightarrow> buffer result" where
  "makeSpace len b =
     (if writableBytes b + prependableBytes b < len + kCheapPrepend
      then Inr (b\<lparr>buf_vec := vec_resize (writerIndex b + len) (buf_vec b)\<rparr>)
      else
        rbind (cpp_assert (kCheapPrepend < readerIndex b)) (\<lambda>_.
        rbind (std_copy (buf_vec b) (begin_ptr b + readerIndex b) (begin_ptr b + writerIndex b)
                 (begin_ptr b + kCheapPrepend)) (\<lambda>xs.
          let readable = readableBytes b;
              b' = b\<lparr>buf_vec := xs, readerIndex := kCheapPrepend,
                     writerIndex := kCheapPrepend + readable\<rparr>
          in rbind (cpp_assert (readable = readableBytes b')) (\<lambda>_. Inr b'))))"

definition ensureWritableBytes :: "nat \<Rightarrow> buffer \<Rightarrow> buffer result" where
  "ensureWritableBytes len b =
     rbind (if writableBytes b < len then makeSpace len b else Inr b) (\<lambda>b'.
     rbind (cpp_assert (len \<le> writableBytes b')) (\<lambda>_. Inr b'))"

definition append_data :: "char list \<Rightarrow> nat \<Rightarrow> buffer \<Rightarrow> buffer result" where
  "append_data d len b =
     rbind (ensureWritableBytes len b) (\<lambda>b1.
     rbind (load_array d len) (\<lambda>src.
     rbind (store (beginWrite b1) src b1) (\<lambda>b2. Inr (hasWritten len b2))))"

definition append_str :: "string \<Rightarrow> buffer \<Rightarrow> buffer result" where
  "append_str str b = append_data str (length str) b"

definition append_void :: "char list \<Rightarrow> nat \<Rightarrow> buffer \<Rightarrow> buffer result" where
  "append_void d len b = append_data d len b"

definition read_buf :: "bool \<Rightarrow> nat \<Rightarrow> buffer \<Rightarrow> (char list option \<times> buffer) result" where
  "read_buf data_nonnull len b =
     (if data_nonnull \<and> len \<le> readableBytes b
      then rbind (load (peek b) len b) (\<lambda>d. rbind (retrieve len b) (\<lambda>b'. Inr (Some d, b')))
      else Inr (None, b))"

definition prepend :: "char list \<Rightarrow> nat \<Rightarrow> buffer \<Rightarrow> buffer result" where
  "prepend d len b =
     rbind (cpp_assert (len \<le> prependableBytes b)) (\<lambda>_.
     rbind (load_array d len) (\<lambda>src.
       let b' = b\<lparr>readerIndex := readerIndex b - len\<rparr>
       in store (begin_ptr b' + readerIndex b') src b'))"

section \<open>Integers in the buffer (Buffer.cpp)\<close>

definition appendInt32 :: "int32 \<Rightarrow> buffer \<Rightarrow> buffer result" where
  "appendInt32 x b = append_void (le32 x) 4 b"

definition appendInt16 :: "int16 \<Rightarrow> buffer \<Rightarrow> buffer result" where
  "appendInt16 x b = append_void (le16 x) 2 b"

definition appendInt8 :: "char \<Rightarrow> buffer \<Rightarrow> buffer result" where
  "appendInt8 x b = append_void [x] 1 b"

definition peekInt32 :: "buffer \<Rightarrow> int32 result" where
  "peekInt32 b = rbind (cpp_assert (4 \<le> readableBytes b)) (\<lambda>_.
                 rbind (load (peek b) 4 b) (\<lambda>d. Inr (rd32 d)))"

definition peekInt16 :: "buffer \<Rightarrow> int16 result" where
  "peekInt16 b = rbind (cpp_assert (2 \<le> readableBytes b)) (\<lambda>_.
                 rbind (load (peek b) 2 b) (\<lambda>d. Inr (rd16 d)))"

definition peekInt8 :: "buffer \<Rightarrow> char result" where
  "peekInt8 b = rbind (cpp_assert (1 \<le> readableBytes b)) (\<lambda>_.
                rbind (load (peek b) 1 b) (\<lambda>d. Inr (hd d)))"

definition readInt32 :: "buffer \<Rightarrow> (int32 \<times> buffer) result" where
  "readInt32 b = rbind (peekInt32 b) (\<lambda>r. rbind (retrieveInt32 b) (\<lambda>b'. Inr (r, b')))"

definition readInt16 :: "buffer \<Rightarrow> (int16 \<times> buffer) result" where
  "readInt16 b = rbind (peekInt16 b) (\<lambda>r. rbind (retrieveInt16 b) (\<lambda>b'. Inr (r, b')))"

definition readInt8 :: "buffer \<Rightarrow> (char \<times> buffer) result" where
  "readInt8 b = rbind (peekInt8 b) (\<lambda>r. rbind (retrieveInt8 b) (\<lambda>b'. Inr (r, b')))"

definition prependInt32 :: "int32 \<Rightarrow> buffer \<Rightarrow> buffer result" where
  "prependInt32 x b = prepend (le32 x) 4 b"

definition prependInt16 :: "int16 \<Rightarrow> buffer \<Rightarrow> buffer result" where
  "prependInt16 x b = prepend (le16 x) 2 b"

definition prependInt8 :: "char \<Rightarrow> buffer \<Rightarrow> buffer result" where
  "prependInt8 x b = prepend [x] 1 b"

section \<open>Invariant and abstraction\<close>

named_theorems buffer_defs

lemmas [buffer_defs] =
  readableBytes_def writableBytes_def prependableBytes_def begin_ptr_def peek_def beginWrite_def
  kCheapPrepend_def

definition buf_inv :: "buffer \<Rightarrow> bool" where
  "buf_inv b \<longleftrightarrow> readerIndex b \<le> writerIndex b \<and> writerIndex b \<le> length (buf_vec b)"

definition contents :: "buffer \<Rightarrow> char list" where
  "contents b = take (writerIndex b - readerIndex b) (drop (readerIndex b) (buf_vec b))"

lemma length_contents: "buf_inv b \<Longrightarrow> length (contents b) = readableBytes b"
  by (auto simp: buf_inv_def contents_def readableBytes_def)

lemma contents_empty_iff: "buf_inv b \<Longrightarrow> contents b = [] \<longleftrightarrow> readableBytes b = 0"
  using length_contents [of b] by auto

lemma load_peek:
  assumes "buf_inv b" and "n \<le> readableBytes b"
  shows "load (peek b) n b = Inr (take n (contents b))"
  using assms by (auto simp: load_def buf_inv_def contents_def buffer_defs)

subsection \<open>Forward copy\<close>

lemma length_copy_fwd [simp]: "length (copy_fwd xs i j d) = length xs"
  by (induction xs i j d rule: copy_fwd.induct) (simp add: copy_fwd.simps [of _ i j d for i j d])

lemma nth_copy_fwd:
  assumes "d \<le> i" and "j \<le> length xs" and "k < length xs"
  shows "copy_fwd xs i j d ! k = (if d \<le> k \<and> k < d + (j - i) then xs ! (i + (k - d)) else xs ! k)"
  using assms
proof (induction xs i j d rule: copy_fwd.induct)
  case (1 xs i j d)
  show ?case
  proof (cases "i < j")
    case True
    have "copy_fwd xs i j d = copy_fwd (xs[d := xs ! i]) (Suc i) j (Suc d)"
      using True by (simp add: copy_fwd.simps [of xs i j d])
    also have "\<dots> ! k = (if Suc d \<le> k \<and> k < Suc d + (j - Suc i)
        then xs[d := xs ! i] ! (Suc i + (k - Suc d)) else xs[d := xs ! i] ! k)"
      using 1 True by simp
    also have "\<dots> = (if d \<le> k \<and> k < d + (j - i) then xs ! (i + (k - d)) else xs ! k)"
    proof (cases "Suc d \<le> k")
      case True
      then have "Suc i + (k - Suc d) = i + (k - d)" by simp
      with \<open>i < j\<close> 1(2-4) True show ?thesis by (auto simp: nth_list_update)
    next
      case False
      with \<open>i < j\<close> 1(2-4) show ?thesis by (auto simp: nth_list_update not_less_eq_eq)
    qed
    finally show ?thesis .
  qed (auto simp: copy_fwd.simps [of xs i j d])
qed

text \<open>
  The forward element-by-element copy that \<^verbatim>\<open>makeSpace\<close> uses to move the readable
  bytes to the front of the same vector is a block move, although source and destination
  overlap: the destination lies at or below the source, so no byte is overwritten before it has
  been read.
\<close>

lemma copy_fwd_is_block_move:
  assumes "d \<le> i" and "i \<le> j" and "j \<le> length xs"
  shows "copy_fwd xs i j d = take d xs @ take (j - i) (drop i xs) @ drop (d + (j - i)) xs"
proof (rule nth_equalityI)
  show "length (copy_fwd xs i j d)
      = length (take d xs @ take (j - i) (drop i xs) @ drop (d + (j - i)) xs)"
    using assms by simp
next
  fix k assume "k < length (copy_fwd xs i j d)"
  then have k: "k < length xs" by simp
  have "length (take d xs) = d" "length (take (j - i) (drop i xs)) = j - i"
    using assms by auto
  with assms k show "copy_fwd xs i j d ! k
      = (take d xs @ take (j - i) (drop i xs) @ drop (d + (j - i)) xs) ! k"
    by (auto simp: nth_copy_fwd nth_append simp del: length_take)
qed

subsection \<open>Every operation on the abstract queue\<close>

lemma Buffer_new_default:
  "\<exists>b. Buffer_new kInitialSize = Inr b \<and> buf_inv b \<and> contents b = []"
  by (auto simp: Buffer_new_def Let_def buffer_defs kInitialSize_def buf_inv_def contents_def)

lemma retrieve_spec:
  assumes "buf_inv b" and "n \<le> readableBytes b"
  obtains b' where "retrieve n b = Inr b'" "buf_inv b'" "contents b' = drop n (contents b)"
proof -
  let ?b = "if n < readableBytes b then b\<lparr>readerIndex := readerIndex b + n\<rparr> else retrieveAll b"
  have "retrieve n b = Inr ?b" using assms by (simp add: retrieve_def)
  moreover have "buf_inv ?b"
    using assms by (auto simp: buf_inv_def retrieveAll_def buffer_defs)
  moreover have "contents ?b = drop n (contents b)"
    using assms
    by (auto simp: buf_inv_def retrieveAll_def contents_def buffer_defs drop_take add.commute)
  ultimately show ?thesis by (rule that)
qed

lemma retrieve_fails_iff: "retrieve n b = Inl e \<longleftrightarrow> readableBytes b < n \<and> e = AssertionFailed"
  by (auto simp: retrieve_def)

lemma retrieve_readable:
  "retrieve n b = Inr b' \<Longrightarrow> readableBytes b' = readableBytes b - n"
  by (auto simp: retrieve_def retrieveAll_def readableBytes_def split: if_splits)

lemma makeSpace_spec:
  assumes inv: "buf_inv b" and small: "writableBytes b < n"
  obtains b' where "makeSpace n b = Inr b'" "buf_inv b'" "contents b' = contents b"
    "n \<le> writableBytes b'"
proof (cases "writableBytes b + prependableBytes b < n + kCheapPrepend")
  case True
  let ?b = "b\<lparr>buf_vec := vec_resize (writerIndex b + n) (buf_vec b)\<rparr>"
  have len: "length (buf_vec ?b) = writerIndex b + n"
    using inv small by (auto simp: vec_resize_def buf_inv_def buffer_defs)
  have "take (writerIndex b) (buf_vec ?b) = take (writerIndex b) (buf_vec b)"
    using inv by (simp add: vec_resize_def buf_inv_def)
  then have "contents ?b = contents b"
    using inv by (simp add: contents_def take_drop buf_inv_def)
  moreover have "makeSpace n b = Inr ?b" using True by (simp add: makeSpace_def)
  ultimately show ?thesis
    using inv len by (intro that [of ?b]) (simp_all add: buf_inv_def buffer_defs)
next
  case False
  let ?r = "readerIndex b" and ?w = "writerIndex b" and ?v = "buf_vec b"
  let ?v' = "take (?w - ?r) (drop ?r ?v) @ drop (?w - ?r) ?v"
  let ?b = "b\<lparr>buf_vec := ?v', readerIndex := 0, writerIndex := ?w - ?r\<rparr>"
  have rw: "?r \<le> ?w" "?w \<le> length ?v" "0 < ?r"
    using inv False small by (auto simp: buf_inv_def buffer_defs)
  have "copy_fwd ?v ?r ?w 0 = ?v'"
    using copy_fwd_is_block_move [of 0 ?r ?w ?v] rw by simp
  then have "makeSpace n b = Inr ?b"
    using False rw by (simp add: makeSpace_def std_copy_def Let_def buffer_defs)
  then show ?thesis
    using rw False small
    by (intro that [of ?b]) (auto simp: buf_inv_def contents_def buffer_defs)
qed

lemma ensureWritableBytes_spec:
  assumes "buf_inv b"
  obtains b' where "ensureWritableBytes n b = Inr b'" "buf_inv b'" "contents b' = contents b"
    "n \<le> writableBytes b'"
proof (cases "writableBytes b < n")
  case True
  from assms True obtain b' where "makeSpace n b = Inr b'" "buf_inv b'" "contents b' = contents b"
    "n \<le> writableBytes b'" by (rule makeSpace_spec)
  with True show ?thesis by (intro that) (simp_all add: ensureWritableBytes_def)
next
  case False
  with assms show ?thesis by (intro that [of b]) (simp_all add: ensureWritableBytes_def)
qed

lemma append_data_spec:
  assumes "buf_inv b" and "n \<le> length d"
  obtains b' where "append_data d n b = Inr b'" "buf_inv b'" "contents b' = contents b @ take n d"
proof -
  obtain b1 where b1: "ensureWritableBytes n b = Inr b1" "buf_inv b1" "contents b1 = contents b"
    "n \<le> writableBytes b1" using ensureWritableBytes_spec [OF assms(1)] .
  let ?w = "writerIndex b1" and ?v = "buf_vec b1"
  let ?b = "b1\<lparr>buf_vec := take ?w ?v @ take n d @ drop (?w + n) ?v, writerIndex := ?w + n\<rparr>"
  have w: "?w + n \<le> length ?v" "readerIndex b1 \<le> ?w"
    using b1(2,4) by (auto simp: buf_inv_def buffer_defs)
  have "append_data d n b = Inr ?b"
    using b1(1) assms(2) w
    by (simp add: append_data_def load_array_def store_def hasWritten_def buffer_defs)
  moreover have "buf_inv ?b" using w assms(2) by (simp add: buf_inv_def)
  moreover have "contents ?b = contents b1 @ take n d"
    using w assms(2) by (simp add: contents_def drop_take)
  ultimately show ?thesis using b1(3) by (intro that [of ?b]) simp_all
qed

lemma append_str_spec:
  assumes "buf_inv b"
  obtains b' where "append_str d b = Inr b'" "buf_inv b'" "contents b' = contents b @ d"
proof -
  obtain b' where "append_data d (length d) b = Inr b'" "buf_inv b'"
    "contents b' = contents b @ take (length d) d"
    using append_data_spec [OF assms order_refl] .
  then show ?thesis by (intro that [of b']) (simp_all add: append_str_def)
qed

lemma retrieveAsString_spec:
  assumes "buf_inv b" and "n \<le> readableBytes b"
  obtains b' where "retrieveAsString n b = Inr (take n (contents b), b')" "buf_inv b'"
    "contents b' = drop n (contents b)"
proof -
  obtain b' where "retrieve n b = Inr b'" "buf_inv b'" "contents b' = drop n (contents b)"
    using retrieve_spec [OF assms] .
  then show ?thesis using assms by (intro that [of b']) (simp_all add: retrieveAsString_def load_peek)
qed

lemma prepend_spec:
  assumes "buf_inv b" and "n \<le> length d" and "n \<le> prependableBytes b"
  obtains b' where "prepend d n b = Inr b'" "buf_inv b'" "contents b' = take n d @ contents b"
proof -
  let ?r = "readerIndex b - n" and ?v = "buf_vec b"
  let ?b = "b\<lparr>buf_vec := take ?r ?v @ take n d @ drop (readerIndex b) ?v, readerIndex := ?r\<rparr>"
  have r: "n \<le> readerIndex b" "readerIndex b \<le> writerIndex b" "writerIndex b \<le> length ?v"
    using assms by (auto simp: buf_inv_def buffer_defs)
  have "prepend d n b = Inr ?b"
    using assms r by (simp add: prepend_def load_array_def store_def Let_def buffer_defs)
  moreover have "buf_inv ?b" using r assms(2) by (simp add: buf_inv_def)
  moreover have "contents ?b = take n d @ contents b"
    using r assms(2) by (simp add: contents_def)
  ultimately show ?thesis by (rule that)
qed

section \<open>The interface a client of the buffer relies on\<close>

text \<open>
  A byte stream: bytes go in at the end, are looked at and taken from the front. \<open>look n\<close>
  copies the first \<open>n\<close> bytes without consuming them (a \<^verbatim>\<open>memcpy\<close> from \<^verbatim>\<open>peek()\<close>).
\<close>

locale byte_stream =
  fixes inv :: "'b \<Rightarrow> bool"
    and view :: "'b \<Rightarrow> char list"
    and size :: "'b \<Rightarrow> nat"
    and put :: "char list \<Rightarrow> 'b \<Rightarrow> 'b result"
    and look :: "nat \<Rightarrow> 'b \<Rightarrow> char list result"
    and skip :: "nat \<Rightarrow> 'b \<Rightarrow> 'b result"
    and get :: "nat \<Rightarrow> 'b \<Rightarrow> (string \<times> 'b) result"
  assumes size_view: "inv b \<Longrightarrow> size b = length (view b)"
    and put_ok: "inv b \<Longrightarrow> \<exists>b'. put d b = Inr b' \<and> inv b' \<and> view b' = view b @ d"
    and look_ok: "inv b \<Longrightarrow> n \<le> length (view b) \<Longrightarrow> look n b = Inr (take n (view b))"
    and skip_ok: "inv b \<Longrightarrow> n \<le> length (view b) \<Longrightarrow>
      \<exists>b'. skip n b = Inr b' \<and> inv b' \<and> view b' = drop n (view b)"
    and skip_short: "inv b \<Longrightarrow> length (view b) < n \<Longrightarrow> skip n b = Inl AssertionFailed"
    and get_ok: "inv b \<Longrightarrow> n \<le> length (view b) \<Longrightarrow>
      \<exists>b'. get n b = Inr (take n (view b), b') \<and> inv b' \<and> view b' = drop n (view b)"
    and get_short: "inv b \<Longrightarrow> length (view b) < n \<Longrightarrow> get n b = Inl AssertionFailed"
begin

lemma putE:
  assumes "inv b"
  obtains b' where "put d b = Inr b'" "inv b'" "view b' = view b @ d"
  using put_ok [OF assms] by blast

lemma skipE:
  assumes "inv b" and "n \<le> length (view b)"
  obtains b' where "skip n b = Inr b'" "inv b'" "view b' = drop n (view b)"
  using skip_ok [OF assms] by blast

lemma getE:
  assumes "inv b" and "n \<le> length (view b)"
  obtains b' where "get n b = Inr (take n (view b), b')" "inv b'" "view b' = drop n (view b)"
  using get_ok [OF assms] by blast

lemma put_chunks:
  assumes "inv b"
  shows "\<exists>b'. foldl (\<lambda>r d. rbind r (put d)) (Inr b) ds = Inr b' \<and> inv b'
           \<and> view b' = view b @ concat ds"
  using assms
proof (induction ds arbitrary: b)
  case (Cons d ds)
  obtain b1 where b1: "put d b = Inr b1" "inv b1" "view b1 = view b @ d"
    using Cons.prems by (rule putE)
  with Cons.IH [OF b1(2)] show ?case by simp
qed auto

lemma put_get_fifo:
  assumes "inv b"
  shows "\<exists>b1 b2. put d b = Inr b1 \<and> inv b2 \<and> view b2 = d
           \<and> get (length (view b)) b1 = Inr (view b, b2)"
proof -
  obtain b1 where b1: "put d b = Inr b1" "inv b1" "view b1 = view b @ d"
    using assms by (rule putE)
  moreover obtain b2 where "get (length (view b)) b1 = Inr (take (length (view b)) (view b1), b2)"
    "inv b2" "view b2 = drop (length (view b)) (view b1)"
    using b1 by (auto elim: getE [of b1 "length (view b)"])
  ultimately show ?thesis by auto
qed

end

interpretation bs: byte_stream buf_inv contents readableBytes append_str
  "\<lambda>n b. load (peek b) n b" retrieve retrieveAsString
proof unfold_locales
  fix b :: buffer and d :: "char list"
  assume "buf_inv b"
  then show "readableBytes b = length (contents b)" by (simp add: length_contents)
  from append_str_spec [OF \<open>buf_inv b\<close>, of d]
  show "\<exists>b'. append_str d b = Inr b' \<and> buf_inv b' \<and> contents b' = contents b @ d" by blast
next
  fix b :: buffer and n :: nat
  assume inv: "buf_inv b" and "n \<le> length (contents b)"
  then have n: "n \<le> readableBytes b" by (simp add: length_contents)
  show "load (peek b) n b = Inr (take n (contents b))" using inv n by (rule load_peek)
  from retrieve_spec [OF inv n]
  show "\<exists>b'. retrieve n b = Inr b' \<and> buf_inv b' \<and> contents b' = drop n (contents b)" by blast
  from retrieveAsString_spec [OF inv n]
  show "\<exists>b'. retrieveAsString n b = Inr (take n (contents b), b') \<and> buf_inv b'
      \<and> contents b' = drop n (contents b)" by blast
next
  fix b :: buffer and n :: nat
  assume "buf_inv b" and "length (contents b) < n"
  then have "readableBytes b < n" by (simp add: length_contents)
  then show "retrieve n b = Inl AssertionFailed" "retrieveAsString n b = Inl AssertionFailed"
    by (simp_all add: retrieve_def retrieveAsString_def)
qed

section \<open>Refinement: the buffer against a queue of bytes\<close>

datatype buf_op =
    Append string
  | Retrieve nat
  | RetrieveUntil nat \<comment> \<open>offset from \<open>peek()\<close>\<close>
  | RetrieveAll
  | TakeString nat
  | TakeAllString
  | AppendInt32 int32
  | AppendInt16 int16
  | AppendInt8 char
  | ReadInt32
  | ReadInt16
  | ReadInt8
  | Read nat

fun buf_step :: "buf_op \<Rightarrow> buffer \<Rightarrow> (char list \<times> buffer) result" where
  "buf_step (Append s) b = rbind (append_str s b) (\<lambda>b'. Inr ([], b'))"
| "buf_step (Retrieve n) b = rbind (retrieve n b) (\<lambda>b'. Inr ([], b'))"
| "buf_step (RetrieveUntil k) b = rbind (retrieveUntil (peek b + k) b) (\<lambda>b'. Inr ([], b'))"
| "buf_step RetrieveAll b = Inr ([], retrieveAll b)"
| "buf_step (TakeString n) b = retrieveAsString n b"
| "buf_step TakeAllString b = retrieveAllAsString b"
| "buf_step (AppendInt32 x) b = rbind (appendInt32 x b) (\<lambda>b'. Inr ([], b'))"
| "buf_step (AppendInt16 x) b = rbind (appendInt16 x b) (\<lambda>b'. Inr ([], b'))"
| "buf_step (AppendInt8 x) b = rbind (appendInt8 x b) (\<lambda>b'. Inr ([], b'))"
| "buf_step ReadInt32 b = rbind (readInt32 b) (\<lambda>(x, b'). Inr (le32 x, b'))"
| "buf_step ReadInt16 b = rbind (readInt16 b) (\<lambda>(x, b'). Inr (le16 x, b'))"
| "buf_step ReadInt8 b = rbind (readInt8 b) (\<lambda>(x, b'). Inr ([x], b'))"
| "buf_step (Read n) b = rbind (read_buf True n b) (\<lambda>(d, b'). Inr (case d of None \<Rightarrow> [] | Some d \<Rightarrow> d, b'))"

definition queue_take :: "nat \<Rightarrow> char list \<Rightarrow> (char list \<times> char list) result" where
  "queue_take n q = (if n \<le> length q then Inr (take n q, drop n q) else Inl AssertionFailed)"

fun queue_step :: "buf_op \<Rightarrow> char list \<Rightarrow> (char list \<times> char list) result" where
  "queue_step (Append s) q = Inr ([], q @ s)"
| "queue_step (Retrieve n) q = rbind (queue_take n q) (\<lambda>(_, q'). Inr ([], q'))"
| "queue_step (RetrieveUntil k) q = rbind (queue_take k q) (\<lambda>(_, q'). Inr ([], q'))"
| "queue_step RetrieveAll q = Inr ([], [])"
| "queue_step (TakeString n) q = queue_take n q"
| "queue_step TakeAllString q = Inr (q, [])"
| "queue_step (AppendInt32 x) q = Inr ([], q @ le32 x)"
| "queue_step (AppendInt16 x) q = Inr ([], q @ le16 x)"
| "queue_step (AppendInt8 x) q = Inr ([], q @ [x])"
| "queue_step ReadInt32 q = queue_take 4 q"
| "queue_step ReadInt16 q = queue_take 2 q"
| "queue_step ReadInt8 q = queue_take 1 q"
| "queue_step (Read n) q = (if n \<le> length q then queue_take n q else Inr ([], q))"

fun buf_run :: "buf_op list \<Rightarrow> buffer \<Rightarrow> (char list list \<times> buffer) result" where
  "buf_run [] b = Inr ([], b)"
| "buf_run (x # xs) b =
     rbind (buf_step x b) (\<lambda>(out, b'). rbind (buf_run xs b') (\<lambda>(outs, b''). Inr (out # outs, b'')))"

fun queue_run :: "buf_op list \<Rightarrow> char list \<Rightarrow> (char list list \<times> char list) result" where
  "queue_run [] q = Inr ([], q)"
| "queue_run (x # xs) q =
     rbind (queue_step x q) (\<lambda>(out, q'). rbind (queue_run xs q') (\<lambda>(outs, q''). Inr (out # outs, q'')))"

definition sim :: "(char list \<times> buffer) result \<Rightarrow> (char list \<times> char list) result \<Rightarrow> bool" where
  "sim r q \<longleftrightarrow> (case r of Inl e \<Rightarrow> q = Inl e
     | Inr (out, b') \<Rightarrow> buf_inv b' \<and> q = Inr (out, contents b'))"

lemma append_void_sim:
  assumes "buf_inv b" and "n = length d"
  shows "sim (rbind (append_void d n b) (\<lambda>b'. Inr ([], b'))) (Inr ([], contents b @ d))"
proof -
  obtain b' where "append_data d n b = Inr b'" "buf_inv b'" "contents b' = contents b @ take n d"
    using append_data_spec [of b n d] assms by auto
  then show ?thesis using assms(2) by (simp add: sim_def append_void_def)
qed

lemma retrieveAsString_sim:
  assumes "buf_inv b"
  shows "sim (retrieveAsString n b) (queue_take n (contents b))"
proof (cases "n \<le> length (contents b)")
  case True
  then obtain b' where "retrieveAsString n b = Inr (take n (contents b), b')" "buf_inv b'"
    "contents b' = drop n (contents b)" using assms by (auto elim: bs.getE)
  with True show ?thesis by (simp add: sim_def queue_take_def)
qed (simp add: sim_def queue_take_def bs.get_short [OF assms])

lemma retrieve_sim:
  assumes "buf_inv b"
  shows "sim (rbind (retrieve n b) (\<lambda>b'. Inr ([], b')))
           (rbind (queue_take n (contents b)) (\<lambda>(_, q'). Inr ([], q')))"
proof (cases "n \<le> length (contents b)")
  case True
  then obtain b' where "retrieve n b = Inr b'" "buf_inv b'" "contents b' = drop n (contents b)"
    using assms by (auto elim: bs.skipE)
  with True show ?thesis by (simp add: sim_def queue_take_def)
qed (simp add: sim_def queue_take_def bs.skip_short [OF assms])

lemma readInt_sim:
  assumes "buf_inv b"
  shows "sim (buf_step ReadInt32 b) (queue_step ReadInt32 (contents b))"
    and "sim (buf_step ReadInt16 b) (queue_step ReadInt16 (contents b))"
    and "sim (buf_step ReadInt8 b) (queue_step ReadInt8 (contents b))"
proof -
  let ?n = "length (contents b)"
  note defs = readInt32_def readInt16_def readInt8_def peekInt32_def peekInt16_def peekInt8_def
    retrieveInt32_def retrieveInt16_def retrieveInt8_def
  have step: "\<exists>b'. retrieve k b = Inr b' \<and> buf_inv b' \<and> contents b' = drop k (contents b)
      \<and> k \<le> readableBytes b \<and> load (peek b) k b = Inr (take k (contents b))" if "k \<le> ?n" for k
    using bs.skip_ok [OF assms that] bs.look_ok [OF assms that] that assms
    by (auto simp: length_contents)
  have short: "\<not> k \<le> readableBytes b" if "\<not> k \<le> ?n" for k
    using that assms by (simp add: length_contents)
  show "sim (buf_step ReadInt32 b) (queue_step ReadInt32 (contents b))"
    using step [of 4] short [of 4]
    by (cases "4 \<le> ?n") (auto simp: defs sim_def queue_take_def le32_rd32)
  show "sim (buf_step ReadInt16 b) (queue_step ReadInt16 (contents b))"
    using step [of 2] short [of 2]
    by (cases "2 \<le> ?n") (auto simp: defs sim_def queue_take_def le16_rd16)
  show "sim (buf_step ReadInt8 b) (queue_step ReadInt8 (contents b))"
    using step [of 1] short [of 1]
    by (cases "1 \<le> ?n") (auto simp: defs sim_def queue_take_def take_Suc Suc_le_eq)
qed

lemma retrieveUntil_eq:
  "retrieveUntil (peek b + k) b =
     (if peek b + k \<le> beginWrite b then retrieve k b else Inl AssertionFailed)"
  by (simp add: retrieveUntil_def)

lemma buf_step_sim:
  assumes inv: "buf_inv b"
  shows "sim (buf_step op b) (queue_step op (contents b))"
proof (cases op)
  case (Append d)
  then show ?thesis using append_void_sim [OF inv refl, of d]
    by (simp add: append_str_def append_void_def)
next
  case (RetrieveUntil k)
  have "peek b + k \<le> beginWrite b \<longleftrightarrow> k \<le> length (contents b)"
    using inv unfolding length_contents [OF inv] by (auto simp: buf_inv_def buffer_defs)
  with RetrieveUntil show ?thesis using retrieve_sim [OF inv, of k]
    by (simp add: retrieveUntil_eq sim_def queue_take_def)
next
  case RetrieveAll
  then show ?thesis by (simp add: sim_def retrieveAll_def buf_inv_def contents_def buffer_defs)
next
  case TakeAllString
  then show ?thesis using retrieveAsString_sim [OF inv, of "readableBytes b"]
    by (simp add: retrieveAllAsString_def queue_take_def length_contents [OF inv, symmetric])
next
  case (Read n)
  then show ?thesis using retrieveAsString_sim [OF inv, of n] inv
    by (auto simp: read_buf_def retrieveAsString_def sim_def length_contents [OF inv]
        load_peek rbind_assoc split: sum.splits)
qed (use inv in \<open>auto simp: retrieve_sim retrieveAsString_sim readInt_sim [simplified]
      appendInt32_def appendInt16_def appendInt8_def append_void_sim\<close>)

text \<open>
  Property C12. Refinement. Any sequence of buffer operations (appending strings and integers,
  retrieving by count or by end pointer, taking strings, reading integers, \<^verbatim>\<open>read\<close>) run on a
  buffer that satisfies the class invariant returns exactly the outputs, and ends in exactly the
  contents, that the same sequence gives on a plain list of bytes, and it stops with an assertion
  failure exactly where the list runs out of bytes; the invariant holds afterwards. Growth and
  compaction of the vector are never visible.
\<close>

theorem buf_run_refines_queue:
  assumes "buf_inv b"
  shows "map_sum id (\<lambda>(outs, b'). (outs, contents b')) (buf_run ops b) = queue_run ops (contents b)
    \<and> (\<forall>outs b'. buf_run ops b = Inr (outs, b') \<longrightarrow> buf_inv b')"
  using assms
proof (induction ops arbitrary: b)
  case (Cons op ops)
  have s: "sim (buf_step op b) (queue_step op (contents b))" using Cons.prems by (rule buf_step_sim)
  show ?case
  proof (cases "buf_step op b")
    case (Inl e)
    with s show ?thesis by (simp add: sim_def)
  next
    case (Inr r)
    obtain out b' where r: "r = (out, b')" by (cases r)
    with s Inr have b': "buf_inv b'" "queue_step op (contents b) = Inr (out, contents b')"
      by (simp_all add: sim_def)
    have run: "buf_run (op # ops) b = rbind (buf_run ops b') (\<lambda>(outs, b''). Inr (out # outs, b''))"
      by (simp add: Inr r)
    note IH = Cons.IH [OF b'(1)]
    note q = IH [THEN conjunct1, symmetric]
    show ?thesis using IH unfolding run queue_run.simps b'(2)
      by (cases "buf_run ops b'") (auto simp: q)
  qed
qed auto

theorem buf_run_refines_queue_witness:
  "\<exists>outs b'. buf_run [Append ''xyz'', TakeString 4, ReadInt16]
       \<lparr>buf_vec = ''abcdef'', readerIndex = 2, writerIndex = 5\<rparr> = Inr (outs, b')
     \<and> outs = [[], ''cdex'', ''yz''] \<and> contents b' = [] \<and> buf_inv b'"
proof -
  let ?b = "\<lparr>buf_vec = ''abcdef'', readerIndex = 2, writerIndex = 5\<rparr>"
  let ?ops = "[Append ''xyz'', TakeString 4, ReadInt16]"
  have inv: "buf_inv ?b" by (simp add: buf_inv_def)
  have c: "contents ?b = ''cde''" by (simp add: contents_def)
  have q: "queue_run ?ops (contents ?b) = Inr ([[], ''cdex'', ''yz''], [])"
    unfolding c by (simp add: queue_take_def)
  show ?thesis
    using buf_run_refines_queue [OF inv, of ?ops] unfolding q
    by (cases "buf_run ?ops ?b") (auto simp: split_beta prod_eq_iff)
qed

text \<open>
  Memory use of \<^verbatim>\<open>append\<close>: appending \<open>n\<close> bytes leaves the size of the
  underlying vector unchanged whenever the unread bytes and the new ones together fit into it
  (compacting if needed), and otherwise makes it exactly large enough for the new bytes at the
  current write position.
\<close>

theorem append_capacity:
  assumes "buf_inv b"
  shows "\<exists>b'. append_str d b = Inr b' \<and> length (buf_vec b') =
     (if readableBytes b + length d \<le> length (buf_vec b) then length (buf_vec b)
      else writerIndex b + length d)"
proof -
  have rw: "readerIndex b \<le> writerIndex b" "writerIndex b \<le> length (buf_vec b)"
    using assms by (simp_all add: buf_inv_def)
  obtain b1 where b1: "ensureWritableBytes (length d) b = Inr b1" "buf_inv b1"
    "length d \<le> writableBytes b1" using ensureWritableBytes_spec [OF assms] .
  have st: "writerIndex b1 + length d \<le> length (buf_vec b1)"
    using b1(2,3) by (auto simp: buf_inv_def buffer_defs)
  have "length (buf_vec b1) = (if readableBytes b + length d \<le> length (buf_vec b)
      then length (buf_vec b) else writerIndex b + length d)"
    using b1(1) rw unfolding ensureWritableBytes_def makeSpace_def
    by (auto simp: std_copy_def vec_resize_def Let_def buffer_defs split: if_splits)
  then show ?thesis using b1(1) st
    by (simp add: append_str_def append_data_def load_array_def store_def hasWritten_def
        buffer_defs)
qed

theorem append_capacity_witness:
  "\<exists>b'. append_str ''xyz'' \<lparr>buf_vec = ''abcdef'', readerIndex = 3, writerIndex = 5\<rparr> = Inr b'
     \<and> length (buf_vec b') = 6"
  using append_capacity [of "\<lparr>buf_vec = ''abcdef'', readerIndex = 3, writerIndex = 5\<rparr>" "''xyz''"]
  by (simp add: buf_inv_def buffer_defs numeral_eq_Suc)

text \<open>
  Prepending and reading back: an integer prepended into the gap before the unread
  bytes is the next integer read, and the bytes that were unread before are unread again
  afterwards. The gap must be wide enough: with \<^verbatim>\<open>kCheapPrepend = 0\<close> it consists of bytes
  already retrieved, so on a fresh buffer the assertion of \<^verbatim>\<open>prepend\<close> fails.
\<close>

theorem prependInt32_readInt32:
  assumes "buf_inv b" and "4 \<le> prependableBytes b"
  shows "\<exists>b1 b2. prependInt32 x b = Inr b1 \<and> buf_inv b1 \<and> readInt32 b1 = Inr (x, b2)
           \<and> contents b2 = contents b"
proof -
  obtain b1 where b1: "prependInt32 x b = Inr b1" "buf_inv b1" "contents b1 = le32 x @ contents b"
    using prepend_spec [OF assms(1), of 4 "le32 x"] assms(2) by (auto simp: prependInt32_def)
  have n: "4 \<le> readableBytes b1" using b1 length_contents [OF b1(2)] by simp
  obtain b2 where "retrieve 4 b1 = Inr b2" "buf_inv b2" "contents b2 = drop 4 (contents b1)"
    using retrieve_spec [OF b1(2) n] .
  with b1 n show ?thesis
    by (auto simp: readInt32_def peekInt32_def retrieveInt32_def load_peek)
qed

theorem prependInt32_readInt32_witness:
  "\<exists>b1 b2. prependInt32 7 \<lparr>buf_vec = ''abcdef'', readerIndex = 4, writerIndex = 6\<rparr> = Inr b1
     \<and> buf_inv b1 \<and> readInt32 b1 = Inr (7, b2) \<and> contents b2 = ''ef''"
  using prependInt32_readInt32 [of "\<lparr>buf_vec = ''abcdef'', readerIndex = 4, writerIndex = 6\<rparr>" 7]
  by (simp add: buf_inv_def contents_def buffer_defs)

text \<open>
  The constructor succeeds only for the default size: its assertion compares the
  writable bytes with \<^verbatim>\<open>kInitialSize\<close> and not with its argument, so constructing a buffer of any
  other initial size stops on the assertion.
\<close>

theorem Buffer_new_only_default_size:
  "(\<exists>b. Buffer_new n = Inr b) \<longleftrightarrow> n = kInitialSize"
  by (simp add: Buffer_new_def Let_def buffer_defs)

lemma Buffer_swap_exchanges: "Buffer_swap a b = (b, a)"
  by (simp add: Buffer_swap_def)

end
