(* ===== verification/Package.thy ===== *)
theory Package
  imports Prelude
begin

text \<open>
  The wire header and the package of \<^verbatim>\<open>asio/internal/Package.h\<close>, and the functions of other
  libraries that the sources call.

  \<^item> \<open>PacHeader\<close> is the packed struct: two flag bytes, three 16-bit and three 32-bit integers,
    kept as words. \<open>iszip\<close> and \<open>isorder\<close> are the bit fields that share the bytes of
    \<open>extInfo\<close>; on the little-endian targets of the build they are its bits 0 and 1.
  \<^item> \<open>header_bytes\<close> and \<open>header_of_bytes\<close> are the object representation of the struct, which
    the sources copy with \<^verbatim>\<open>memcpy\<close> and \<^verbatim>\<open>append(&newHeader, ...)\<close>.
  \<^item> \<open>Package\<close> has a message type parameter: \<open>msgPtr\<close> is a pointer to a protobuf message or null.
  \<^item> \<open>env\<close> collects what is fixed at build time or comes from outside the repository: the
    \<^verbatim>\<open>MSGBUS\<close> build flag, the compression threshold, boost's byte-order conversions, protobuf's
    message operations and zlib. What is used of their behaviour is stated by the predicates
    \<open>net_order_ok\<close>, \<open>proto_ok\<close> and \<open>zlib_ok\<close>.
\<close>

section \<open>Header\<close>

record PacHeader =
  hflag0 :: char
  hflag1 :: char
  msgType :: int16
  typeNameLen :: int16
  extInfo :: int16
  msgId :: int32
  msgSize :: int32
  pacSize :: int32

definition flag0 :: char where
  "flag0 = CHR 0x60"

definition flag1 :: char where
  "flag1 = CHR 0x7E"

definition REQREP :: int16 where
  "REQREP = 1"

definition PUBSUB :: int16 where
  "PUBSUB = 2"

definition DELIVER :: int16 where
  "DELIVER = 3"

lemmas msg_type_defs = REQREP_def PUBSUB_def DELIVER_def

definition PacHeader_new :: PacHeader where
  "PacHeader_new = \<lparr>hflag0 = flag0, hflag1 = flag1, msgType = 0, typeNameLen = 0, extInfo = 0,
                    msgId = 0, msgSize = 0, pacSize = 0\<rparr>"

definition iszip :: "PacHeader \<Rightarrow> bool" where
  "iszip h = bit (extInfo h) 0"

definition isorder :: "PacHeader \<Rightarrow> bool" where
  "isorder h = bit (extInfo h) 1"

definition set_iszip :: "bool \<Rightarrow> PacHeader \<Rightarrow> PacHeader" where
  "set_iszip v h = h\<lparr>extInfo := (if v then set_bit 0 (extInfo h) else unset_bit 0 (extInfo h))\<rparr>"

definition set_isorder :: "bool \<Rightarrow> PacHeader \<Rightarrow> PacHeader" where
  "set_isorder v h = h\<lparr>extInfo := (if v then set_bit 1 (extInfo h) else unset_bit 1 (extInfo h))\<rparr>"

definition header_bytes :: "PacHeader \<Rightarrow> char list" where
  "header_bytes h =
     [hflag0 h, hflag1 h] @ le16 (msgType h) @ le16 (typeNameLen h) @ le16 (extInfo h)
       @ le32 (msgId h) @ le32 (msgSize h) @ le32 (pacSize h)"

definition header_of_bytes :: "char list \<Rightarrow> PacHeader" where
  "header_of_bytes bs =
     \<lparr>hflag0 = bs ! 0, hflag1 = bs ! 1,
      msgType = rd16 (take 2 (drop 2 bs)), typeNameLen = rd16 (take 2 (drop 4 bs)),
      extInfo = rd16 (take 2 (drop 6 bs)), msgId = rd32 (take 4 (drop 8 bs)),
      msgSize = rd32 (take 4 (drop 12 bs)), pacSize = rd32 (take 4 (drop 16 bs))\<rparr>"

definition kPackageHeaderSize :: nat where
  "kPackageHeaderSize = 20"

definition kMsTimeout :: int where
  "kMsTimeout = 5000"

section \<open>Package and error codes\<close>

record 'm Package =
  header :: PacHeader
  typeName :: string
  body :: "char list"
  msgPtr :: "'m option"

datatype ErrorCode = eSuccess | eUnkown | eTimeout | eDisconnect | eServiceStopped | eParams

fun error_code :: "ErrorCode \<Rightarrow> int" where
  "error_code eSuccess = 0"
| "error_code eUnkown = 1"
| "error_code eTimeout = 2"
| "error_code eDisconnect = 3"
| "error_code eServiceStopped = 4"
| "error_code eParams = 5"

section \<open>What comes from outside the repository\<close>

record ('d, 'm) env =
  MSGBUS :: bool
  s_enableCompressSize :: int
  host_to_network_short :: "int16 \<Rightarrow> int16"
  network_to_host_short :: "int16 \<Rightarrow> int16"
  host_to_network_long :: "int32 \<Rightarrow> int32"
  network_to_host_long :: "int32 \<Rightarrow> int32"
  FindMessageTypeByName :: "string \<Rightarrow> 'd option"
  GetPrototype :: "'d \<Rightarrow> 'm option"
  New :: "'m \<Rightarrow> 'm"
  GetTypeName :: "'m \<Rightarrow> string"
  ByteSizeLong :: "'m \<Rightarrow> nat"
  SerializePartialToArray :: "'m \<Rightarrow> nat \<Rightarrow> char list option"
  ParseFromArray :: "'m \<Rightarrow> char list \<Rightarrow> 'm option"
  compressBound :: "nat \<Rightarrow> nat"
  compress :: "nat \<Rightarrow> char list \<Rightarrow> int + char list"
  uncompress :: "nat \<Rightarrow> char list \<Rightarrow> int + char list"

definition net_order_ok :: "('d, 'm) env \<Rightarrow> bool" where
  "net_order_ok E \<longleftrightarrow>
     (\<forall>x. network_to_host_short E (host_to_network_short E x) = x) \<and>
     (\<forall>x. network_to_host_long E (host_to_network_long E x) = x)"

definition proto_ok :: "('d, 'm) env \<Rightarrow> 'm \<Rightarrow> bool" where
  "proto_ok E m \<longleftrightarrow>
     (\<exists>bs d p. SerializePartialToArray E m (ByteSizeLong E m) = Some bs \<and>
        length bs = ByteSizeLong E m \<and>
        FindMessageTypeByName E (GetTypeName E m) = Some d \<and> GetPrototype E d = Some p \<and>
        ParseFromArray E (New E p) bs = Some m)"

definition zlib_ok :: "('d, 'm) env \<Rightarrow> bool" where
  "zlib_ok E \<longleftrightarrow>
     (\<forall>src dst. compress E (compressBound E (length src)) src = Inr dst \<longrightarrow>
        (\<forall>cap \<ge> length src. uncompress E cap dst = Inr src))"

section \<open>The object representation of the header\<close>

lemma length_header_bytes [simp]: "length (header_bytes h) = kPackageHeaderSize"
  by (simp add: header_bytes_def kPackageHeaderSize_def)

lemma header_of_header_bytes [simp]: "header_of_bytes (header_bytes h) = h"
  by (simp add: header_of_bytes_def header_bytes_def)

lemma header_bytes_of_header:
  assumes "length bs = kPackageHeaderSize"
  shows "header_bytes (header_of_bytes bs) = bs"
proof -
  have len: "length bs = 20" using assms by (simp add: kPackageHeaderSize_def)
  have split: "bs = take 2 bs @ take 2 (drop 2 bs) @ take 2 (drop 4 bs) @ take 2 (drop 6 bs)
      @ take 4 (drop 8 bs) @ take 4 (drop 12 bs) @ take 4 (drop 16 bs)"
    using len by (auto simp: numeral_eq_Suc length_Suc_conv)
  have "[bs ! 0, bs ! 1] = take 2 bs"
    using len by (auto simp: numeral_eq_Suc length_Suc_conv)
  then have "header_bytes (header_of_bytes bs)
      = take 2 bs @ take 2 (drop 2 bs) @ take 2 (drop 4 bs) @ take 2 (drop 6 bs)
        @ take 4 (drop 8 bs) @ take 4 (drop 12 bs) @ take 4 (drop 16 bs)"
    using len by (simp add: header_bytes_def header_of_bytes_def wire_simps)
  then show ?thesis using split by (rule trans [OF _ sym])
qed

lemma take2_header_bytes: "take 2 (header_bytes h) = [hflag0 h, hflag1 h]"
  by (simp add: header_bytes_def)

lemma iszip_set_iszip [simp]: "iszip (set_iszip v h) = v" "isorder (set_iszip v h) = isorder h"
  by (simp_all add: iszip_def isorder_def set_iszip_def bit_set_bit_iff bit_unset_bit_iff)

lemma isorder_set_isorder [simp]:
  "isorder (set_isorder v h) = v" "iszip (set_isorder v h) = iszip h"
  by (simp_all add: iszip_def isorder_def set_isorder_def bit_set_bit_iff bit_unset_bit_iff)

lemma set_iszip_fields [simp]:
  "hflag0 (set_iszip v h) = hflag0 h" "hflag1 (set_iszip v h) = hflag1 h"
  "msgType (set_iszip v h) = msgType h" "typeNameLen (set_iszip v h) = typeNameLen h"
  "msgId (set_iszip v h) = msgId h" "msgSize (set_iszip v h) = msgSize h"
  "pacSize (set_iszip v h) = pacSize h"
  by (simp_all add: set_iszip_def)

end
