(* ===== verification/Strutil.thy ===== *)
theory Strutil
  imports Prelude
begin

text \<open>
  String helpers of \<^verbatim>\<open>asio/tool/strutil.cpp\<close>. A \<^verbatim>\<open>std::string\<close> is a list of characters;
  \<open>npos\<close> results are \<open>None\<close>.
\<close>

definition HasPrefixString :: "string \<Rightarrow> string \<Rightarrow> bool" where
  "HasPrefixString s pre \<longleftrightarrow> length pre \<le> length s \<and> take (length pre) s = pre"

lemma HasPrefixString_iff: "HasPrefixString s pre \<longleftrightarrow> prefix pre s"
  by (auto simp: HasPrefixString_def prefix_def) (metis append_take_drop_id)

end
