(* ===== verification/Sample_Env.thy ===== *)
theory Sample_Env
  imports Package
begin

text \<open>
  A concrete environment in which the hypotheses on the external libraries hold: byte-swapping
  conversions (a little-endian host), messages that are pairs of a type name and a payload, and
  a compressor that marks its output with one byte. The witnesses evaluate the model in it.
\<close>

definition swap16 :: "int16 \<Rightarrow> int16" where
  "swap16 w = rd16 (rev (le16 w))"

definition swap32 :: "int32 \<Rightarrow> int32" where
  "swap32 w = rd32 (rev (le32 w))"

definition sample_env :: "bool \<Rightarrow> int \<Rightarrow> (string, string \<times> string) env" where
  "sample_env bus cs =
     \<lparr>MSGBUS = bus, s_enableCompressSize = cs,
      host_to_network_short = swap16, network_to_host_short = swap16,
      host_to_network_long = swap32, network_to_host_long = swap32,
      FindMessageTypeByName = (\<lambda>n. if n = [] \<or> n = ''unknown'' then None else Some n),
      GetPrototype = (\<lambda>d. Some (d, [])),
      New = (\<lambda>m. m), GetTypeName = fst, ByteSizeLong = (\<lambda>m. length (snd m)),
      SerializePartialToArray = (\<lambda>m n. if n = length (snd m) then Some (snd m) else None),
      ParseFromArray = (\<lambda>m d. if d = ''bad'' then None else Some (fst m, d)),
      compressBound = (\<lambda>n. n + 12),
      compress = (\<lambda>cap src. Inr (CHR ''z'' # src)),
      uncompress = (\<lambda>cap d. case d of [] \<Rightarrow> Inl (-3)
                      | c # src \<Rightarrow> if length src \<le> cap then Inr src else Inl (-5))\<rparr>"

lemma swap16_swap16 [simp]: "swap16 (swap16 w) = w"
  by (simp add: swap16_def le16_rd16)

lemma swap32_swap32 [simp]: "swap32 (swap32 w) = w"
  by (simp add: swap32_def le32_rd32)

lemma sample_env_net: "net_order_ok (sample_env bus cs)"
  by (simp add: net_order_ok_def sample_env_def)

lemma sample_env_zlib: "zlib_ok (sample_env bus cs)"
  by (simp add: zlib_ok_def sample_env_def)

lemma sample_env_proto:
  "fst m \<noteq> [] \<Longrightarrow> fst m \<noteq> ''unknown'' \<Longrightarrow> snd m \<noteq> ''bad'' \<Longrightarrow> proto_ok (sample_env bus cs) m"
  by (simp add: proto_ok_def sample_env_def)

lemma sample_env_fields [simp]:
  "MSGBUS (sample_env bus cs) = bus" "s_enableCompressSize (sample_env bus cs) = cs"
  "GetTypeName (sample_env bus cs) m = fst m"
  "ByteSizeLong (sample_env bus cs) m = length (snd m)"
  "SerializePartialToArray (sample_env bus cs) m n =
     (if n = length (snd m) then Some (snd m) else None)"
  "compress (sample_env bus cs) k d = Inr (CHR ''z'' # d)"
  by (simp_all add: sample_env_def)

lemmas sample_env_ok = sample_env_net sample_env_zlib sample_env_proto

end
