(* ===== verification/ProtoHelp.thy ===== *)
theory ProtoHelp
  imports Buffer Package Strutil Sample_Env
begin

text \<open>
  The wire codec of \<^verbatim>\<open>asio/internal/ProtoHelp.cpp\<close>: framing of packages into a byte buffer
  (\<open>encode\<close>) and recovery of packages from a received byte stream (\<open>decode\<close>), with
  resynchronisation on the two flag bytes, optional compression, and the raw forwarding path of
  the \<^verbatim>\<open>MSGBUS\<close> build. \<open>decode\<close> calls itself after a bad header; \<open>decode_once\<close> is one pass
  through its body, ending in a recursive call (\<open>Again\<close>) or a return (\<open>Done\<close>).
\<close>

section \<open>Constants and byte order\<close>

definition kFlagLen :: nat where
  "kFlagLen = 2"

definition kMaxPackageLen :: int where
  "kMaxPackageLen = 1024 * 1024 * 100"

definition initEnableCompressSize :: "int \<Rightarrow> ('d, 'm) env \<Rightarrow> ('d, 'm) env" where
  "initEnableCompressSize sz E = E\<lparr>s_enableCompressSize := sz\<rparr>"

definition enableCompressSize :: "('d, 'm) env \<Rightarrow> int" where
  "enableCompressSize E = s_enableCompressSize E"

definition net2int_buf :: "('d, 'm) env \<Rightarrow> char list \<Rightarrow> int32 result" where
  "net2int_buf E buf = rbind (load_array buf 4) (\<lambda>d. Inr (network_to_host_long E (rd32 d)))"

definition net2int :: "('d, 'm) env \<Rightarrow> int32 \<Rightarrow> int32" where
  "net2int E i = network_to_host_long E i"

definition int2net :: "('d, 'm) env \<Rightarrow> int32 \<Rightarrow> int32" where
  "int2net E i = host_to_network_long E i"

definition net2short :: "('d, 'm) env \<Rightarrow> int16 \<Rightarrow> int16" where
  "net2short E i = network_to_host_short E i"

definition short2net :: "('d, 'm) env \<Rightarrow> int16 \<Rightarrow> int16" where
  "short2net E i = host_to_network_short E i"

section \<open>Header transfer\<close>

definition net_header :: "('d, 'm) env \<Rightarrow> PacHeader \<Rightarrow> PacHeader" where
  "net_header E h =
     h\<lparr>msgType := short2net E (msgType h), typeNameLen := short2net E (typeNameLen h),
       extInfo := short2net E (extInfo h), msgId := int2net E (msgId h),
       msgSize := int2net E (msgSize h), pacSize := int2net E (pacSize h)\<rparr>"

definition bufferAppendHeader :: "('d, 'm) env \<Rightarrow> PacHeader \<Rightarrow> buffer \<Rightarrow> buffer result" where
  "bufferAppendHeader E h b = append_void (header_bytes (net_header E h)) kPackageHeaderSize b"

definition host_header :: "('d, 'm) env \<Rightarrow> PacHeader \<Rightarrow> PacHeader" where
  "host_header E h =
     h\<lparr>msgType := net2short E (msgType h), typeNameLen := net2short E (typeNameLen h),
       extInfo := net2short E (extInfo h), msgId := net2int E (msgId h),
       msgSize := net2int E (msgSize h), pacSize := net2int E (pacSize h)\<rparr>"

definition bufferPeekHeader :: "('d, 'm) env \<Rightarrow> buffer \<Rightarrow> PacHeader result" where
  "bufferPeekHeader E b =
     rbind (load (peek b) kPackageHeaderSize b) (\<lambda>d. Inr (host_header E (header_of_bytes d)))"

function gotoFlag :: "buffer \<Rightarrow> (bool \<times> buffer) result" where
  "gotoFlag b =
     (if kPackageHeaderSize < readableBytes b
      then rbind (load (peek b) kFlagLen b) (\<lambda>p.
             if p ! 0 = flag0 \<and> p ! 1 = flag1 then Inr (True, b)
             else rbind (retrieve 1 b) gotoFlag)
      else Inr (False, b))"
  by pat_completeness auto
termination
  by (relation "measure size") (auto dest: retrieve_readable)

declare gotoFlag.simps [simp del]

section \<open>Messages by name\<close>

definition createMessage :: "('d, 'm) env \<Rightarrow> string \<Rightarrow> 'm option" where
  "createMessage E tn =
     (case FindMessageTypeByName E tn of
        None \<Rightarrow> None
      | Some desc \<Rightarrow> (case GetPrototype E desc of
            None \<Rightarrow> None
          | Some prototype \<Rightarrow> Some (New E prototype)))"

section \<open>encode\<close>

definition encode_content :: "('d, 'm) env \<Rightarrow> char list \<Rightarrow> PacHeader \<Rightarrow> PacHeader \<times> char list" where
  "encode_content E content h =
     (if 0 \<le> enableCompressSize E \<and> enableCompressSize E < wrap32 (int (length content))
      then (case compress E (compressBound E (length content)) content of
              Inr compressed \<Rightarrow> (set_iszip True h, compressed)
            | Inl errcode \<Rightarrow> (h, content))
      else (h, content))"

definition encode :: "('d, 'm) env \<Rightarrow> 'm Package \<Rightarrow> buffer \<Rightarrow> (bool \<times> 'm Package \<times> buffer) result" where
  "encode E package b =
     (if typeName package = [] then Inr (False, package, b)
      else if MSGBUS E \<and> \<not> HasPrefixString (typeName package) ''ProtoBase'' then
        rbind (bufferAppendHeader E (header package) b) (\<lambda>b1.
        rbind (append_data (typeName package) (size_of_int (sint (typeNameLen (header package)))) b1) (\<lambda>b2.
        if body package = [] then Inl OutOfBounds
        else rbind (append_data (body package) (length (body package)) b2) (\<lambda>b3.
        Inr (True, package, b3))))
      else (case msgPtr package of
        None \<Rightarrow> Inl NullDeref
      | Some m \<Rightarrow>
         (case SerializePartialToArray E m (ByteSizeLong E m) of
            None \<Rightarrow> Inr (False, package, b)
          | Some content0 \<Rightarrow>
             (let (h1, content) = encode_content E content0 (header package);
                  tn = GetTypeName E m;
                  h2 = h1\<lparr>typeNameLen := word_of_nat (length tn),
                          msgSize := word_of_nat (ByteSizeLong E m),
                          pacSize := word_of_nat (kPackageHeaderSize + length tn + length content)\<rparr>;
                  package' = package\<lparr>header := h2, typeName := tn\<rparr>
              in rbind (bufferAppendHeader E h2 b) (\<lambda>b1.
                 rbind (append_data tn (size_of_int (sint (typeNameLen h2))) b1) (\<lambda>b2.
                 rbind (append_str content b2) (\<lambda>b3.
                 Inr (True, package', b3))))))))"

section \<open>decode\<close>

datatype 'm decode_step = Again buffer | Done "'m Package option" buffer

definition decode_raw :: "PacHeader \<Rightarrow> string \<Rightarrow> buffer \<Rightarrow> 'm decode_step result" where
  "decode_raw h tn b =
     (let remainSize = sint (pacSize h - word_of_nat kPackageHeaderSize - scast (typeNameLen h))
      in if remainSize < 0 then Inl LengthError
         else if remainSize = 0 then Inl OutOfBounds
         else rbind (read_buf True (nat remainSize) b) (\<lambda>(d, b').
           Inr (Done (Some \<lparr>header = h, typeName = tn,
                            body = (case d of None \<Rightarrow> replicate (nat remainSize) (CHR 0x00) | Some d \<Rightarrow> d),
                            msgPtr = None\<rparr>) b')))"

definition decode_parse ::
    "('d, 'm) env \<Rightarrow> PacHeader \<Rightarrow> 'm \<Rightarrow> int \<Rightarrow> buffer \<Rightarrow> (PacHeader \<times> 'm option) result" where
  "decode_parse E h msg remainSize b =
     (if iszip h then
        (if sint (msgSize h) < 0 then Inl LengthError
         else rbind (load (peek b) (size_of_int remainSize) b) (\<lambda>src.
           case uncompress E (nat (sint (msgSize h))) src of
             Inr d \<Rightarrow>
               Inr ((set_iszip False h)\<lparr>pacSize := word_of_nat kPackageHeaderSize
                        + scast (typeNameLen h) + msgSize h\<rparr>,
                    ParseFromArray E msg d)
           | Inl errcode \<Rightarrow> Inr (h, None)))
      else rbind (load (peek b) (size_of_int (sint (msgSize h))) b) (\<lambda>d.
             Inr (h, ParseFromArray E msg d)))"

definition decode_body :: "('d, 'm) env \<Rightarrow> PacHeader \<Rightarrow> string \<Rightarrow> buffer \<Rightarrow> 'm decode_step result" where
  "decode_body E h tn b =
     (if MSGBUS E \<and> \<not> HasPrefixString tn ''ProtoBase'' then decode_raw h tn b
      else (case createMessage E tn of
        None \<Rightarrow> Inr (Again b)
      | Some msg \<Rightarrow>
         (let remainSize = sint (pacSize h - word_of_nat kPackageHeaderSize - scast (typeNameLen h))
          in rbind (decode_parse E h msg remainSize b) (\<lambda>(h', parseResult).
             case parseResult of
               Some m \<Rightarrow> rbind (retrieve (size_of_int remainSize) b) (\<lambda>b'.
                 Inr (Done (Some \<lparr>header = h', typeName = tn, body = [], msgPtr = Some m\<rparr>) b'))
             | None \<Rightarrow> Inr (Done None b)))))"

definition decode_once :: "('d, 'm) env \<Rightarrow> buffer \<Rightarrow> 'm decode_step result" where
  "decode_once E b =
     rbind (gotoFlag b) (\<lambda>(found, b1).
     if \<not> found then Inr (Done None b1)
     else rbind (bufferPeekHeader E b1) (\<lambda>h.
       if readableBytes b1 < size_of_int (sint (pacSize h)) then Inr (Done None b1)
       else rbind (retrieve kPackageHeaderSize b1) (\<lambda>b2.
         if sint (pacSize h) < 0 \<or> kMaxPackageLen < sint (pacSize h) then Inr (Again b2)
         else if sint (typeNameLen h) \<le> 0 \<or> 1024 < sint (typeNameLen h) then Inr (Again b2)
         else rbind (retrieveAsString (size_of_int (sint (typeNameLen h))) b2) (\<lambda>(tn, b3).
           decode_body E h tn b3))))"

lemma gotoFlag_readable: "gotoFlag b = Inr (f, b') \<Longrightarrow> readableBytes b' \<le> readableBytes b"
proof (induction b rule: gotoFlag.induct)
  case (1 b)
  show ?case
  proof (cases "kPackageHeaderSize < readableBytes b")
    case True
    from "1.prems" True obtain p where p: "load (peek b) kFlagLen b = Inr p"
      by (subst (asm) gotoFlag.simps) (auto simp: rbind_eq_Inr)
    show ?thesis
    proof (cases "p ! 0 = flag0 \<and> p ! 1 = flag1")
      case True
      with "1.prems" p \<open>kPackageHeaderSize < readableBytes b\<close> show ?thesis
        by (subst (asm) gotoFlag.simps) simp
    next
      case False
      with "1.prems" p \<open>kPackageHeaderSize < readableBytes b\<close>
      obtain b1 where b1: "retrieve 1 b = Inr b1" "gotoFlag b1 = Inr (f, b')"
        by (subst (asm) gotoFlag.simps) (auto simp: rbind_eq_Inr)
      have "readableBytes b' \<le> readableBytes b1"
        using "1.IH" [OF True p False b1] .
      with b1(1) show ?thesis by (auto dest: retrieve_readable)
    qed
  next
    case False
    with "1.prems" show ?thesis by (subst (asm) gotoFlag.simps) simp
  qed
qed

lemma gotoFlag_True: "gotoFlag b = Inr (True, b') \<Longrightarrow> kPackageHeaderSize < readableBytes b'"
  by (induction b rule: gotoFlag.induct)
    (subst (asm) (2) gotoFlag.simps, auto simp: rbind_eq_Inr split: if_splits)

lemma retrieveAsString_readable:
  "retrieveAsString n b = Inr (s, b') \<Longrightarrow> readableBytes b' = readableBytes b - n"
  by (auto simp: retrieveAsString_def rbind_eq_Inr dest: retrieve_readable split: if_splits)

text \<open>Each recursive call of \<open>decode\<close> has at least a header less to read.\<close>

lemma decode_once_Again:
  assumes "decode_once E b = Inr (Again b')"
  shows "readableBytes b' + kPackageHeaderSize \<le> readableBytes b"
proof -
  from assms obtain b1 h b2 where b1: "gotoFlag b = Inr (True, b1)"
    and b2: "retrieve kPackageHeaderSize b1 = Inr b2"
    and b': "b' = b2 \<or> (\<exists>n tn. retrieveAsString n b2 = Inr (tn, b'))"
    unfolding decode_once_def
    by (auto simp: rbind_eq_Inr decode_body_def decode_raw_def Let_def
        split: if_splits option.splits)
  have "readableBytes b' \<le> readableBytes b2"
    using b' by (auto dest: retrieveAsString_readable)
  then show ?thesis
    using gotoFlag_readable [OF b1] gotoFlag_True [OF b1] retrieve_readable [OF b2] by linarith
qed

function decode :: "('d, 'm) env \<Rightarrow> buffer \<Rightarrow> ('m Package option \<times> buffer) result" where
  "decode E b =
     rbind (decode_once E b) (\<lambda>s. case s of Again b' \<Rightarrow> decode E b' | Done r b' \<Rightarrow> Inr (r, b'))"
  by pat_completeness auto
termination
  by (relation "measure (size \<circ> snd)")
    (auto dest: decode_once_Again simp: kPackageHeaderSize_def)

declare decode.simps [simp del]

section \<open>The codec on the contents of the buffer\<close>

named_theorems codec_simps

subsection \<open>Byte order and headers\<close>

lemma host_net_header [simp]: "net_order_ok E \<Longrightarrow> host_header E (net_header E h) = h"
  by (simp add: host_header_def net_header_def net2short_def short2net_def net2int_def
      int2net_def net_order_ok_def)

lemma net_header_flags [simp]:
  "hflag0 (net_header E h) = hflag0 h" "hflag1 (net_header E h) = hflag1 h"
  by (simp_all add: net_header_def)

lemma bufferAppendHeader_spec:
  assumes "buf_inv b"
  obtains b' where "bufferAppendHeader E h b = Inr b'" "buf_inv b'"
    "contents b' = contents b @ header_bytes (net_header E h)"
proof -
  obtain b' where "append_data (header_bytes (net_header E h)) kPackageHeaderSize b = Inr b'"
    "buf_inv b'"
    "contents b' = contents b @ take kPackageHeaderSize (header_bytes (net_header E h))"
    using append_data_spec [OF assms, of kPackageHeaderSize "header_bytes (net_header E h)"]
    by auto
  then show ?thesis by (intro that [of b']) (simp_all add: bufferAppendHeader_def append_void_def)
qed

lemma bufferPeekHeader_spec:
  assumes "buf_inv b" and "net_order_ok E"
    and "contents b = header_bytes (net_header E h) @ xs"
  shows "bufferPeekHeader E b = Inr h"
proof -
  have "load (peek b) kPackageHeaderSize b = Inr (header_bytes (net_header E h))"
    using bs.look_ok [OF assms(1), of kPackageHeaderSize] assms(3) by simp
  then show ?thesis using assms(2) by (simp add: bufferPeekHeader_def)
qed

subsection \<open>Looking for the flag\<close>

fun at_flag :: "char list \<Rightarrow> bool" where
  "at_flag (a # b # xs) \<longleftrightarrow> a = flag0 \<and> b = flag1"
| "at_flag _ \<longleftrightarrow> False"

fun scan_flag :: "char list \<Rightarrow> char list" where
  "scan_flag [] = []"
| "scan_flag (x # xs) =
     (if kPackageHeaderSize \<le> length xs \<and> \<not> at_flag (x # xs) then scan_flag xs else x # xs)"

lemma at_flag_nth: "2 \<le> length xs \<Longrightarrow> xs ! 0 = flag0 \<and> xs ! Suc 0 = flag1 \<longleftrightarrow> at_flag xs"
  by (cases xs rule: at_flag.cases) auto

lemma at_flag_append: "2 \<le> length xs \<Longrightarrow> at_flag (xs @ ys) = at_flag xs"
  by (cases xs rule: at_flag.cases) auto

lemma at_flag_header [simp]:
  "at_flag (header_bytes h @ xs) \<longleftrightarrow> hflag0 h = flag0 \<and> hflag1 h = flag1"
  by (simp add: header_bytes_def)

lemma scan_flag_stop: "at_flag xs \<or> length xs \<le> kPackageHeaderSize \<Longrightarrow> scan_flag xs = xs"
  by (cases xs) auto

lemma scan_flag_suffix: "suffix (scan_flag xs) xs"
  by (induction xs) (auto simp: suffix_ConsI)

lemma scan_flag_at:
  "kPackageHeaderSize < length (scan_flag xs) \<Longrightarrow> at_flag (scan_flag xs)"
  by (induction xs) (auto split: if_splits)

lemma scan_flag_junk:
  assumes "\<forall>k < length junk. \<not> at_flag (drop k (junk @ xs))"
    and "at_flag xs" and "kPackageHeaderSize < length xs"
  shows "scan_flag (junk @ xs) = xs"
  using assms
proof (induction junk)
  case (Cons j junk)
  have "\<forall>k < length junk. \<not> at_flag (drop k (junk @ xs))"
    using Cons.prems(1) by force
  moreover have "\<not> at_flag ((j # junk) @ xs)" using Cons.prems(1) by force
  ultimately show ?case using Cons by simp
qed (simp add: scan_flag_stop)

lemma gotoFlag_spec:
  assumes "buf_inv b"
  shows "\<exists>b'. gotoFlag b = Inr (kPackageHeaderSize < length (scan_flag (contents b)), b')
           \<and> buf_inv b' \<and> contents b' = scan_flag (contents b)"
  using assms
proof (induction b rule: gotoFlag.induct)
  case (1 b)
  let ?c = "contents b"
  show ?case
  proof (cases "kPackageHeaderSize < readableBytes b")
    case True
    then have len: "kPackageHeaderSize < length ?c" "2 \<le> length ?c"
      using "1.prems" by (simp_all add: length_contents kPackageHeaderSize_def)
    have p: "load (peek b) kFlagLen b = Inr (take 2 ?c)"
      using bs.look_ok [OF "1.prems", of 2] len by (simp add: kFlagLen_def)
    show ?thesis
    proof (cases "at_flag ?c")
      case at: True
      then show ?thesis using True "1.prems" len p
        by (subst gotoFlag.simps) (simp add: at_flag_nth scan_flag_stop)
    next
      case nat: False
      obtain b1 where b1: "retrieve 1 b = Inr b1" "buf_inv b1" "contents b1 = drop 1 ?c"
        using bs.skipE [OF "1.prems", of 1] len by force
      have "scan_flag ?c = scan_flag (contents b1)"
        using nat len b1(3) by (cases ?c) auto
      moreover have "gotoFlag b = gotoFlag b1"
        using True p nat len b1(1) by (subst gotoFlag.simps) (simp add: at_flag_nth)
      moreover have "\<not> (take 2 ?c ! 0 = flag0 \<and> take 2 ?c ! 1 = flag1)"
        using nat len by (simp add: at_flag_nth)
      ultimately show ?thesis using "1.IH" [OF True p _ b1(1,2)] by simp
    qed
  next
    case False
    with "1.prems" show ?thesis
      by (subst gotoFlag.simps) (simp add: length_contents [symmetric] scan_flag_stop)
  qed
qed

subsection \<open>Frames\<close>

text \<open>
  A frame is what one package looks like on the wire: the header in network byte order, the
  type name and the content. \<open>frame_ok\<close> says that the header describes the rest.
\<close>

definition wire_frame :: "('d, 'm) env \<Rightarrow> PacHeader \<Rightarrow> string \<Rightarrow> char list \<Rightarrow> char list" where
  "wire_frame E h tn content = header_bytes (net_header E h) @ tn @ content"

definition frame_ok :: "PacHeader \<Rightarrow> string \<Rightarrow> char list \<Rightarrow> bool" where
  "frame_ok h tn content \<longleftrightarrow>
     hflag0 h = flag0 \<and> hflag1 h = flag1 \<and>
     tn \<noteq> [] \<and> length tn \<le> 1024 \<and> sint (typeNameLen h) = int (length tn) \<and>
     sint (pacSize h) = int (kPackageHeaderSize + length tn + length content) \<and>
     sint (pacSize h) \<le> kMaxPackageLen"

lemma length_wire_frame [simp]:
  "length (wire_frame E h tn content) = kPackageHeaderSize + length tn + length content"
  by (simp add: wire_frame_def)

lemma frame_ok_pacSize:
  assumes "frame_ok h tn content"
  shows "size_of_int (sint (pacSize h)) = length (wire_frame E h tn content)"
    and "size_of_int (sint (typeNameLen h)) = length tn"
    and "sint (pacSize h - word_of_nat kPackageHeaderSize - scast (typeNameLen h))
           = int (length content)"
proof -
  let ?n = "kPackageHeaderSize + length tn + length content"
  have p: "sint (pacSize h) = int ?n" "int ?n \<le> kMaxPackageLen"
    and t: "sint (typeNameLen h) = int (length tn)"
    using assms by (simp_all add: frame_ok_def)
  then have small: "int ?n < 2 ^ 31" by (simp add: kMaxPackageLen_def)
  show "size_of_int (sint (pacSize h)) = length (wire_frame E h tn content)"
    using p(1) small by (simp add: size_of_int_nonneg)
  show "size_of_int (sint (typeNameLen h)) = length tn"
    using t small by (simp add: size_of_int_nonneg)
  have "pacSize h = word_of_int (int ?n)"
    using p(1) by (metis of_int_sint scast_id)
  moreover have "(scast (typeNameLen h) :: int32) = word_of_int (int (length tn))"
    using t by (simp add: scast_eq)
  ultimately have "pacSize h - word_of_nat kPackageHeaderSize - scast (typeNameLen h)
      = word_of_int (int (length content))"
    by simp
  then show "sint (pacSize h - word_of_nat kPackageHeaderSize - scast (typeNameLen h))
      = int (length content)"
    using small by (simp add: sint_word_of_int_32 del: of_int_of_nat_eq)
qed

lemma decode_once_frame:
  assumes inv: "buf_inv b" and net: "net_order_ok E" and ok: "frame_ok h tn content"
    and c: "scan_flag (contents b) = wire_frame E h tn content @ rest"
  obtains b3 where "buf_inv b3" "contents b3 = content @ rest"
    "decode_once E b = decode_body E h tn b3"
proof -
  note sizes = frame_ok_pacSize [OF ok]
  have tn: "0 < length tn" "length tn \<le> 1024" "sint (typeNameLen h) = int (length tn)"
    and p: "\<not> kMaxPackageLen < sint (pacSize h)" "0 \<le> sint (pacSize h)"
    using ok by (auto simp: frame_ok_def)
  obtain b1 where b1: "gotoFlag b = Inr (kPackageHeaderSize < length (scan_flag (contents b)), b1)"
    "buf_inv b1" "contents b1 = wire_frame E h tn content @ rest"
    using gotoFlag_spec [OF inv] c by auto
  have found: "kPackageHeaderSize < length (scan_flag (contents b))" using c tn(1) by simp
  have peekh: "bufferPeekHeader E b1 = Inr h"
    using bufferPeekHeader_spec [OF b1(2) net] b1(3) by (simp add: wire_frame_def)
  have avail: "\<not> readableBytes b1 < size_of_int (sint (pacSize h))"
    using b1(3) length_contents [OF b1(2)] sizes(1) [of E] by simp
  obtain b2 where b2: "retrieve kPackageHeaderSize b1 = Inr b2" "buf_inv b2"
    "contents b2 = tn @ content @ rest"
    using bs.skipE [OF b1(2), of kPackageHeaderSize] b1(3) by (force simp: wire_frame_def)
  obtain b3 where b3: "retrieveAsString (length tn) b2 = Inr (tn, b3)" "buf_inv b3"
    "contents b3 = content @ rest"
    using bs.getE [OF b2(2), of "length tn"] b2(3) by force
  show ?thesis
    by (rule that [OF b3(2,3)])
      (use b1(1) found peekh avail b2(1) b3(1) sizes(2) tn p in \<open>simp add: decode_once_def\<close>)
qed

text \<open>The package a well-formed frame stands for, if its content can be parsed.\<close>

definition frame_package ::
    "('d, 'm) env \<Rightarrow> PacHeader \<Rightarrow> string \<Rightarrow> char list \<Rightarrow> 'm Package option" where
  "frame_package E h tn content =
     (if MSGBUS E \<and> \<not> HasPrefixString tn ''ProtoBase'' then
        (if content = [] then None
         else Some \<lparr>header = h, typeName = tn, body = content, msgPtr = None\<rparr>)
      else (case createMessage E tn of
        None \<Rightarrow> None
      | Some msg \<Rightarrow>
         (if iszip h then
            (if sint (msgSize h) < 0 then None
             else (case uncompress E (nat (sint (msgSize h))) content of
               Inl errcode \<Rightarrow> None
             | Inr d \<Rightarrow> map_option
                 (\<lambda>m. \<lparr>header = (set_iszip False h)\<lparr>pacSize := word_of_nat kPackageHeaderSize
                              + scast (typeNameLen h) + msgSize h\<rparr>,
                       typeName = tn, body = [], msgPtr = Some m\<rparr>) (ParseFromArray E msg d)))
          else if sint (msgSize h) = int (length content) then
            map_option (\<lambda>m. \<lparr>header = h, typeName = tn, body = [], msgPtr = Some m\<rparr>)
              (ParseFromArray E msg content)
          else None)))"

lemma load_content:
  assumes "buf_inv b" and "contents b = content @ rest"
  shows "load (peek b) (length content) b = Inr content"
  using bs.look_ok [OF assms(1), of "length content"] assms(2) by simp

lemma decode_raw_frame:
  assumes "buf_inv b" and "contents b = content @ rest" and "frame_ok h tn content"
    and "content \<noteq> []"
  obtains b' where "buf_inv b'" "contents b' = rest"
    "decode_raw h tn b
       = Inr (Done (Some \<lparr>header = h, typeName = tn, body = content, msgPtr = None\<rparr>) b')"
proof -
  obtain b' where b': "retrieve (length content) b = Inr b'" "buf_inv b'" "contents b' = rest"
    using bs.skipE [OF assms(1), of "length content"] assms(2) by force
  have "length content \<le> readableBytes b"
    using assms(2) length_contents [OF assms(1)] by simp
  then show ?thesis
    using that [OF b'(2,3)] b'(1) load_content [OF assms(1,2)] frame_ok_pacSize(3) [OF assms(3)]
      assms(4)
    by (simp add: decode_raw_def read_buf_def)
qed

lemma decode_body_frame:
  assumes b: "buf_inv b" "contents b = content @ rest" and ok: "frame_ok h tn content"
    and p: "frame_package E h tn content = Some p"
  obtains b' where "decode_body E h tn b = Inr (Done (Some p) b')" "buf_inv b'" "contents b' = rest"
proof (cases "MSGBUS E \<and> \<not> HasPrefixString tn ''ProtoBase''")
  case True
  with p have "content \<noteq> []"
    "p = \<lparr>header = h, typeName = tn, body = content, msgPtr = None\<rparr>"
    by (auto simp: frame_package_def split: if_splits)
  with True decode_raw_frame [OF b ok] show ?thesis using that by (metis decode_body_def)
next
  case False
  have rem: "size_of_int (int (length content)) = length content"
    using ok by (simp add: frame_ok_def size_of_int_nonneg kMaxPackageLen_def)
  obtain b' where b': "retrieve (length content) b = Inr b'" "buf_inv b'" "contents b' = rest"
    using bs.skipE [OF b(1), of "length content"] b(2) by force
  have "decode_body E h tn b = Inr (Done (Some p) b')"
    using False p b'(1) load_content [OF b] rem frame_ok_pacSize(3) [OF ok]
    by (auto simp: frame_package_def decode_body_def decode_parse_def
        split: option.splits if_splits sum.splits)
  then show ?thesis using that b' by blast
qed

lemma decode_frame:
  assumes inv: "buf_inv b" and net: "net_order_ok E" and ok: "frame_ok h tn content"
    and c: "scan_flag (contents b) = wire_frame E h tn content @ rest"
    and p: "frame_package E h tn content = Some p"
  obtains b' where "decode E b = Inr (Some p, b')" "buf_inv b'" "contents b' = rest"
proof -
  obtain b3 where b3: "buf_inv b3" "contents b3 = content @ rest"
    "decode_once E b = decode_body E h tn b3"
    using decode_once_frame [OF inv net ok c] .
  obtain b' where "decode_body E h tn b3 = Inr (Done (Some p) b')" "buf_inv b'" "contents b' = rest"
    using decode_body_frame [OF b3(1,2) ok p] .
  with b3(3) show ?thesis by (intro that [of b']) (simp_all add: decode.simps [of E b])
qed

lemma prefix_frame_cases:
  assumes "xs = take k (wire_frame E h tn content)"
  shows "length xs \<le> kPackageHeaderSize \<or>
    (\<exists>ys. xs = header_bytes (net_header E h) @ ys)"
proof (cases "k \<le> kPackageHeaderSize")
  case False
  then have "xs = header_bytes (net_header E h) @ take (k - kPackageHeaderSize) (tn @ content)"
    using assms by (simp add: wire_frame_def)
  then show ?thesis by blast
qed (use assms in simp)

lemma decode_partial_frame:
  assumes inv: "buf_inv b" and net: "net_order_ok E" and ok: "frame_ok h tn content"
    and c: "contents b = take k (wire_frame E h tn content)"
    and k: "k < length (wire_frame E h tn content)"
  obtains b' where "decode E b = Inr (None, b')" "buf_inv b'" "contents b' = contents b"
proof -
  have stop: "scan_flag (contents b) = contents b"
  proof (rule scan_flag_stop)
    show "at_flag (contents b) \<or> length (contents b) \<le> kPackageHeaderSize"
      using prefix_frame_cases [OF c] ok by (auto simp: frame_ok_def)
  qed
  then obtain b' where b': "gotoFlag b = Inr (kPackageHeaderSize < length (contents b), b')"
    "buf_inv b'" "contents b' = contents b"
    using gotoFlag_spec [OF inv] by auto
  have "decode_once E b = Inr (Done None b')"
  proof (cases "kPackageHeaderSize < length (contents b)")
    case True
    then obtain ys where "contents b' = header_bytes (net_header E h) @ ys"
      using prefix_frame_cases [OF c] b'(3) by auto
    then have "bufferPeekHeader E b' = Inr h"
      using bufferPeekHeader_spec [OF b'(2) net] by blast
    moreover have "readableBytes b' < size_of_int (sint (pacSize h))"
      using length_contents [OF b'(2)] b'(3) c k frame_ok_pacSize(1) [OF ok, of E] by simp
    ultimately show ?thesis using b'(1) True by (simp add: decode_once_def)
  next
    case False
    with b'(1) show ?thesis by (simp add: decode_once_def)
  qed
  then show ?thesis using that b' by (simp add: decode.simps [of E b])
qed

subsection \<open>What encode writes\<close>

definition sent_header :: "('d, 'm) env \<Rightarrow> 'm \<Rightarrow> PacHeader \<Rightarrow> nat \<Rightarrow> PacHeader" where
  "sent_header E m h n =
     h\<lparr>typeNameLen := word_of_nat (length (GetTypeName E m)),
       msgSize := word_of_nat (ByteSizeLong E m),
       pacSize := word_of_nat (kPackageHeaderSize + length (GetTypeName E m) + n)\<rparr>"

lemma append_header_name_content:
  assumes "buf_inv b" and "size_of_int (sint (typeNameLen h)) = length tn"
  obtains b1 b2 b3 where "bufferAppendHeader E h b = Inr b1"
    "append_data tn (size_of_int (sint (typeNameLen h))) b1 = Inr b2"
    "append_str content b2 = Inr b3" "buf_inv b3"
    "contents b3 = contents b @ wire_frame E h tn content"
proof -
  obtain b1 where b1: "bufferAppendHeader E h b = Inr b1" "buf_inv b1"
    "contents b1 = contents b @ header_bytes (net_header E h)"
    using bufferAppendHeader_spec [OF assms(1)] .
  obtain b2 where b2: "append_str tn b1 = Inr b2" "buf_inv b2" "contents b2 = contents b1 @ tn"
    using append_str_spec [OF b1(2)] .
  obtain b3 where "append_str content b2 = Inr b3" "buf_inv b3" "contents b3 = contents b2 @ content"
    using append_str_spec [OF b2(2)] .
  with b1 b2 show ?thesis
    by (intro that [of b1 b2 b3]) (simp_all add: assms(2) append_str_def wire_frame_def)
qed

lemma encode_message_spec:
  assumes inv: "buf_inv b" and m: "msgPtr p = Some m" and tn: "typeName p \<noteq> []"
    and bus: "MSGBUS E \<longrightarrow> HasPrefixString (typeName p) ''ProtoBase''"
    and ser: "SerializePartialToArray E m (ByteSizeLong E m) = Some c0"
    and enc: "encode_content E c0 (header p) = (h1, content)"
    and len: "length (GetTypeName E m) < 2 ^ 15"
  obtains b' where "buf_inv b'"
    "encode E p b = Inr (True, p\<lparr>header := sent_header E m h1 (length content),
                                typeName := GetTypeName E m\<rparr>, b')"
    "contents b' = contents b
       @ wire_frame E (sent_header E m h1 (length content)) (GetTypeName E m) content"
proof -
  let ?h = "sent_header E m h1 (length content)"
  have len': "length (GetTypeName E m) < 32768" using len by simp
  have "size_of_int (sint (typeNameLen ?h)) = length (GetTypeName E m)"
    using len' sint_word_of_nat(2) [OF len] by (simp add: sent_header_def size_of_int_nonneg)
  from append_header_name_content [OF inv this, of E content]
  obtain b1 b2 b3 where b: "bufferAppendHeader E ?h b = Inr b1"
    "append_data (GetTypeName E m) (size_of_int (sint (typeNameLen ?h))) b1 = Inr b2"
    "append_str content b2 = Inr b3" "buf_inv b3"
    "contents b3 = contents b @ wire_frame E ?h (GetTypeName E m) content" .
  have "encode E p b = Inr (True, p\<lparr>header := ?h, typeName := GetTypeName E m\<rparr>, b3)"
    using m tn bus ser enc b(1-3) by (auto simp: encode_def Let_def sent_header_def)
  then show ?thesis using b(4,5) that by blast
qed

lemma encode_raw_spec:
  assumes inv: "buf_inv b" and bus: "MSGBUS E" "\<not> HasPrefixString (typeName p) ''ProtoBase''"
    and ok: "frame_ok (header p) (typeName p) (body p)" and "body p \<noteq> []"
  obtains b' where "encode E p b = Inr (True, p, b')" "buf_inv b'"
    "contents b' = contents b @ wire_frame E (header p) (typeName p) (body p)"
proof -
  obtain b1 b2 b3 where b: "bufferAppendHeader E (header p) b = Inr b1"
    "append_data (typeName p) (size_of_int (sint (typeNameLen (header p)))) b1 = Inr b2"
    "append_str (body p) b2 = Inr b3" "buf_inv b3"
    "contents b3 = contents b @ wire_frame E (header p) (typeName p) (body p)"
    using append_header_name_content [OF inv frame_ok_pacSize(2) [OF ok], of E "body p"] .
  have "typeName p \<noteq> []" using ok by (simp add: frame_ok_def)
  then show ?thesis
    using b bus assms(5) by (intro that [of b3]) (simp_all add: encode_def append_str_def)
qed

subsection \<open>The frame of an encoded message stands for the message\<close>

definition sendable :: "('d, 'm) env \<Rightarrow> 'm Package \<Rightarrow> 'm \<Rightarrow> bool" where
  "sendable E p m \<longleftrightarrow>
     msgPtr p = Some m \<and> typeName p = GetTypeName E m \<and>
     GetTypeName E m \<noteq> [] \<and> length (GetTypeName E m) \<le> 1024 \<and>
     (MSGBUS E \<longrightarrow> HasPrefixString (GetTypeName E m) ''ProtoBase'') \<and>
     hflag0 (header p) = flag0 \<and> hflag1 (header p) = flag1 \<and> \<not> iszip (header p) \<and>
     (\<forall>c0. SerializePartialToArray E m (ByteSizeLong E m) = Some c0 \<longrightarrow>
        int (kPackageHeaderSize + length (GetTypeName E m)
             + length (snd (encode_content E c0 (header p)))) \<le> kMaxPackageLen) \<and>
     ByteSizeLong E m < 2 ^ 31"

definition received :: "('d, 'm) env \<Rightarrow> 'm Package \<Rightarrow> 'm \<Rightarrow> 'm Package" where
  "received E p m =
     \<lparr>header = sent_header E m (header p) (ByteSizeLong E m), typeName = GetTypeName E m,
      body = [], msgPtr = Some m\<rparr>"

lemma sent_header_fields [simp]:
  "typeNameLen (sent_header E m h n) = word_of_nat (length (GetTypeName E m))"
  "msgSize (sent_header E m h n) = word_of_nat (ByteSizeLong E m)"
  "msgType (sent_header E m h n) = msgType h" "msgId (sent_header E m h n) = msgId h"
  "hflag0 (sent_header E m h n) = hflag0 h" "hflag1 (sent_header E m h n) = hflag1 h"
  "extInfo (sent_header E m h n) = extInfo h"
  by (simp_all add: sent_header_def)

lemma unset_set_bit_0: "\<not> bit x 0 \<Longrightarrow> unset_bit 0 (set_bit 0 (x :: 'a::len word)) = x"
  by (auto intro!: bit_word_eqI simp: bit_set_bit_iff bit_unset_bit_iff intro: gr0I)

lemma unzip_sent_header:
  assumes "\<not> iszip h" and "length (GetTypeName E m) < 2 ^ 15"
  shows "(set_iszip False (sent_header E m (set_iszip True h) n))\<lparr>pacSize :=
      word_of_nat kPackageHeaderSize + scast (word_of_nat (length (GetTypeName E m)) :: int16)
        + word_of_nat (ByteSizeLong E m)\<rparr>
    = sent_header E m h (ByteSizeLong E m)"
  using assms
  by (cases h) (simp add: set_iszip_def sent_header_def scast_word_of_nat iszip_def
      unset_set_bit_0)

lemma sendable_frame:
  assumes s: "sendable E p m" and z: "zlib_ok E" and pr: "proto_ok E m"
  obtains c0 h1 content where
    "SerializePartialToArray E m (ByteSizeLong E m) = Some c0"
    "encode_content E c0 (header p) = (h1, content)"
    "frame_ok (sent_header E m h1 (length content)) (GetTypeName E m) content"
    "frame_package E (sent_header E m h1 (length content)) (GetTypeName E m) content
       = Some (received E p m)"
proof -
  obtain c0 d pt where c0: "SerializePartialToArray E m (ByteSizeLong E m) = Some c0"
    "length c0 = ByteSizeLong E m" and cm: "createMessage E (GetTypeName E m) = Some (New E pt)"
    and parse: "ParseFromArray E (New E pt) c0 = Some m"
    using pr by (auto simp: proto_ok_def createMessage_def)
  obtain h1 content where enc: "encode_content E c0 (header p) = (h1, content)"
    by (cases "encode_content E c0 (header p)")
  let ?tn = "GetTypeName E m" and ?h = "sent_header E m h1 (length content)"
  have size: "int (kPackageHeaderSize + length ?tn + length content) \<le> kMaxPackageLen"
    and tn: "?tn \<noteq> []" "length ?tn \<le> 1024" and ms: "ByteSizeLong E m < 2 ^ 31"
    and bus: "\<not> (MSGBUS E \<and> \<not> HasPrefixString ?tn ''ProtoBase'')"
    and nz: "\<not> iszip (header p)"
    and fl: "hflag0 (header p) = flag0" "hflag1 (header p) = flag1"
    using s c0 enc by (auto simp: sendable_def)
  have fields: "hflag0 h1 = flag0" "hflag1 h1 = flag1" "typeNameLen ?h = word_of_nat (length ?tn)"
    "msgSize ?h = word_of_nat (ByteSizeLong E m)"
    using enc fl by (auto simp: encode_content_def sent_header_def split: if_splits sum.splits)
  have sint_fields: "sint (typeNameLen ?h) = int (length ?tn)"
    "sint (msgSize ?h) = int (ByteSizeLong E m)"
    "sint (pacSize ?h) = int (kPackageHeaderSize + length ?tn + length content)"
    using tn(2) ms size
    by (simp_all add: sent_header_def sint_word_of_nat kMaxPackageLen_def del: of_nat_add)
  have ok: "frame_ok ?h ?tn content"
    using sint_fields tn fields(1,2) size by (simp add: frame_ok_def sent_header_def)
  have "frame_package E ?h ?tn content = Some (received E p m)"
  proof (cases "iszip h1")
    case True
    then have h1: "h1 = set_iszip True (header p)"
      and "compress E (compressBound E (length c0)) c0 = Inr content"
      using enc nz by (auto simp: encode_content_def split: if_splits sum.splits)
    then have "uncompress E (ByteSizeLong E m) content = Inr c0"
      using z c0(2) by (simp add: zlib_ok_def)
    moreover have "iszip ?h" using True by (simp add: sent_header_def iszip_def)
    moreover have "(set_iszip False ?h)\<lparr>pacSize := word_of_nat kPackageHeaderSize
        + scast (typeNameLen ?h) + msgSize ?h\<rparr> = sent_header E m (header p) (ByteSizeLong E m)"
      using unzip_sent_header [OF nz, of E m] tn(2) by (simp add: h1)
    ultimately show ?thesis
      using bus cm parse sint_fields(2) by (simp add: frame_package_def received_def)
  next
    case False
    then have "h1 = header p" "content = c0"
      using enc nz by (auto simp: encode_content_def split: if_splits sum.splits)
    moreover have "\<not> iszip ?h" using False by (simp add: sent_header_def iszip_def)
    ultimately show ?thesis
      using bus cm parse sint_fields(2) c0(2) by (simp add: frame_package_def received_def)
  qed
  with c0(1) enc ok show ?thesis by (rule that)
qed

section \<open>Properties of the codec\<close>

text \<open>A buffer that holds given bytes, for the witnesses.\<close>

definition buffer_of :: "char list \<Rightarrow> buffer" where
  "buffer_of xs = \<lparr>buf_vec = xs, readerIndex = 0, writerIndex = length xs\<rparr>"

lemma buffer_of [simp]: "buf_inv (buffer_of xs)" "contents (buffer_of xs) = xs"
  by (simp_all add: buffer_of_def buf_inv_def contents_def)

text \<open>
  Property C7. Round trip. Encoding a package whose message can be sent (type name of 1 to 1024
  bytes, total size within the package limit, standard flag bytes) succeeds, and any receiver whose
  buffer starts with the bytes written decodes exactly one package: the same message under the
  same type name, with the sender's message type, message id and order flag, with the size fields
  of the uncompressed message, and with all bytes after the frame left in the buffer. This holds
  with and without compression.
\<close>

theorem decode_encode_message:
  assumes "net_order_ok E" and "zlib_ok E" and "proto_ok E m" and "sendable E p m"
    and "buf_inv b" and "contents b = []"
  shows "\<exists>p' b'. encode E p b = Inr (True, p', b') \<and>
    (\<forall>r rest. buf_inv r \<longrightarrow> contents r = contents b' @ rest \<longrightarrow>
      (\<exists>r'. decode E r = Inr (Some (received E p m), r') \<and> buf_inv r' \<and> contents r' = rest))"
proof -
  obtain c0 h1 content where f:
    "SerializePartialToArray E m (ByteSizeLong E m) = Some c0"
    "encode_content E c0 (header p) = (h1, content)"
    "frame_ok (sent_header E m h1 (length content)) (GetTypeName E m) content"
    "frame_package E (sent_header E m h1 (length content)) (GetTypeName E m) content
       = Some (received E p m)"
    using sendable_frame [OF assms(4,2,3)] .
  have s: "msgPtr p = Some m" "typeName p \<noteq> []" "length (GetTypeName E m) < 2 ^ 15"
    "MSGBUS E \<longrightarrow> HasPrefixString (typeName p) ''ProtoBase''"
    using assms(4) by (auto simp: sendable_def)
  let ?h = "sent_header E m h1 (length content)" and ?tn = "GetTypeName E m"
  obtain b' where b': "encode E p b = Inr (True, p\<lparr>header := ?h, typeName := ?tn\<rparr>, b')"
    "contents b' = wire_frame E ?h ?tn content"
    using encode_message_spec [OF assms(5) s(1,2,4) f(1,2) s(3)] assms(6) by auto
  have "\<exists>r'. decode E r = Inr (Some (received E p m), r') \<and> buf_inv r' \<and> contents r' = rest"
    if r: "buf_inv r" "contents r = contents b' @ rest" for r rest
  proof -
    have "at_flag (contents r)" using r(2) b'(2) f(3) by (simp add: wire_frame_def frame_ok_def)
    then have "scan_flag (contents r) = wire_frame E ?h ?tn content @ rest"
      using r(2) b'(2) by (simp add: scan_flag_stop)
    from decode_frame [OF r(1) assms(1) f(3) this f(4)] show ?thesis by blast
  qed
  with b'(1) show ?thesis by blast
qed

definition demo_package :: "(string \<times> string) Package" where
  "demo_package = \<lparr>header = PacHeader_new\<lparr>msgType := REQREP, msgId := 7\<rparr>,
     typeName = ''ProtoSimple.PingPongReq'', body = [],
     msgPtr = Some (''ProtoSimple.PingPongReq'', ''hello'')\<rparr>"

lemma demo_sendable:
  "sendable (sample_env False cs) demo_package (''ProtoSimple.PingPongReq'', ''hello'')"
  by (simp add: sendable_def demo_package_def PacHeader_new_def iszip_def encode_content_def
      enableCompressSize_def kPackageHeaderSize_def kMaxPackageLen_def split: sum.splits)

theorem decode_encode_message_witness:
  "\<exists>p' b'. encode (sample_env False 3) demo_package (buffer_of []) = Inr (True, p', b') \<and>
    (\<exists>r'. decode (sample_env False 3) (buffer_of (contents b' @ ''tail''))
        = Inr (Some (received (sample_env False 3) demo_package
                      (''ProtoSimple.PingPongReq'', ''hello'')), r')
      \<and> contents r' = ''tail'')"
proof -
  let ?E = "sample_env False 3" and ?m = "(''ProtoSimple.PingPongReq'', ''hello'')"
  have "proto_ok ?E ?m" by (simp add: sample_env_proto)
  from decode_encode_message [OF sample_env_net sample_env_zlib this demo_sendable buffer_of(1,2)]
  obtain p' b' where "encode ?E demo_package (buffer_of []) = Inr (True, p', b')"
    and "\<forall>r rest. buf_inv r \<longrightarrow> contents r = contents b' @ rest \<longrightarrow>
      (\<exists>r'. decode ?E r = Inr (Some (received ?E demo_package ?m), r') \<and> buf_inv r'
         \<and> contents r' = rest)"
    by blast
  then show ?thesis using buffer_of [of "contents b' @ ''tail''"] by blast
qed

text \<open>
  Property C30. Round trip of the bus build. A package that the message bus forwards without
  parsing (its type name is not in the \<^verbatim>\<open>ProtoBase\<close> package) is written and read back
  unchanged: header, type name and body are the same, and the bytes after it stay in the buffer.
\<close>

theorem decode_encode_raw:
  assumes "net_order_ok E" and "MSGBUS E" and "\<not> HasPrefixString (typeName p) ''ProtoBase''"
    and "frame_ok (header p) (typeName p) (body p)" and "body p \<noteq> []" and "msgPtr p = None"
    and "buf_inv b" and "contents b = []"
  shows "\<exists>b'. encode E p b = Inr (True, p, b') \<and>
    (\<forall>r rest. buf_inv r \<longrightarrow> contents r = contents b' @ rest \<longrightarrow>
      (\<exists>r'. decode E r = Inr (Some p, r') \<and> buf_inv r' \<and> contents r' = rest))"
proof -
  obtain b' where b': "encode E p b = Inr (True, p, b')"
    "contents b' = wire_frame E (header p) (typeName p) (body p)"
    using encode_raw_spec [OF assms(7,2-5)] assms(8) by auto
  have fp: "frame_package E (header p) (typeName p) (body p) = Some p"
    using assms(2,3,5,6) by (simp add: frame_package_def)
  have "\<exists>r'. decode E r = Inr (Some p, r') \<and> buf_inv r' \<and> contents r' = rest"
    if r: "buf_inv r" "contents r = contents b' @ rest" for r rest
  proof -
    have "at_flag (contents r)"
      using r(2) b'(2) assms(4) by (simp add: wire_frame_def frame_ok_def)
    then have "scan_flag (contents r) = wire_frame E (header p) (typeName p) (body p) @ rest"
      using r(2) b'(2) by (simp add: scan_flag_stop)
    from decode_frame [OF r(1) assms(1,4) this fp] show ?thesis by blast
  qed
  with b'(1) show ?thesis by blast
qed

definition demo_raw :: "(string \<times> string) Package" where
  "demo_raw = \<lparr>header = PacHeader_new\<lparr>msgType := REQREP, typeNameLen := 5, msgId := 7,
       msgSize := 3, pacSize := 28\<rparr>, typeName = ''Other'', body = ''abc'', msgPtr = None\<rparr>"

lemma demo_raw_ok: "frame_ok (header demo_raw) (typeName demo_raw) (body demo_raw)"
  by (simp add: frame_ok_def demo_raw_def PacHeader_new_def kPackageHeaderSize_def
      kMaxPackageLen_def)

theorem decode_encode_raw_witness:
  "\<exists>b'. encode (sample_env True 3) demo_raw (buffer_of []) = Inr (True, demo_raw, b') \<and>
    (\<exists>r'. decode (sample_env True 3) (buffer_of (contents b')) = Inr (Some demo_raw, r')
       \<and> contents r' = [])"
proof -
  let ?E = "sample_env True 3"
  have "MSGBUS ?E" "\<not> HasPrefixString (typeName demo_raw) ''ProtoBase''" "body demo_raw \<noteq> []"
    "msgPtr demo_raw = None"
    by (simp_all add: demo_raw_def HasPrefixString_def)
  from decode_encode_raw [OF sample_env_net this(1,2) demo_raw_ok this(3,4) buffer_of(1,2)]
  obtain b' where "encode ?E demo_raw (buffer_of []) = Inr (True, demo_raw, b')"
    and "\<forall>r rest. buf_inv r \<longrightarrow> contents r = contents b' @ rest \<longrightarrow>
      (\<exists>r'. decode ?E r = Inr (Some demo_raw, r') \<and> buf_inv r' \<and> contents r' = rest)"
    by blast
  then show ?thesis using buffer_of [of "contents b'"] by (metis append_Nil2)
qed

text \<open>
  Resynchronisation. If the buffer starts with junk in which the two flag bytes do
  not occur one after the other (also not across its end), followed by a well-formed frame of a
  package, \<open>decode\<close> skips the junk and returns the package.
\<close>

theorem decode_skips_junk:
  assumes "net_order_ok E" and "buf_inv r" and "frame_ok h tn content"
    and "frame_package E h tn content = Some p"
    and "contents r = junk @ wire_frame E h tn content @ rest"
    and "\<forall>k < length junk. \<not> at_flag (drop k (contents r))"
  shows "\<exists>r'. decode E r = Inr (Some p, r') \<and> buf_inv r' \<and> contents r' = rest"
proof -
  have tn: "0 < length tn" and at: "at_flag (wire_frame E h tn content @ rest)"
    using assms(3) by (simp_all add: frame_ok_def wire_frame_def)
  then have "scan_flag (contents r) = wire_frame E h tn content @ rest"
    using assms(6) unfolding assms(5) by (intro scan_flag_junk) auto
  from decode_frame [OF assms(2,1,3) this assms(4)] show ?thesis by blast
qed

theorem decode_skips_junk_witness:
  "\<exists>r'. decode (sample_env True 3)
      (buffer_of (''x`y~'' @ wire_frame (sample_env True 3) (header demo_raw) ''Other'' ''abc''))
    = Inr (Some demo_raw, r') \<and> contents r' = []"
proof -
  let ?E = "sample_env True 3" and ?j = "''x`y~''"
  let ?f = "wire_frame ?E (header demo_raw) ''Other'' ''abc''"
  have ok: "frame_ok (header demo_raw) ''Other'' ''abc''"
    using demo_raw_ok by (simp add: demo_raw_def)
  have fp: "frame_package ?E (header demo_raw) ''Other'' ''abc'' = Some demo_raw"
    by (simp add: frame_package_def demo_raw_def HasPrefixString_def)
  have f: "\<exists>ys. ?f = CHR 0x60 # CHR 0x7E # ys"
    by (simp add: wire_frame_def header_bytes_def net_header_def demo_raw_def PacHeader_new_def
        flag0_def flag1_def)
  have "\<forall>k < length ?j. \<not> at_flag (drop k (?j @ ?f))"
    using f by (auto simp: less_Suc_eq flag0_def flag1_def)
  with decode_skips_junk [OF sample_env_net _ ok fp, of "buffer_of (?j @ ?f @ [])" ?j "[]"]
  show ?thesis by (auto simp: buffer_of)
qed

subsection \<open>Consumption\<close>

definition consumes :: "buffer \<Rightarrow> buffer \<Rightarrow> bool" where
  "consumes b b' \<longleftrightarrow> readableBytes b' \<le> readableBytes b
     \<and> (buf_inv b \<longrightarrow> buf_inv b' \<and> suffix (contents b') (contents b))"

lemma consumes_refl [simp]: "consumes b b"
  by (simp add: consumes_def)

lemma consumes_trans: "consumes b b1 \<Longrightarrow> consumes b1 b2 \<Longrightarrow> consumes b b2"
  by (auto simp: consumes_def intro: suffix_order.trans)

lemma retrieve_consumes: "retrieve n b = Inr b' \<Longrightarrow> consumes b b'"
proof -
  assume r: "retrieve n b = Inr b'"
  then have n: "n \<le> readableBytes b" using retrieve_fails_iff [of n b AssertionFailed] by force
  show ?thesis unfolding consumes_def
  proof (intro conjI impI)
    show "readableBytes b' \<le> readableBytes b" using r by (simp add: retrieve_readable)
    assume "buf_inv b"
    from retrieve_spec [OF this n] obtain b'' where "retrieve n b = Inr b''" "buf_inv b''"
      "contents b'' = drop n (contents b)" .
    with r show "buf_inv b'" "suffix (contents b') (contents b)" by (simp_all add: suffix_drop)
  qed
qed

lemma retrieveAsString_consumes: "retrieveAsString n b = Inr (s, b') \<Longrightarrow> consumes b b'"
  by (rule retrieve_consumes [of n])
    (auto simp: retrieveAsString_def rbind_eq_Inr split: if_splits)

lemma gotoFlag_consumes: "gotoFlag b = Inr (f, b') \<Longrightarrow> consumes b b'"
  using gotoFlag_spec [of b] scan_flag_suffix [of "contents b"]
  by (fastforce simp: consumes_def dest: gotoFlag_readable)

fun step_buffer :: "'m decode_step \<Rightarrow> buffer" where
  "step_buffer (Again b) = b"
| "step_buffer (Done r b) = b"

lemma decode_raw_consumes: "decode_raw h tn b = Inr s \<Longrightarrow> consumes b (step_buffer s)"
  by (auto simp: decode_raw_def read_buf_def Let_def rbind_eq_Inr retrieve_consumes
      split: if_splits)

lemma decode_body_consumes:
  assumes s: "decode_body E h tn b = Inr s"
  shows "consumes b (step_buffer s)"
proof (cases "MSGBUS E \<and> \<not> HasPrefixString tn ''ProtoBase''")
  case True
  with s show ?thesis by (simp add: decode_body_def decode_raw_consumes)
next
  case False
  show ?thesis
  proof (cases "createMessage E tn")
    case None
    then show ?thesis using s unfolding decode_body_def if_not_P [OF False] by auto
  next
    case (Some msg)
    from s [unfolded decode_body_def if_not_P [OF False] Some option.case Let_def]
    obtain h' pr where "(case pr of
        Some m \<Rightarrow> rbind (retrieve (size_of_int (sint (pacSize h - word_of_nat kPackageHeaderSize
            - scast (typeNameLen h)))) b) (\<lambda>b'.
          Inr (Done (Some \<lparr>header = h', typeName = tn, body = [], msgPtr = Some m\<rparr>) b'))
      | None \<Rightarrow> Inr (Done None b)) = Inr s"
      unfolding rbind_eq_Inr by auto
    then show ?thesis
      by (cases pr) (auto simp: rbind_eq_Inr intro: retrieve_consumes)
  qed
qed

lemma decode_once_consumes:
  assumes "decode_once E b = Inr s"
  shows "consumes b (step_buffer s)"
proof -
  obtain f b1 where b1: "gotoFlag b = Inr (f, b1)"
    using assms by (auto simp: decode_once_def rbind_eq_Inr)
  from assms b1 consider "step_buffer s = b1"
    | "retrieve kPackageHeaderSize b1 = Inr (step_buffer s)"
    | b2 n tn b3 h where "retrieve kPackageHeaderSize b1 = Inr b2"
      "retrieveAsString n b2 = Inr (tn, b3)" "decode_body E h tn b3 = Inr s"
    by (auto simp: decode_once_def rbind_eq_Inr split: if_splits)
  then have "consumes b1 (step_buffer s)"
    by cases (auto dest!: retrieve_consumes retrieveAsString_consumes decode_body_consumes
        intro: consumes_trans)
  with gotoFlag_consumes [OF b1] show ?thesis by (rule consumes_trans)
qed

lemma decode_consumes: "decode E b = Inr (r, b') \<Longrightarrow> consumes b b'"
proof (induction E b rule: decode.induct)
  case (1 E b)
  from "1.prems" obtain s where s: "decode_once E b = Inr s"
    by (subst (asm) decode.simps) (auto simp: rbind_eq_Inr)
  note keep = decode_once_consumes [OF s]
  show ?case
  proof (cases s)
    case (Again b1)
    with "1.prems" s have "decode E b1 = Inr (r, b')" by (subst (asm) decode.simps) simp
    with "1.IH" [OF s Again] keep Again show ?thesis by (auto intro: consumes_trans)
  next
    case (Done r1 b1)
    with "1.prems" s keep show ?thesis by (subst (asm) decode.simps) simp
  qed
qed

text \<open>
  \<open>decode\<close> keeps the buffer invariant and only consumes bytes from the front: what
  is left afterwards is a suffix of what was readable before, whatever the bytes were.
\<close>

theorem decode_keeps_invariant:
  assumes "buf_inv b" and "decode E b = Inr (r, b')"
  shows "buf_inv b' \<and> suffix (contents b') (contents b)"
  using decode_consumes [OF assms(2)] assms(1) by (simp add: consumes_def)

theorem decode_keeps_invariant_witness:
  "\<exists>b'. decode (sample_env False 3) (buffer_of ''abc'') = Inr (None, b')
     \<and> buf_inv b' \<and> suffix (contents b') ''abc''"
proof -
  have "decode (sample_env False 3) (buffer_of ''abc'') = Inr (None, buffer_of ''abc'')"
    by (simp add: decode.simps decode_once_def gotoFlag.simps kPackageHeaderSize_def
        readableBytes_def buffer_of_def)
  from decode_keeps_invariant [OF buffer_of(1) this] this show ?thesis by simp
qed

subsection \<open>Malformed input\<close>

lemma decode_once_at_header:
  assumes inv: "buf_inv b" and net: "net_order_ok E"
    and c: "contents b = header_bytes (net_header E h) @ xs"
    and fl: "hflag0 h = flag0" "hflag1 h = flag1" and xs: "xs \<noteq> []"
  obtains b1 where "gotoFlag b = Inr (True, b1)" "buf_inv b1" "contents b1 = contents b"
    "bufferPeekHeader E b1 = Inr h"
proof -
  have "scan_flag (contents b) = contents b"
    using c fl by (intro scan_flag_stop) simp
  moreover have "kPackageHeaderSize < length (contents b)" using c xs by simp
  ultimately obtain b1 where b1: "gotoFlag b = Inr (True, b1)" "buf_inv b1"
    "contents b1 = contents b"
    using gotoFlag_spec [OF inv] by auto
  with bufferPeekHeader_spec [OF b1(2) net, of h xs] c show ?thesis by (intro that) simp_all
qed

text \<open>
  Property C40. A header with a negative package size stops the stream for good: however many bytes
  follow it (below \<open>2 ^ 63\<close>), \<open>decode\<close> returns no package and leaves the buffer as it is, because
  the size is converted to an unsigned number before it is compared with the bytes available. The
  check \<^verbatim>\<open>header.pacSize < 0\<close> further down, which would skip such a header, is never reached.
\<close>

theorem decode_negative_size_blocks:
  assumes "buf_inv b" and "net_order_ok E" and "hflag0 h = flag0" and "hflag1 h = flag1"
    and "sint (pacSize h) < 0"
    and "contents b = header_bytes (net_header E h) @ xs" and "length (contents b) < 2 ^ 63"
  shows "\<exists>b'. decode E b = Inr (None, b') \<and> contents b' = contents b"
proof (cases "xs = []")
  case True
  have "scan_flag (contents b) = contents b" using assms(6) True by (intro scan_flag_stop) simp
  with assms(6) True obtain b' where "gotoFlag b = Inr (False, b')" "contents b' = contents b"
    using gotoFlag_spec [OF assms(1)] by auto
  then show ?thesis by (simp add: decode.simps [of E b] decode_once_def)
next
  case False
  obtain b1 where b1: "gotoFlag b = Inr (True, b1)" "buf_inv b1" "contents b1 = contents b"
    "bufferPeekHeader E b1 = Inr h"
    using decode_once_at_header [OF assms(1,2,6,3,4) False] .
  have "- (2 ^ 63) \<le> sint (pacSize h)" using sint_greater_eq [of "pacSize h"] by simp
  then have "2 ^ 63 \<le> size_of_int (sint (pacSize h))"
    using assms(5) by (rule size_of_int_neg)
  then have "readableBytes b1 < size_of_int (sint (pacSize h))"
    using length_contents [OF b1(2)] b1(3) assms(7) by simp
  with b1 show ?thesis by (simp add: decode.simps [of E b] decode_once_def)
qed

theorem decode_negative_size_blocks_witness:
  "\<exists>b'. decode (sample_env False 3) (buffer_of (header_bytes (net_header (sample_env False 3)
          (PacHeader_new\<lparr>pacSize := -1\<rparr>)) @ ''more bytes'')) = Inr (None, b')
     \<and> contents b' = header_bytes (net_header (sample_env False 3)
          (PacHeader_new\<lparr>pacSize := -1\<rparr>)) @ ''more bytes''"
  using decode_negative_size_blocks [OF buffer_of(1) sample_env_net, of
      "PacHeader_new\<lparr>pacSize := -1\<rparr>" _ False 3 "''more bytes''"]
  by (simp add: PacHeader_new_def kPackageHeaderSize_def)

text \<open>
  The type name length of a header is checked against 1024 but not against the bytes
  that are there: if a header announces a name longer than what follows it while its package size
  is already satisfied, \<^verbatim>\<open>retrieveAsString\<close> runs into its assertion. With assertions compiled
  out, the same call constructs a string from bytes past the end of the received data.
\<close>

theorem decode_name_past_end:
  assumes "buf_inv b" and "net_order_ok E" and "hflag0 h = flag0" and "hflag1 h = flag1"
    and "contents b = header_bytes (net_header E h) @ xs" and "xs \<noteq> []"
    and "0 \<le> sint (pacSize h)" and "sint (pacSize h) \<le> int (length (contents b))"
    and "sint (pacSize h) \<le> kMaxPackageLen"
    and "int (length xs) < sint (typeNameLen h)" and "sint (typeNameLen h) \<le> 1024"
  shows "decode E b = Inl AssertionFailed"
proof -
  obtain b1 where b1: "gotoFlag b = Inr (True, b1)" "buf_inv b1" "contents b1 = contents b"
    "bufferPeekHeader E b1 = Inr h"
    using decode_once_at_header [OF assms(1,2,5,3,4,6)] .
  obtain b2 where b2: "retrieve kPackageHeaderSize b1 = Inr b2" "buf_inv b2" "contents b2 = xs"
    using bs.skipE [OF b1(2), of kPackageHeaderSize] b1(3) assms(5) by force
  have t: "size_of_int (sint (typeNameLen h)) = nat (sint (typeNameLen h))"
    using assms(10,11) by (intro size_of_int_nonneg) simp_all
  have p: "size_of_int (sint (pacSize h)) = nat (sint (pacSize h))"
    using assms(7,9) by (intro size_of_int_nonneg) (simp_all add: kMaxPackageLen_def)
  have "retrieveAsString (size_of_int (sint (typeNameLen h))) b2 = Inl AssertionFailed"
    using assms(10) t b2(3) by (intro bs.get_short [OF b2(2)]) (simp add: zless_nat_conj zless_nat_eq_int_zless)
  moreover have "\<not> readableBytes b1 < size_of_int (sint (pacSize h))"
    using length_contents [OF b1(2)] b1(3) p assms(8) by simp
  ultimately show ?thesis
    using b1(1,4) b2(1) assms(7,9,10,11) by (simp add: decode.simps [of E b] decode_once_def)
qed

theorem decode_name_past_end_witness:
  "decode (sample_env False 3) (buffer_of (header_bytes (net_header (sample_env False 3)
      (PacHeader_new\<lparr>typeNameLen := 1000, pacSize := 20\<rparr>)) @ ''x'')) = Inl AssertionFailed"
  by (rule decode_name_past_end [OF buffer_of(1) sample_env_net, of
      "PacHeader_new\<lparr>typeNameLen := 1000, pacSize := 20\<rparr>" _ False 3 "''x''"])
    (simp_all add: PacHeader_new_def kPackageHeaderSize_def kMaxPackageLen_def)

text \<open>
  A frame whose content does not parse makes \<open>decode\<close> return no package, the same
  result as for an incomplete frame, with the header and the type name consumed and the content
  left in front of whatever follows: a complete package behind it is not returned by this call.
\<close>

theorem decode_unparsable_content:
  assumes "buf_inv b" and "net_order_ok E" and "frame_ok h tn content"
    and "\<not> (MSGBUS E \<and> \<not> HasPrefixString tn ''ProtoBase'')" and "createMessage E tn = Some msg"
    and "\<not> iszip h" and "sint (msgSize h) = int (length content)"
    and "ParseFromArray E msg content = None"
    and "contents b = wire_frame E h tn content @ rest"
  shows "\<exists>b'. decode E b = Inr (None, b') \<and> buf_inv b' \<and> contents b' = content @ rest"
proof -
  have "scan_flag (contents b) = wire_frame E h tn content @ rest"
    using assms(3,9) by (simp add: scan_flag_stop wire_frame_def frame_ok_def)
  then obtain b3 where b3: "buf_inv b3" "contents b3 = content @ rest"
    "decode_once E b = decode_body E h tn b3"
    using decode_once_frame [OF assms(1,2,3)] by metis
  have "size_of_int (int (length content)) = length content"
    using assms(3) by (simp add: frame_ok_def size_of_int_nonneg kMaxPackageLen_def)
  then have "decode_parse E h msg k b3 = Inr (h, None)" for k
    using assms(6-8) load_content [OF b3(1,2)] by (simp add: decode_parse_def)
  then have "decode_body E h tn b3 = Inr (Done None b3)"
    unfolding decode_body_def if_not_P [OF assms(4)] using assms(5) by (simp add: Let_def)
  with b3 show ?thesis by (simp add: decode.simps [of E b])
qed

definition bad_header :: PacHeader where
  "bad_header = PacHeader_new\<lparr>typeNameLen := 5, msgSize := 3, pacSize := 28\<rparr>"

theorem decode_unparsable_content_witness:
  "\<exists>b'. decode (sample_env False 3)
       (buffer_of (wire_frame (sample_env False 3) bad_header ''Other'' ''bad'' @ ''rest''))
     = Inr (None, b') \<and> contents b' = ''badrest''"
proof -
  let ?E = "sample_env False 3"
  have ok: "frame_ok bad_header ''Other'' ''bad''"
    by (simp add: frame_ok_def bad_header_def PacHeader_new_def kPackageHeaderSize_def
        kMaxPackageLen_def)
  have "\<not> (MSGBUS ?E \<and> \<not> HasPrefixString ''Other'' ''ProtoBase'')"
    "createMessage ?E ''Other'' = Some (''Other'', [])" "\<not> iszip bad_header"
    "sint (msgSize bad_header) = int (length ''bad'')"
    "ParseFromArray ?E (''Other'', []) ''bad'' = None"
    by (simp_all add: createMessage_def sample_env_def bad_header_def PacHeader_new_def iszip_def)
  from decode_unparsable_content [OF buffer_of(1) sample_env_net ok this buffer_of(2)]
  show ?thesis by auto
qed

lemma decode_once_Some_readable:
  assumes "decode_once E b = Inr (Done (Some p) b')"
  shows "readableBytes b' + kPackageHeaderSize < readableBytes b"
proof -
  from assms obtain b1 h b2 tn b3 where b1: "gotoFlag b = Inr (True, b1)"
    and b2: "retrieve kPackageHeaderSize b1 = Inr b2"
    and t: "\<not> (sint (typeNameLen h) \<le> 0 \<or> 1024 < sint (typeNameLen h))"
    and b3: "retrieveAsString (size_of_int (sint (typeNameLen h))) b2 = Inr (tn, b3)"
    and b': "decode_body E h tn b3 = Inr (Done (Some p) b')"
    by (auto simp: decode_once_def rbind_eq_Inr split: if_splits)
  have "0 < size_of_int (sint (typeNameLen h))"
    using t by (simp add: size_of_int_nonneg)
  moreover have "size_of_int (sint (typeNameLen h)) \<le> readableBytes b2"
    using b3 by (auto simp: retrieveAsString_def split: if_splits)
  moreover have "readableBytes b' \<le> readableBytes b3"
    using decode_body_consumes [OF b'] by (simp add: consumes_def)
  ultimately show ?thesis
    using retrieveAsString_readable [OF b3] retrieve_readable [OF b2] gotoFlag_True [OF b1]
      gotoFlag_readable [OF b1] by linarith
qed

text \<open>
  A call of \<open>decode\<close> that returns a package has consumed more than a header, so the loops that
  call it until it returns nothing end.
\<close>

lemma decode_Some_readable:
  assumes "decode E b = Inr (Some p, b')"
  shows "readableBytes b' + kPackageHeaderSize < readableBytes b"
  using assms
proof (induction E b rule: decode.induct)
  case (1 E b)
  from "1.prems" obtain s where s: "decode_once E b = Inr s"
    by (subst (asm) decode.simps) (auto simp: rbind_eq_Inr)
  show ?case
  proof (cases s)
    case (Again b1)
    with "1.prems" s have "decode E b1 = Inr (Some p, b')" by (subst (asm) decode.simps) simp
    with "1.IH" [OF s Again] decode_once_Again [of E b b1] s Again show ?thesis by simp
  next
    case (Done r1 b1)
    with "1.prems" s have "decode_once E b = Inr (Done (Some p) b')"
      by (subst (asm) decode.simps) simp
    then show ?thesis by (rule decode_once_Some_readable)
  qed
qed

end
