(* ===== verification/Frame_Stream.thy ===== *)
theory Frame_Stream
  imports Prelude
begin

text \<open>
  The interface between the codec and the two read loops that use it (the server's
  \<^verbatim>\<open>Session::doRead\<close> and the client's \<^verbatim>\<open>AsioClient::doRead\<close>). The locale \<open>frame_decoder\<close> states what
  a loop relies on: one call of the decoder takes a complete frame off the front of the buffer,
  leaves an incomplete one alone, and the loop calls it until nothing is returned or left. What
  follows from it, proved once, is that a stream of frames is taken apart correctly however the
  transport cuts it into chunks.
\<close>

text \<open>How many of the frames are complete in the first \<open>n\<close> bytes of their concatenation.\<close>

fun frames_in :: "'c list list \<Rightarrow> nat \<Rightarrow> nat" where
  "frames_in [] n = 0"
| "frames_in (f # fs) n = (if length f \<le> n then Suc (frames_in fs (n - length f)) else 0)"

lemma frames_in_le: "frames_in fs n \<le> length fs"
  by (induction fs n rule: frames_in.induct) auto

lemma frames_in_all: "length (concat fs) \<le> n \<Longrightarrow> frames_in fs n = length fs"
  by (induction fs n rule: frames_in.induct) auto

abbreviation (input) complete :: "'c list list \<Rightarrow> nat \<Rightarrow> nat" where
  "complete fs n \<equiv> length (concat (take (frames_in fs n) fs))"

lemma complete_le: "complete fs n \<le> n"
  by (induction fs n rule: frames_in.induct) auto

lemma frames_in_add:
  "frames_in fs (n + k)
     = frames_in fs n + frames_in (drop (frames_in fs n) fs) (n + k - complete fs n)"
  by (induction fs n rule: frames_in.induct) auto

lemma concat_split: "concat fs = concat (take i fs) @ concat (drop i fs)"
  by (metis append_take_drop_id concat_append)

lemma take_concat_split:
  "complete fs n \<le> m \<Longrightarrow> take m (concat fs)
     = concat (take (frames_in fs n) fs) @ take (m - complete fs n) (concat (drop (frames_in fs n) fs))"
  by (subst concat_split [of fs "frames_in fs n"]) simp

lemma take_drop_slices:
  assumes "k + j \<le> n"
  shows "take j (drop k xs) @ drop (k + j) (take n xs) = drop k (take n xs)"
proof -
  from assms obtain r where n: "n = k + (j + r)" by (metis add.assoc le_iff_add)
  then have "drop (k + j) (take n xs) = take r (drop j (drop k xs))"
    by (simp add: drop_take add.commute)
  moreover have "drop k (take n xs) = take (j + r) (drop k xs)"
    using n by (simp add: drop_take)
  ultimately show ?thesis by (simp add: take_add)
qed

text \<open>Feeding chunks to a handler one after the other, collecting what it yields.\<close>

fun feed :: "('c list \<Rightarrow> 'b \<Rightarrow> 'e + ('p list \<times> 'b)) \<Rightarrow> 'c list list \<Rightarrow> 'b \<Rightarrow> 'e + ('p list \<times> 'b)" where
  "feed h [] b = Inr ([], b)"
| "feed h (d # ds) b =
     rbind (h d b) (\<lambda>(ps, b'). rbind (feed h ds b') (\<lambda>(qs, b''). Inr (ps @ qs, b'')))"

locale frame_decoder =
  fixes inv :: "'b \<Rightarrow> bool"
    and cont :: "'b \<Rightarrow> 'c list"
    and isframe :: "'c list \<Rightarrow> 'p \<Rightarrow> bool"
    and put :: "'c list \<Rightarrow> 'b \<Rightarrow> 'e + 'b"
    and dec :: "'b \<Rightarrow> 'e + ('p option \<times> 'b)"
    and loop :: "'b \<Rightarrow> 'e + ('p list \<times> 'b)"
  assumes put_ok: "inv b \<Longrightarrow> \<exists>b'. put d b = Inr b' \<and> inv b' \<and> cont b' = cont b @ d"
    and frame_nonempty: "isframe f p \<Longrightarrow> f \<noteq> []"
    and dec_frame: "inv b \<Longrightarrow> isframe f p \<Longrightarrow> cont b = f @ rest \<Longrightarrow>
      \<exists>b'. dec b = Inr (Some p, b') \<and> inv b' \<and> cont b' = rest"
    and dec_partial: "inv b \<Longrightarrow> isframe f p \<Longrightarrow> cont b = take k f \<Longrightarrow> k < length f \<Longrightarrow>
      \<exists>b'. dec b = Inr (None, b') \<and> inv b' \<and> cont b' = cont b"
    and dec_empty: "inv b \<Longrightarrow> cont b = [] \<Longrightarrow>
      \<exists>b'. dec b = Inr (None, b') \<and> inv b' \<and> cont b' = []"
    and loop_unfold: "\<And>b. inv b \<Longrightarrow> loop b = rbind (dec b) (\<lambda>(r, b').
      case r of None \<Rightarrow> Inr ([], b')
      | Some p \<Rightarrow> if cont b' \<noteq> [] then rbind (loop b') (\<lambda>(ps, b''). Inr (p # ps, b''))
                  else Inr ([p], b'))"
begin

text \<open>The loop on any prefix of a sequence of frames takes exactly the complete ones.\<close>

lemma loop_prefix:
  assumes "inv b" and "list_all2 isframe fs ps" and "n \<le> length (concat fs)"
    and "cont b = take n (concat fs)"
  shows "\<exists>b'. loop b = Inr (take (frames_in fs n) ps, b') \<and> inv b' \<and>
    cont b' = take (n - complete fs n) (concat (drop (frames_in fs n) fs))"
  using assms
proof (induction fs arbitrary: ps n b)
  case Nil
  from dec_empty [OF Nil.prems(1)] Nil.prems obtain b' where
    "dec b = Inr (None, b')" "inv b'" "cont b' = []" by auto
  then show ?case using loop_unfold [OF Nil.prems(1)] by simp
next
  case (Cons f fs)
  from Cons.prems(2) obtain p ps' where ps: "ps = p # ps'" "isframe f p" "list_all2 isframe fs ps'"
    by (auto simp: list_all2_Cons1)
  show ?case
  proof (cases "length f \<le> n")
    case True
    then have "cont b = f @ take (n - length f) (concat fs)" using Cons.prems(4) by simp
    from dec_frame [OF Cons.prems(1) ps(2) this] obtain b1 where
      b1: "dec b = Inr (Some p, b1)" "inv b1" "cont b1 = take (n - length f) (concat fs)" by blast
    have "n - length f \<le> length (concat fs)" using Cons.prems(3) by simp
    from Cons.IH [OF b1(2) ps(3) this b1(3)] obtain b2 where
      b2: "loop b1 = Inr (take (frames_in fs (n - length f)) ps', b2)" "inv b2"
      "cont b2 = take (n - length f - complete fs (n - length f))
         (concat (drop (frames_in fs (n - length f)) fs))" by blast
    show ?thesis
    proof (cases "cont b1 = []")
      case False
      with b1(1) b2 True ps(1) show ?thesis by (simp add: loop_unfold [OF Cons.prems(1)])
    next
      case e: True
      then have zero: "n - length f = 0 \<or> concat fs = []" using b1(3) by auto
      have none: "frames_in fs (n - length f) = 0"
      proof (cases fs)
        case (Cons g gs)
        then have "g \<noteq> []" using ps(3) frame_nonempty by (auto simp: list_all2_Cons1)
        with Cons zero show ?thesis by auto
      qed simp
      have "loop b = Inr ([p], b1)" using b1(1) e by (simp add: loop_unfold [OF Cons.prems(1)])
      moreover have "cont b1 = take (n - length f) (concat fs)" by (fact b1(3))
      ultimately show ?thesis using True ps(1) none b1(2) by simp
    qed
  next
    case False
    then have "cont b = take n f" using Cons.prems(4) by simp
    from dec_partial [OF Cons.prems(1) ps(2) this] False obtain b1 where
      "dec b = Inr (None, b1)" "inv b1" "cont b1 = cont b" by auto
    with False Cons.prems(4) show ?thesis by (simp add: loop_unfold [OF Cons.prems(1)])
  qed
qed

text \<open>The contents after \<open>n\<close> bytes of the stream have been handled.\<close>

lemma feed_prefix:
  assumes "inv b" and "list_all2 isframe fs ps"
    and "cont b = take (n - complete fs n) (concat (drop (frames_in fs n) fs))"
    and "n + length (concat ds) \<le> length (concat fs)"
    and "take (length (concat ds)) (drop n (concat fs)) = concat ds"
  shows "\<exists>b'. feed (\<lambda>d b. rbind (put d b) loop) ds b
      = Inr (drop (frames_in fs n) (take (frames_in fs (n + length (concat ds))) ps), b') \<and> inv b' \<and>
    cont b' = take (n + length (concat ds) - complete fs (n + length (concat ds)))
      (concat (drop (frames_in fs (n + length (concat ds))) fs))"
  using assms
proof (induction ds arbitrary: b n)
  case (Cons d ds)
  let ?k = "frames_in fs n" and ?o = "complete fs n" and ?m = "n + length d"
  obtain b1 where b1: "put d b = Inr b1" "inv b1" "cont b1 = cont b @ d"
    using put_ok [OF Cons.prems(1)] by blast
  have "d = take (length d) (take (length (concat (d # ds))) (drop n (concat fs)))"
    unfolding Cons.prems(5) by simp
  then have d: "d = take (length d) (drop n (concat fs))" by simp
  have o: "?o \<le> n" by (rule complete_le)
  have "concat (take ?k fs) @ cont b @ d = take ?m (concat fs)"
    using take_concat_split [OF o] Cons.prems(3) d by (simp add: take_add)
  also have "\<dots> = concat (take ?k fs) @ take (?m - ?o) (concat (drop ?k fs))"
    using o by (intro take_concat_split) simp
  finally have c1: "cont b1 = take (?m - ?o) (concat (drop ?k fs))" using b1(3) by simp
  have len: "?m - ?o \<le> length (concat (drop ?k fs))"
  proof -
    have "length (concat fs) = ?o + length (concat (drop ?k fs))"
      by (subst concat_split [of fs ?k]) simp
    then show ?thesis using Cons.prems(4) o by simp
  qed
  have fs2: "list_all2 isframe (drop ?k fs) (drop ?k ps)" using Cons.prems(2) by simp
  let ?j = "frames_in (drop ?k fs) (?m - ?o)"
  have j: "frames_in fs ?m = ?k + ?j" by (rule frames_in_add)
  obtain b2 where b2: "loop b1 = Inr (take ?j (drop ?k ps), b2)" "inv b2"
    "cont b2 = take (?m - ?o - complete (drop ?k fs) (?m - ?o)) (concat (drop ?j (drop ?k fs)))"
    using loop_prefix [OF b1(2) fs2 len c1] by blast
  have "complete fs ?m = ?o + complete (drop ?k fs) (?m - ?o)"
    by (simp add: j take_add)
  then have c2: "cont b2 = take (?m - complete fs ?m) (concat (drop (frames_in fs ?m) fs))"
    using b2(3) j by (simp add: add.commute)
  have rest: "take (length (concat ds)) (drop ?m (concat fs)) = concat ds"
  proof -
    have "take (length (concat ds)) (drop ?m (concat fs))
        = drop (length d) (take (length (concat (d # ds))) (drop n (concat fs)))"
      by (simp add: drop_take add.commute)
    then show ?thesis unfolding Cons.prems(5) by simp
  qed
  have "?m + length (concat ds) \<le> length (concat fs)" using Cons.prems(4) by simp
  from Cons.IH [OF b2(2) Cons.prems(2) c2 this rest] obtain b3 where
    b3: "feed (\<lambda>d b. rbind (put d b) loop) ds b2
      = Inr (drop (frames_in fs ?m) (take (frames_in fs (?m + length (concat ds))) ps), b3)" "inv b3"
    "cont b3 = take (?m + length (concat ds) - complete fs (?m + length (concat ds)))
      (concat (drop (frames_in fs (?m + length (concat ds))) fs))" by blast
  let ?N = "frames_in fs (?m + length (concat ds))"
  have le: "frames_in fs ?m \<le> ?N" using frames_in_add [of fs ?m "length (concat ds)"] by simp
  have "take ?j (drop ?k ps) @ drop (frames_in fs ?m) (take ?N ps) = drop ?k (take ?N ps)"
    using le unfolding j by (intro take_drop_slices) simp
  then show ?case using b1(1) b2(1) b3 by (simp add: add.assoc)
qed simp

text \<open>Starting from an empty buffer, any cutting of the stream into chunks yields the packages.\<close>

lemma feed_stream:
  assumes "inv b" and "cont b = []" and "list_all2 isframe fs ps" and "concat ds = take n (concat fs)"
    and "n \<le> length (concat fs)"
  shows "\<exists>b'. feed (\<lambda>d b. rbind (put d b) loop) ds b = Inr (take (frames_in fs n) ps, b') \<and> inv b'
    \<and> cont b' = take (n - complete fs n) (concat (drop (frames_in fs n) fs))"
proof -
  have none: "frames_in fs 0 = 0"
  proof (cases fs)
    case (Cons f gs)
    then have "f \<noteq> []" using assms(3) frame_nonempty by (auto simp: list_all2_Cons1)
    with Cons show ?thesis by simp
  qed simp
  have "length (concat ds) = n" using assms(4,5) by simp
  then show ?thesis
    using feed_prefix [OF assms(1,3), of 0 ds] assms none by simp
qed

end

end
