(* ===== verification/Step_System.thy ===== *)
theory Step_System
  imports Prelude
begin

text \<open>
  What the step relations of the development have in common: an invariant that every step keeps, and,
  for the queues, the promise that some step brings them nearer to the end of their work. The pool of
  threads, the write queues of server and client, and the client among its callers are interpretations.
\<close>

locale step_system =
  fixes step :: "'s \<Rightarrow> 's \<Rightarrow> bool" and inv :: "'s \<Rightarrow> bool"
  assumes step_keeps: "step s s' \<Longrightarrow> inv s \<Longrightarrow> inv s'"
begin

lemma steps_keep: "step\<^sup>*\<^sup>* s s' \<Longrightarrow> inv s \<Longrightarrow> inv s'"
  by (induction rule: rtranclp_induct) (auto intro: step_keeps)

end

text \<open>
  A system whose work comes to an end: unless it is \<open>idle\<close>, a state that is \<open>live\<close> has a step into a
  live state with less work, and along these steps \<open>kept\<close> does not change.
\<close>

locale draining_system = step_system +
  fixes live idle :: "'a \<Rightarrow> bool" and work :: "'a \<Rightarrow> nat" and kept :: "'a \<Rightarrow> 'k"
  assumes progress: "inv s \<Longrightarrow> live s \<Longrightarrow> \<not> idle s \<Longrightarrow>
    \<exists>s'. step s s' \<and> live s' \<and> kept s' = kept s \<and> work s' < work s"
begin

lemma drains:
  assumes "inv s" and "live s"
  shows "\<exists>s'. step\<^sup>*\<^sup>* s s' \<and> inv s' \<and> live s' \<and> kept s' = kept s \<and> idle s'"
  using assms
proof (induction s rule: measure_induct_rule [of work])
  case (less s)
  show ?case
  proof (cases "idle s")
    case False
    from progress [OF less.prems False] obtain s1 where
      s1: "step s s1" "live s1" "kept s1 = kept s" "work s1 < work s" by blast
    from less.IH [OF s1(4) step_keeps [OF s1(1) less.prems(1)] s1(2)] s1(1,3) show ?thesis
      by (metis converse_rtranclp_into_rtranclp)
  qed (use less.prems in blast)
qed

end

end
