(* ===== verification/Session.thy ===== *)
theory Session
  imports ProtoHelp Frame_Stream Step_System
begin

text \<open>
  The server side of a connection, \<^verbatim>\<open>asio/internal/Session.cpp\<close>. A session owns the buffer of the
  bytes received so far, the queue of buffers to write and a counter for the ids of the messages it
  publishes. Its methods run as handlers of an event loop; what a method asks of the rest of the
  program (starting an asynchronous read or write, posting a handler, passing a package to the task
  manager, joining and leaving the room) is the list of effects it returns, in order.
\<close>

section \<open>State and operations\<close>

record session =
  endpoint :: string
  readBuffer :: buffer
  writeDeque :: "buffer list"
  idCounter :: int
  sessionId :: int

datatype 'm effect =
    RoomJoin
  | RoomLeave
  | AsyncRead
  | AsyncWrite "char list"
  | HandleMessage "'m Package"
  | PostWriteBuffer buffer

definition endpoint2str :: "string \<Rightarrow> nat \<Rightarrow> string" where
  "endpoint2str address port = address @ '':'' @ dec_digits port"

text \<open>
  \<^verbatim>\<open>SessionData\<close> takes its id from the static counter \<^verbatim>\<open>s_sessionIdInc\<close>, which is incremented with
  the wrap-around of an atomic \<^verbatim>\<open>int\<close>; the counter is passed in and returned.
\<close>

definition s_sessionIdInc_init :: int where
  "s_sessionIdInc_init = 1"

definition Session_new :: "int \<Rightarrow> (session \<times> int) result" where
  "Session_new s_sessionIdInc =
     rbind (Buffer_new kInitialSize) (\<lambda>b.
       Inr (\<lparr>endpoint = '''', readBuffer = b, writeDeque = [], idCounter = 0,
             sessionId = s_sessionIdInc\<rparr>, wrap32 (s_sessionIdInc + 1)))"

text \<open>
  The socket is outside of the model: whether it is open, and the peer's address and port, or
  \<open>None\<close> when \<^verbatim>\<open>remote_endpoint()\<close> throws, are arguments.
\<close>

definition Session_remoteEndpoint :: "bool \<Rightarrow> (string \<times> nat) option \<Rightarrow> string" where
  "Session_remoteEndpoint is_open remote_endpoint =
     (if is_open then (case remote_endpoint of
        Some (address, port) \<Rightarrow> endpoint2str address port
      | None \<Rightarrow> '''')
      else '''')"

definition Session_start :: "bool \<Rightarrow> (string \<times> nat) option \<Rightarrow> session \<Rightarrow> session \<times> 'm effect list" where
  "Session_start is_open remote_endpoint s =
     (s\<lparr>endpoint := Session_remoteEndpoint is_open remote_endpoint\<rparr>, [RoomJoin, AsyncRead])"

definition Session_id :: "session \<Rightarrow> int" where
  "Session_id s = sessionId s"

text \<open>
  \<^verbatim>\<open>encode\<close> updates the package it is given, which the caller may share with others: the updated
  package is returned.
\<close>

definition Session_postPackage :: "('d, 'm) env \<Rightarrow> 'm Package \<Rightarrow> ('m Package \<times> 'm effect list) result" where
  "Session_postPackage E pack =
     rbind (Buffer_new kInitialSize) (\<lambda>b.
     rbind (encode E pack b) (\<lambda>(ok, pack', b').
       Inr (pack', if ok then [PostWriteBuffer b'] else [])))"

definition Session_deliverPackage :: "('d, 'm) env \<Rightarrow> 'm Package \<Rightarrow> ('m Package \<times> 'm effect list) result" where
  "Session_deliverPackage E pac = Session_postPackage E pac"

definition reply_package :: "('d, 'm) env \<Rightarrow> 'm Package \<Rightarrow> 'm \<Rightarrow> 'm Package" where
  "reply_package E req rspMsg =
     \<lparr>header = header req, typeName = GetTypeName E rspMsg, body = [], msgPtr = Some rspMsg\<rparr>"

definition Session_replyMessage ::
    "('d, 'm) env \<Rightarrow> 'm Package option \<Rightarrow> 'm option \<Rightarrow> ('m effect list) result" where
  "Session_replyMessage E req rspMsg =
     (case (req, rspMsg) of
        (Some req, Some rspMsg) \<Rightarrow>
          rbind (Session_postPackage E (reply_package E req rspMsg)) (\<lambda>(_, effs). Inr effs)
      | _ \<Rightarrow> Inr [])"

definition next_msgId :: "int \<Rightarrow> int \<times> int" where
  "next_msgId n = (let n' = wrap32 (n + 1) in (c_rem n' INT_MAX, n'))"

definition publish_package :: "('d, 'm) env \<Rightarrow> int \<Rightarrow> 'm \<Rightarrow> 'm Package" where
  "publish_package E i msg =
     \<lparr>header = PacHeader_new\<lparr>msgType := PUBSUB, msgId := word_of_int i,
        typeNameLen := word_of_nat (length (GetTypeName E msg))\<rparr>,
      typeName = GetTypeName E msg, body = [], msgPtr = Some msg\<rparr>"

definition Session_publishMessage ::
    "('d, 'm) env \<Rightarrow> 'm option \<Rightarrow> session \<Rightarrow> (session \<times> 'm effect list) result" where
  "Session_publishMessage E msg s =
     (case msg of
        None \<Rightarrow> Inr (s, [])
      | Some msg \<Rightarrow>
         (let (i, n') = next_msgId (idCounter s)
          in rbind (Session_postPackage E (publish_package E i msg)) (\<lambda>(_, effs).
               Inr (s\<lparr>idCounter := n'\<rparr>, effs))))"

subsection \<open>Reading\<close>

text \<open>The \<^verbatim>\<open>do ... while\<close> loop of the read handler: packages are decoded until none is left.\<close>

function readLoop :: "('d, 'm) env \<Rightarrow> buffer \<Rightarrow> ('m Package list \<times> buffer) result" where
  "readLoop E b =
     rbind (decode E b) (\<lambda>(pack, b').
       case pack of
         None \<Rightarrow> Inr ([], b')
       | Some p \<Rightarrow>
          if 0 < readableBytes b'
          then rbind (readLoop E b') (\<lambda>(ps, b''). Inr (p # ps, b''))
          else Inr ([p], b'))"
  by pat_completeness auto
termination
  by (relation "measure (size \<circ> snd)") (auto dest: decode_Some_readable)

declare readLoop.simps [simp del]

text \<open>The handler that \<^verbatim>\<open>doRead\<close> passes to \<^verbatim>\<open>async_read_some\<close>; \<open>ec\<close> says whether the read failed.\<close>

definition Session_doRead ::
    "('d, 'm) env \<Rightarrow> bool \<Rightarrow> char list \<Rightarrow> session \<Rightarrow> (session \<times> 'm effect list) result" where
  "Session_doRead E ec tempBuf s =
     (if \<not> ec then
        rbind (append_data tempBuf (length tempBuf) (readBuffer s)) (\<lambda>b.
        rbind (readLoop E b) (\<lambda>(packs, b').
          Inr (s\<lparr>readBuffer := b'\<rparr>, map HandleMessage packs @ [AsyncRead])))
      else Inr (s, [RoomLeave]))"

subsection \<open>Writing\<close>

definition async_write_front :: "buffer list \<Rightarrow> ('m effect list) result" where
  "async_write_front q =
     (case q of
        [] \<Rightarrow> Inl OutOfBounds
      | b # _ \<Rightarrow> rbind (load (peek b) (readableBytes b) b) (\<lambda>d. Inr [AsyncWrite d]))"

definition Session_doWrite :: "bool \<Rightarrow> session \<Rightarrow> (session \<times> 'm effect list) result" where
  "Session_doWrite ec s =
     (if \<not> ec then
        (case writeDeque s of
           [] \<Rightarrow> Inl OutOfBounds
         | _ # q \<Rightarrow>
            (let s' = s\<lparr>writeDeque := q\<rparr>
             in if q \<noteq> [] then rbind (async_write_front q) (\<lambda>effs. Inr (s', effs))
                else Inr (s', [])))
      else Inr (s, [RoomLeave]))"

definition Session_writeBuffer :: "buffer \<Rightarrow> session \<Rightarrow> (session \<times> 'm effect list) result" where
  "Session_writeBuffer b s =
     (let writeInProgress = (writeDeque s \<noteq> []);
          s' = s\<lparr>writeDeque := writeDeque s @ [b]\<rparr>
      in if \<not> writeInProgress
         then rbind (async_write_front (writeDeque s')) (\<lambda>effs. Inr (s', effs))
         else Inr (s', []))"

section \<open>Reading a stream of frames\<close>

text \<open>A byte sequence that is the frame of a package.\<close>

definition is_frame :: "('d, 'm) env \<Rightarrow> char list \<Rightarrow> 'm Package \<Rightarrow> bool" where
  "is_frame E bs p \<longleftrightarrow> net_order_ok E \<and>
     (\<exists>h tn content. bs = wire_frame E h tn content \<and> frame_ok h tn content
        \<and> frame_package E h tn content = Some p)"

lemma is_frame_nonempty: "is_frame E f p \<Longrightarrow> f \<noteq> []"
  by (auto simp: is_frame_def wire_frame_def frame_ok_def)

lemma decode_is_frame:
  assumes "buf_inv b" and "is_frame E f p" and "contents b = f @ rest"
  shows "\<exists>b'. decode E b = Inr (Some p, b') \<and> buf_inv b' \<and> contents b' = rest"
proof -
  obtain h tn content where f: "net_order_ok E" "f = wire_frame E h tn content"
    "frame_ok h tn content" "frame_package E h tn content = Some p"
    using assms(2) unfolding is_frame_def by blast
  have "at_flag (contents b)" using assms(3) f(2,3) by (simp add: wire_frame_def frame_ok_def)
  then have "scan_flag (contents b) = wire_frame E h tn content @ rest"
    using assms(3) f(2) by (simp add: scan_flag_stop)
  from decode_frame [OF assms(1) f(1,3) this f(4)] show ?thesis by blast
qed

lemma decode_empty:
  assumes "buf_inv b" and "contents b = []"
  shows "\<exists>b'. decode E b = Inr (None, b') \<and> buf_inv b' \<and> contents b' = []"
proof -
  obtain b1 where "gotoFlag b = Inr (False, b1)" "buf_inv b1" "contents b1 = []"
    using gotoFlag_spec [OF assms(1)] assms(2) by auto
  then show ?thesis by (simp add: decode.simps [of E b] decode_once_def)
qed

interpretation rd: frame_decoder buf_inv contents "is_frame E" "\<lambda>d. append_data d (length d)"
  "decode E" "readLoop E" for E :: "('d, 'm) env"
proof unfold_locales
  fix b :: buffer and d f :: "char list" and p :: "'m Package" and rest k
  show "\<exists>b'. append_data d (length d) b = Inr b' \<and> buf_inv b' \<and> contents b' = contents b @ d"
    if "buf_inv b"
    using append_data_spec [OF that, of "length d" d] by auto
  show "f \<noteq> []" if "is_frame E f p" using that by (rule is_frame_nonempty)
  show "\<exists>b'. decode E b = Inr (Some p, b') \<and> buf_inv b' \<and> contents b' = rest"
    if "buf_inv b" "is_frame E f p" "contents b = f @ rest" using decode_is_frame that .
  show "\<exists>b'. decode E b = Inr (None, b') \<and> buf_inv b' \<and> contents b' = contents b"
    if "buf_inv b" "is_frame E f p" "contents b = take k f" "k < length f"
  proof -
    obtain h tn content where f: "net_order_ok E" "f = wire_frame E h tn content"
      "frame_ok h tn content"
      using \<open>is_frame E f p\<close> unfolding is_frame_def by blast
    from decode_partial_frame [OF that(1) f(1,3)] that(3,4) f(2) show ?thesis by metis
  qed
  show "\<exists>b'. decode E b = Inr (None, b') \<and> buf_inv b' \<and> contents b' = []"
    if "buf_inv b" "contents b = []" using decode_empty [OF that] .
  show "readLoop E b = rbind (decode E b) (\<lambda>(r, b').
      case r of None \<Rightarrow> Inr ([], b')
      | Some p \<Rightarrow> if contents b' \<noteq> [] then rbind (readLoop E b') (\<lambda>(ps, b''). Inr (p # ps, b''))
                  else Inr ([p], b'))" if "buf_inv b"
  proof (cases "decode E b")
    case (Inr r)
    obtain q b' where r: "r = (q, b')" by (cases r)
    with Inr decode_consumes [of E b q b'] that have "buf_inv b'" by (simp add: consumes_def)
    then have "contents b' \<noteq> [] \<longleftrightarrow> 0 < readableBytes b'" by (simp add: contents_empty_iff)
    with Inr r show ?thesis by (subst readLoop.simps) (simp split: option.splits)
  qed (subst readLoop.simps, simp)
qed

text \<open>The packages among the effects of a handler, in order.\<close>

definition handled :: "'m effect list \<Rightarrow> 'm Package list" where
  "handled effs = concat (map (\<lambda>e. case e of HandleMessage p \<Rightarrow> [p] | _ \<Rightarrow> []) effs)"

lemma handled_simps [simp]:
  "handled (map HandleMessage ps @ [AsyncRead]) = ps"
  by (simp add: handled_def comp_def concat_map_singleton)

text \<open>A successful read of one chunk: the packages passed to the task manager and the new state.\<close>

definition read_chunk ::
    "('d, 'm) env \<Rightarrow> char list \<Rightarrow> session \<Rightarrow> cpp_error + ('m Package list \<times> session)" where
  "read_chunk E d s =
     map_sum id (\<lambda>(s', effs). (handled effs, s')) (Session_doRead E False d s)"

lemma feed_read_chunk:
  "feed (read_chunk E) ds s =
     map_sum id (\<lambda>(ps, b). (ps, s\<lparr>readBuffer := b\<rparr>))
       (feed (\<lambda>d b. rbind (append_data d (length d) b) (readLoop E)) ds (readBuffer s))"
proof (induction ds arbitrary: s)
  case (Cons d ds)
  show ?case
  proof (cases "rbind (append_data d (length d) (readBuffer s)) (readLoop E)")
    case (Inl e)
    then show ?thesis
      by (auto simp: read_chunk_def Session_doRead_def rbind_eq_Inl split: sum.splits)
  next
    case (Inr r)
    obtain ps b where r: "r = (ps, b)" by (cases r)
    have "read_chunk E d s = Inr (ps, s\<lparr>readBuffer := b\<rparr>)"
      using Inr r by (auto simp: read_chunk_def Session_doRead_def rbind_eq_Inr)
    then show ?thesis using Inr r Cons.IH [of "s\<lparr>readBuffer := b\<rparr>"]
      by (cases "feed (\<lambda>d b. rbind (append_data d (length d) b) (readLoop E)) ds b")
        (auto split: prod.splits)
  qed
qed simp

text \<open>
  Property C6. Reassembly. Whatever way the transport cuts a stream of frames into chunks, the
  session passes exactly the packages of the frames received completely so far to the task manager,
  each once and in the order of the stream, and keeps exactly the bytes of the frame that is still
  incomplete; once the stream has arrived as a whole, every package has been passed on and the
  buffer is empty.
\<close>

theorem session_reassembles:
  assumes "buf_inv (readBuffer s)" and "contents (readBuffer s) = []"
    and "list_all2 (is_frame E) fs ps" and "concat chunks = take n (concat fs)"
    and "n \<le> length (concat fs)"
  shows "\<exists>s'. feed (read_chunk E) chunks s = Inr (take (frames_in fs n) ps, s')
    \<and> buf_inv (readBuffer s')
    \<and> concat (take (frames_in fs n) fs) @ contents (readBuffer s') = concat chunks
    \<and> (n = length (concat fs) \<longrightarrow> take (frames_in fs n) ps = ps \<and> contents (readBuffer s') = [])"
proof -
  obtain b where b: "feed (\<lambda>d b. rbind (append_data d (length d) b) (readLoop E)) chunks (readBuffer s)
      = Inr (take (frames_in fs n) ps, b)" "buf_inv b"
    "contents b = take (n - complete fs n) (concat (drop (frames_in fs n) fs))"
    using rd.feed_stream [OF assms(1-5)] by blast
  have "concat (take (frames_in fs n) fs) @ contents b = concat chunks"
    using take_concat_split [OF complete_le [of fs n]] b(3) assms(4) by simp
  moreover have "take (frames_in fs n) ps = ps \<and> contents b = []" if "n = length (concat fs)"
    using b(3) that frames_in_all [of fs n] list_all2_lengthD [OF assms(3)] by simp
  ultimately show ?thesis
    using b(1,2) by (intro exI [of _ "s\<lparr>readBuffer := b\<rparr>"]) (simp add: feed_read_chunk)
qed

lemma demo_is_frame:
  "is_frame (sample_env True 3) (wire_frame (sample_env True 3) (header demo_raw) ''Other'' ''abc'')
     demo_raw"
proof -
  have "frame_ok (header demo_raw) ''Other'' ''abc''" using demo_raw_ok by (simp add: demo_raw_def)
  moreover have "frame_package (sample_env True 3) (header demo_raw) ''Other'' ''abc'' = Some demo_raw"
    by (simp add: frame_package_def demo_raw_def HasPrefixString_def)
  ultimately show ?thesis using sample_env_net unfolding is_frame_def by blast
qed

definition demo_session :: session where
  "demo_session = \<lparr>endpoint = '''', readBuffer = buffer_of [], writeDeque = [], idCounter = 0,
     sessionId = 1\<rparr>"

theorem session_reassembles_witness:
  "let f = wire_frame (sample_env True 3) (header demo_raw) ''Other'' ''abc''
   in \<exists>s'. feed (read_chunk (sample_env True 3)) [take 7 f, drop 7 f @ take 25 f, drop 25 f]
        demo_session = Inr ([demo_raw, demo_raw], s') \<and> contents (readBuffer s') = []"
proof -
  let ?E = "sample_env True 3"
  let ?f = "wire_frame ?E (header demo_raw) ''Other'' ''abc''"
  let ?ds = "[take 7 ?f, drop 7 ?f @ take 25 ?f, drop 25 ?f]"
  have fr: "list_all2 (is_frame ?E) [?f, ?f] [demo_raw, demo_raw]" using demo_is_frame by simp
  have "concat ?ds = take (length (concat [?f, ?f])) (concat [?f, ?f])"
    by simp
  with session_reassembles [OF _ _ fr this order_refl, of demo_session]
  show ?thesis by (auto simp: demo_session_def Let_def)
qed

section \<open>The write queue\<close>

text \<open>
  The write side of a session together with its surroundings: the handlers posted to the event loop
  for it, the asynchronous writes that have been started and have not completed, the bytes that
  have reached the transport, whether a write has failed, and all buffers posted so far. Several
  threads may post packages; the handlers run on the thread of the event loop, one at a time. A
  write completes as a whole or fails after some part of its bytes.
\<close>

record wsys =
  conn :: session
  posted :: "buffer list"
  inflight :: "char list list"
  wire :: "char list"
  broken :: bool
  accepted :: "buffer list"

fun apply_effect :: "'m effect \<Rightarrow> wsys \<Rightarrow> wsys" where
  "apply_effect (PostWriteBuffer b) w = w\<lparr>posted := posted w @ [b], accepted := accepted w @ [b]\<rparr>"
| "apply_effect (AsyncWrite d) w = w\<lparr>inflight := inflight w @ [d]\<rparr>"
| "apply_effect _ w = w"

inductive wstep :: "('d, 'm) env \<Rightarrow> wsys \<Rightarrow> wsys \<Rightarrow> bool" for E :: "('d, 'm) env" where
  post: "Session_postPackage E p = Inr (p', effs) \<Longrightarrow> wstep E w (fold apply_effect effs w)"
| run_post: "posted w = b # bs \<Longrightarrow> Session_writeBuffer b (conn w) = Inr (s', effs :: 'm effect list) \<Longrightarrow>
    wstep E w (fold apply_effect effs (w\<lparr>conn := s', posted := bs\<rparr>))"
| write_done: "inflight w = xs @ d # ys \<Longrightarrow>
    Session_doWrite False (conn w) = Inr (s', effs :: 'm effect list) \<Longrightarrow>
    wstep E w (fold apply_effect effs
      (w\<lparr>conn := s', inflight := xs @ ys, wire := wire w @ d\<rparr>))"
| write_failed: "inflight w = xs @ d # ys \<Longrightarrow>
    Session_doWrite True (conn w) = Inr (s', effs :: 'm effect list) \<Longrightarrow>
    wstep E w (fold apply_effect effs
      (w\<lparr>conn := s', inflight := xs @ ys, wire := wire w @ take k d, broken := True\<rparr>))"

definition wsys_init :: "session \<Rightarrow> wsys" where
  "wsys_init s = \<lparr>conn = s, posted = [], inflight = [], wire = [], broken = False, accepted = []\<rparr>"

definition bytes_of :: "buffer list \<Rightarrow> char list" where
  "bytes_of bs = concat (map contents bs)"

lemma bytes_of_simps [simp]:
  "bytes_of [] = []" "bytes_of (b # bs) = contents b @ bytes_of bs"
  "bytes_of (bs @ cs) = bytes_of bs @ bytes_of cs"
  by (simp_all add: bytes_of_def)

definition winv :: "wsys \<Rightarrow> bool" where
  "winv w \<longleftrightarrow>
     (\<forall>b \<in> set (writeDeque (conn w) @ posted w). buf_inv b) \<and>
     (if broken w
      then inflight w = [] \<and> writeDeque (conn w) \<noteq> [] \<and> prefix (wire w) (bytes_of (accepted w))
      else inflight w = map contents (take 1 (writeDeque (conn w))) \<and>
           wire w @ bytes_of (writeDeque (conn w)) @ bytes_of (posted w) = bytes_of (accepted w))"

lemma append_data_keeps_inv:
  assumes "buf_inv b" and "append_data d n b = Inr b'"
  shows "buf_inv b'"
proof -
  have "n \<le> length d"
    using assms(2) by (auto simp: append_data_def load_array_def rbind_eq_Inr split: if_splits)
  from append_data_spec [OF assms(1) this] assms(2) show ?thesis by force
qed

lemma append_frame_keeps_inv:
  assumes "buf_inv b" and "bufferAppendHeader E h b = Inr b1"
    and "append_data tn n b1 = Inr b2" and "append_data c m b2 = Inr b'"
  shows "buf_inv b'"
proof -
  have "buf_inv b1" using assms(2) append_data_keeps_inv [OF assms(1)]
    unfolding bufferAppendHeader_def append_void_def by blast
  from append_data_keeps_inv [OF append_data_keeps_inv [OF this assms(3)] assms(4)] show ?thesis .
qed

lemma encode_keeps_inv:
  assumes "buf_inv b" and "encode E p b = Inr (ok, p', b')"
  shows "buf_inv b'"
proof (cases "typeName p = [] \<or> MSGBUS E \<and> \<not> HasPrefixString (typeName p) ''ProtoBase''")
  case True
  with assms show ?thesis
    by (auto simp: encode_def rbind_eq_Inr split: if_splits intro: append_frame_keeps_inv)
next
  case False
  then have "typeName p \<noteq> []" "\<not> (MSGBUS E \<and> \<not> HasPrefixString (typeName p) ''ProtoBase'')"
    by simp_all
  note enc = assms(2) [unfolded encode_def if_not_P [OF this(1)] if_not_P [OF this(2)]]
  show ?thesis
  proof (cases "msgPtr p")
    case (Some m)
    note enc' = enc [unfolded Some option.case]
    show ?thesis
    proof (cases "SerializePartialToArray E m (ByteSizeLong E m)")
      case None
      with enc' assms(1) show ?thesis by simp
    next
      case (Some c)
      from enc' [unfolded Some option.case Let_def append_str_def prod.case_eq_if]
      show ?thesis unfolding rbind_eq_Inr
        by (auto intro: append_frame_keeps_inv [OF assms(1)])
    qed
  qed (use enc in simp)
qed

lemma postPackage_effects:
  assumes "Session_postPackage E p = Inr (p', effs)"
  obtains "effs = []" | b where "effs = [PostWriteBuffer b]" "buf_inv b"
proof -
  obtain b where "Buffer_new kInitialSize = Inr b" "buf_inv b" using Buffer_new_default by blast
  with assms that show ?thesis
    by (auto simp: Session_postPackage_def rbind_eq_Inr dest: encode_keeps_inv split: if_splits)
qed

lemma async_write_front_Cons:
  "buf_inv b \<Longrightarrow> async_write_front (b # bs) = Inr [AsyncWrite (contents b)]"
  by (simp add: async_write_front_def load_peek length_contents)

lemma writeBuffer_effects:
  assumes "buf_inv b"
  shows "Session_writeBuffer b s = Inr (s\<lparr>writeDeque := writeDeque s @ [b]\<rparr>,
    if writeDeque s = [] then [AsyncWrite (contents b)] else [])"
  using assms by (simp add: Session_writeBuffer_def async_write_front_Cons)

lemma doWrite_effects:
  assumes "writeDeque s = b # bs" and "\<forall>b \<in> set bs. buf_inv b"
  shows "Session_doWrite False s = Inr (s\<lparr>writeDeque := bs\<rparr>, map (AsyncWrite \<circ> contents) (take 1 bs))"
  using assms by (cases bs) (simp_all add: Session_doWrite_def async_write_front_Cons)

lemma doWrite_failed: "Session_doWrite True s = Inr (s, [RoomLeave])"
  by (simp add: Session_doWrite_def)

lemma winv_init: "writeDeque s = [] \<Longrightarrow> winv (wsys_init s)"
  by (simp add: winv_def wsys_init_def)

lemma winv_post:
  assumes "winv w" and "Session_postPackage E p = Inr (p', effs)"
  shows "winv (fold apply_effect effs w)"
  using postPackage_effects [OF assms(2)] assms(1)
  by (cases rule: postPackage_effects [OF assms(2)]) (auto simp: winv_def split: if_splits)

lemma winv_run_post:
  assumes "winv w" and "posted w = b # bs"
    and "Session_writeBuffer b (conn w) = Inr (s', effs :: 'm effect list)"
  shows "winv (fold apply_effect effs (w\<lparr>conn := s', posted := bs\<rparr>))"
proof -
  have b: "buf_inv b" using assms(1,2) by (simp add: winv_def)
  from assms show ?thesis unfolding writeBuffer_effects [OF b]
    by (cases "writeDeque (conn w)") (auto simp: winv_def split: if_splits)
qed

lemma winv_inflight:
  assumes "winv w" and "inflight w = xs @ d # ys"
  obtains b q where "\<not> broken w" "xs = []" "ys = []" "writeDeque (conn w) = b # q" "d = contents b"
    "\<forall>b \<in> set q. buf_inv b"
proof -
  from assms have nb: "\<not> broken w" and "xs @ d # ys = map contents (take 1 (writeDeque (conn w)))"
    by (auto simp: winv_def split: if_splits)
  then show ?thesis using assms(1) that
    by (cases "writeDeque (conn w)") (auto simp: winv_def append_eq_Cons_conv)
qed

lemma winv_write_done:
  assumes "winv w" and "inflight w = xs @ d # ys"
    and "Session_doWrite False (conn w) = Inr (s', effs :: 'm effect list)"
  shows "winv (fold apply_effect effs (w\<lparr>conn := s', inflight := xs @ ys, wire := wire w @ d\<rparr>))"
proof -
  obtain b q where b: "\<not> broken w" "xs = []" "ys = []" "writeDeque (conn w) = b # q"
    "d = contents b" "\<forall>b \<in> set q. buf_inv b"
    using winv_inflight [OF assms(1,2)] .
  have "effs = map (AsyncWrite \<circ> contents) (take 1 q)" "s' = (conn w)\<lparr>writeDeque := q\<rparr>"
    using assms(3) unfolding doWrite_effects [OF b(4,6)] by auto
  with assms(1) b show ?thesis by (cases q) (auto simp: winv_def)
qed

lemma winv_write_failed:
  assumes "winv w" and "inflight w = xs @ d # ys"
    and "Session_doWrite True (conn w) = Inr (s', effs :: 'm effect list)"
  shows "winv (fold apply_effect effs
    (w\<lparr>conn := s', inflight := xs @ ys, wire := wire w @ take k d, broken := True\<rparr>))"
proof -
  obtain b q where b: "\<not> broken w" "xs = []" "ys = []" "writeDeque (conn w) = b # q"
    "d = contents b" "\<forall>b \<in> set q. buf_inv b"
    using winv_inflight [OF assms(1,2)] .
  have acc: "bytes_of (accepted w) = wire w @ contents b @ bytes_of q @ bytes_of (posted w)"
    using assms(1) b(1,4) by (simp add: winv_def)
  have "prefix (wire w @ take k (contents b)) (wire w @ contents b @ bytes_of q @ bytes_of (posted w))"
    by (simp add: prefix_prefix take_is_prefix)
  with assms(1,3) b acc show ?thesis by (auto simp: winv_def doWrite_failed)
qed

lemma wstep_winv: "wstep E w w' \<Longrightarrow> winv w \<Longrightarrow> winv w'"
  by (induction rule: wstep.induct)
    (simp_all add: winv_post winv_run_post winv_write_done winv_write_failed)

lemma winv_wire:
  assumes "winv w"
  shows "prefix (wire w) (bytes_of (accepted w))"
    and "\<not> broken w \<Longrightarrow> posted w = [] \<Longrightarrow> inflight w = [] \<Longrightarrow> wire w = bytes_of (accepted w)"
proof -
  have a: "wire w @ bytes_of (writeDeque (conn w)) @ bytes_of (posted w) = bytes_of (accepted w)"
    if "\<not> broken w" using assms that by (simp add: winv_def)
  then show "prefix (wire w) (bytes_of (accepted w))"
    using assms prefixI [OF a [symmetric]] by (cases "broken w") (simp_all add: winv_def)
  show "wire w = bytes_of (accepted w)" if "\<not> broken w" "posted w = []" "inflight w = []"
    using assms a that by (cases "writeDeque (conn w)") (simp_all add: winv_def)
qed

lemma winv_drain_step:
  assumes "winv w" and "\<not> broken w" and "posted w \<noteq> [] \<or> inflight w \<noteq> []"
  shows "\<exists>w'. wstep (E :: ('d, 'm) env) w w' \<and> \<not> broken w' \<and> accepted w' = accepted w \<and>
    2 * length (posted w') + length (writeDeque (conn w'))
      < 2 * length (posted w) + length (writeDeque (conn w))"
proof (cases "posted w")
  case (Cons b bs)
  then have "buf_inv b" using assms(1) by (simp add: winv_def)
  note e = writeBuffer_effects [OF this, of "conn w"]
  let ?w = "fold apply_effect (if writeDeque (conn w) = [] then [AsyncWrite (contents b) :: 'm effect] else [])
    (w\<lparr>conn := (conn w)\<lparr>writeDeque := writeDeque (conn w) @ [b]\<rparr>, posted := bs\<rparr>)"
  have "wstep E w ?w" by (rule wstep.run_post [OF Cons e])
  then show ?thesis using Cons assms(2) by (intro exI [of _ ?w]) auto
next
  case Nil
  with assms(3) obtain d ds where d: "inflight w = [] @ d # ds" by (auto simp: neq_Nil_conv)
  obtain b q where b: "ds = []" "writeDeque (conn w) = b # q" "d = contents b"
    "\<forall>b \<in> set q. buf_inv b"
    using winv_inflight [OF assms(1) d] .
  let ?w = "fold apply_effect (map (AsyncWrite \<circ> contents) (take 1 q) :: 'm effect list)
    (w\<lparr>conn := (conn w)\<lparr>writeDeque := q\<rparr>, inflight := [] @ ds, wire := wire w @ d\<rparr>)"
  have "wstep E w ?w" by (rule wstep.write_done [OF d doWrite_effects [OF b(2,4)]])
  then show ?thesis using assms(2) Nil b(2) by (intro exI [of _ ?w]) (cases q; auto)
qed

interpretation wq: draining_system "wstep E" winv "\<lambda>w. \<not> broken w"
    "\<lambda>w. posted w = [] \<and> inflight w = []" "\<lambda>w. 2 * length (posted w) + length (writeDeque (conn w))" accepted
  for E :: "('d, 'm) env"
  by unfold_locales (auto intro: wstep_winv winv_drain_step)

subsection \<open>Properties of the write queue\<close>

text \<open>
  Property C8. Safety of the write queue. In every reachable state of a session, for any number of
  threads posting packages and any interleaving with the completions of writes, at most one
  asynchronous write is under way, and the bytes that have reached the peer are a prefix of the
  encoded packages in the order they were posted: no frame is interleaved with another, repeated,
  skipped or reordered. When nothing is posted or under way and no write has failed, all of them
  have been written.
\<close>

theorem write_queue_fifo:
  assumes "(wstep E)\<^sup>*\<^sup>* (wsys_init s) w" and "writeDeque s = []"
  shows "length (inflight w) \<le> 1 \<and> prefix (wire w) (bytes_of (accepted w)) \<and>
    (\<not> broken w \<longrightarrow> posted w = [] \<longrightarrow> inflight w = [] \<longrightarrow> wire w = bytes_of (accepted w))"
proof -
  have w: "winv w" using wq.steps_keep [OF assms(1) winv_init [OF assms(2)]] .
  then have "length (inflight w) \<le> 1" by (auto simp: winv_def split: if_splits)
  with winv_wire [OF w] show ?thesis by blast
qed

lemma demo_post:
  "\<exists>b. Session_postPackage (sample_env True 3) demo_raw = Inr (demo_raw, [PostWriteBuffer b])
     \<and> buf_inv b
     \<and> contents b = wire_frame (sample_env True 3) (header demo_raw) ''Other'' ''abc''"
proof -
  obtain b0 where b0: "Buffer_new kInitialSize = Inr b0" "buf_inv b0" "contents b0 = []"
    using Buffer_new_default by blast
  have raw: "MSGBUS (sample_env True 3)" "\<not> HasPrefixString (typeName demo_raw) ''ProtoBase''"
    "body demo_raw \<noteq> []"
    by (simp_all add: demo_raw_def HasPrefixString_def)
  obtain b where "encode (sample_env True 3) demo_raw b0 = Inr (True, demo_raw, b)" "buf_inv b"
    "contents b = contents b0
       @ wire_frame (sample_env True 3) (header demo_raw) (typeName demo_raw) (body demo_raw)"
    using encode_raw_spec [OF b0(2) raw(1,2) demo_raw_ok raw(3)] .
  with b0 show ?thesis by (simp add: Session_postPackage_def demo_raw_def)
qed

lemma demo_posted:
  obtains b w where "buf_inv b" "(wstep (sample_env True 3))\<^sup>*\<^sup>* (wsys_init demo_session) w"
    "posted w = [b]" "accepted w = [b]" "\<not> broken w" "wire w = []" "writeDeque (conn w) = []"
    "inflight w = []"
    "contents b = wire_frame (sample_env True 3) (header demo_raw) ''Other'' ''abc''"
proof -
  obtain b where b: "Session_postPackage (sample_env True 3) demo_raw
      = Inr (demo_raw, [PostWriteBuffer b])" "buf_inv b"
    "contents b = wire_frame (sample_env True 3) (header demo_raw) ''Other'' ''abc''"
    using demo_post by blast
  let ?w = "fold apply_effect [PostWriteBuffer b :: (string \<times> string) effect] (wsys_init demo_session)"
  have "(wstep (sample_env True 3))\<^sup>*\<^sup>* (wsys_init demo_session) ?w"
    by (rule r_into_rtranclp) (rule wstep.post [OF b(1)])
  with b(2,3) show ?thesis
    by (intro that [of b ?w]) (simp_all add: wsys_init_def demo_session_def)
qed

lemma demo_writing:
  obtains b w where "buf_inv b" "(wstep (sample_env True 3))\<^sup>*\<^sup>* (wsys_init demo_session) w"
    "inflight w = [contents b]" "writeDeque (conn w) = [b]" "\<not> broken w" "wire w = []"
    "contents b = wire_frame (sample_env True 3) (header demo_raw) ''Other'' ''abc''"
proof -
  let ?E = "sample_env True 3"
  obtain b w where w: "buf_inv b" "(wstep ?E)\<^sup>*\<^sup>* (wsys_init demo_session) w"
    "posted w = [b]" "accepted w = [b]" "\<not> broken w" "wire w = []" "writeDeque (conn w) = []"
    "inflight w = []" "contents b = wire_frame ?E (header demo_raw) ''Other'' ''abc''"
    using demo_posted .
  have "Session_writeBuffer b (conn w) = Inr ((conn w)\<lparr>writeDeque := [b]\<rparr>,
      [AsyncWrite (contents b) :: (string \<times> string) effect])"
    using w(7) unfolding writeBuffer_effects [OF w(1)] by simp
  note step = wstep.run_post [OF w(3) this, of ?E]
  let ?w = "fold apply_effect [AsyncWrite (contents b) :: (string \<times> string) effect]
    (w\<lparr>conn := (conn w)\<lparr>writeDeque := [b]\<rparr>, posted := []\<rparr>)"
  have "(wstep ?E)\<^sup>*\<^sup>* (wsys_init demo_session) ?w" using w(2) step by simp
  with w show ?thesis by (intro that [of b ?w]) simp_all
qed

lemma demo_session_idle [simp]: "writeDeque demo_session = []"
  by (simp add: demo_session_def)

theorem write_queue_fifo_witness:
  "\<exists>w. (wstep (sample_env True 3))\<^sup>*\<^sup>* (wsys_init demo_session) w \<and> inflight w \<noteq> [] \<and>
     length (inflight w) \<le> 1 \<and> prefix (wire w) (bytes_of (accepted w))"
proof -
  obtain b w where w: "(wstep (sample_env True 3))\<^sup>*\<^sup>* (wsys_init demo_session) w"
    "inflight w = [contents b]" using demo_writing .
  from write_queue_fifo [OF w(1)] w show ?thesis by auto
qed

text \<open>
  Property C29. The write queue drains. From every reachable state in which no write has failed, the
  handlers already posted and the completions of the writes under way lead to a state in which
  everything accepted up to then has been written; no package is stranded in the queue.
\<close>

theorem write_queue_drains:
  assumes "(wstep E)\<^sup>*\<^sup>* (wsys_init s) w" and "writeDeque s = []" and "\<not> broken w"
  shows "\<exists>w'. (wstep E)\<^sup>*\<^sup>* w w' \<and> accepted w' = accepted w \<and> \<not> broken w'
    \<and> wire w' = bytes_of (accepted w)"
proof -
  have w: "winv w" using wq.steps_keep [OF assms(1) winv_init [OF assms(2)]] .
  from wq.drains [OF this assms(3)] obtain w' where w': "(wstep E)\<^sup>*\<^sup>* w w'" "winv w'" "\<not> broken w'"
    "accepted w' = accepted w" "posted w' = []" "inflight w' = []" by blast
  have "wire w' = bytes_of (accepted w')" using winv_wire(2) [OF w'(2,3,5,6)] .
  with w' show ?thesis by auto
qed

theorem write_queue_drains_witness:
  "\<exists>w'. (wstep (sample_env True 3))\<^sup>*\<^sup>* (wsys_init demo_session) w' \<and> wire w'
     = wire_frame (sample_env True 3) (header demo_raw) ''Other'' ''abc''"
proof -
  obtain b w where w: "(wstep (sample_env True 3))\<^sup>*\<^sup>* (wsys_init demo_session) w"
    "accepted w = [b]" "\<not> broken w"
    "contents b = wire_frame (sample_env True 3) (header demo_raw) ''Other'' ''abc''"
    using demo_posted .
  from write_queue_drains [OF w(1) demo_session_idle w(3)] obtain w' where
    "(wstep (sample_env True 3))\<^sup>*\<^sup>* w w'" "wire w' = bytes_of (accepted w)" by blast
  with w show ?thesis by (auto intro: rtranclp_trans)
qed

text \<open>
  A failed write is final. Once a write of a session has failed, no continuation writes
  another byte: the failed buffer stays at the front of the queue, so that every later package is
  queued behind it and is never sent.
\<close>

theorem write_failure_final:
  assumes "(wstep E)\<^sup>*\<^sup>* (wsys_init s) w" and "writeDeque s = []" and "broken w"
    and "(wstep E)\<^sup>*\<^sup>* w w'"
  shows "broken w' \<and> wire w' = wire w \<and> inflight w' = []"
proof -
  have w: "winv w" using wq.steps_keep [OF assms(1) winv_init [OF assms(2)]] .
  from assms(4) have "broken w' \<and> wire w' = wire w \<and> winv w'"
  proof (induction rule: rtranclp_induct)
    case (step y z)
    then have y: "broken y" "wire y = wire w" "winv y" by simp_all
    then have i: "inflight y = []" "writeDeque (conn y) \<noteq> []" by (simp_all add: winv_def)
    have "winv z" using wstep_winv [OF step.hyps(2) y(3)] .
    moreover from step.hyps(2) have "broken z \<and> wire z = wire w"
    proof cases
      case (post p p' effs)
      then show ?thesis using y by (cases rule: postPackage_effects [OF post(2)]) auto
    next
      case (run_post b bs s' effs)
      have "buf_inv b" using y(3) run_post(2) by (simp add: winv_def)
      then have "effs = []" using run_post(3) i(2) by (simp add: writeBuffer_effects)
      with run_post(1) y show ?thesis by simp
    qed (use i in auto)
    ultimately show ?case by blast
  qed (use assms(3) w in simp)
  then show ?thesis by (auto simp: winv_def)
qed

theorem write_failure_final_witness:
  "\<exists>w w'. (wstep (sample_env True 3))\<^sup>*\<^sup>* (wsys_init demo_session) w \<and> broken w \<and> wire w = ''`~''
     \<and> wstep (sample_env True 3) w w' \<and> posted w' \<noteq> [] \<and> wire w' = ''`~''"
proof -
  let ?E = "sample_env True 3"
  obtain b w where w: "(wstep ?E)\<^sup>*\<^sup>* (wsys_init demo_session) w" "inflight w = [] @ contents b # []"
    "wire w = []" "contents b = wire_frame ?E (header demo_raw) ''Other'' ''abc''"
    using demo_writing by (metis append_Nil)
  let ?w1 = "fold apply_effect [RoomLeave :: (string \<times> string) effect]
    (w\<lparr>conn := conn w, inflight := [] @ [], wire := wire w @ take 2 (contents b), broken := True\<rparr>)"
  have "wstep ?E w ?w1" by (rule wstep.write_failed [OF w(2) doWrite_failed])
  with w(1) have r1: "(wstep ?E)\<^sup>*\<^sup>* (wsys_init demo_session) ?w1" by auto
  obtain b2 where "Session_postPackage ?E demo_raw = Inr (demo_raw, [PostWriteBuffer b2])"
    using demo_post by blast
  note r2 = wstep.post [OF this, of ?w1]
  from write_failure_final [OF r1 demo_session_idle _ r_into_rtranclp [of "wstep ?E", OF r2]]
  have "wire (fold apply_effect [PostWriteBuffer b2 :: (string \<times> string) effect] ?w1) = wire ?w1"
    by simp
  moreover have "wire ?w1 = ''`~''"
    using w(3,4) by (simp add: wire_frame_def header_bytes_def net_header_def demo_raw_def
        PacHeader_new_def flag0_def flag1_def numeral_2_eq_2)
  ultimately show ?thesis using r1 r2 by (intro exI [of _ ?w1] exI conjI) (auto simp: w(3))
qed

section \<open>From one session to the other end\<close>

lemma postPackage_sendable:
  assumes "net_order_ok E" and "zlib_ok E" and "proto_ok E m" and "sendable E p m"
  obtains p' b where "Session_postPackage E p = Inr (p', [PostWriteBuffer b])"
    "is_frame E (contents b) (received E p m)"
proof -
  obtain c0 h1 content where f:
    "SerializePartialToArray E m (ByteSizeLong E m) = Some c0"
    "encode_content E c0 (header p) = (h1, content)"
    "frame_ok (sent_header E m h1 (length content)) (GetTypeName E m) content"
    "frame_package E (sent_header E m h1 (length content)) (GetTypeName E m) content
       = Some (received E p m)"
    using sendable_frame [OF assms(4,2,3)] .
  have s: "msgPtr p = Some m" "typeName p \<noteq> []" "length (GetTypeName E m) < 2 ^ 15"
    "MSGBUS E \<longrightarrow> HasPrefixString (typeName p) ''ProtoBase''"
    using assms(4) by (auto simp: sendable_def)
  obtain b0 where b0: "Buffer_new kInitialSize = Inr b0" "buf_inv b0" "contents b0 = []"
    using Buffer_new_default by blast
  let ?h = "sent_header E m h1 (length content)"
  obtain b where b: "encode E p b0 = Inr (True, p\<lparr>header := ?h, typeName := GetTypeName E m\<rparr>, b)"
    "contents b = contents b0 @ wire_frame E ?h (GetTypeName E m) content"
    using encode_message_spec [OF b0(2) s(1,2,4) f(1,2) s(3)] .
  have "is_frame E (contents b) (received E p m)"
    using b(2) b0(3) f(3,4) assms(1) unfolding is_frame_def by auto
  moreover have "Session_postPackage E p
      = Inr (p\<lparr>header := ?h, typeName := GetTypeName E m\<rparr>, [PostWriteBuffer b])"
    using b0(1) b(1) by (simp add: Session_postPackage_def)
  ultimately show ?thesis by (rule that [rotated])
qed

lemma posted_frames:
  assumes "net_order_ok E" and "zlib_ok E"
    and "\<forall>(p, m) \<in> set pms. proto_ok E m \<and> sendable E p m"
    and "list_all2 (\<lambda>(p, m) b. \<exists>p'. Session_postPackage E p = Inr (p', [PostWriteBuffer b])) pms bs"
  shows "list_all2 (is_frame E) (map contents bs) (map (\<lambda>(p, m). received E p m) pms)"
  using assms(4,3)
proof (induction rule: list_all2_induct)
  case (Cons pm pms b bs)
  obtain p m where pm: "pm = (p, m)" by (cases pm)
  with Cons obtain p' where p: "Session_postPackage E p = Inr (p', [PostWriteBuffer b])"
    "proto_ok E m" "sendable E p m" by auto
  obtain q b' where "Session_postPackage E p = Inr (q, [PostWriteBuffer b'])"
    "is_frame E (contents b') (received E p m)"
    using postPackage_sendable [OF assms(1,2) p(2,3)] .
  with p(1) have "is_frame E (contents b) (received E p m)" by simp
  with Cons pm show ?case by auto
qed simp

lemma prefix_take: "prefix xs ys \<Longrightarrow> xs = take (length xs) ys \<and> length xs \<le> length ys"
  by (auto simp: prefix_def)

text \<open>
  Property C5. End to end. Let a session post packages with sendable messages, and let another
  endpoint receive the bytes that have reached the transport so far, cut into chunks in any way.
  The receiver handles a prefix of the posted packages, in the order in which they were posted and
  each exactly once, with the message, message type and id of the sender; when the sender's queue
  has drained, it has handled all of them.
\<close>

theorem end_to_end:
  assumes env: "net_order_ok E" "zlib_ok E"
    and msgs: "\<forall>(p, m) \<in> set pms. proto_ok E m \<and> sendable E p m"
    and run: "(wstep E)\<^sup>*\<^sup>* (wsys_init s) w" "writeDeque s = []"
    and acc: "list_all2 (\<lambda>(p, m) b. \<exists>p'. Session_postPackage E p = Inr (p', [PostWriteBuffer b]))
      pms (accepted w)"
    and r: "buf_inv (readBuffer r)" "contents (readBuffer r) = []"
    and chunks: "concat chunks = wire w"
  shows "\<exists>k r'. feed (read_chunk E) chunks r
      = Inr (take k (map (\<lambda>(p, m). received E p m) pms), r') \<and>
    (\<not> broken w \<longrightarrow> posted w = [] \<longrightarrow> inflight w = [] \<longrightarrow> length pms \<le> k)"
proof -
  let ?fs = "map contents (accepted w)" and ?ps = "map (\<lambda>(p, m). received E p m) pms"
  have fs: "list_all2 (is_frame E) ?fs ?ps" using posted_frames [OF env msgs acc] .
  have w: "winv w" using wq.steps_keep [OF run(1) winv_init [OF run(2)]] .
  have pre: "prefix (wire w) (concat ?fs)"
    using winv_wire(1) [OF w] by (simp add: bytes_of_def)
  let ?n = "length (wire w)"
  have n: "concat chunks = take ?n (concat ?fs)" "?n \<le> length (concat ?fs)"
    using prefix_take [OF pre] chunks by simp_all
  obtain b where "feed (\<lambda>d b. rbind (append_data d (length d) b) (readLoop E)) chunks (readBuffer r)
      = Inr (take (frames_in ?fs ?n) ?ps, b)"
    using rd.feed_stream [OF r fs n] by blast
  then have "feed (read_chunk E) chunks r = Inr (take (frames_in ?fs ?n) ?ps, r\<lparr>readBuffer := b\<rparr>)"
    by (simp add: feed_read_chunk)
  moreover have "length pms \<le> frames_in ?fs ?n"
    if "\<not> broken w" "posted w = []" "inflight w = []"
  proof -
    have "wire w = concat ?fs"
      using winv_wire(2) [OF w that] by (simp add: bytes_of_def)
    then have "frames_in ?fs ?n = length ?fs" by (intro frames_in_all) simp
    then show ?thesis using list_all2_lengthD [OF acc] by simp
  qed
  ultimately show ?thesis by blast
qed

theorem end_to_end_witness:
  "\<exists>w r'. (wstep (sample_env False 3))\<^sup>*\<^sup>* (wsys_init demo_session) w \<and>
     feed (read_chunk (sample_env False 3)) [take 9 (wire w), drop 9 (wire w)] demo_session
       = Inr ([received (sample_env False 3) demo_package (''ProtoSimple.PingPongReq'', ''hello'')], r')"
proof -
  let ?E = "sample_env False 3" and ?m = "(''ProtoSimple.PingPongReq'', ''hello'')"
  have m: "\<forall>(p, m) \<in> set [(demo_package, ?m)]. proto_ok ?E m \<and> sendable ?E p m"
    using demo_sendable by (simp add: sample_env_proto)
  obtain q b where q: "Session_postPackage ?E demo_package = Inr (q, [PostWriteBuffer b])"
  proof -
    have "proto_ok ?E ?m" using m by simp
    from postPackage_sendable [OF sample_env_net sample_env_zlib this demo_sendable] that
    show thesis by blast
  qed
  let ?w1 = "fold apply_effect [PostWriteBuffer b :: (string \<times> string) effect] (wsys_init demo_session)"
  have r1: "(wstep ?E)\<^sup>*\<^sup>* (wsys_init demo_session) ?w1"
    by (rule r_into_rtranclp) (rule wstep.post [OF q])
  have "winv ?w1" using wq.steps_keep [OF r1 winv_init [OF demo_session_idle]] .
  moreover have "\<not> broken ?w1" and a1: "accepted ?w1 = [b]" by (simp_all add: wsys_init_def)
  ultimately obtain w where w: "(wstep ?E)\<^sup>*\<^sup>* ?w1 w" "\<not> broken w" "accepted w = accepted ?w1"
    "posted w = []" "inflight w = []" using wq.drains by blast
  have run: "(wstep ?E)\<^sup>*\<^sup>* (wsys_init demo_session) w" using r1 w(1) by (rule rtranclp_trans)
  have acc: "list_all2 (\<lambda>(p, m) b. \<exists>p'. Session_postPackage ?E p = Inr (p', [PostWriteBuffer b]))
      [(demo_package, ?m)] (accepted w)"
    using q unfolding w(3) a1 by simp
  have "buf_inv (readBuffer demo_session)" "contents (readBuffer demo_session) = []"
    by (simp_all add: demo_session_def)
  from end_to_end [OF sample_env_net sample_env_zlib m run demo_session_idle acc this,
      of "[take 9 (wire w), drop 9 (wire w)]"] w
  obtain k r' where k: "feed (read_chunk ?E) [take 9 (wire w), drop 9 (wire w)] demo_session
      = Inr (take k (map (\<lambda>(p, m). received ?E p m) [(demo_package, ?m)]), r')" "1 \<le> k"
    by auto
  with run show ?thesis by auto
qed

end
