(* ===== verification/SessionRoom.thy ===== *)
theory SessionRoom
  imports Session
begin

text \<open>
  The registry of live sessions and of their subscriptions, \<^verbatim>\<open>SessionRoom\<close> of
  \<^verbatim>\<open>asio/internal/Session.cpp\<close>. A session is known to the room as a publisher: a reference with an
  id and the two calls \<^verbatim>\<open>publishMessage\<close> and \<^verbatim>\<open>deliverPackage\<close>. The reference type is a type
  variable and the calls the room makes are returned as a list. The two mutexes of the class delimit
  critical sections; a method that takes them one after the other is the composition of its
  sections, and the sections are also modelled as steps of concurrent threads.
\<close>

section \<open>State and critical sections\<close>

type_synonym sub_cache = "string \<rightharpoonup> int set"

record 'p room =
  subscribeCache :: sub_cache
  deliverCache :: sub_cache
  sessionCache :: "int \<rightharpoonup> 'p"

datatype ('p, 'm) call =
    CallPublishMessage 'p 'm
  | CallDeliverPackage 'p "'m Package"

definition SessionRoom_new :: "'p room" where
  "SessionRoom_new = \<lparr>subscribeCache = Map.empty, deliverCache = Map.empty, sessionCache = Map.empty\<rparr>"

definition SessionRoom_join :: "('p \<Rightarrow> int) \<Rightarrow> 'p option \<Rightarrow> 'p room \<Rightarrow> 'p room" where
  "SessionRoom_join pid publisher r =
     (case publisher of
        None \<Rightarrow> r
      | Some p \<Rightarrow> r\<lparr>sessionCache := (sessionCache r)(pid p \<mapsto> p)\<rparr>)"

definition removeId :: "sub_cache \<Rightarrow> int \<Rightarrow> sub_cache" where
  "removeId mp i = (\<lambda>name. map_option (\<lambda>ids. ids - {i}) (mp name))"

definition leave_sessions :: "int \<Rightarrow> 'p room \<Rightarrow> 'p room" where
  "leave_sessions i r =
     (if sessionCache r i \<noteq> None then r\<lparr>sessionCache := (sessionCache r)(i := None)\<rparr> else r)"

definition leave_protos :: "int \<Rightarrow> 'p room \<Rightarrow> 'p room" where
  "leave_protos i r =
     r\<lparr>subscribeCache := removeId (subscribeCache r) i, deliverCache := removeId (deliverCache r) i\<rparr>"

definition SessionRoom_leave :: "('p \<Rightarrow> int) \<Rightarrow> 'p option \<Rightarrow> 'p room \<Rightarrow> 'p room" where
  "SessionRoom_leave pid publisher r =
     (case publisher of
        None \<Rightarrow> r
      | Some p \<Rightarrow> leave_protos (pid p) (leave_sessions (pid p) r))"

definition insertId :: "sub_cache \<Rightarrow> int \<Rightarrow> string \<Rightarrow> sub_cache" where
  "insertId mp i name = mp(name \<mapsto> insert i (case mp name of None \<Rightarrow> {} | Some ids \<Rightarrow> ids))"

definition addSubscribe :: "int \<Rightarrow> int \<Rightarrow> string \<Rightarrow> 'p room \<Rightarrow> 'p room" where
  "addSubscribe i msgtype protoName r =
     (if msgtype = sint PUBSUB then r\<lparr>subscribeCache := insertId (subscribeCache r) i protoName\<rparr>
      else if msgtype = sint DELIVER then r\<lparr>deliverCache := insertId (deliverCache r) i protoName\<rparr>
      else r)"

definition removeIdName :: "sub_cache \<Rightarrow> int \<Rightarrow> string \<Rightarrow> sub_cache" where
  "removeIdName mp i name =
     (case mp name of
        None \<Rightarrow> mp
      | Some ids \<Rightarrow> if i \<notin> ids then mp else mp(name \<mapsto> ids - {i}))"

definition delSubscribe :: "int \<Rightarrow> int \<Rightarrow> string \<Rightarrow> 'p room \<Rightarrow> 'p room" where
  "delSubscribe i msgtype protoName r =
     (if msgtype = sint PUBSUB then r\<lparr>subscribeCache := removeIdName (subscribeCache r) i protoName\<rparr>
      else if msgtype = sint DELIVER then r\<lparr>deliverCache := removeIdName (deliverCache r) i protoName\<rparr>
      else r)"

text \<open>The copy of the subscriber set that the sending methods take under \<^verbatim>\<open>protoMutex_\<close>.\<close>

definition cached_ids :: "sub_cache \<Rightarrow> string \<Rightarrow> int set" where
  "cached_ids mp name = (case mp name of None \<Rightarrow> {} | Some ids \<Rightarrow> ids)"

text \<open>
  The loop under \<^verbatim>\<open>sessionMutex_\<close>: a \<^verbatim>\<open>std::set\<close> is traversed in ascending order, and ids that have
  no session are skipped.
\<close>

definition live_publishers :: "'p room \<Rightarrow> int set \<Rightarrow> 'p list" where
  "live_publishers r ids = List.map_filter (sessionCache r) (sorted_list_of_set ids)"

definition SessionRoom_publishMessage ::
    "('d, 'm) env \<Rightarrow> 'm option \<Rightarrow> 'p room \<Rightarrow> (('p, 'm) call list) result" where
  "SessionRoom_publishMessage E msg r =
     (case msg of
        None \<Rightarrow> Inl NullDeref
      | Some msg \<Rightarrow>
         (let ids = cached_ids (subscribeCache r) (GetTypeName E msg)
          in Inr (map (\<lambda>p. CallPublishMessage p msg) (live_publishers r ids))))"

definition SessionRoom_deliverPackage :: "'m Package \<Rightarrow> 'p room \<Rightarrow> ('p, 'm) call list" where
  "SessionRoom_deliverPackage pac r =
     (let ids = cached_ids (deliverCache r) (typeName pac)
      in map (\<lambda>p. CallDeliverPackage p pac) (live_publishers r ids))"

definition SessionRoom_deliverPackage_to ::
    "int \<Rightarrow> 'm Package \<Rightarrow> 'p room \<Rightarrow> bool \<times> ('p, 'm) call list" where
  "SessionRoom_deliverPackage_to i pac r =
     (case sessionCache r i of
        Some p \<Rightarrow> (True, [CallDeliverPackage p pac])
      | None \<Rightarrow> (False, []))"

section \<open>The subscription tables\<close>

text \<open>
  The interface of a subscription table, and what follows from it for a history of operations: an
  id is in the table under a name exactly if it was added and neither removed under that name nor
  dropped altogether afterwards.
\<close>

datatype sub_op = SubAdd int string | SubDel int string | SubDrop int

fun sub_history :: "sub_op list \<Rightarrow> (int \<times> string) set \<Rightarrow> (int \<times> string) set" where
  "sub_history [] S = S"
| "sub_history (SubAdd i n # ops) S = sub_history ops (insert (i, n) S)"
| "sub_history (SubDel i n # ops) S = sub_history ops (S - {(i, n)})"
| "sub_history (SubDrop i # ops) S = sub_history ops {(j, n) \<in> S. j \<noteq> i}"

locale subscription_table =
  fixes members :: "'t \<Rightarrow> string \<Rightarrow> int set"
    and add :: "'t \<Rightarrow> int \<Rightarrow> string \<Rightarrow> 't"
    and del :: "'t \<Rightarrow> int \<Rightarrow> string \<Rightarrow> 't"
    and drop_id :: "'t \<Rightarrow> int \<Rightarrow> 't"
  assumes add_members: "members (add t i n) k = (if k = n then insert i (members t k) else members t k)"
    and del_members: "members (del t i n) k = (if k = n then members t k - {i} else members t k)"
    and drop_members: "members (drop_id t i) k = members t k - {i}"
begin

lemma history_members:
  "{(i, n). i \<in> members (foldl (\<lambda>t op. case op of SubAdd i n \<Rightarrow> add t i n
      | SubDel i n \<Rightarrow> del t i n | SubDrop i \<Rightarrow> drop_id t i) t ops) n}
    = sub_history ops {(i, n). i \<in> members t n}"
proof (induction ops arbitrary: t)
  case (Cons op ops)
  have "{(i, n). i \<in> members (case op of SubAdd i n \<Rightarrow> add t i n
      | SubDel i n \<Rightarrow> del t i n | SubDrop i \<Rightarrow> drop_id t i) n}
    = sub_history [op] {(i, n). i \<in> members t n}"
    by (cases op) (auto simp: add_members del_members drop_members)
  moreover have "sub_history (op # ops) S = sub_history ops (sub_history [op] S)" for S
    by (cases op) simp_all
  ultimately show ?case using Cons.IH by simp
qed simp

lemma finite_kept:
  assumes "\<And>n. finite (members t n)"
  shows "finite (members (add t i n) k)" "finite (members (del t i n) k)"
    "finite (members (drop_id t i) k)"
  using assms by (simp_all add: add_members del_members drop_members)

end

interpretation st: subscription_table cached_ids insertId removeIdName removeId
  by unfold_locales
    (auto simp: cached_ids_def insertId_def removeIdName_def removeId_def split: option.splits)

section \<open>Histories of the room\<close>

datatype 'p room_op =
    Join "'p option"
  | Leave "'p option"
  | AddSubscribe int int string
  | DelSubscribe int int string

fun room_step :: "('p \<Rightarrow> int) \<Rightarrow> 'p room_op \<Rightarrow> 'p room \<Rightarrow> 'p room" where
  "room_step pid (Join p) r = SessionRoom_join pid p r"
| "room_step pid (Leave p) r = SessionRoom_leave pid p r"
| "room_step pid (AddSubscribe i t n) r = addSubscribe i t n r"
| "room_step pid (DelSubscribe i t n) r = delSubscribe i t n r"

definition room_run :: "('p \<Rightarrow> int) \<Rightarrow> 'p room_op list \<Rightarrow> 'p room" where
  "room_run pid ops = foldl (\<lambda>r op. room_step pid op r) SessionRoom_new ops"

text \<open>
  What a history says: the subscriptions of one kind that are in force after it, and who is joined
  under an id.
\<close>

fun sub_ops :: "('p \<Rightarrow> int) \<Rightarrow> int \<Rightarrow> 'p room_op \<Rightarrow> sub_op list" where
  "sub_ops pid kind (Join p) = []"
| "sub_ops pid kind (Leave None) = []"
| "sub_ops pid kind (Leave (Some p)) = [SubDrop (pid p)]"
| "sub_ops pid kind (AddSubscribe i t n) = (if t = kind then [SubAdd i n] else [])"
| "sub_ops pid kind (DelSubscribe i t n) = (if t = kind then [SubDel i n] else [])"

definition subscribed :: "('p \<Rightarrow> int) \<Rightarrow> int \<Rightarrow> 'p room_op list \<Rightarrow> (int \<times> string) set" where
  "subscribed pid kind ops = sub_history (concat (map (sub_ops pid kind) ops)) {}"

fun joined :: "('p \<Rightarrow> int) \<Rightarrow> 'p room_op list \<Rightarrow> int \<Rightarrow> 'p option \<Rightarrow> 'p option" where
  "joined pid [] i acc = acc"
| "joined pid (Join (Some p) # ops) i acc = joined pid ops i (if pid p = i then Some p else acc)"
| "joined pid (Leave (Some p) # ops) i acc = joined pid ops i (if pid p = i then None else acc)"
| "joined pid (_ # ops) i acc = joined pid ops i acc"

abbreviation table_step :: "sub_cache \<Rightarrow> sub_op \<Rightarrow> sub_cache" where
  "table_step \<equiv> (\<lambda>t op. case op of SubAdd i n \<Rightarrow> insertId t i n
     | SubDel i n \<Rightarrow> removeIdName t i n | SubDrop i \<Rightarrow> removeId t i)"

lemma room_step_caches:
  "subscribeCache (room_step pid op r)
     = foldl table_step (subscribeCache r) (sub_ops pid (sint PUBSUB) op)"
  "deliverCache (room_step pid op r)
     = foldl table_step (deliverCache r) (sub_ops pid (sint DELIVER) op)"
  by (cases "(pid, 0 :: int, op)" rule: sub_ops.cases;
      simp add: SessionRoom_join_def SessionRoom_leave_def leave_protos_def leave_sessions_def
        addSubscribe_def delSubscribe_def PUBSUB_def DELIVER_def split: option.splits)+

lemma room_run_caches:
  "subscribeCache (foldl (\<lambda>r op. room_step pid op r) r ops)
     = foldl table_step (subscribeCache r) (concat (map (sub_ops pid (sint PUBSUB)) ops))"
  "deliverCache (foldl (\<lambda>r op. room_step pid op r) r ops)
     = foldl table_step (deliverCache r) (concat (map (sub_ops pid (sint DELIVER)) ops))"
  by (induction ops arbitrary: r) (simp_all add: room_step_caches)

lemma room_run_subscribed:
  "cached_ids (subscribeCache (room_run pid ops)) n = {i. (i, n) \<in> subscribed pid (sint PUBSUB) ops}"
  "cached_ids (deliverCache (room_run pid ops)) n = {i. (i, n) \<in> subscribed pid (sint DELIVER) ops}"
proof -
  have e: "{(i, n). i \<in> cached_ids Map.empty n} = {}" by (simp add: cached_ids_def)
  let ?ops = "\<lambda>kind. concat (map (sub_ops pid kind) ops)"
  note h = st.history_members [of Map.empty "?ops (sint PUBSUB)", unfolded e]
    st.history_members [of Map.empty "?ops (sint DELIVER)", unfolded e]
  show "cached_ids (subscribeCache (room_run pid ops)) n
      = {i. (i, n) \<in> subscribed pid (sint PUBSUB) ops}"
    "cached_ids (deliverCache (room_run pid ops)) n
      = {i. (i, n) \<in> subscribed pid (sint DELIVER) ops}"
    unfolding subscribed_def h [symmetric]
    by (simp_all add: room_run_def room_run_caches SessionRoom_new_def)
qed

lemma room_run_joined: "sessionCache (room_run pid ops) i = joined pid ops i None"
proof -
  have "sessionCache (foldl (\<lambda>r op. room_step pid op r) r ops) i = joined pid ops i (sessionCache r i)"
    for r
  proof (induction ops arbitrary: r)
    case (Cons op ops)
    show ?case unfolding foldl_Cons Cons.IH
      by (cases "(pid, op # ops, i, sessionCache r i)" rule: joined.cases)
        (auto simp: SessionRoom_join_def SessionRoom_leave_def leave_protos_def
          leave_sessions_def addSubscribe_def delSubscribe_def)
  qed simp
  from this [of SessionRoom_new] show ?thesis by (simp add: room_run_def SessionRoom_new_def)
qed

lemma joined_pid: "joined pid ops i acc = Some p \<Longrightarrow> pid p = i \<or> acc = Some p"
  by (induction pid ops i acc rule: joined.induct) (simp_all split: if_splits, blast+)

lemma finite_sub_history: "finite S \<Longrightarrow> finite (sub_history ops S)"
proof (induction ops S rule: sub_history.induct)
  case (4 i ops S)
  have "finite {(j, n) \<in> S. j \<noteq> i}" by (rule finite_subset [OF _ "4.prems"]) auto
  then show ?case using "4.IH" by simp
qed simp_all

lemma finite_subscribed: "finite {i. (i, n) \<in> subscribed pid kind ops}"
proof -
  have "finite (subscribed pid kind ops)" by (simp add: subscribed_def finite_sub_history)
  then have "finite (fst ` subscribed pid kind ops)" by simp
  then show ?thesis by (rule rev_finite_subset) force
qed

lemma set_live_publishers:
  "finite ids \<Longrightarrow> set (live_publishers r ids) = {p. \<exists>i \<in> ids. sessionCache r i = Some p}"
  by (auto simp: live_publishers_def map_filter_def image_iff) (metis option.sel)

lemma distinct_live_publishers:
  assumes "finite ids" and "\<And>i p. sessionCache r i = Some p \<Longrightarrow> pid p = i"
  shows "distinct (live_publishers r ids)"
  unfolding live_publishers_def map_filter_def
  by (auto simp: distinct_map assms(1) intro!: inj_onI) (metis assms(2) option.collapse)

lemma room_run_publishers:
  assumes "finite ids"
  shows "set (live_publishers (room_run pid ops) ids) = {p. \<exists>i \<in> ids. joined pid ops i None = Some p}"
    and "distinct (live_publishers (room_run pid ops) ids)"
proof -
  show "set (live_publishers (room_run pid ops) ids) = {p. \<exists>i \<in> ids. joined pid ops i None = Some p}"
    by (simp add: set_live_publishers [OF assms] room_run_joined)
  show "distinct (live_publishers (room_run pid ops) ids)"
    by (rule distinct_live_publishers [OF assms, of _ pid])
      (auto simp: room_run_joined dest: joined_pid)
qed

text \<open>
  Property C16. Publishing reaches the subscribers. After any history of joins, leaves,
  subscriptions and cancellations, \<^verbatim>\<open>publishMessage\<close> calls exactly the sessions that are joined and
  hold a subscription of the publish kind for the type of the message, each of them once; a
  subscription holds from its \<^verbatim>\<open>addSubscribe\<close> until it is cancelled or its session leaves.
\<close>

theorem publish_reaches_subscribers:
  "\<exists>calls. SessionRoom_publishMessage E (Some msg) (room_run pid ops) = Inr calls \<and> distinct calls \<and>
     set calls = {CallPublishMessage p msg | p.
       \<exists>i. (i, GetTypeName E msg) \<in> subscribed pid (sint PUBSUB) ops \<and> joined pid ops i None = Some p}"
proof -
  note pub = room_run_publishers [OF finite_subscribed [of "GetTypeName E msg" pid "sint PUBSUB" ops],
      of pid ops]
  show ?thesis
    using pub by (auto simp: SessionRoom_publishMessage_def Let_def room_run_subscribed distinct_map
        inj_on_def)
qed

text \<open>
  Delivering a package calls exactly the joined sessions with a subscription of the
  deliver kind for its type name, each of them once. Subscriptions of the publish kind play no part.
\<close>

theorem deliver_reaches_subscribers:
  "distinct (SessionRoom_deliverPackage pac (room_run pid ops)) \<and>
   set (SessionRoom_deliverPackage pac (room_run pid ops)) = {CallDeliverPackage p pac | p.
     \<exists>i. (i, typeName pac) \<in> subscribed pid (sint DELIVER) ops \<and> joined pid ops i None = Some p}"
proof -
  note pub = room_run_publishers [OF finite_subscribed [of "typeName pac" pid "sint DELIVER" ops],
      of pid ops]
  show ?thesis
    using pub by (auto simp: SessionRoom_deliverPackage_def Let_def room_run_subscribed distinct_map
        inj_on_def)
qed

section \<open>Concurrent use\<close>

text \<open>
  The room is used by the threads of the event loop, of the workers and of the pool at once. Each
  critical section is one step; \<open>copied t\<close> is the local variable \<^verbatim>\<open>ids\<close> of the sending method that
  thread \<open>t\<close> is executing. A step returns the calls made in it.
\<close>

datatype ('p, 'm) room_section =
    JoinSection "'p option"
  | LeaveSessionsSection int
  | LeaveProtosSection int
  | AddSection int int string
  | DelSection int int string
  | CopySubscribers nat string
  | CopyDeliverers nat string
  | SendPublish nat 'm
  | SendDeliver nat "'m Package"
  | SendTo int "'m Package"

record 'p room_conc =
  shared :: "'p room"
  copied :: "nat \<Rightarrow> int set"

fun section_step :: "('p \<Rightarrow> int) \<Rightarrow> ('p, 'm) room_section \<Rightarrow> 'p room_conc \<Rightarrow>
    'p room_conc \<times> ('p, 'm) call list" where
  "section_step pid (JoinSection p) c = (c\<lparr>shared := SessionRoom_join pid p (shared c)\<rparr>, [])"
| "section_step pid (LeaveSessionsSection i) c = (c\<lparr>shared := leave_sessions i (shared c)\<rparr>, [])"
| "section_step pid (LeaveProtosSection i) c = (c\<lparr>shared := leave_protos i (shared c)\<rparr>, [])"
| "section_step pid (AddSection i t n) c = (c\<lparr>shared := addSubscribe i t n (shared c)\<rparr>, [])"
| "section_step pid (DelSection i t n) c = (c\<lparr>shared := delSubscribe i t n (shared c)\<rparr>, [])"
| "section_step pid (CopySubscribers t n) c =
     (c\<lparr>copied := (copied c)(t := cached_ids (subscribeCache (shared c)) n)\<rparr>, [])"
| "section_step pid (CopyDeliverers t n) c =
     (c\<lparr>copied := (copied c)(t := cached_ids (deliverCache (shared c)) n)\<rparr>, [])"
| "section_step pid (SendPublish t msg) c =
     (c, map (\<lambda>p. CallPublishMessage p msg) (live_publishers (shared c) (copied c t)))"
| "section_step pid (SendDeliver t pac) c =
     (c, map (\<lambda>p. CallDeliverPackage p pac) (live_publishers (shared c) (copied c t)))"
| "section_step pid (SendTo i pac) c = (c, snd (SessionRoom_deliverPackage_to i pac (shared c)))"

fun section_run :: "('p \<Rightarrow> int) \<Rightarrow> ('p, 'm) room_section list \<Rightarrow> 'p room_conc \<Rightarrow>
    'p room_conc \<times> ('p, 'm) call list" where
  "section_run pid [] c = (c, [])"
| "section_run pid (x # xs) c =
     (let (c1, calls1) = section_step pid x c; (c2, calls2) = section_run pid xs c1
      in (c2, calls1 @ calls2))"

fun callee :: "('p, 'm) call \<Rightarrow> 'p" where
  "callee (CallPublishMessage p msg) = p"
| "callee (CallDeliverPackage p pac) = p"

text \<open>The methods are their sections run without interruption.\<close>

lemma publishMessage_sections:
  "SessionRoom_publishMessage E (Some msg) (shared c)
     = Inr (snd (section_run pid [CopySubscribers t (GetTypeName E msg), SendPublish t msg] c))"
  by (simp add: SessionRoom_publishMessage_def Let_def)

lemma deliverPackage_sections:
  "SessionRoom_deliverPackage pac (shared c)
     = snd (section_run pid [CopyDeliverers t (typeName pac), SendDeliver t pac] c)"
  by (simp add: SessionRoom_deliverPackage_def Let_def)

lemma leave_sections:
  "SessionRoom_leave pid (Some p) (shared c)
     = shared (fst (section_run pid [LeaveSessionsSection (pid p), LeaveProtosSection (pid p)] c))"
  by (simp add: SessionRoom_leave_def)

definition room_ok :: "('p \<Rightarrow> int) \<Rightarrow> 'p room_conc \<Rightarrow> bool" where
  "room_ok pid c \<longleftrightarrow>
     (\<forall>i p. sessionCache (shared c) i = Some p \<longrightarrow> pid p = i) \<and>
     (\<forall>n. finite (cached_ids (subscribeCache (shared c)) n)) \<and>
     (\<forall>n. finite (cached_ids (deliverCache (shared c)) n)) \<and> (\<forall>t. finite (copied c t))"

lemma section_step_ok: "room_ok pid c \<Longrightarrow> room_ok pid (fst (section_step pid x c))"
  by (cases x)
    (auto simp: room_ok_def SessionRoom_join_def leave_sessions_def leave_protos_def
      addSubscribe_def delSubscribe_def st.finite_kept split: option.splits)

lemma section_run_ok: "room_ok pid c \<Longrightarrow> room_ok pid (fst (section_run pid xs c))"
  by (induction xs arbitrary: c) (simp_all add: section_step_ok Let_def prod.case_eq_if)

definition absent :: "int \<Rightarrow> 'p room_conc \<Rightarrow> bool" where
  "absent i c \<longleftrightarrow> sessionCache (shared c) i = None"

lemma section_step_absent:
  assumes "room_ok pid c" and "absent i c" and "\<And>p. x = JoinSection (Some p) \<Longrightarrow> pid p \<noteq> i"
  shows "absent i (fst (section_step pid x c))"
    and "call \<in> set (snd (section_step pid x c)) \<Longrightarrow> pid (callee call) \<noteq> i"
proof -
  show "absent i (fst (section_step pid x c))"
    using assms(2,3) by (cases x)
      (auto simp: absent_def SessionRoom_join_def leave_sessions_def leave_protos_def
        addSubscribe_def delSubscribe_def split: option.splits)
  show "pid (callee call) \<noteq> i" if "call \<in> set (snd (section_step pid x c))"
    using assms(1,2) that by (cases x)
      (auto simp: room_ok_def absent_def set_live_publishers SessionRoom_deliverPackage_to_def
        split: option.splits)
qed

lemma section_run_absent:
  assumes "room_ok pid c" and "absent i c"
    and "\<And>p. JoinSection (Some p) \<in> set xs \<Longrightarrow> pid p \<noteq> i"
    and "call \<in> set (snd (section_run pid xs c))"
  shows "pid (callee call) \<noteq> i"
  using assms
proof (induction xs arbitrary: c)
  case (Cons x xs)
  have j: "\<And>p. x = JoinSection (Some p) \<Longrightarrow> pid p \<noteq> i" using Cons.prems(3) by auto
  note s = section_step_absent [OF Cons.prems(1,2) j]
  from Cons.prems(4) consider "call \<in> set (snd (section_step pid x c))"
    | "call \<in> set (snd (section_run pid xs (fst (section_step pid x c))))"
    by (auto simp: Let_def split: prod.splits)
  then show ?case
  proof cases
    case 2
    show ?thesis
      by (rule Cons.IH [OF section_step_ok [OF Cons.prems(1)] s(1) _ 2]) (use Cons.prems(3) in auto)
  qed (rule s(2))
qed simp

text \<open>
  Property C31. A session that has left is not called. Whatever the threads of the program do, once
  the first critical section of \<^verbatim>\<open>leave\<close> for a session has run, no publishing or delivering method
  calls that session any more unless it joins again: not even one that copied the subscriber set
  before the session left, and not if a late subscription request of the session is still handled.
\<close>

theorem left_session_is_not_called:
  assumes "room_ok pid c" and "\<And>p. JoinSection (Some p) \<in> set post \<Longrightarrow> pid p \<noteq> i"
    and "call \<in> set (snd (section_run pid post (fst (section_run pid (pre @ [LeaveSessionsSection i]) c))))"
  shows "pid (callee call) \<noteq> i"
proof -
  have "absent i (fst (section_run pid (pre @ [LeaveSessionsSection i]) c))"
    by (induction pre arbitrary: c)
      (auto simp: Let_def absent_def leave_sessions_def prod.case_eq_if)
  from section_run_absent [OF section_run_ok [OF assms(1)] this assms(2,3)] show ?thesis .
qed

definition demo_room :: "int room_conc" where
  "demo_room = \<lparr>shared = room_run id [Join (Some 1), Join (Some 2), AddSubscribe 1 2 ''T'',
     AddSubscribe 2 2 ''T''], copied = (\<lambda>_. {})\<rparr>"

lemma demo_room_ok: "room_ok id demo_room"
  by (auto simp: room_ok_def demo_room_def room_run_joined room_run_subscribed finite_subscribed
      dest: joined_pid)

theorem left_session_is_not_called_witness:
  "set (snd (section_run id [SendPublish 0 ''msg''] (fst (section_run id
      ([CopySubscribers 0 ''T''] @ [LeaveSessionsSection 1]) demo_room))))
     = {CallPublishMessage 2 ''msg''} \<and> id (callee (CallPublishMessage (2 :: int) ''msg'')) \<noteq> 1"
proof -
  let ?c = "fst (section_run id ([CopySubscribers 0 ''T''] @ [LeaveSessionsSection 1] ::
    (int, string) room_section list) demo_room)"
  have "set (snd (section_run id [SendPublish 0 ''msg''] ?c)) = {CallPublishMessage 2 ''msg''}"
    by (auto simp: demo_room_def room_run_def Let_def SessionRoom_new_def SessionRoom_join_def
        addSubscribe_def insertId_def cached_ids_def leave_sessions_def live_publishers_def
        map_filter_def PUBSUB_def)
  moreover from this have "id (callee (CallPublishMessage (2 :: int) ''msg'')) \<noteq> 1"
    by (intro left_session_is_not_called [OF demo_room_ok, of "[SendPublish 0 ''msg'']" 1 _
          "[CopySubscribers 0 ''T'']"]) simp_all
  ultimately show ?thesis by simp
qed

text \<open>
  A subscription request that is handled after its session has left (requests are
  handled by other threads than the one that notices the disconnect) leaves an entry for the dead
  session in the table that no later call of \<^verbatim>\<open>leave\<close> for another session removes.
\<close>

theorem late_subscription_stays:
  assumes "pid p \<noteq> i"
  shows "let c1 = fst (section_run pid [LeaveSessionsSection i, LeaveProtosSection i,
            AddSection i (sint PUBSUB) n, LeaveSessionsSection (pid p), LeaveProtosSection (pid p)] c)
    in i \<in> cached_ids (subscribeCache (shared c1)) n \<and> absent i c1"
  using assms
  by (auto simp: Let_def absent_def leave_sessions_def leave_protos_def addSubscribe_def
      st.add_members st.drop_members)

theorem late_subscription_stays_witness:
  "let c1 = fst (section_run id [LeaveSessionsSection 1, LeaveProtosSection 1,
            AddSection 1 (sint PUBSUB) ''T'', LeaveSessionsSection (id 2), LeaveProtosSection (id 2)] demo_room)
    in 1 \<in> cached_ids (subscribeCache (shared c1)) ''T'' \<and> absent 1 c1"
  by (rule late_subscription_stays) simp

end
