(* ===== verification/ThreadPool.thy ===== *)
theory ThreadPool
  imports Step_System "HOL-Library.Multiset"
begin

text \<open>
  The bounded task queue with its worker threads, \<^verbatim>\<open>asio/internal/ThreadPool.h\<close>. The state has the
  members of the class; every thread that executes \<^verbatim>\<open>threadFunc\<close> and every thread that is inside
  \<^verbatim>\<open>run\<close> has a program counter. A step is the code between two points at which a thread can lose the
  mutex: entering or leaving a wait on a condition variable, and the parts outside of the critical
  sections. \<^verbatim>\<open>notify_one\<close> wakes some waiting thread if there is one, and a waiting thread may wake
  up without being notified. The lists \<open>called\<close>, \<open>pushed\<close>, \<open>taken\<close>, \<open>executed\<close> and \<open>dropped\<close>
  record what happened to the tasks: with which tasks \<^verbatim>\<open>run\<close> was called, which ones it put into the queue,
  which ones the threads took from it and have executed, and with which ones \<^verbatim>\<open>run\<close> returned without
  having queued them.
\<close>

section \<open>State\<close>

datatype 't worker = AtWhile | Taking | WaitEmpty | WokenEmpty | Executing 't | Finished

datatype 't caller = Calling 't | WaitFull 't | WokenFull 't | Returned

record 't pool =
  num :: int
  threads :: "'t worker list"
  queue :: "'t list"
  maxQueueSize :: nat
  running :: bool
  callers :: "'t caller list"
  called :: "'t list"
  pushed :: "'t list"
  taken :: "'t list"
  executed :: "'t list"
  dropped :: "'t list"

definition ThreadPool_new :: "int \<Rightarrow> 't pool" where
  "ThreadPool_new n = \<lparr>num = n, threads = [], queue = [], maxQueueSize = 0, running = False,
     callers = [], called = [], pushed = [], taken = [], executed = [], dropped = []\<rparr>"

definition setMaxQueueSize :: "int \<Rightarrow> 't pool \<Rightarrow> 't pool" where
  "setMaxQueueSize maxSize p = p\<lparr>maxQueueSize := size_of_int maxSize\<rparr>"

text \<open>\<^verbatim>\<open>reserve\<close> with a negative count, converted to \<^verbatim>\<open>size_t\<close>, throws.\<close>

definition ThreadPool_start :: "'t pool \<Rightarrow> 't pool result" where
  "ThreadPool_start p =
     rbind (cpp_assert (threads p = [])) (\<lambda>_.
       if num p < 0 then Inl LengthError
       else Inr (p\<lparr>running := True, threads := replicate (nat (num p)) AtWhile\<rparr>))"

definition isFull :: "'t pool \<Rightarrow> bool" where
  "isFull p \<longleftrightarrow> 0 < maxQueueSize p \<and> maxQueueSize p \<le> length (queue p)"

section \<open>Condition variables\<close>

fun wake_worker :: "'t worker \<Rightarrow> 't worker" where
  "wake_worker WaitEmpty = WokenEmpty"
| "wake_worker w = w"

fun wake_caller :: "'t caller \<Rightarrow> 't caller" where
  "wake_caller (WaitFull t) = WokenFull t"
| "wake_caller c = c"

fun waits_full :: "'t caller \<Rightarrow> bool" where
  "waits_full (WaitFull t) = True"
| "waits_full _ = False"

fun woken_full :: "'t caller \<Rightarrow> bool" where
  "woken_full (WokenFull t) = True"
| "woken_full _ = False"

definition notify_one :: "('a \<Rightarrow> bool) \<Rightarrow> ('a \<Rightarrow> 'a) \<Rightarrow> 'a list \<Rightarrow> 'a list \<Rightarrow> bool" where
  "notify_one waits wake xs ys \<longleftrightarrow>
     (if \<exists>x \<in> set xs. waits x then \<exists>i < length xs. waits (xs ! i) \<and> ys = xs[i := wake (xs ! i)]
      else ys = xs)"

section \<open>Steps\<close>

text \<open>
  The critical section of \<^verbatim>\<open>run\<close>, from taking the mutex or waking up to the next wait or the end: the
  caller waits, returns because the pool has been stopped, or pushes the task.
\<close>

datatype run_result = RunWait | RunReturn | RunPush

definition run_outcome :: "'t pool \<Rightarrow> run_result" where
  "run_outcome p =
     (if isFull p \<and> running p then RunWait else if \<not> running p then RunReturn else RunPush)"

fun run_task :: "'t caller \<Rightarrow> 't option" where
  "run_task (Calling t) = Some t"
| "run_task (WokenFull t) = Some t"
| "run_task _ = None"

text \<open>Likewise the critical section of \<^verbatim>\<open>take\<close>; an empty task is returned if there is none.\<close>

datatype 't take_result = TakeWait | TakeTask 't "'t list" | TakeNone

definition take_outcome :: "'t pool \<Rightarrow> 't take_result" where
  "take_outcome p =
     (if queue p = [] \<and> running p then TakeWait
      else (case queue p of t # q \<Rightarrow> TakeTask t q | [] \<Rightarrow> TakeNone))"

abbreviation taking :: "'t worker \<Rightarrow> bool" where
  "taking w \<equiv> w = Taking \<or> w = WokenEmpty"

text \<open>The steps the threads take by themselves.\<close>

inductive pool_step :: "'t pool \<Rightarrow> 't pool \<Rightarrow> bool" where
  run_wait: "i < length (callers p) \<Longrightarrow> run_task (callers p ! i) = Some t \<Longrightarrow>
    run_outcome p = RunWait \<Longrightarrow> pool_step p (p\<lparr>callers := (callers p)[i := WaitFull t]\<rparr>)"
| run_return: "i < length (callers p) \<Longrightarrow> run_task (callers p ! i) = Some t \<Longrightarrow>
    run_outcome p = RunReturn \<Longrightarrow>
    pool_step p (p\<lparr>callers := (callers p)[i := Returned], dropped := dropped p @ [t]\<rparr>)"
| run_push: "i < length (callers p) \<Longrightarrow> run_task (callers p ! i) = Some t \<Longrightarrow>
    run_outcome p = RunPush \<Longrightarrow>
    notify_one (\<lambda>w. w = WaitEmpty) wake_worker (threads p) ws \<Longrightarrow>
    pool_step p (p\<lparr>callers := (callers p)[i := Returned], queue := queue p @ [t],
      pushed := pushed p @ [t], threads := ws\<rparr>)"
| while_true: "i < length (threads p) \<Longrightarrow> threads p ! i = AtWhile \<Longrightarrow> running p \<Longrightarrow>
    pool_step p (p\<lparr>threads := (threads p)[i := Taking]\<rparr>)"
| while_false: "i < length (threads p) \<Longrightarrow> threads p ! i = AtWhile \<Longrightarrow> \<not> running p \<Longrightarrow>
    pool_step p (p\<lparr>threads := (threads p)[i := Finished]\<rparr>)"
| take_wait: "i < length (threads p) \<Longrightarrow> taking (threads p ! i) \<Longrightarrow>
    take_outcome p = TakeWait \<Longrightarrow> pool_step p (p\<lparr>threads := (threads p)[i := WaitEmpty]\<rparr>)"
| take_task: "i < length (threads p) \<Longrightarrow> taking (threads p ! i) \<Longrightarrow>
    take_outcome p = TakeTask t q \<Longrightarrow>
    (if 0 < maxQueueSize p then notify_one waits_full wake_caller (callers p) cs else cs = callers p) \<Longrightarrow>
    pool_step p (p\<lparr>threads := (threads p)[i := Executing t], queue := q, callers := cs,
      taken := taken p @ [t]\<rparr>)"
| take_none: "i < length (threads p) \<Longrightarrow> taking (threads p ! i) \<Longrightarrow>
    take_outcome p = TakeNone \<Longrightarrow> pool_step p (p\<lparr>threads := (threads p)[i := AtWhile]\<rparr>)"
| execute: "i < length (threads p) \<Longrightarrow> threads p ! i = Executing t \<Longrightarrow>
    pool_step p (p\<lparr>threads := (threads p)[i := AtWhile], executed := executed p @ [t]\<rparr>)"

text \<open>
  What happens to the threads from outside: a call of \<^verbatim>\<open>run\<close> (which executes the task in place while
  no thread has been started), the first section of \<^verbatim>\<open>stop\<close>, and wake-ups without a notification.
\<close>

definition stop_section :: "'t pool \<Rightarrow> 't pool" where
  "stop_section p = p\<lparr>running := False, threads := map wake_worker (threads p),
     callers := map wake_caller (callers p)\<rparr>"

inductive pool_env :: "'t pool \<Rightarrow> 't pool \<Rightarrow> bool" where
  call_run: "threads p \<noteq> [] \<Longrightarrow> 
    pool_env p (p\<lparr>callers := callers p @ [Calling t], called := called p @ [t]\<rparr>)"
| stop: "pool_env p (stop_section p)"
| spurious_worker: "i < length (threads p) \<Longrightarrow>
    pool_env p (p\<lparr>threads := (threads p)[i := wake_worker (threads p ! i)]\<rparr>)"
| spurious_caller: "i < length (callers p) \<Longrightarrow>
    pool_env p (p\<lparr>callers := (callers p)[i := wake_caller (callers p ! i)]\<rparr>)"

definition pool_any :: "'t pool \<Rightarrow> 't pool \<Rightarrow> bool" where
  "pool_any p p' \<longleftrightarrow> pool_step p p' \<or> pool_env p p'"

text \<open>\<^verbatim>\<open>run\<close> on a pool without threads.\<close>

definition run_inline :: "'t \<Rightarrow> 't pool \<Rightarrow> 't pool option" where
  "run_inline t p = (if threads p = [] then Some (p\<lparr>called := called p @ [t], executed := executed p @ [t]\<rparr>) else None)"

text \<open>\<^verbatim>\<open>stop\<close> returns once every thread has been joined.\<close>

definition all_joined :: "'t pool \<Rightarrow> bool" where
  "all_joined p \<longleftrightarrow> (\<forall>w \<in> set (threads p). w = Finished)"

definition pool_reach :: "int \<Rightarrow> int \<Rightarrow> 't pool \<Rightarrow> bool" where
  "pool_reach n maxSize p \<longleftrightarrow>
     (\<exists>p0. ThreadPool_start (setMaxQueueSize maxSize (ThreadPool_new n)) = Inr p0 \<and> pool_any\<^sup>*\<^sup>* p0 p)"

section \<open>Lemmas on program counters\<close>

fun in_hand :: "'t worker \<Rightarrow> 't multiset" where
  "in_hand (Executing t) = {#t#}"
| "in_hand _ = {#}"

definition in_hands :: "'t worker list \<Rightarrow> 't multiset" where
  "in_hands ws = sum_list (map in_hand ws)"

definition awake :: "'t worker \<Rightarrow> bool" where
  "awake w \<longleftrightarrow> w \<noteq> WaitEmpty \<and> w \<noteq> Finished"

lemma sum_list_update_add:
  fixes xs :: "'a::cancel_comm_monoid_add list"
  shows "i < length xs \<Longrightarrow> sum_list (xs[i := x]) + xs ! i = sum_list xs + x"
proof (induction xs arbitrary: i)
  case (Cons a xs)
  then show ?case by (cases i) (simp_all add: ac_simps)
qed simp

lemma in_hands_update:
  "i < length ws \<Longrightarrow> in_hands (ws[i := w]) + in_hand (ws ! i) = in_hands ws + in_hand w"
  using sum_list_update_add [of i "map in_hand ws" "in_hand w"]
  by (simp add: in_hands_def map_update)

lemma in_hand_wake [simp]: "in_hand (wake_worker w) = in_hand w"
  by (cases w) simp_all

lemma in_hands_wake [simp]: "in_hands (map wake_worker ws) = in_hands ws"
  by (simp add: in_hands_def comp_def)

lemma in_hands_wake_one [simp]:
  "i < length ws \<Longrightarrow> in_hands (ws[i := wake_worker (ws ! i)]) = in_hands ws"
  using in_hands_update [of i ws "wake_worker (ws ! i)"] by simp

lemma notify_worker_in_hands:
  "notify_one (\<lambda>w. w = WaitEmpty) wake_worker ws ws' \<Longrightarrow> in_hands ws' = in_hands ws"
  using in_hands_update [of _ ws WokenEmpty] by (fastforce simp: notify_one_def split: if_splits)

lemma notify_worker_awake:
  assumes "notify_one (\<lambda>w. w = WaitEmpty) wake_worker ws ws'" and "ws \<noteq> []"
    and "Finished \<notin> set ws"
  shows "\<exists>w \<in> set ws'. awake w"
proof (cases "WaitEmpty \<in> set ws")
  case True
  with assms(1) obtain i where i: "i < length ws" "ws ! i = WaitEmpty" "ws' = ws[i := WokenEmpty]"
    by (auto simp: notify_one_def)
  then have "WokenEmpty \<in> set ws'" by (simp add: set_update_memI)
  then show ?thesis by (auto simp: awake_def)
next
  case False
  then have "ws' = ws" using assms(1) by (auto simp: notify_one_def)
  moreover obtain w where "w \<in> set ws" using assms(2) by (meson list.set_sel(1))
  ultimately show ?thesis using False assms(3) by (metis awake_def)
qed

text \<open>The assertion before the push holds.\<close>

lemma run_push_not_full: "run_outcome p = RunPush \<Longrightarrow> \<not> isFull p"
  by (auto simp: run_outcome_def split: if_splits)

section \<open>Invariant\<close>

definition n_woken :: "'t caller list \<Rightarrow> nat" where
  "n_woken cs = sum_list (map (\<lambda>c. if woken_full c then 1 else 0) cs)"

definition pool_inv :: "'t pool \<Rightarrow> bool" where
  "pool_inv p \<longleftrightarrow>
     threads p \<noteq> [] \<and>
     pushed p = taken p @ queue p \<and>
     mset (taken p) = mset (executed p) + in_hands (threads p) \<and>
     (0 < maxQueueSize p \<longrightarrow> length (queue p) \<le> maxQueueSize p) \<and>
     (if running p
      then Finished \<notin> set (threads p) \<and> dropped p = [] \<and>
        (queue p \<noteq> [] \<longrightarrow> (\<exists>w \<in> set (threads p). awake w)) \<and>
        ((\<exists>c \<in> set (callers p). waits_full c) \<longrightarrow>
           0 < maxQueueSize p \<and> maxQueueSize p \<le> length (queue p) + n_woken (callers p))
      else WaitEmpty \<notin> set (threads p) \<and> (\<forall>c \<in> set (callers p). \<not> waits_full c))"

lemma n_woken_update:
  "i < length cs \<Longrightarrow> n_woken (cs[i := c]) + (if woken_full (cs ! i) then 1 else 0)
     = n_woken cs + (if woken_full c then 1 else 0)"
  using sum_list_update_add [of i "map (\<lambda>c. if woken_full c then 1 else 0) cs"
      "if woken_full c then 1 else (0 :: nat)"]
  by (simp add: n_woken_def map_update)

lemma not_in_update: "x \<notin> set xs \<Longrightarrow> y \<noteq> x \<Longrightarrow> x \<notin> set (xs[i := y])"
  using set_update_subset_insert [of xs i y] by blast

lemma bex_update: "i < length xs \<Longrightarrow> P y \<Longrightarrow> \<exists>x \<in> set (xs[i := y]). P x"
  by (meson set_update_memI)

lemma bex_update_keep:
  "\<exists>x \<in> set xs. P x \<Longrightarrow> (P (xs ! i) \<Longrightarrow> P y) \<Longrightarrow> \<exists>x \<in> set (xs[i := y]). P x"
  by (metis in_set_conv_nth length_list_update nth_list_update_eq nth_list_update_neq)

lemma ball_update: "\<forall>x \<in> set xs. P x \<Longrightarrow> P y \<Longrightarrow> \<forall>x \<in> set (xs[i := y]). P x"
  using set_update_subset_insert [of xs i y] by blast

lemma bex_update_cases: "\<exists>x \<in> set (xs[i := y]). P x \<Longrightarrow> P y \<or> (\<exists>x \<in> set xs. P x)"
  using set_update_subset_insert [of xs i y] by blast

lemma run_task_simps:
  "run_task c = Some t \<Longrightarrow> \<not> waits_full c"
  by (cases c) auto

lemma run_wait_inv:
  assumes "pool_inv p" and "i < length (callers p)" and "run_task (callers p ! i) = Some t"
    and "run_outcome p = RunWait"
  shows "pool_inv (p\<lparr>callers := (callers p)[i := WaitFull t]\<rparr>)"
  using assms by (auto simp: pool_inv_def run_outcome_def isFull_def split: if_splits)

lemma run_return_inv:
  assumes "pool_inv p" and "i < length (callers p)" and "run_task (callers p ! i) = Some t"
    and "run_outcome p = RunReturn"
  shows "pool_inv (p\<lparr>callers := (callers p)[i := Returned], dropped := dropped p @ [t]\<rparr>)"
  using assms ball_update [of "callers p" "\<lambda>c. \<not> waits_full c" Returned i]
  by (auto simp: pool_inv_def run_outcome_def split: if_splits)

lemma run_push_inv:
  assumes "pool_inv p" and "i < length (callers p)" and "run_task (callers p ! i) = Some t"
    and "run_outcome p = RunPush"
    and "notify_one (\<lambda>w. w = WaitEmpty) wake_worker (threads p) ws"
  shows "pool_inv (p\<lparr>callers := (callers p)[i := Returned], queue := queue p @ [t],
    pushed := pushed p @ [t], threads := ws\<rparr>)"
proof -
  have r: "running p" "\<not> isFull p"
    using assms(4) run_push_not_full [OF assms(4)] by (auto simp: run_outcome_def split: if_splits)
  have inv: "threads p \<noteq> []" "Finished \<notin> set (threads p)"
    using assms(1) r(1) by (auto simp: pool_inv_def)
  have len: "length ws = length (threads p)" and fin: "Finished \<notin> set ws"
    using assms(5) inv(2) not_in_update [OF inv(2), of WokenEmpty]
    by (auto simp: notify_one_def split: if_splits)
  have "\<exists>w \<in> set ws. awake w" using notify_worker_awake [OF assms(5) inv] .
  moreover have "in_hands ws = in_hands (threads p)" using assms(5) by (rule notify_worker_in_hands)
  moreover have "length (queue p) + 1 \<le> maxQueueSize p" if "0 < maxQueueSize p"
    using r(2) that by (simp add: isFull_def)
  moreover have "maxQueueSize p \<le> length (queue p) + 1 + n_woken ((callers p)[i := Returned])"
    if "\<exists>c \<in> set ((callers p)[i := Returned]). waits_full c"
  proof -
    from bex_update_cases [OF that] have "\<exists>c \<in> set (callers p). waits_full c" by simp
    then have "maxQueueSize p \<le> length (queue p) + n_woken (callers p)"
      using assms(1) r(1) by (simp add: pool_inv_def)
    then show ?thesis using n_woken_update [OF assms(2), of Returned] by (simp split: if_splits)
  qed
  moreover have "0 < maxQueueSize p" if "\<exists>c \<in> set ((callers p)[i := Returned]). waits_full c"
    using bex_update_cases [OF that] assms(1) r(1) by (simp add: pool_inv_def)
  moreover have "ws \<noteq> []" using len inv(1) by auto
  ultimately show ?thesis using assms(1) r(1) fin unfolding pool_inv_def by simp
qed

lemma worker_move_inv:
  assumes "pool_inv p" and "i < length (threads p)" and "in_hand (threads p ! i) = {#}"
    and "in_hand w = {#}"
    and "running p \<Longrightarrow> w \<noteq> Finished \<and> (queue p \<noteq> [] \<longrightarrow> awake w)"
    and "\<not> running p \<Longrightarrow> w \<noteq> WaitEmpty"
  shows "pool_inv (p\<lparr>threads := (threads p)[i := w]\<rparr>)"
proof -
  have "in_hands ((threads p)[i := w]) = in_hands (threads p)"
    using in_hands_update [OF assms(2), of w] assms(3,4) by simp
  then show ?thesis
    using assms bex_update [of i "threads p" awake w] not_in_update [of _ "threads p" w i]
    by (auto simp: pool_inv_def)
qed

lemma execute_inv:
  assumes "pool_inv p" and "i < length (threads p)" and "threads p ! i = Executing t"
  shows "pool_inv (p\<lparr>threads := (threads p)[i := AtWhile], executed := executed p @ [t]\<rparr>)"
proof -
  have "in_hands (threads p) = in_hands ((threads p)[i := AtWhile]) + {#t#}"
    using in_hands_update [OF assms(2), of AtWhile] assms(3) by simp
  then show ?thesis
    using assms bex_update [of i "threads p" awake AtWhile]
      not_in_update [of _ "threads p" AtWhile i]
    by (auto simp: pool_inv_def awake_def)
qed

lemma notify_caller_woken:
  assumes "notify_one waits_full wake_caller cs cs'"
  shows "\<exists>c \<in> set cs'. waits_full c \<Longrightarrow> \<exists>c \<in> set cs. waits_full c"
    and "\<exists>c \<in> set cs. waits_full c \<Longrightarrow> n_woken cs' = Suc (n_woken cs)"
proof -
  have wake: "\<not> waits_full (wake_caller c)" for c :: "'a caller" by (cases c) simp_all
  show "\<exists>c \<in> set cs. waits_full c" if "\<exists>c \<in> set cs'. waits_full c"
    using assms that wake bex_update_cases [of cs _ _ waits_full]
    by (auto simp: notify_one_def split: if_splits)
  show "n_woken cs' = Suc (n_woken cs)" if ex: "\<exists>c \<in> set cs. waits_full c"
  proof -
    obtain i where i: "i < length cs" "waits_full (cs ! i)" "cs' = cs[i := wake_caller (cs ! i)]"
      using assms ex by (auto simp: notify_one_def)
    then have "woken_full (wake_caller (cs ! i))" "\<not> woken_full (cs ! i)"
      by (cases "cs ! i"; simp)+
    then show ?thesis using n_woken_update [OF i(1), of "wake_caller (cs ! i)"] i(3) by simp
  qed
qed

lemma take_task_inv:
  assumes "pool_inv p" and "i < length (threads p)" and "taking (threads p ! i)"
    and "take_outcome p = TakeTask t q"
    and "if 0 < maxQueueSize p then notify_one waits_full wake_caller (callers p) cs
         else cs = callers p"
  shows "pool_inv (p\<lparr>threads := (threads p)[i := Executing t], queue := q, callers := cs,
    taken := taken p @ [t]\<rparr>)"
proof -
  have q: "queue p = t # q"
    using assms(4) by (auto simp: take_outcome_def split: if_splits list.splits)
  have hands: "in_hands ((threads p)[i := Executing t]) = in_hands (threads p) + {#t#}"
    using in_hands_update [OF assms(2), of "Executing t"] assms(3) by auto
  have cs: "0 < maxQueueSize p \<and> maxQueueSize p \<le> length q + n_woken cs"
    if r: "running p" "\<exists>c \<in> set cs. waits_full c"
  proof -
    have ex: "\<exists>c \<in> set (callers p). waits_full c"
      using assms(5) r(2) notify_caller_woken(1) by (auto split: if_splits)
    then have m: "0 < maxQueueSize p" "maxQueueSize p \<le> length (queue p) + n_woken (callers p)"
      using assms(1) r(1) by (auto simp: pool_inv_def)
    then show ?thesis using notify_caller_woken(2) [OF _ ex, of cs] assms(5) q by simp
  qed
  have stopped: "\<forall>c \<in> set cs. \<not> waits_full c" if "\<not> running p"
  proof -
    have "\<forall>c \<in> set (callers p). \<not> waits_full c" using assms(1) that by (simp add: pool_inv_def)
    then show ?thesis using assms(5) notify_caller_woken(1) [of "callers p" cs]
      by (auto split: if_splits)
  qed
  show ?thesis
    using assms(1,2) q hands cs stopped bex_update [of i "threads p" awake "Executing t"]
      not_in_update [of _ "threads p" "Executing t" i]
    by (auto simp: pool_inv_def awake_def)
qed

lemma pool_step_inv: "pool_step p p' \<Longrightarrow> pool_inv p \<Longrightarrow> pool_inv p'"
proof (induction rule: pool_step.induct)
  case (take_wait i p)
  then show ?case
    by (intro worker_move_inv) (auto simp: take_outcome_def split: if_splits list.splits)
next
  case (take_none i p)
  then show ?case
    by (intro worker_move_inv) (auto simp: take_outcome_def awake_def split: if_splits list.splits)
qed (auto intro: run_wait_inv run_return_inv run_push_inv execute_inv take_task_inv
    intro!: worker_move_inv simp: awake_def)

lemma wake_worker_awake [simp]: "wake_worker w \<noteq> WaitEmpty" "WaitEmpty \<noteq> wake_worker w"
  by (cases w; simp)+

lemma wake_caller_awake [simp]: "\<not> waits_full (wake_caller c)"
  by (cases c) simp_all

lemma stop_inv: "pool_inv p \<Longrightarrow> pool_inv (stop_section p)"
  by (auto simp: pool_inv_def stop_section_def)

lemma spurious_caller_inv:
  assumes "pool_inv p" and "i < length (callers p)"
  shows "pool_inv (p\<lparr>callers := (callers p)[i := wake_caller (callers p ! i)]\<rparr>)"
proof -
  let ?c = "callers p ! i" and ?cs = "(callers p)[i := wake_caller (callers p ! i)]"
  have w: "\<not> waits_full (wake_caller ?c)" and le: "n_woken (callers p) \<le> n_woken ?cs"
    using n_woken_update [OF assms(2), of "wake_caller ?c"] by (cases ?c; simp)+
  show ?thesis
    using assms w le bex_update_cases [of "callers p" i "wake_caller ?c" waits_full]
      ball_update [of "callers p" "\<lambda>c. \<not> waits_full c" "wake_caller ?c" i]
    by (auto simp: pool_inv_def)
qed

lemma spurious_worker_inv:
  assumes "pool_inv p" and "i < length (threads p)"
  shows "pool_inv (p\<lparr>threads := (threads p)[i := wake_worker (threads p ! i)]\<rparr>)"
proof (cases "threads p ! i = WaitEmpty")
  case True
  then show ?thesis using assms by (intro worker_move_inv) (auto simp: awake_def)
next
  case False
  then have "wake_worker (threads p ! i) = threads p ! i" by (cases "threads p ! i") simp_all
  then show ?thesis using assms by simp
qed

lemma pool_env_inv: "pool_env p p' \<Longrightarrow> pool_inv p \<Longrightarrow> pool_inv p'"
  by (induction rule: pool_env.induct)
    (auto simp: stop_inv spurious_worker_inv spurious_caller_inv,
      auto simp: pool_inv_def n_woken_def)

interpretation ta: step_system pool_any pool_inv
  by unfold_locales (auto simp: pool_any_def pool_step_inv pool_env_inv)

lemma in_hands_start [simp]: "in_hands (replicate k AtWhile) = {#}"
  by (induction k) (simp_all add: in_hands_def)

lemma pool_start_inv:
  assumes "ThreadPool_start (setMaxQueueSize m (ThreadPool_new n)) = Inr p" and "0 < n"
  shows "pool_inv p"
  using assms by (auto simp: ThreadPool_start_def setMaxQueueSize_def ThreadPool_new_def
      pool_inv_def split: if_splits)

lemma pool_reach_inv: "pool_reach n m p \<Longrightarrow> 0 < n \<Longrightarrow> pool_inv p"
  unfolding pool_reach_def using pool_start_inv ta.steps_keep by blast

section \<open>Progress and termination\<close>

fun worker_weight :: "bool \<Rightarrow> 't worker \<Rightarrow> nat" where
  "worker_weight r AtWhile = (if r then 3 else 1)"
| "worker_weight r Taking = 2"
| "worker_weight r WokenEmpty = 2"
| "worker_weight r WaitEmpty = 0"
| "worker_weight r (Executing t) = 4"
| "worker_weight r Finished = 0"

fun caller_weight :: "'t caller \<Rightarrow> nat" where
  "caller_weight (Calling t) = 8"
| "caller_weight (WokenFull t) = 8"
| "caller_weight (WaitFull t) = 7"
| "caller_weight Returned = 0"

definition pool_weight :: "'t pool \<Rightarrow> nat" where
  "pool_weight p = sum_list (map (worker_weight (running p)) (threads p))
     + sum_list (map caller_weight (callers p)) + 5 * length (queue p)"

lemma sum_map_update:
  fixes f :: "'a \<Rightarrow> nat"
  shows "i < length xs \<Longrightarrow> sum_list (map f (xs[i := x])) + f (xs ! i) = sum_list (map f xs) + f x"
  using sum_list_update_add [of i "map f xs" "f x"] by (simp add: map_update)

lemma run_task_weight: "run_task c = Some t \<Longrightarrow> caller_weight c = 8"
  by (cases c) simp_all

lemma notify_worker_weight:
  assumes "notify_one (\<lambda>w. w = WaitEmpty) wake_worker ws ws'"
  shows "sum_list (map (worker_weight r) ws') \<le> sum_list (map (worker_weight r) ws) + 2"
  using assms sum_map_update [of _ ws "worker_weight r" WokenEmpty]
  by (fastforce simp: notify_one_def split: if_splits)

lemma notify_caller_weight:
  assumes "notify_one waits_full wake_caller cs cs'"
  shows "sum_list (map caller_weight cs') \<le> sum_list (map caller_weight cs) + 1"
proof (cases "\<exists>c \<in> set cs. waits_full c")
  case True
  then obtain i where i: "i < length cs" "cs' = cs[i := wake_caller (cs ! i)]"
    using assms by (auto simp: notify_one_def)
  have "caller_weight (wake_caller (cs ! i)) \<le> caller_weight (cs ! i) + 1"
    by (cases "cs ! i") simp_all
  then show ?thesis
    using sum_map_update [OF i(1), of caller_weight "wake_caller (cs ! i)"] unfolding i(2)
    by linarith
qed (use assms in \<open>simp add: notify_one_def\<close>)

lemma notify_one_ex: "\<exists>ys. notify_one waits wake xs ys"
proof (cases "\<exists>x \<in> set xs. waits x")
  case True
  then obtain i where "i < length xs" "waits (xs ! i)" by (auto simp: in_set_conv_nth)
  with True show ?thesis by (auto simp: notify_one_def)
qed (simp add: notify_one_def)

lemma run_outcome_running:
  "run_outcome p = RunReturn \<Longrightarrow> \<not> running p" "run_outcome p = RunPush \<Longrightarrow> running p"
  by (auto simp: run_outcome_def split: if_splits)

lemma take_outcome_queue:
  "take_outcome p = TakeTask t q \<Longrightarrow> queue p = t # q"
  "take_outcome p = TakeNone \<Longrightarrow> queue p = [] \<and> \<not> running p"
  "take_outcome p = TakeWait \<Longrightarrow> queue p = [] \<and> running p"
  by (auto simp: take_outcome_def split: if_splits list.splits)

lemma taking_weight: "taking w \<Longrightarrow> worker_weight r w = 2"
  by auto

text \<open>Every step of the threads themselves uses up some of the work.\<close>

lemma pool_step_weight: "pool_step p p' \<Longrightarrow> pool_weight p' < pool_weight p"
proof (induction rule: pool_step.induct)
  case (run_wait i p t)
  then show ?case
    using sum_map_update [OF run_wait(1), of caller_weight "WaitFull t"] run_task_weight
    by (force simp: pool_weight_def)
next
  case (run_return i p t)
  then show ?case
    using sum_map_update [OF run_return(1), of caller_weight Returned] run_task_weight
    by (force simp: pool_weight_def)
next
  case (run_push i p t ws)
  then show ?case
    using sum_map_update [OF run_push(1), of caller_weight Returned] run_task_weight [OF run_push(2)]
      notify_worker_weight [OF run_push(4), of "running p"]
    by (simp add: pool_weight_def)
next
  case (while_true i p)
  then show ?case
    using sum_map_update [OF while_true(1), of "worker_weight (running p)" Taking]
    by (simp add: pool_weight_def)
next
  case (while_false i p)
  then show ?case
    using sum_map_update [OF while_false(1), of "worker_weight (running p)" Finished]
    by (simp add: pool_weight_def)
next
  case (take_wait i p)
  then show ?case
    using sum_map_update [OF take_wait(1), of "worker_weight (running p)" WaitEmpty]
      taking_weight [OF take_wait(2)]
    by (simp add: pool_weight_def)
next
  case (take_task i p t q cs)
  have "sum_list (map caller_weight cs) \<le> sum_list (map caller_weight (callers p)) + 1"
    using take_task(4) notify_caller_weight by (auto split: if_splits)
  then show ?case
    using sum_map_update [OF take_task(1), of "worker_weight (running p)" "Executing t"]
      taking_weight [OF take_task(2), of "running p"] take_outcome_queue(1) [OF take_task(3)]
    by (simp add: pool_weight_def)
next
  case (take_none i p)
  then show ?case
    using sum_map_update [OF take_none(1), of "worker_weight (running p)" AtWhile]
      taking_weight [OF take_none(2), of "running p"] take_outcome_queue(2) [OF take_none(3)]
    by (simp add: pool_weight_def)
next
  case (execute i p t)
  then show ?case
    using sum_map_update [OF execute(1), of "worker_weight (running p)" AtWhile]
    by (simp add: pool_weight_def split: if_splits)
qed

lemma pool_step_keeps:
  assumes "pool_step p p'"
  shows "running p' = running p" "length (callers p') = length (callers p)"
proof -
  have "length cs = length (callers p)" if "notify_one waits_full wake_caller (callers p) cs" for cs p
    using that by (auto simp: notify_one_def split: if_splits)
  with assms show "running p' = running p" "length (callers p') = length (callers p)"
    by (cases rule: pool_step.cases; auto split: if_splits)+
qed

text \<open>The steps of the threads come to an end, whichever of them are taken.\<close>

interpretation tp: draining_system pool_step pool_inv "\<lambda>_. True" "\<lambda>p. \<nexists>p'. pool_step p p'" pool_weight
    "\<lambda>p. (running p, length (callers p))"
proof (unfold_locales, goal_cases)
  case (1 p p')
  then show ?case by (rule pool_step_inv)
next
  case (2 p)
  then obtain p' where "pool_step p p'" by blast
  with pool_step_weight [OF this] pool_step_keeps [OF this] show ?case by auto
qed

lemma pool_steps_keep:
  "pool_step\<^sup>*\<^sup>* p p' \<Longrightarrow> running p' = running p \<and> length (callers p') = length (callers p)"
  by (induction rule: rtranclp_induct) (simp_all add: pool_step_keeps)

subsection \<open>States without a step\<close>

lemma quiescent_threads:
  assumes "\<nexists>p'. pool_step p p'"
  shows "set (threads p) \<subseteq> {WaitEmpty, Finished}"
proof (rule subsetI, rule ccontr)
  fix w assume w: "w \<in> set (threads p)" "w \<notin> {WaitEmpty, Finished}"
  then obtain i where i: "i < length (threads p)" "threads p ! i = w" by (auto simp: in_set_conv_nth)
  have "\<exists>p'. pool_step p p'" if "taking w"
  proof (cases "take_outcome p")
    case (TakeTask t q)
    obtain cs where "if 0 < maxQueueSize p then notify_one waits_full wake_caller (callers p) cs
        else cs = callers p"
      using notify_one_ex by (cases "0 < maxQueueSize p") fastforce+
    then show ?thesis using pool_step.take_task [OF i(1) _ TakeTask] that i(2) by blast
  qed (use pool_step.take_wait [OF i(1)] pool_step.take_none [OF i(1)] that i(2) in blast)+
  moreover have "\<exists>p'. pool_step p p'" if "\<not> taking w"
    using w(2) i that pool_step.while_true [OF i(1)] pool_step.while_false [OF i(1)]
      pool_step.execute [OF i(1)]
    by (cases w) blast+
  ultimately show False using assms by blast
qed

lemma quiescent_callers:
  assumes "\<nexists>p'. pool_step p p'" and "c \<in> set (callers p)"
  shows "run_task c = None"
proof (rule ccontr)
  assume "run_task c \<noteq> None"
  then obtain i t where i: "i < length (callers p)" "run_task (callers p ! i) = Some t"
    using assms(2) by (auto simp: in_set_conv_nth)
  obtain ws where "notify_one (\<lambda>w. w = WaitEmpty) wake_worker (threads p) ws"
    using notify_one_ex by blast
  then show False
    using assms(1) pool_step.run_wait [OF i] pool_step.run_return [OF i] pool_step.run_push [OF i]
    by (cases "run_outcome p") blast+
qed

lemma in_hands_none: "(\<And>w. w \<in> set ws \<Longrightarrow> in_hand w = {#}) \<Longrightarrow> in_hands ws = {#}"
  by (induction ws) (auto simp: in_hands_def)

lemma caller_cases: "run_task c = None \<Longrightarrow> \<not> waits_full c \<Longrightarrow> c = Returned"
  by (cases c) simp_all

lemma quiescent_running:
  assumes inv: "pool_inv p" and q: "\<nexists>p'. pool_step p p'" and r: "running p"
  shows "queue p = []" and "\<forall>c \<in> set (callers p). c = Returned"
    and "mset (executed p) = mset (pushed p)"
proof -
  have ws: "set (threads p) \<subseteq> {WaitEmpty, Finished}" using quiescent_threads [OF q] .
  then have "\<not> (\<exists>w \<in> set (threads p). awake w)" by (auto simp: awake_def)
  then show e: "queue p = []" using inv r by (auto simp: pool_inv_def)
  have "run_task c = None" if "c \<in> set (callers p)" for c using quiescent_callers [OF q that] .
  moreover from this have "\<not> woken_full c" if "c \<in> set (callers p)" for c
    using that by (cases c) force+
  then have "n_woken (callers p) = 0" by (auto simp: n_woken_def)
  then have "\<not> waits_full c" if "c \<in> set (callers p)" for c
    using inv r e that by (auto simp: pool_inv_def)
  ultimately show "\<forall>c \<in> set (callers p). c = Returned" using caller_cases by blast
  have "in_hand w = {#}" if "w \<in> set (threads p)" for w
    using ws that by auto
  then have "in_hands (threads p) = {#}" by (rule in_hands_none)
  then show "mset (executed p) = mset (pushed p)" using inv e by (simp add: pool_inv_def)
qed

lemma quiescent_stopped:
  assumes inv: "pool_inv p" and q: "\<nexists>p'. pool_step p p'" and r: "\<not> running p"
  shows "all_joined p" and "\<forall>c \<in> set (callers p). c = Returned"
proof -
  show "all_joined p"
    using quiescent_threads [OF q] inv r by (auto simp: all_joined_def pool_inv_def)
  show "\<forall>c \<in> set (callers p). c = Returned"
    using quiescent_callers [OF q] caller_cases inv r by (auto simp: pool_inv_def)
qed

section \<open>Properties\<close>

text \<open>Where the tasks of the calls are: a call that has not returned still holds its task.\<close>

fun pending_task :: "'t caller \<Rightarrow> 't option" where
  "pending_task Returned = None"
| "pending_task (Calling t) = Some t"
| "pending_task (WaitFull t) = Some t"
| "pending_task (WokenFull t) = Some t"

definition in_calls :: "'t caller list \<Rightarrow> 't multiset" where
  "in_calls cs = sum_list (map (\<lambda>c. case pending_task c of None \<Rightarrow> {#} | Some t \<Rightarrow> {#t#}) cs)"

lemma in_calls_filter: "in_calls cs = mset (List.map_filter pending_task cs)"
  by (induction cs) (simp_all add: in_calls_def map_filter_simps split: option.splits)

lemma in_calls_update:
  "i < length cs \<Longrightarrow> in_calls (cs[i := c]) + (case pending_task (cs ! i) of None \<Rightarrow> {#} | Some t \<Rightarrow> {#t#})
     = in_calls cs + (case pending_task c of None \<Rightarrow> {#} | Some t \<Rightarrow> {#t#})"
  using sum_list_update_add [of i "map (\<lambda>c. case pending_task c of None \<Rightarrow> {#} | Some t \<Rightarrow> {#t#}) cs"]
  by (simp add: in_calls_def map_update)

lemma pending_wake [simp]: "pending_task (wake_caller c) = pending_task c"
  by (cases c) simp_all

lemma in_calls_wake [simp]: "in_calls (map wake_caller cs) = in_calls cs"
  by (simp add: in_calls_def comp_def)

lemma in_calls_same:
  "i < length cs \<Longrightarrow> pending_task c = pending_task (cs ! i) \<Longrightarrow> in_calls (cs[i := c]) = in_calls cs"
  using in_calls_update [of i cs c] by simp

lemma run_task_pending: "run_task c = Some t \<Longrightarrow> pending_task c = Some t"
  by (cases c) simp_all

lemma notify_in_calls: "notify_one waits_full wake_caller cs cs' \<Longrightarrow> in_calls cs' = in_calls cs"
  by (auto simp: notify_one_def in_calls_same split: if_splits)

definition tasks_inv :: "'t pool \<Rightarrow> bool" where
  "tasks_inv p \<longleftrightarrow> mset (called p) = mset (pushed p) + in_calls (callers p) + mset (dropped p)"

lemma tasks_returned:
  assumes "tasks_inv p" and "i < length (callers p)" and "run_task (callers p ! i) = Some t"
  shows "mset (called p) = add_mset t (mset (pushed p) + in_calls ((callers p)[i := Returned]) + mset (dropped p))"
  using assms(1) in_calls_update [OF assms(2), of Returned] run_task_pending [OF assms(3)]
  by (simp add: tasks_inv_def ac_simps)

lemma tasks_step:
  assumes "pool_step p p'" and "tasks_inv p"
  shows "tasks_inv p'"
  using assms(1)
proof (cases rule: pool_step.cases)
  case (run_wait i t)
  with assms(2) show ?thesis by (simp add: tasks_inv_def in_calls_same run_task_pending)
next
  case (run_return i t)
  with tasks_returned [OF assms(2)] show ?thesis by (simp add: tasks_inv_def)
next
  case (run_push i t ws)
  with tasks_returned [OF assms(2)] show ?thesis by (simp add: tasks_inv_def)
next
  case (take_task i t q cs)
  with assms(2) show ?thesis by (auto simp: tasks_inv_def notify_in_calls split: if_splits)
qed (use assms(2) in \<open>simp_all add: tasks_inv_def\<close>)

lemma tasks_env: "pool_env p p' \<Longrightarrow> tasks_inv p \<Longrightarrow> tasks_inv p'"
  by (cases rule: pool_env.cases)
    (auto simp: tasks_inv_def stop_section_def in_calls_same, simp add: in_calls_def)

lemma pool_reach_tasks:
  assumes "pool_reach n maxSize p"
  shows "tasks_inv p"
proof -
  obtain p0 where p0: "ThreadPool_start (setMaxQueueSize maxSize (ThreadPool_new n)) = Inr p0" "pool_any\<^sup>*\<^sup>* p0 p"
    using assms by (auto simp: pool_reach_def)
  from p0(2) show ?thesis
  proof (induction rule: rtranclp_induct)
    case base
    from p0(1) show ?case
      by (auto simp: ThreadPool_start_def setMaxQueueSize_def ThreadPool_new_def tasks_inv_def in_calls_def
          rbind_eq_Inr split: if_splits)
  next
    case (step y z)
    then show ?case using tasks_step tasks_env by (auto simp: pool_any_def)
  qed
qed

text \<open>
  Property C10. Every task exactly once. In every reachable state of a pool with at least one thread, for
  any interleaving of callers, workers, spurious wake-ups and \<^verbatim>\<open>stop\<close>: each task that \<^verbatim>\<open>run\<close> was called
  with is in exactly one place. Either its call has not returned, or it has been put into the queue, or it was
  refused, and it is refused only when the pool has been stopped, never because the queue is full. The tasks
  queued are, in their order, the ones taken by a thread followed by the ones still in the queue; the tasks
  taken are those that have been executed and those that threads are executing at the moment. A bounded queue
  never exceeds its bound. (What is in the queue when the last thread of a stopped pool ends stays there,
  \<open>pool_stop_abandons_queue\<close>.)
\<close>

theorem pool_exactly_once:
  assumes "pool_reach n maxSize p" and "0 < n"
  shows "mset (called p) = mset (pushed p) + mset (List.map_filter pending_task (callers p)) + mset (dropped p)
    \<and> (running p \<longrightarrow> dropped p = [])
    \<and> pushed p = taken p @ queue p
    \<and> mset (taken p) = mset (executed p) + mset [t. Executing t \<leftarrow> threads p]
    \<and> (0 < maxQueueSize p \<longrightarrow> length (queue p) \<le> maxQueueSize p)"
proof -
  have "in_hands ws = mset [t. Executing t \<leftarrow> ws]" for ws :: "'a worker list"
  proof (induction ws)
    case (Cons w ws)
    then show ?case by (cases w) (simp_all add: in_hands_def)
  qed (simp add: in_hands_def)
  then show ?thesis
    using pool_reach_inv [OF assms] pool_reach_tasks [OF assms(1)]
    by (auto simp: pool_inv_def tasks_inv_def in_calls_filter)
qed

definition demo_pool :: "nat pool" where
  "demo_pool = (ThreadPool_new 2)\<lparr>running := True, threads := [AtWhile, AtWhile], maxQueueSize := 1,
     callers := [Calling 7], called := [7]\<rparr>"

lemma demo_pool_reach: "pool_reach 2 1 demo_pool" "running demo_pool"
proof -
  let ?p = "(ThreadPool_new 2 :: nat pool)\<lparr>running := True, threads := [AtWhile, AtWhile], maxQueueSize := 1\<rparr>"
  have "ThreadPool_start (setMaxQueueSize 1 (ThreadPool_new 2)) = Inr ?p"
    by (simp add: ThreadPool_start_def setMaxQueueSize_def ThreadPool_new_def size_of_int_def
        numeral_2_eq_2)
  moreover have "pool_any\<^sup>*\<^sup>* ?p demo_pool"
    using pool_env.call_run [of ?p 7]
    by (intro r_into_rtranclp) (simp add: pool_any_def demo_pool_def ThreadPool_new_def)
  ultimately show "pool_reach 2 1 demo_pool" unfolding pool_reach_def by blast
  show "running demo_pool" by (simp add: demo_pool_def)
qed

theorem pool_exactly_once_witness:
  "mset (called demo_pool) = mset (pushed demo_pool) + {#7#} + mset (dropped demo_pool)
    \<and> pushed demo_pool = taken demo_pool @ queue demo_pool
    \<and> mset (taken demo_pool) = mset (executed demo_pool) + mset [t. Executing t \<leftarrow> threads demo_pool]
    \<and> pool_reach 2 1 demo_pool"
proof -
  have "List.map_filter pending_task (callers demo_pool) = [7]" by (simp add: demo_pool_def map_filter_simps)
  with pool_exactly_once [OF demo_pool_reach(1)] demo_pool_reach(1) show ?thesis by simp
qed

text \<open>
  Property C9. No lost wake-up, no deadlock. While the pool is running, the threads and the blocked
  callers cannot get stuck: from every reachable state, however the steps of the threads are
  scheduled, they come to an end, and then the queue is empty, every call of \<^verbatim>\<open>run\<close> has returned and
  every task that was pushed has been executed.
\<close>

theorem pool_completes:
  assumes "pool_reach n maxSize p" and "0 < n" and "running p"
  shows "(\<exists>p'. pool_step\<^sup>*\<^sup>* p p' \<and> (\<nexists>p''. pool_step p' p''))
    \<and> (\<forall>p'. pool_step\<^sup>*\<^sup>* p p' \<longrightarrow> (\<nexists>p''. pool_step p' p'') \<longrightarrow>
         queue p' = [] \<and> mset (executed p') = mset (pushed p') \<and> (\<forall>c \<in> set (callers p'). c = Returned))
    \<and> (\<forall>p' p''. pool_step\<^sup>*\<^sup>* p p' \<longrightarrow> pool_step p' p'' \<longrightarrow> pool_weight p'' < pool_weight p')"
proof -
  have inv: "pool_inv p'" if "pool_step\<^sup>*\<^sup>* p p'" for p'
    using tp.steps_keep [OF that pool_reach_inv [OF assms(1,2)]] .
  have "queue p' = [] \<and> mset (executed p') = mset (pushed p') \<and> (\<forall>c \<in> set (callers p'). c = Returned)"
    if p': "pool_step\<^sup>*\<^sup>* p p'" "\<nexists>p''. pool_step p' p''" for p'
    using quiescent_running [OF inv [OF p'(1)] p'(2)] pool_steps_keep [OF p'(1)] assms(3) by blast
  then show ?thesis using tp.drains [OF pool_reach_inv [OF assms(1,2)]] pool_step_weight by blast
qed

theorem pool_completes_witness:
  "\<exists>p'. pool_step\<^sup>*\<^sup>* demo_pool p' \<and> (\<nexists>p''. pool_step p' p'') \<and> queue p' = [] \<and>
     mset (executed p') = mset (pushed p') \<and> callers p' = [Returned]"
proof -
  have n: "(0 :: int) < 2" by simp
  obtain p' where p': "pool_step\<^sup>*\<^sup>* demo_pool p'" "\<nexists>p''. pool_step p' p''"
    "queue p' = []" "mset (executed p') = mset (pushed p')" "\<forall>c \<in> set (callers p'). c = Returned"
    using pool_completes [OF demo_pool_reach(1) n demo_pool_reach(2)] by blast
  moreover have "length (callers p') = 1"
    using pool_steps_keep [OF p'(1)] by (simp add: demo_pool_def)
  ultimately show ?thesis by (auto simp: length_Suc_conv)
qed

text \<open>
  Property C32. \<^verbatim>\<open>stop\<close> returns. After \<^verbatim>\<open>stop\<close> has cleared \<^verbatim>\<open>running_\<close> and notified the waiting threads,
  no scheduling of the threads can block: their steps come to an end, and then every thread has
  left \<^verbatim>\<open>threadFunc\<close>, so that the joins succeed, and every caller blocked in \<^verbatim>\<open>run\<close> has returned.
\<close>

theorem pool_stop_joins:
  assumes "pool_reach n maxSize p" and "0 < n" and "\<not> running p"
  shows "(\<exists>p'. pool_step\<^sup>*\<^sup>* p p' \<and> (\<nexists>p''. pool_step p' p''))
    \<and> (\<forall>p'. pool_step\<^sup>*\<^sup>* p p' \<longrightarrow> (\<nexists>p''. pool_step p' p'') \<longrightarrow>
         all_joined p' \<and> (\<forall>c \<in> set (callers p'). c = Returned))"
proof -
  have inv: "pool_inv p'" if "pool_step\<^sup>*\<^sup>* p p'" for p'
    using tp.steps_keep [OF that pool_reach_inv [OF assms(1,2)]] .
  have "all_joined p' \<and> (\<forall>c \<in> set (callers p'). c = Returned)"
    if p': "pool_step\<^sup>*\<^sup>* p p'" "\<nexists>p''. pool_step p' p''" for p'
    using quiescent_stopped [OF inv [OF p'(1)] p'(2)] pool_steps_keep [OF p'(1)] assms(3) by blast
  then show ?thesis using tp.drains [OF pool_reach_inv [OF assms(1,2)]] by blast
qed

theorem pool_stop_joins_witness:
  "\<exists>p'. pool_step\<^sup>*\<^sup>* (stop_section demo_pool) p' \<and> all_joined p'"
proof -
  have n: "(0 :: int) < 2" by simp
  have "pool_any demo_pool (stop_section demo_pool)" by (simp add: pool_any_def pool_env.stop)
  then have "pool_reach 2 1 (stop_section demo_pool)"
    using demo_pool_reach(1) unfolding pool_reach_def by (meson rtranclp.rtrancl_into_rtrancl)
  from pool_stop_joins [OF this n] show ?thesis by (auto simp: stop_section_def)
qed

lemma joined_step:
  assumes "pool_step y z" and "all_joined y" and "\<not> running y"
  shows "\<exists>cs ds. z = y\<lparr>callers := cs, dropped := ds\<rparr>"
proof -
  have idle: "threads y ! i = Finished" if "i < length (threads y)" for i
    using assms(2) that by (simp add: all_joined_def)
  show ?thesis using assms(1)
  proof (cases rule: pool_step.cases)
    case (run_wait i t)
    then show ?thesis using assms(3) by (simp add: run_outcome_def split: if_splits)
  qed (use idle assms(3) run_outcome_running(2) in fastforce)+
qed

text \<open>
  Tasks that are still queued when the last thread of a stopped pool has left
  \<^verbatim>\<open>threadFunc\<close> are abandoned: whatever is called afterwards, they stay in the queue and are never
  executed.
\<close>

theorem pool_stop_abandons_queue:
  assumes "\<not> running p" and "all_joined p" and "pool_any\<^sup>*\<^sup>* p p'"
  shows "queue p' = queue p \<and> executed p' = executed p \<and> all_joined p'"
proof -
  from assms(3) have "queue p' = queue p \<and> executed p' = executed p \<and> all_joined p' \<and> \<not> running p'"
  proof (induction rule: rtranclp_induct)
    case (step y z)
    have idle: "threads y ! i = Finished" if "i < length (threads y)" for i
      using step.IH that by (simp add: all_joined_def)
    have fin: "\<forall>w \<in> set ((threads y)[i := wake_worker (threads y ! i)]). w = Finished"
      if "i < length (threads y)" for i
      using step.IH idle [OF that] by (intro ball_update) (simp_all add: all_joined_def)
    from step.hyps(2) consider "pool_step y z" | "pool_env y z" by (auto simp: pool_any_def)
    then show ?case
    proof cases
      case 1
      from joined_step [OF this] step.IH obtain cs ds where
        "z = y\<lparr>callers := cs, dropped := ds\<rparr>" by blast
      with step.IH show ?thesis by (simp add: all_joined_def)
    next
      case 2
      then show ?thesis using step.IH fin
        by (cases rule: pool_env.cases) (auto simp: all_joined_def stop_section_def)
    qed
  qed (use assms in simp)
  then show ?thesis by blast
qed

theorem pool_stop_abandons_queue_witness:
  "let p = (ThreadPool_new 1)\<lparr>threads := [Finished], queue := [7 :: nat], pushed := [7]\<rparr>
   in pool_any\<^sup>*\<^sup>* p (p\<lparr>callers := [Calling 8], called := [8]\<rparr>) \<and> queue (p\<lparr>callers := [Calling 8]\<rparr>) = [7]
     \<and> executed (p\<lparr>callers := [Calling 8]\<rparr>) = []"
proof -
  let ?p = "(ThreadPool_new 1)\<lparr>threads := [Finished], queue := [7 :: nat], pushed := [7]\<rparr>"
  have r: "pool_any\<^sup>*\<^sup>* ?p (?p\<lparr>callers := [Calling 8], called := [8]\<rparr>)"
    using pool_env.call_run [of ?p 8]
    by (intro r_into_rtranclp) (simp add: pool_any_def ThreadPool_new_def)
  have "\<not> running ?p" "all_joined ?p" by (simp_all add: ThreadPool_new_def all_joined_def)
  from pool_stop_abandons_queue [OF this r] r show ?thesis by (simp add: ThreadPool_new_def Let_def)
qed

end
