(* ===== verification/TaskManager.thy ===== *)
theory TaskManager
  imports Package ThreadPool
begin

text \<open>
  Dispatch of received packages to handler threads, \<^verbatim>\<open>asio/internal/TaskManager.cpp\<close>. A handler is
  registered under the type name of its message. A package whose order flag is set is posted to one
  of the workers, each an event loop with one thread, which is modelled by the list of the jobs
  posted to it; every other package goes to the thread pool. The handlers themselves are a type
  variable; calling the pre-handler, which may change the package and the rest of the program's
  state, is an argument of \<open>handleMessage\<close>.
\<close>

section \<open>State and operations\<close>

type_synonym ('task, 'm) job = "'task \<times> int \<times> 'm Package"

record ('task, 'm) taskManager =
  pool :: "('task, 'm) job pool"
  handler :: "string \<rightharpoonup> 'task"
  workers :: "('task, 'm) job list list"
  preTask :: "'task option"

definition TaskManager_init ::
    "nat \<Rightarrow> nat \<Rightarrow> ('task, 'm) taskManager result" where
  "TaskManager_init workSize poolSize =
     rbind (ThreadPool_start (ThreadPool_new (wrap32 (int poolSize)))) (\<lambda>p.
       Inr \<lparr>pool = p, handler = Map.empty, workers = replicate workSize [], preTask = None\<rparr>)"

definition TaskManager_new :: "nat \<Rightarrow> nat \<Rightarrow> ('task, 'm) taskManager result" where
  "TaskManager_new workSize poolSize = TaskManager_init (max workSize 1) (max poolSize 1)"

definition addHandleTask ::
    "string \<Rightarrow> 'task \<Rightarrow> ('task, 'm) taskManager \<Rightarrow> ('task, 'm) taskManager" where
  "addHandleTask protoName task tm = tm\<lparr>handler := (handler tm)(protoName \<mapsto> task)\<rparr>"

definition setPreHandleTask ::
    "'task option \<Rightarrow> ('task, 'm) taskManager \<Rightarrow> ('task, 'm) taskManager" where
  "setPreHandleTask task tm = tm\<lparr>preTask := task\<rparr>"

text \<open>
  The index of the worker: the session id is an \<^verbatim>\<open>int\<close>, the number of workers a \<^verbatim>\<open>size_t\<close>, so the
  remainder is taken on unsigned numbers.
\<close>

definition workId :: "int \<Rightarrow> nat \<Rightarrow> nat" where
  "workId i n = size_of_int i mod n"

datatype ('task, 'm) executor =
    ToWorker nat "('task, 'm) job"
  | ToPool "('task, 'm) job"
  | NoWorker
  | Discarded

definition dispatch ::
    "'m Package \<Rightarrow> int \<Rightarrow> ('task, 'm) taskManager \<Rightarrow> ('task, 'm) executor" where
  "dispatch pac i tm =
     (case handler tm (typeName pac) of
        Some task \<Rightarrow>
          if isorder (header pac) then
            if workers tm = [] then NoWorker
            else ToWorker (workId i (length (workers tm))) (task, i, pac)
          else ToPool (task, i, pac)
      | None \<Rightarrow> Discarded)"

text \<open>\<^verbatim>\<open>pool_->run\<close> from the thread of the event loop: the call enters \<^verbatim>\<open>run\<close>.\<close>

definition pool_run :: "'t \<Rightarrow> 't pool \<Rightarrow> 't pool" where
  "pool_run t p = (case run_inline t p of Some p' \<Rightarrow> p' | None \<Rightarrow> p\<lparr>callers := callers p @ [Calling t], called := called p @ [t]\<rparr>)"

fun perform :: "('task, 'm) executor \<Rightarrow> ('task, 'm) taskManager \<Rightarrow> ('task, 'm) taskManager" where
  "perform (ToWorker k j) tm = tm\<lparr>workers := (workers tm)[k := workers tm ! k @ [j]]\<rparr>"
| "perform (ToPool j) tm = tm\<lparr>pool := pool_run j (pool tm)\<rparr>"
| "perform NoWorker tm = tm"
| "perform Discarded tm = tm"

definition handleMessage ::
    "('task \<Rightarrow> int \<Rightarrow> 'm Package \<Rightarrow> 's \<Rightarrow> 'm Package \<times> 's) \<Rightarrow> 'm Package \<Rightarrow> int \<Rightarrow>
     ('task, 'm) taskManager \<times> 's \<Rightarrow> ('task, 'm) taskManager \<times> 's" where
  "handleMessage call pac i = (\<lambda>(tm, s).
     (let (pac', s') = (case preTask tm of None \<Rightarrow> (pac, s) | Some pre \<Rightarrow> call pre i pac s)
      in (perform (dispatch pac' i tm) tm, s')))"

definition destory :: "('task, 'm) taskManager \<Rightarrow> ('task, 'm) taskManager" where
  "destory tm = tm\<lparr>pool := stop_section (pool tm)\<rparr>"

section \<open>Lemmas\<close>

lemma workId_less: "0 < n \<Longrightarrow> workId i n < n"
  by (simp add: workId_def)

lemma TaskManager_new_workers:
  assumes "TaskManager_new w p = Inr tm"
  shows "length (workers tm) = max w 1" and "0 < max p 1" and "preTask tm = None"
    and "handler tm = Map.empty"
  using assms by (auto simp: TaskManager_new_def TaskManager_init_def rbind_eq_Inr)

lemma TaskManager_new_ok:
  assumes "p < 2 ^ 31"
  shows "\<exists>tm. TaskManager_new w p = Inr tm \<and> threads (pool tm) \<noteq> []"
proof -
  have "wrap32 (int (max p 1)) = int (max p 1)" using assms by (intro wrap32_id) simp_all
  then show ?thesis
    by (simp add: TaskManager_new_def TaskManager_init_def ThreadPool_start_def ThreadPool_new_def)
qed

lemma perform_keeps [simp]:
  "handler (perform d tm) = handler tm" "preTask (perform d tm) = preTask tm"
  "length (workers (perform d tm)) = length (workers tm)"
  by (cases d; simp)+

section \<open>Where the messages go\<close>

definition handle_all ::
    "('task \<Rightarrow> int \<Rightarrow> 'm Package \<Rightarrow> 's \<Rightarrow> 'm Package \<times> 's) \<Rightarrow> ('m Package \<times> int) list \<Rightarrow>
     ('task, 'm) taskManager \<times> 's \<Rightarrow> ('task, 'm) taskManager \<times> 's" where
  "handle_all call msgs = fold (\<lambda>(pac, i). handleMessage call pac i) msgs"

text \<open>The jobs that a sequence of messages stands for, ordered and unordered.\<close>

definition jobs_of ::
    "(string \<rightharpoonup> 'task) \<Rightarrow> bool \<Rightarrow> ('m Package \<times> int) list \<Rightarrow> ('task, 'm) job list" where
  "jobs_of hs ordered msgs = List.map_filter (\<lambda>(pac, i).
     if isorder (header pac) = ordered then map_option (\<lambda>task. (task, i, pac)) (hs (typeName pac))
     else None) msgs"

abbreviation session_of :: "('task, 'm) job \<Rightarrow> int" where
  "session_of j \<equiv> fst (snd j)"

lemma pool_run_started: "threads p \<noteq> [] \<Longrightarrow> pool_run t p = p\<lparr>callers := callers p @ [Calling t], called := called p @ [t]\<rparr>"
  by (simp add: pool_run_def run_inline_def)

text \<open>
  The packages as the pre-handler, which sees every one of them first, leaves them; without a pre-handler
  they stay as they are.
\<close>

fun pre_handled ::
    "('task \<Rightarrow> int \<Rightarrow> 'm Package \<Rightarrow> 's \<Rightarrow> 'm Package \<times> 's) \<Rightarrow> 'task option \<Rightarrow> ('m Package \<times> int) list \<Rightarrow>
     's \<Rightarrow> ('m Package \<times> int) list \<times> 's" where
  "pre_handled call None msgs s = (msgs, s)"
| "pre_handled call (Some pre) [] s = ([], s)"
| "pre_handled call (Some pre) ((pac, i) # msgs) s =
     (let (pac', s1) = call pre i pac s; (msgs', s2) = pre_handled call (Some pre) msgs s1
      in ((pac', i) # msgs', s2))"

lemma pre_handled_Cons:
  "pre_handled call pre ((pac, i) # msgs) s =
     (let (pac', s1) = (case pre of None \<Rightarrow> (pac, s) | Some t \<Rightarrow> call t i pac s)
      in map_prod (Cons (pac', i)) id (pre_handled call pre msgs s1))"
  by (cases pre) (simp_all split: prod.splits)

lemma dispatch_jobs:
  assumes "workers tm \<noteq> []" and "threads (pool tm) \<noteq> []" and "tm' = perform (dispatch pac i tm) tm"
  shows "k < length (workers tm) \<Longrightarrow> workers tm' ! k = workers tm ! k
      @ filter (\<lambda>j. workId (session_of j) (length (workers tm)) = k) (jobs_of (handler tm) True [(pac, i)])"
    and "callers (pool tm') = callers (pool tm) @ map Calling (jobs_of (handler tm) False [(pac, i)])"
    and "threads (pool tm') = threads (pool tm)" and "handler tm' = handler tm"
    and "length (workers tm') = length (workers tm)" and "preTask tm' = preTask tm"
proof -
  show "workers tm' ! k = workers tm ! k
      @ filter (\<lambda>j. workId (session_of j) (length (workers tm)) = k) (jobs_of (handler tm) True [(pac, i)])"
    if "k < length (workers tm)"
    using that assms(1) by (auto simp: assms(3) dispatch_def jobs_of_def map_filter_simps
        nth_list_update split: option.splits)
  show "callers (pool tm') = callers (pool tm) @ map Calling (jobs_of (handler tm) False [(pac, i)])"
    using assms(1,2) by (auto simp: assms(3) dispatch_def jobs_of_def map_filter_simps
        pool_run_started split: option.splits)
  show "threads (pool tm') = threads (pool tm)"
    using assms(2) by (auto simp: assms(3) dispatch_def pool_run_started split: option.splits)
qed (use assms(3) in auto)

lemma jobs_of_Cons: "jobs_of hs ordered (x # msgs) = jobs_of hs ordered [x] @ jobs_of hs ordered msgs"
  by (simp add: jobs_of_def map_filter_simps split: option.splits)

text \<open>
  Property C26. Dispatch. A sequence of messages is handled: the pre-handler, if there is one, sees each of them
  first and may change it. Then each worker gets exactly the messages with a registered handler and the order
  flag whose session it is responsible for, in the order of arrival, and the thread pool is called with exactly
  the messages with a registered handler and without the flag, in the order of arrival. A message of a type that
  no handler is registered for is dropped. The worker is determined by the session id alone and always
  exists. So the ordered messages of one session are handled one after the other, by one thread, in the
  order they arrived.
\<close>

theorem dispatch_by_session:
  assumes "workers tm \<noteq> []" and "threads (pool tm) \<noteq> []"
    and "handle_all call msgs (tm, s) = (tm', s')" and "pre_handled call (preTask tm) msgs s = (msgs', s'')"
  shows "(\<forall>k < length (workers tm). workers tm' ! k = workers tm ! k
      @ filter (\<lambda>j. workId (session_of j) (length (workers tm)) = k) (jobs_of (handler tm) True msgs'))
    \<and> callers (pool tm') = callers (pool tm) @ map Calling (jobs_of (handler tm) False msgs')
    \<and> (\<forall>i. workId i (length (workers tm)) < length (workers tm')) \<and> s' = s''"
  using assms
proof (induction msgs arbitrary: tm s msgs')
  case Nil
  then have "msgs' = [] \<and> s'' = s" by (cases "preTask tm") simp_all
  with Nil show ?case by (simp add: handle_all_def jobs_of_def map_filter_simps workId_less)
next
  case (Cons x msgs)
  obtain pac i where x: "x = (pac, i)" by (cases x)
  obtain pac1 s1 where p: "(case preTask tm of None \<Rightarrow> (pac, s) | Some t \<Rightarrow> call t i pac s) = (pac1, s1)" by force
  obtain msgs1 where m: "pre_handled call (preTask tm) msgs s1 = (msgs1, s'')" "msgs' = (pac1, i) # msgs1"
    using Cons.prems(4) p by (cases "pre_handled call (preTask tm) msgs s1") (auto simp: x pre_handled_Cons)
  let ?tm1 = "perform (dispatch pac1 i tm) tm"
  note one = dispatch_jobs [OF Cons.prems(1,2), of ?tm1 pac1 i, OF refl]
  have rest: "handle_all call msgs (?tm1, s1) = (tm', s')"
    using Cons.prems(3) p by (simp add: handle_all_def handleMessage_def x split: option.splits)
  have "workers ?tm1 \<noteq> []" "threads (pool ?tm1) \<noteq> []"
    using one(3,5) Cons.prems(1,2) by (metis length_0_conv, simp)
  from Cons.IH [OF this rest] m one(1,2,4,5,6) show ?case
    by (simp add: jobs_of_Cons [of "handler tm" True "(pac1, i)" msgs1]
        jobs_of_Cons [of "handler tm" False "(pac1, i)" msgs1])
qed

definition demo_tm :: "(nat, string \<times> string) taskManager" where
  "demo_tm = \<lparr>pool = (ThreadPool_new 1)\<lparr>running := True, threads := [AtWhile]\<rparr>,
     handler = [''Req'' \<mapsto> 1], workers = [[], []], preTask = None\<rparr>"

definition demo_msg :: "int \<Rightarrow> bool \<Rightarrow> (string \<times> string) Package" where
  "demo_msg n ordered = \<lparr>header = (set_isorder ordered PacHeader_new)\<lparr>msgId := word_of_int n\<rparr>,
     typeName = ''Req'', body = [], msgPtr = None\<rparr>"

text \<open>The pre-handler of the demonstration sets the order flag of the messages of session 5.\<close>

definition demo_pre :: "nat \<Rightarrow> int \<Rightarrow> (string \<times> string) Package \<Rightarrow> nat \<Rightarrow> (string \<times> string) Package \<times> nat" where
  "demo_pre t i p n = (p\<lparr>header := set_isorder (i = 5) (header p)\<rparr>, n + 1)"

theorem dispatch_by_session_witness:
  "let (tm', n) = handle_all demo_pre
        [(demo_msg 1 False, 5), (demo_msg 2 True, 4), (demo_msg 3 True, 5)] (demo_tm\<lparr>preTask := Some 1\<rparr>, 0)
   in map (\<lambda>(t, i, p). (t, i, msgId (header p))) (workers tm' ! 1) = [(1, 5, 1), (1, 5, 3)] \<and> n = 3"
proof -
  let ?ms = "[(demo_msg 1 False, 5), (demo_msg 2 True, 4), (demo_msg 3 True, 5)]"
  let ?tm = "demo_tm\<lparr>preTask := Some 1\<rparr>"
  let ?f = "\<lambda>k o' n. (demo_msg k o')\<lparr>header := set_isorder n (header (demo_msg k o'))\<rparr>"
  obtain tm' u where h: "handle_all demo_pre ?ms (?tm, 0) = (tm', u)" by (cases "handle_all demo_pre ?ms (?tm, 0)")
  have p: "pre_handled demo_pre (preTask ?tm) ?ms 0
      = ([(?f 1 False True, 5), (?f 2 True False, 4), (?f 3 True True, 5)], 3)"
    by (simp add: demo_pre_def)
  have f: "isorder (header (?f k o' n)) = n" "typeName (?f k o' n) = ''Req''" "msgId (header (?f k o' n)) = word_of_int k"
    for k o' n
    by (simp_all add: demo_msg_def set_isorder_def isorder_def bit_simps)
  then have j: "jobs_of (handler ?tm) True [(?f 1 False True, 5), (?f 2 True False, 4), (?f 3 True True, 5)]
      = [(1, 5, ?f 1 False True), (1, 5, ?f 3 True True)]"
    by (simp add: jobs_of_def map_filter_simps demo_tm_def)
  have w: "workId 5 (length (workers demo_tm)) = 1"
    by (simp add: demo_tm_def workId_def size_of_int_def mod_Suc numeral_eq_Suc)
  have ne: "workers ?tm \<noteq> []" "threads (pool ?tm) \<noteq> []" by (simp_all add: demo_tm_def)
  have "workers tm' ! 1 = workers ?tm ! 1
      @ filter (\<lambda>j. workId (session_of j) (length (workers ?tm)) = 1)
          (jobs_of (handler ?tm) True [(?f 1 False True, 5), (?f 2 True False, 4), (?f 3 True True, 5)]) \<and> u = 3"
    using dispatch_by_session [OF ne h p] by (simp add: demo_tm_def)
  then have "workers tm' ! 1 = [(1, 5, ?f 1 False True), (1, 5, ?f 3 True True)] \<and> u = 3"
    unfolding j using w by (simp add: demo_tm_def)
  with h f(3) show ?thesis by (simp add: Let_def)
qed

end
