(* ===== verification/Pb_Wire.thy ===== *)
theory Pb_Wire
  imports Prelude
begin

text \<open>
  What the generated message classes under \<^verbatim>\<open>asio/proto\<close> use of the protocol buffers runtime. The
  runtime is not part of the repository: its primitives for reading and writing fields, and its set of
  unknown fields, are the components of the record \<open>wire\<close>, an argument of every definition, and what
  the generated code relies on is the predicate \<open>wire_ok\<close>. A read primitive gets the bytes left and
  returns the value and the bytes after it, or \<open>None\<close> where the runtime returns a null pointer; a
  write primitive returns the bytes it appends to the target.
\<close>

unbundle bit_operations_syntax

type_synonym int64 = "64 word"

record 'u wire =
  Done :: "char list \<Rightarrow> bool"
  DataAvailable :: "char list \<Rightarrow> bool"
  ReadTag :: "char list \<Rightarrow> (32 word \<times> char list) option"
  ExpectTag :: "nat \<Rightarrow> char list \<Rightarrow> bool"
  ReadVarint64 :: "char list \<Rightarrow> (64 word \<times> char list) option"
  PackedInt32Parser :: "char list \<Rightarrow> (int32 list \<times> char list) option"
  InlineGreedyStringParser :: "char list \<Rightarrow> (string \<times> char list) option"
  VerifyUTF8 :: "string \<Rightarrow> bool"
  UnknownFieldParse :: "32 word \<Rightarrow> 'u \<Rightarrow> char list \<Rightarrow> ('u \<times> char list) option"
  unknown_default :: 'u
  have_unknown_fields :: "'u \<Rightarrow> bool"
  unknown_MergeFrom :: "'u \<Rightarrow> 'u \<Rightarrow> 'u"
  InternalSerializeUnknownFieldsToArray :: "'u \<Rightarrow> char list"
  ComputeUnknownFieldsSize :: "'u \<Rightarrow> nat \<Rightarrow> nat"
  WriteInt32ToArray :: "nat \<Rightarrow> int32 \<Rightarrow> char list"
  WriteInt64ToArray :: "nat \<Rightarrow> int64 \<Rightarrow> char list"
  WriteInt32Packed :: "nat \<Rightarrow> int32 list \<Rightarrow> int \<Rightarrow> char list"
  WriteString :: "nat \<Rightarrow> string \<Rightarrow> char list"
  WriteStringMaybeAliased :: "nat \<Rightarrow> string \<Rightarrow> char list"
  Int32Size :: "int32 \<Rightarrow> nat"
  Int64Size :: "int64 \<Rightarrow> nat"
  Int32Size_repeated :: "int32 list \<Rightarrow> nat"
  StringSize :: "string \<Rightarrow> nat"

text \<open>The tag of a field: its number and wire type, 0 for a varint and 2 for bytes of given length.\<close>

definition field_tag :: "nat \<Rightarrow> nat \<Rightarrow> 32 word" where
  "field_tag n wt = word_of_nat (8 * n + wt)"

text \<open>A string the runtime accepts in a field.\<close>

definition pb_string :: "'u wire \<Rightarrow> string \<Rightarrow> bool" where
  "pb_string W s \<longleftrightarrow> VerifyUTF8 W s \<and> length s < 2 ^ 31"

definition wire_ctx_ok :: "'u wire \<Rightarrow> bool" where
  "wire_ctx_ok W \<longleftrightarrow>
     (\<forall>bs. Done W bs \<longleftrightarrow> bs = []) \<and> (\<forall>bs. DataAvailable W bs \<longleftrightarrow> bs \<noteq> []) \<and>
     (\<forall>t bs. ExpectTag W t bs \<longleftrightarrow> bs \<noteq> [] \<and> hd bs = char_of t)"

definition wire_int32_ok :: "'u wire \<Rightarrow> bool" where
  "wire_int32_ok W \<longleftrightarrow> (\<forall>n \<in> {1..15}. \<forall>v.
     length (WriteInt32ToArray W n v) = 1 + Int32Size W v \<and>
     (\<forall>r. \<exists>r'. ReadTag W (WriteInt32ToArray W n v @ r) = Some (field_tag n 0, r')
        \<and> ReadVarint64 W r' = Some (scast v, r)))"

definition wire_int64_ok :: "'u wire \<Rightarrow> bool" where
  "wire_int64_ok W \<longleftrightarrow> (\<forall>n \<in> {1..15}. \<forall>v.
     length (WriteInt64ToArray W n v) = 1 + Int64Size W v \<and>
     (\<forall>r. \<exists>r'. ReadTag W (WriteInt64ToArray W n v @ r) = Some (field_tag n 0, r')
        \<and> ReadVarint64 W r' = Some (v, r)))"

definition wire_string_ok :: "'u wire \<Rightarrow> bool" where
  "wire_string_ok W \<longleftrightarrow> (\<forall>n \<in> {1..15}. \<forall>s. length s < 2 ^ 31 \<longrightarrow>
     length (WriteString W n s) = 1 + StringSize W s \<and>
     WriteStringMaybeAliased W n s = WriteString W n s \<and>
     (\<exists>p. WriteString W n s = char_of (8 * n + 2) # p
       \<and> (\<forall>r. ReadTag W (char_of (8 * n + 2) # p @ r) = Some (field_tag n 2, p @ r)
             \<and> InlineGreedyStringParser W (p @ r) = Some (s, r))))"

definition wire_packed_ok :: "'u wire \<Rightarrow> bool" where
  "wire_packed_ok W \<longleftrightarrow>
     (\<forall>vs. Int32Size_repeated W vs = 0 \<longleftrightarrow> vs = []) \<and>
     (\<forall>n \<in> {1..15}. \<forall>vs. vs \<noteq> [] \<longrightarrow> Int32Size_repeated W vs < 2 ^ 31 \<longrightarrow>
        length (WriteInt32Packed W n vs (int (Int32Size_repeated W vs)))
          = 1 + Int32Size W (word_of_nat (Int32Size_repeated W vs)) + Int32Size_repeated W vs \<and>
        (\<forall>r. \<exists>r'. ReadTag W (WriteInt32Packed W n vs (int (Int32Size_repeated W vs)) @ r)
              = Some (field_tag n 2, r') \<and> PackedInt32Parser W r' = Some (vs, r)))"

definition unknown_ok :: "'u wire \<Rightarrow> bool" where
  "unknown_ok W \<longleftrightarrow> \<not> have_unknown_fields W (unknown_default W) \<and>
     (\<forall>u u'. \<not> have_unknown_fields W u' \<longrightarrow> unknown_MergeFrom W u u' = u) \<and>
     (\<forall>u u'. \<not> have_unknown_fields W u \<longrightarrow> \<not> have_unknown_fields W u' \<longrightarrow> u = u') \<and>
     (\<forall>u n. ComputeUnknownFieldsSize W u n = n + length (InternalSerializeUnknownFieldsToArray W u))"

definition wire_ok :: "'u wire \<Rightarrow> bool" where
  "wire_ok W \<longleftrightarrow> wire_ctx_ok W \<and> wire_int32_ok W \<and> wire_int64_ok W \<and> wire_string_ok W \<and>
     wire_packed_ok W \<and> unknown_ok W"

section \<open>The parse loop\<close>

text \<open>
  The body of every generated \<^verbatim>\<open>_InternalParse\<close> is a loop that reads a tag and a \<^verbatim>\<open>switch\<close> over the field
  number. The outcome of the \<^verbatim>\<open>switch\<close>: the field was read, \<^verbatim>\<open>goto handle_unusual\<close>, or
  \<^verbatim>\<open>goto failure\<close>. The loop is common to all messages; it may run forever if the runtime's primitives
  do not consume input, which is the outer \<open>None\<close>. The result of a parse is \<open>None\<close> on failure, and
  otherwise the message, the bytes left and the tag at which the parse ended early, if any.
\<close>

datatype 'm field_step = Field 'm "char list" | Unusual | Failure

type_synonym 'm parse_result = "('m \<times> char list \<times> 32 word option) option"

definition ends_group :: "32 word \<Rightarrow> bool" where
  "ends_group tag \<longleftrightarrow> tag AND 7 = 4 \<or> tag = 0"

partial_function (option) parse_loop ::
    "'u wire \<Rightarrow> (32 word \<Rightarrow> 'm \<Rightarrow> char list \<Rightarrow> 'm field_step option) \<Rightarrow> ('m \<Rightarrow> 'u) \<Rightarrow>
     (('u \<Rightarrow> 'u) \<Rightarrow> 'm \<Rightarrow> 'm) \<Rightarrow> 'm \<Rightarrow> char list \<Rightarrow> 'm parse_result option" where
  [code]: "parse_loop W field unk set_unk m ptr =
     (if Done W ptr then Some (Some (m, ptr, None))
      else (case ReadTag W ptr of
        None \<Rightarrow> Some None
      | Some (tag, ptr) \<Rightarrow>
          Option.bind (field tag m ptr) (\<lambda>step. case step of
            Field m' ptr' \<Rightarrow> parse_loop W field unk set_unk m' ptr'
          | Failure \<Rightarrow> Some None
          | Unusual \<Rightarrow>
              (if ends_group tag then Some (Some (m, ptr, Some tag))
               else (case UnknownFieldParse W tag (unk m) ptr of
                  None \<Rightarrow> Some None
                | Some (u, ptr') \<Rightarrow> parse_loop W field unk set_unk (set_unk (\<lambda>_. u) m) ptr')))))"

text \<open>Reading a string field: the value, or failure.\<close>

definition parse_string :: "'u wire \<Rightarrow> char list \<Rightarrow> (string \<times> char list) option" where
  "parse_string W ptr =
     (case InlineGreedyStringParser W ptr of
        None \<Rightarrow> None
      | Some (s, ptr') \<Rightarrow> if VerifyUTF8 W s then Some (s, ptr') else None)"

section \<open>Lemmas for the generated code\<close>

named_theorems pb_simps

lemma tag_simps:
  "drop_bit 3 (field_tag (Suc 0) 0) = 1" "drop_bit 3 (field_tag (Suc 0) 2) = 1"
  "take_bit 8 (field_tag (Suc 0) 0) = 8" "take_bit 8 (field_tag (Suc 0) 2) = 10"
  "drop_bit 3 (field_tag 1 0) = 1" "drop_bit 3 (field_tag 2 0) = 2" "drop_bit 3 (field_tag 1 2) = 1"
  "drop_bit 3 (field_tag 2 2) = 2" "drop_bit 3 (field_tag 3 2) = 3" "drop_bit 3 (field_tag 4 2) = 4"
  "take_bit 8 (field_tag 1 0) = 8" "take_bit 8 (field_tag 2 0) = 16" "take_bit 8 (field_tag 1 2) = 10"
  "take_bit 8 (field_tag 2 2) = 18" "take_bit 8 (field_tag 3 2) = 26" "take_bit 8 (field_tag 4 2) = 34"
  by (simp_all add: field_tag_def)

lemma wire_okD:
  assumes "wire_ok W"
  shows "wire_ctx_ok W" "wire_int32_ok W" "wire_int64_ok W" "wire_string_ok W" "wire_packed_ok W"
    "unknown_ok W"
  using assms by (simp_all add: wire_ok_def)

lemma parse_loop_done [pb_simps]:
  "wire_ok W \<Longrightarrow> parse_loop W field unk set_unk m [] = Some (Some (m, [], None))"
  by (subst parse_loop.simps) (simp add: wire_ok_def wire_ctx_ok_def)

lemma parse_loop_field:
  assumes "wire_ok W" and "ReadTag W bs = Some (tag, ptr)" and "bs \<noteq> []"
    and "field tag m ptr = Some (Field m' ptr')"
  shows "parse_loop W field unk set_unk m bs = parse_loop W field unk set_unk m' ptr'"
  using assms by (subst parse_loop.simps) (simp add: wire_ok_def wire_ctx_ok_def)

lemma wire_int32:
  assumes "wire_ok W" and "n \<in> {1..15}"
  obtains r' where "ReadTag W (WriteInt32ToArray W n v @ r) = Some (field_tag n 0, r')"
    "ReadVarint64 W r' = Some (scast v, r)" "WriteInt32ToArray W n v @ r \<noteq> []"
proof -
  have "length (WriteInt32ToArray W n v) = 1 + Int32Size W v"
    "\<exists>r'. ReadTag W (WriteInt32ToArray W n v @ r) = Some (field_tag n 0, r')
        \<and> ReadVarint64 W r' = Some (scast v, r)"
    using wire_okD(2) [OF assms(1)] assms(2) unfolding wire_int32_ok_def by blast+
  then show ?thesis using that by fastforce
qed

lemma wire_int64:
  assumes "wire_ok W" and "n \<in> {1..15}"
  obtains r' where "ReadTag W (WriteInt64ToArray W n v @ r) = Some (field_tag n 0, r')"
    "ReadVarint64 W r' = Some (v, r)" "WriteInt64ToArray W n v @ r \<noteq> []"
proof -
  have "length (WriteInt64ToArray W n v) = 1 + Int64Size W v"
    "\<exists>r'. ReadTag W (WriteInt64ToArray W n v @ r) = Some (field_tag n 0, r')
        \<and> ReadVarint64 W r' = Some (v, r)"
    using wire_okD(3) [OF assms(1)] assms(2) unfolding wire_int64_ok_def by blast+
  then show ?thesis using that by fastforce
qed

lemma wire_string:
  assumes "wire_ok W" and "n \<in> {1..15}" and "pb_string W s"
  obtains p where "WriteString W n s = char_of (8 * n + 2) # p"
    "WriteStringMaybeAliased W n s = char_of (8 * n + 2) # p"
    "ReadTag W (char_of (8 * n + 2) # p @ r) = Some (field_tag n 2, p @ r)"
    "parse_string W (p @ r) = Some (s, r)"
proof -
  have s: "length s < 2 ^ 31" "VerifyUTF8 W s" using assms(3) by (simp_all add: pb_string_def)
  have "\<exists>p. WriteString W n s = char_of (8 * n + 2) # p
       \<and> (\<forall>r. ReadTag W (char_of (8 * n + 2) # p @ r) = Some (field_tag n 2, p @ r)
             \<and> InlineGreedyStringParser W (p @ r) = Some (s, r))"
    "WriteStringMaybeAliased W n s = WriteString W n s"
    using wire_okD(4) [OF assms(1)] assms(2) s(1) unfolding wire_string_ok_def by blast+
  then show ?thesis using that s(2) by (auto simp: parse_string_def)
qed

lemma wire_packed:
  assumes "wire_ok W" and "n \<in> {1..15}" and "vs \<noteq> []" and "Int32Size_repeated W vs < 2 ^ 31"
  obtains r' where
    "ReadTag W (WriteInt32Packed W n vs (int (Int32Size_repeated W vs)) @ r) = Some (field_tag n 2, r')"
    "PackedInt32Parser W r' = Some (vs, r)"
    "length (WriteInt32Packed W n vs (int (Int32Size_repeated W vs)))
       = 1 + Int32Size W (word_of_nat (Int32Size_repeated W vs)) + Int32Size_repeated W vs"
  using wire_okD(5) [OF assms(1)] assms(2-4) that unfolding wire_packed_ok_def by blast

lemma wire_repeated_empty: "wire_ok W \<Longrightarrow> Int32Size_repeated W vs = 0 \<longleftrightarrow> vs = []"
  using wire_okD(5) [of W] by (simp add: wire_packed_ok_def)

lemma wire_packed_size:
  assumes "wire_ok W" and "n \<in> {1..15}" and "vs \<noteq> []" and "Int32Size_repeated W vs < 2 ^ 31"
  shows "length (WriteInt32Packed W n vs (int (Int32Size_repeated W vs)))
       = 1 + Int32Size W (word_of_nat (Int32Size_repeated W vs)) + Int32Size_repeated W vs"
  using wire_packed [OF assms] .

lemma parse_loop_int32:
  assumes "wire_ok W" and "n \<in> {1..15}"
    and "\<And>ptr. ReadVarint64 W ptr = Some (scast v, r) \<Longrightarrow>
      field (field_tag n 0) m ptr = Some (Field m' r)"
  shows "parse_loop W field unk set_unk m (WriteInt32ToArray W n v @ r)
    = parse_loop W field unk set_unk m' r"
  by (rule wire_int32 [OF assms(1,2), of v r])
    (rule parse_loop_field [OF assms(1)], assumption+, rule assms(3))

lemma parse_loop_int64:
  assumes "wire_ok W" and "n \<in> {1..15}"
    and "\<And>ptr. ReadVarint64 W ptr = Some (v, r) \<Longrightarrow>
      field (field_tag n 0) m ptr = Some (Field m' r)"
  shows "parse_loop W field unk set_unk m (WriteInt64ToArray W n v @ r)
    = parse_loop W field unk set_unk m' r"
  by (rule wire_int64 [OF assms(1,2), of v r])
    (rule parse_loop_field [OF assms(1)], assumption+, rule assms(3))

lemma parse_loop_string:
  assumes "wire_ok W" and "n \<in> {1..15}" and "pb_string W s"
    and "\<And>ptr. parse_string W ptr = Some (s, r) \<Longrightarrow>
      field (field_tag n 2) m ptr = Some (Field m' r)"
  shows "parse_loop W field unk set_unk m (WriteStringMaybeAliased W n s @ r)
    = parse_loop W field unk set_unk m' r"
proof -
  obtain p where p: "WriteStringMaybeAliased W n s = char_of (8 * n + 2) # p"
    "ReadTag W (char_of (8 * n + 2) # p @ r) = Some (field_tag n 2, p @ r)"
    "parse_string W (p @ r) = Some (s, r)"
    using wire_string [OF assms(1-3)] .
  have "ReadTag W (WriteStringMaybeAliased W n s @ r) = Some (field_tag n 2, p @ r)"
    using p(1,2) by simp
  moreover have "WriteStringMaybeAliased W n s @ r \<noteq> []" using p(1) by simp
  ultimately show ?thesis
    by (rule parse_loop_field [where field = field, OF assms(1)]) (rule assms(4) [OF p(3)])
qed

lemma parse_loop_packed:
  assumes "wire_ok W" and "n \<in> {1..15}" and "vs \<noteq> []" and "Int32Size_repeated W vs < 2 ^ 31"
    and "\<And>ptr. PackedInt32Parser W ptr = Some (vs, r) \<Longrightarrow>
      field (field_tag n 2) m ptr = Some (Field m' r)"
  shows "parse_loop W field unk set_unk m
      (WriteInt32Packed W n vs (int (Int32Size_repeated W vs)) @ r)
    = parse_loop W field unk set_unk m' r"
proof -
  let ?b = "WriteInt32Packed W n vs (int (Int32Size_repeated W vs))"
  obtain r' where r': "ReadTag W (?b @ r) = Some (field_tag n 2, r')"
    "PackedInt32Parser W r' = Some (vs, r)"
    "length ?b = 1 + Int32Size W (word_of_nat (Int32Size_repeated W vs)) + Int32Size_repeated W vs"
    using wire_packed [OF assms(1-4)] .
  have "?b @ r \<noteq> []" using r'(3) by auto
  from r'(1) this show ?thesis
    by (rule parse_loop_field [where field = field, OF assms(1)]) (rule assms(5) [OF r'(2)])
qed

lemma wire_sizes [pb_simps]:
  assumes "wire_ok W" and "n \<in> {1..15}"
  shows "length (WriteInt32ToArray W n v) = Suc (Int32Size W v)"
    and "length (WriteInt64ToArray W n w) = Suc (Int64Size W w)"
    and "pb_string W s \<Longrightarrow> length (WriteString W n s) = Suc (StringSize W s)"
    and "pb_string W s \<Longrightarrow> length (WriteStringMaybeAliased W n s) = Suc (StringSize W s)"
  using wire_okD [OF assms(1)] assms(2)
  by (simp_all add: wire_int32_ok_def wire_int64_ok_def wire_string_ok_def pb_string_def)

lemma unknown_default_none [pb_simps]: "wire_ok W \<Longrightarrow> \<not> have_unknown_fields W (unknown_default W)"
  by (simp add: wire_ok_def unknown_ok_def)

lemma unknown_merge_none [pb_simps]:
  "wire_ok W \<Longrightarrow> \<not> have_unknown_fields W u' \<Longrightarrow> unknown_MergeFrom W u u' = u"
  by (simp add: wire_ok_def unknown_ok_def)

lemma unknown_none_eq:
  "wire_ok W \<Longrightarrow> \<not> have_unknown_fields W u \<Longrightarrow> \<not> have_unknown_fields W u' \<Longrightarrow> u = u'"
  by (simp add: wire_ok_def unknown_ok_def)

lemma unknown_size [pb_simps]:
  "wire_ok W \<Longrightarrow> ComputeUnknownFieldsSize W u n = n + length (InternalSerializeUnknownFieldsToArray W u)"
  by (simp add: wire_ok_def unknown_ok_def)

lemma ucast_scast_32_64 [simp, pb_simps]: "ucast (scast (v :: int32) :: 64 word) = v"
  by (rule bit_word_eqI) (simp add: bit_ucast_iff bit_signed_iff)

end
