(* ===== verification/Pb_Base.thy ===== *)
theory Pb_Base
  imports Pb_Wire
begin

text \<open>
  The messages of the library itself, generated from \<^verbatim>\<open>asio/proto/pb_base.proto\<close> into
  \<^verbatim>\<open>pb_base.pb.h\<close> and \<^verbatim>\<open>pb_base.pb.cc\<close>. A message is a record of its fields, its unknown fields and
  the sizes that \<^verbatim>\<open>ByteSizeLong\<close> caches for \<^verbatim>\<open>_InternalSerialize\<close>; arenas, reflection and descriptors
  are left to the runtime. \<^verbatim>\<open>CopyFrom\<close>, \<^verbatim>\<open>MergeFrom\<close> and \<^verbatim>\<open>InternalSwap\<close> are for two distinct objects.
  For each message: serialising has the size that was computed, parsing a serialised message into
  another one merges it, and merging into a new message gives the message back.
\<close>

section \<open>SubscribeReq\<close>

record 'u SubscribeReq =
  SubscribeReq_type_v :: "int32"
  SubscribeReq_msgtypelist_v :: "int32 list"
  SubscribeReq_typenamelist_v :: "string list"
  SubscribeReq_msgtypelist_cached_byte_size :: int
  SubscribeReq_unknown :: 'u
  SubscribeReq_cached_size :: int

definition SubscribeReq_FullMessageName :: string where
  "SubscribeReq_FullMessageName = ''ProtoBase.SubscribeReq''"

definition SubscribeReq_new :: "'u wire \<Rightarrow> 'u SubscribeReq" where
  "SubscribeReq_new W = \<lparr>SubscribeReq_type_v = 0, SubscribeReq_msgtypelist_v = [], SubscribeReq_typenamelist_v = [], SubscribeReq_msgtypelist_cached_byte_size = 0, SubscribeReq_unknown = unknown_default W, SubscribeReq_cached_size = 0\<rparr>"

definition SubscribeReq_copy :: "'u wire \<Rightarrow> 'u SubscribeReq \<Rightarrow> 'u SubscribeReq" where
  "SubscribeReq_copy W from = (SubscribeReq_new W)\<lparr>SubscribeReq_type_v := SubscribeReq_type_v from, SubscribeReq_msgtypelist_v := SubscribeReq_msgtypelist_v from, SubscribeReq_typenamelist_v := SubscribeReq_typenamelist_v from, SubscribeReq_unknown := unknown_MergeFrom W (unknown_default W) (SubscribeReq_unknown from)\<rparr>"

definition SubscribeReq_type :: "'u SubscribeReq \<Rightarrow> int32" where
  "SubscribeReq_type m = SubscribeReq_type_v m"

definition SubscribeReq_set_type :: "int32 \<Rightarrow> 'u SubscribeReq \<Rightarrow> 'u SubscribeReq" where
  "SubscribeReq_set_type value m = m\<lparr>SubscribeReq_type_v := value\<rparr>"

definition SubscribeReq_clear_type :: "'u SubscribeReq \<Rightarrow> 'u SubscribeReq" where
  "SubscribeReq_clear_type m = m\<lparr>SubscribeReq_type_v := 0\<rparr>"

definition SubscribeReq_msgtypelist_size :: "'u SubscribeReq \<Rightarrow> int" where
  "SubscribeReq_msgtypelist_size m = wrap32 (int (length (SubscribeReq_msgtypelist_v m)))"

definition SubscribeReq_msgtypelist :: "int \<Rightarrow> 'u SubscribeReq \<Rightarrow> int32 result" where
  "SubscribeReq_msgtypelist index m =
     (if 0 \<le> index \<and> index < int (length (SubscribeReq_msgtypelist_v m)) then Inr (SubscribeReq_msgtypelist_v m ! nat index) else Inl OutOfBounds)"

definition SubscribeReq_set_msgtypelist :: "int \<Rightarrow> int32 \<Rightarrow> 'u SubscribeReq \<Rightarrow> 'u SubscribeReq result" where
  "SubscribeReq_set_msgtypelist index value m =
     (if 0 \<le> index \<and> index < int (length (SubscribeReq_msgtypelist_v m))
      then Inr (m\<lparr>SubscribeReq_msgtypelist_v := (SubscribeReq_msgtypelist_v m)[nat index := value]\<rparr>) else Inl OutOfBounds)"

definition SubscribeReq_add_msgtypelist :: "int32 \<Rightarrow> 'u SubscribeReq \<Rightarrow> 'u SubscribeReq" where
  "SubscribeReq_add_msgtypelist value m = m\<lparr>SubscribeReq_msgtypelist_v := SubscribeReq_msgtypelist_v m @ [value]\<rparr>"

definition SubscribeReq_clear_msgtypelist :: "'u SubscribeReq \<Rightarrow> 'u SubscribeReq" where
  "SubscribeReq_clear_msgtypelist m = m\<lparr>SubscribeReq_msgtypelist_v := []\<rparr>"

definition SubscribeReq_typenamelist_size :: "'u SubscribeReq \<Rightarrow> int" where
  "SubscribeReq_typenamelist_size m = wrap32 (int (length (SubscribeReq_typenamelist_v m)))"

definition SubscribeReq_typenamelist :: "int \<Rightarrow> 'u SubscribeReq \<Rightarrow> string result" where
  "SubscribeReq_typenamelist index m =
     (if 0 \<le> index \<and> index < int (length (SubscribeReq_typenamelist_v m)) then Inr (SubscribeReq_typenamelist_v m ! nat index) else Inl OutOfBounds)"

definition SubscribeReq_set_typenamelist :: "int \<Rightarrow> string \<Rightarrow> 'u SubscribeReq \<Rightarrow> 'u SubscribeReq result" where
  "SubscribeReq_set_typenamelist index value m =
     (if 0 \<le> index \<and> index < int (length (SubscribeReq_typenamelist_v m))
      then Inr (m\<lparr>SubscribeReq_typenamelist_v := (SubscribeReq_typenamelist_v m)[nat index := value]\<rparr>) else Inl OutOfBounds)"

definition SubscribeReq_add_typenamelist :: "string \<Rightarrow> 'u SubscribeReq \<Rightarrow> 'u SubscribeReq" where
  "SubscribeReq_add_typenamelist value m = m\<lparr>SubscribeReq_typenamelist_v := SubscribeReq_typenamelist_v m @ [value]\<rparr>"

definition SubscribeReq_clear_typenamelist :: "'u SubscribeReq \<Rightarrow> 'u SubscribeReq" where
  "SubscribeReq_clear_typenamelist m = m\<lparr>SubscribeReq_typenamelist_v := []\<rparr>"

definition SubscribeReq_Clear :: "'u wire \<Rightarrow> 'u SubscribeReq \<Rightarrow> 'u SubscribeReq" where
  "SubscribeReq_Clear W m = m\<lparr>SubscribeReq_type_v := 0, SubscribeReq_msgtypelist_v := [], SubscribeReq_typenamelist_v := [], SubscribeReq_unknown := unknown_default W\<rparr>"

text \<open>The inner loop that reads consecutive elements of \<^verbatim>\<open>typenamelist\<close>.\<close>

partial_function (option) SubscribeReq_typenamelist_loop ::
    "'u wire \<Rightarrow> 'u SubscribeReq \<Rightarrow> char list \<Rightarrow> ('u SubscribeReq field_step) option" where
  "SubscribeReq_typenamelist_loop W m ptr =
     (case parse_string W ptr of
        None \<Rightarrow> Some Failure
      | Some (str, ptr') \<Rightarrow>
          (let m' = SubscribeReq_add_typenamelist str m
           in if \<not> DataAvailable W ptr' then Some (Field m' ptr')
              else if ExpectTag W 26 ptr' then SubscribeReq_typenamelist_loop W m' (tl ptr')
              else Some (Field m' ptr')))"

definition SubscribeReq_parse_field ::
    "'u wire \<Rightarrow> 32 word \<Rightarrow> 'u SubscribeReq \<Rightarrow> char list \<Rightarrow> 'u SubscribeReq field_step option" where
  "SubscribeReq_parse_field W tag m ptr =
     (if drop_bit 3 tag = 1 then
        (if take_bit 8 tag = 8 then
           (case ReadVarint64 W ptr of
              None \<Rightarrow> Some Failure
            | Some (v, ptr') \<Rightarrow> Some (Field (m\<lparr>SubscribeReq_type_v := ucast v\<rparr>) ptr'))
         else Some Unusual)
      else if drop_bit 3 tag = 2 then
        (if take_bit 8 tag = 18 then
           (case PackedInt32Parser W ptr of
              None \<Rightarrow> Some Failure
            | Some (vs, ptr') \<Rightarrow> Some (Field (m\<lparr>SubscribeReq_msgtypelist_v := SubscribeReq_msgtypelist_v m @ vs\<rparr>) ptr'))
         else if take_bit 8 tag = 16 then
           (case ReadVarint64 W ptr of
              None \<Rightarrow> Some Failure
            | Some (v, ptr') \<Rightarrow> Some (Field (SubscribeReq_add_msgtypelist (ucast v) m) ptr'))
         else Some Unusual)
      else if drop_bit 3 tag = 3 then
        (if take_bit 8 tag = 26 then SubscribeReq_typenamelist_loop W m ptr else Some Unusual)
      else Some Unusual)"

definition SubscribeReq_InternalParse :: "'u wire \<Rightarrow> 'u SubscribeReq \<Rightarrow> char list \<Rightarrow> 'u SubscribeReq parse_result option" where
  "SubscribeReq_InternalParse W = parse_loop W (SubscribeReq_parse_field W) SubscribeReq_unknown SubscribeReq_unknown_update"

definition SubscribeReq_InternalSerialize :: "'u wire \<Rightarrow> 'u SubscribeReq \<Rightarrow> char list" where
  "SubscribeReq_InternalSerialize W m =
     (if SubscribeReq_type m \<noteq> 0 then WriteInt32ToArray W 1 (SubscribeReq_type m) else [])
     @ (let byte_size = SubscribeReq_msgtypelist_cached_byte_size m
        in if 0 < byte_size then WriteInt32Packed W 2 (SubscribeReq_msgtypelist_v m) byte_size else [])
     @ concat (map (WriteString W 3) (SubscribeReq_typenamelist_v m))
     @ (if have_unknown_fields W (SubscribeReq_unknown m)
        then InternalSerializeUnknownFieldsToArray W (SubscribeReq_unknown m) else [])"

definition SubscribeReq_ByteSizeLong :: "'u wire \<Rightarrow> 'u SubscribeReq \<Rightarrow> nat \<times> 'u SubscribeReq" where
  "SubscribeReq_ByteSizeLong W m =
     (let total_size = (let data_size = Int32Size_repeated W (SubscribeReq_msgtypelist_v m)
          in (if 0 < data_size then 1 + Int32Size W (word_of_nat data_size) else 0) + data_size)
        + (length (SubscribeReq_typenamelist_v m) + sum_list (map (StringSize W) (SubscribeReq_typenamelist_v m)))
        + (if SubscribeReq_type m \<noteq> 0 then 1 + Int32Size W (SubscribeReq_type m) else 0);
          size = (if have_unknown_fields W (SubscribeReq_unknown m)
                  then ComputeUnknownFieldsSize W (SubscribeReq_unknown m) total_size else total_size)
      in (size, m\<lparr>SubscribeReq_msgtypelist_cached_byte_size := wrap32 (int (Int32Size_repeated W (SubscribeReq_msgtypelist_v m))), SubscribeReq_cached_size := wrap32 (int size)\<rparr>))"

definition SubscribeReq_MergeFrom :: "'u wire \<Rightarrow> 'u SubscribeReq \<Rightarrow> 'u SubscribeReq \<Rightarrow> 'u SubscribeReq" where
  "SubscribeReq_MergeFrom W from m =
     m\<lparr>SubscribeReq_type_v := (if SubscribeReq_type from \<noteq> 0 then SubscribeReq_type from else SubscribeReq_type_v m),
       SubscribeReq_msgtypelist_v := SubscribeReq_msgtypelist_v m @ SubscribeReq_msgtypelist_v from,
       SubscribeReq_typenamelist_v := SubscribeReq_typenamelist_v m @ SubscribeReq_typenamelist_v from,
       SubscribeReq_unknown := unknown_MergeFrom W (SubscribeReq_unknown m) (SubscribeReq_unknown from)\<rparr>"

definition SubscribeReq_CopyFrom :: "'u wire \<Rightarrow> 'u SubscribeReq \<Rightarrow> 'u SubscribeReq \<Rightarrow> 'u SubscribeReq" where
  "SubscribeReq_CopyFrom W from m = SubscribeReq_MergeFrom W from (SubscribeReq_Clear W m)"

definition SubscribeReq_InternalSwap :: "'u SubscribeReq \<Rightarrow> 'u SubscribeReq \<Rightarrow> 'u SubscribeReq \<times> 'u SubscribeReq" where
  "SubscribeReq_InternalSwap m other =
     (m\<lparr>SubscribeReq_type_v := SubscribeReq_type_v other, SubscribeReq_msgtypelist_v := SubscribeReq_msgtypelist_v other, SubscribeReq_typenamelist_v := SubscribeReq_typenamelist_v other, SubscribeReq_unknown := SubscribeReq_unknown other\<rparr>,
      other\<lparr>SubscribeReq_type_v := SubscribeReq_type_v m, SubscribeReq_msgtypelist_v := SubscribeReq_msgtypelist_v m, SubscribeReq_typenamelist_v := SubscribeReq_typenamelist_v m, SubscribeReq_unknown := SubscribeReq_unknown m\<rparr>)"

text \<open>The messages without unknown fields whose strings the runtime accepts.\<close>

definition SubscribeReq_ok :: "'u wire \<Rightarrow> 'u SubscribeReq \<Rightarrow> bool" where
  "SubscribeReq_ok W m \<longleftrightarrow> \<not> have_unknown_fields W (SubscribeReq_unknown m) \<and> (\<forall>s \<in> set (SubscribeReq_typenamelist_v m). pb_string W s) \<and> Int32Size_repeated W (SubscribeReq_msgtypelist_v m) < 2 ^ 31"

lemma SubscribeReq_merge_new:
  assumes "wire_ok W" and "SubscribeReq_ok W m"
  shows "SubscribeReq_MergeFrom W m (SubscribeReq_new W) = m\<lparr>SubscribeReq_msgtypelist_cached_byte_size := 0, SubscribeReq_cached_size := 0\<rparr>"
  using assms unknown_none_eq [OF assms(1) unknown_default_none [OF assms(1)]]
  by (cases m) (auto simp: SubscribeReq_ok_def SubscribeReq_MergeFrom_def SubscribeReq_new_def unknown_merge_none SubscribeReq_type_def)

lemma SubscribeReq_CopyFrom_eq:
  assumes "wire_ok W" and "SubscribeReq_ok W from"
  shows "SubscribeReq_CopyFrom W from m = from\<lparr>SubscribeReq_msgtypelist_cached_byte_size := SubscribeReq_msgtypelist_cached_byte_size m, SubscribeReq_cached_size := SubscribeReq_cached_size m\<rparr>"
  using assms unknown_none_eq [OF assms(1) unknown_default_none [OF assms(1)]]
  by (cases m; cases "from")
    (auto simp: SubscribeReq_ok_def SubscribeReq_CopyFrom_def SubscribeReq_MergeFrom_def SubscribeReq_Clear_def unknown_merge_none SubscribeReq_type_def)

lemma SubscribeReq_parse_step:
  assumes "wire_ok W"
  shows "SubscribeReq_InternalParse W m (WriteInt32ToArray W 1 v @ r)
      = SubscribeReq_InternalParse W (m\<lparr>SubscribeReq_type_v := v\<rparr>) r"
    and "vs \<noteq> [] \<Longrightarrow> Int32Size_repeated W vs < 2 ^ 31 \<Longrightarrow>
      SubscribeReq_InternalParse W m (WriteInt32Packed W 2 vs (int (Int32Size_repeated W vs)) @ r)
      = SubscribeReq_InternalParse W (m\<lparr>SubscribeReq_msgtypelist_v := SubscribeReq_msgtypelist_v m @ vs\<rparr>) r"
    and "SubscribeReq_InternalParse W m [] = Some (Some (m, [], None))"
  unfolding SubscribeReq_InternalParse_def
  by (auto simp: SubscribeReq_parse_field_def tag_simps parse_loop_done [OF assms]
      intro!: parse_loop_int32 parse_loop_packed assms)

lemma SubscribeReq_typenamelist_loop_all:
  assumes "wire_ok W" and "\<forall>s \<in> set ss. pb_string W s"
    and "parse_string W ptr = Some (s, concat (map (WriteString W 3) ss))"
  shows "SubscribeReq_typenamelist_loop W m ptr
    = Some (Field (m\<lparr>SubscribeReq_typenamelist_v := SubscribeReq_typenamelist_v m @ s # ss\<rparr>) [])"
  using assms(2,3)
proof (induction ss arbitrary: s m ptr)
  case Nil
  have "\<not> DataAvailable W []" using wire_okD(1) [OF assms(1)] by (simp add: wire_ctx_ok_def)
  with Nil show ?case
    by (subst SubscribeReq_typenamelist_loop.simps) (simp add: SubscribeReq_add_typenamelist_def)
next
  case (Cons s' ss)
  let ?rest = "concat (map (WriteString W 3) ss)"
  obtain p where p: "WriteString W 3 s' = char_of (8 * 3 + 2 :: nat) # p"
    "parse_string W (p @ ?rest) = Some (s', ?rest)"
  proof -
    have "3 \<in> {1..15 :: nat}" "pb_string W s'" using Cons.prems(1) by simp_all
    from wire_string [OF assms(1) this] that show thesis by blast
  qed
  have "ExpectTag W 26 (char_of (26 :: nat) # p @ ?rest)" "DataAvailable W (char_of (26 :: nat) # p @ ?rest)"
    using wire_okD(1) [OF assms(1)] by (simp_all add: wire_ctx_ok_def)
  moreover have "parse_string W ptr = Some (s, char_of (26 :: nat) # p @ ?rest)"
    using Cons.prems(2) p(1) by simp
  moreover have "SubscribeReq_typenamelist_loop W (SubscribeReq_add_typenamelist s m) (p @ ?rest)
    = Some (Field (m\<lparr>SubscribeReq_typenamelist_v := SubscribeReq_typenamelist_v m @ s # s' # ss\<rparr>) [])"
    using Cons.IH [OF _ p(2)] Cons.prems(1) by (simp add: SubscribeReq_add_typenamelist_def)
  ultimately show ?case by (subst SubscribeReq_typenamelist_loop.simps) simp
qed

lemma SubscribeReq_parse_strings:
  assumes "wire_ok W" and "\<forall>s \<in> set ss. pb_string W s"
  shows "SubscribeReq_InternalParse W m (concat (map (WriteString W 3) ss))
    = Some (Some (m\<lparr>SubscribeReq_typenamelist_v := SubscribeReq_typenamelist_v m @ ss\<rparr>, [], None))"
proof (cases ss)
  case Nil
  then show ?thesis by (simp add: SubscribeReq_parse_step(3) [OF assms(1)])
next
  case (Cons s ss')
  let ?rest = "concat (map (WriteString W 3) ss')"
  have s: "pb_string W s" "\<forall>s \<in> set ss'. pb_string W s" using assms(2) Cons by simp_all
  have three: "3 \<in> {1..15 :: nat}" by simp
  obtain p where p: "WriteString W 3 s = char_of (8 * 3 + 2 :: nat) # p"
    "ReadTag W (char_of (8 * 3 + 2 :: nat) # p @ ?rest) = Some (field_tag 3 2, p @ ?rest)"
    "parse_string W (p @ ?rest) = Some (s, ?rest)"
    using wire_string [OF assms(1) three s(1)] .
  let ?m = "m\<lparr>SubscribeReq_typenamelist_v := SubscribeReq_typenamelist_v m @ ss\<rparr>"
  have tag: "ReadTag W (concat (map (WriteString W 3) ss)) = Some (field_tag 3 2, p @ ?rest)"
    and ne: "concat (map (WriteString W 3) ss) \<noteq> []"
    using p(1,2) Cons by simp_all
  have "SubscribeReq_parse_field W (field_tag 3 2) m (p @ ?rest) = Some (Field ?m [])"
    using SubscribeReq_typenamelist_loop_all [OF assms(1) s(2) p(3)] Cons
    by (simp add: SubscribeReq_parse_field_def tag_simps)
  from parse_loop_field [where field = "SubscribeReq_parse_field W", OF assms(1) tag ne this]
  show ?thesis
    using SubscribeReq_parse_step(3) [OF assms(1)] unfolding SubscribeReq_InternalParse_def by simp
qed

lemma SubscribeReq_cached_size:
  assumes "wire_ok W" and "SubscribeReq_ok W m"
  shows "SubscribeReq_msgtypelist_cached_byte_size (snd (SubscribeReq_ByteSizeLong W m))
      = int (Int32Size_repeated W (SubscribeReq_msgtypelist_v m))"
    and "0 < Int32Size_repeated W (SubscribeReq_msgtypelist_v m) \<longleftrightarrow> SubscribeReq_msgtypelist_v m \<noteq> []"
proof -
  have "wrap32 (int (Int32Size_repeated W (SubscribeReq_msgtypelist_v m)))
      = int (Int32Size_repeated W (SubscribeReq_msgtypelist_v m))"
    using assms(2) by (intro wrap32_id) (simp_all add: SubscribeReq_ok_def)
  then show "SubscribeReq_msgtypelist_cached_byte_size (snd (SubscribeReq_ByteSizeLong W m))
      = int (Int32Size_repeated W (SubscribeReq_msgtypelist_v m))"
    by (simp add: SubscribeReq_ByteSizeLong_def Let_def)
  show "0 < Int32Size_repeated W (SubscribeReq_msgtypelist_v m) \<longleftrightarrow> SubscribeReq_msgtypelist_v m \<noteq> []"
    by (simp flip: wire_repeated_empty [OF assms(1)])
qed

lemma SubscribeReq_serialized:
  assumes "wire_ok W" and "SubscribeReq_ok W m"
  shows "SubscribeReq_InternalSerialize W (snd (SubscribeReq_ByteSizeLong W m))
    = (if SubscribeReq_type_v m \<noteq> 0 then WriteInt32ToArray W 1 (SubscribeReq_type_v m) else [])
    @ (if SubscribeReq_msgtypelist_v m \<noteq> [] then WriteInt32Packed W 2 (SubscribeReq_msgtypelist_v m)
         (int (Int32Size_repeated W (SubscribeReq_msgtypelist_v m))) else [])
    @ concat (map (WriteString W 3) (SubscribeReq_typenamelist_v m))"
  using assms(2) SubscribeReq_cached_size [OF assms]
  by (simp add: SubscribeReq_InternalSerialize_def SubscribeReq_type_def SubscribeReq_ByteSizeLong_def
      Let_def SubscribeReq_ok_def)

lemma SubscribeReq_parse_merge:
  assumes "wire_ok W" and "SubscribeReq_ok W m"
  shows "SubscribeReq_InternalParse W m0 (SubscribeReq_InternalSerialize W (snd (SubscribeReq_ByteSizeLong W m)))
    = Some (Some (SubscribeReq_MergeFrom W m m0, [], None))"
  unfolding SubscribeReq_serialized [OF assms]
  using assms(2) unknown_merge_none [OF assms(1)]
  by (simp add: SubscribeReq_parse_step [OF assms(1), simplified] SubscribeReq_parse_strings [OF assms(1)]
      SubscribeReq_ok_def SubscribeReq_MergeFrom_def SubscribeReq_type_def)

lemma length_WriteStrings:
  assumes "wire_ok W" and "\<forall>s \<in> set ss. pb_string W s"
  shows "length (concat (map (WriteString W 3) ss)) = length ss + sum_list (map (StringSize W) ss)"
  using assms(2) by (induction ss) (simp_all add: wire_sizes [OF assms(1)])

lemma SubscribeReq_size:
  assumes "wire_ok W" and "SubscribeReq_ok W m"
  shows "fst (SubscribeReq_ByteSizeLong W m)
    = length (SubscribeReq_InternalSerialize W (snd (SubscribeReq_ByteSizeLong W m)))"
proof -
  let ?vs = "SubscribeReq_msgtypelist_v m"
  have packed: "length (WriteInt32Packed W 2 ?vs (int (Int32Size_repeated W ?vs)))
      = 1 + Int32Size W (word_of_nat (Int32Size_repeated W ?vs)) + Int32Size_repeated W ?vs"
    if "?vs \<noteq> []"
    using assms(2) that by (intro wire_packed_size [OF assms(1)]) (simp_all add: SubscribeReq_ok_def)
  have ok: "\<not> have_unknown_fields W (SubscribeReq_unknown m)"
    "\<forall>s \<in> set (SubscribeReq_typenamelist_v m). pb_string W s"
    using assms(2) by (simp_all add: SubscribeReq_ok_def)
  have "Int32Size_repeated W [] = 0" by (simp add: wire_repeated_empty [OF assms(1)])
  then show ?thesis
    unfolding SubscribeReq_serialized [OF assms]
    using packed ok SubscribeReq_cached_size(2) [OF assms]
    by (simp add: SubscribeReq_ByteSizeLong_def Let_def wire_sizes [OF assms(1)]
        length_WriteStrings [OF assms(1)] SubscribeReq_type_def)
qed

section \<open>SubscribeRsp\<close>

record 'u SubscribeRsp =
  SubscribeRsp_errorcode_v :: "int32"
  SubscribeRsp_unknown :: 'u
  SubscribeRsp_cached_size :: int

definition SubscribeRsp_FullMessageName :: string where
  "SubscribeRsp_FullMessageName = ''ProtoBase.SubscribeRsp''"

definition SubscribeRsp_new :: "'u wire \<Rightarrow> 'u SubscribeRsp" where
  "SubscribeRsp_new W = \<lparr>SubscribeRsp_errorcode_v = 0, SubscribeRsp_unknown = unknown_default W, SubscribeRsp_cached_size = 0\<rparr>"

definition SubscribeRsp_copy :: "'u wire \<Rightarrow> 'u SubscribeRsp \<Rightarrow> 'u SubscribeRsp" where
  "SubscribeRsp_copy W from = (SubscribeRsp_new W)\<lparr>SubscribeRsp_errorcode_v := SubscribeRsp_errorcode_v from, SubscribeRsp_unknown := unknown_MergeFrom W (unknown_default W) (SubscribeRsp_unknown from)\<rparr>"

definition SubscribeRsp_errorcode :: "'u SubscribeRsp \<Rightarrow> int32" where
  "SubscribeRsp_errorcode m = SubscribeRsp_errorcode_v m"

definition SubscribeRsp_set_errorcode :: "int32 \<Rightarrow> 'u SubscribeRsp \<Rightarrow> 'u SubscribeRsp" where
  "SubscribeRsp_set_errorcode value m = m\<lparr>SubscribeRsp_errorcode_v := value\<rparr>"

definition SubscribeRsp_clear_errorcode :: "'u SubscribeRsp \<Rightarrow> 'u SubscribeRsp" where
  "SubscribeRsp_clear_errorcode m = m\<lparr>SubscribeRsp_errorcode_v := 0\<rparr>"

definition SubscribeRsp_Clear :: "'u wire \<Rightarrow> 'u SubscribeRsp \<Rightarrow> 'u SubscribeRsp" where
  "SubscribeRsp_Clear W m = m\<lparr>SubscribeRsp_errorcode_v := 0, SubscribeRsp_unknown := unknown_default W\<rparr>"

definition SubscribeRsp_parse_field ::
    "'u wire \<Rightarrow> 32 word \<Rightarrow> 'u SubscribeRsp \<Rightarrow> char list \<Rightarrow> 'u SubscribeRsp field_step option" where
  "SubscribeRsp_parse_field W tag m ptr =
     (if drop_bit 3 tag = 1 then
        (if take_bit 8 tag = 8 then
           (case ReadVarint64 W ptr of
              None \<Rightarrow> Some Failure
            | Some (v, ptr') \<Rightarrow> Some (Field (m\<lparr>SubscribeRsp_errorcode_v := ucast v\<rparr>) ptr'))
         else Some Unusual)
      else Some Unusual)"

definition SubscribeRsp_InternalParse :: "'u wire \<Rightarrow> 'u SubscribeRsp \<Rightarrow> char list \<Rightarrow> 'u SubscribeRsp parse_result option" where
  "SubscribeRsp_InternalParse W = parse_loop W (SubscribeRsp_parse_field W) SubscribeRsp_unknown SubscribeRsp_unknown_update"

definition SubscribeRsp_InternalSerialize :: "'u wire \<Rightarrow> 'u SubscribeRsp \<Rightarrow> char list" where
  "SubscribeRsp_InternalSerialize W m =
     (if SubscribeRsp_errorcode m \<noteq> 0 then WriteInt32ToArray W 1 (SubscribeRsp_errorcode m) else [])
     @ (if have_unknown_fields W (SubscribeRsp_unknown m)
        then InternalSerializeUnknownFieldsToArray W (SubscribeRsp_unknown m) else [])"

definition SubscribeRsp_ByteSizeLong :: "'u wire \<Rightarrow> 'u SubscribeRsp \<Rightarrow> nat \<times> 'u SubscribeRsp" where
  "SubscribeRsp_ByteSizeLong W m =
     (let total_size = (if SubscribeRsp_errorcode m \<noteq> 0 then 1 + Int32Size W (SubscribeRsp_errorcode m) else 0);
          size = (if have_unknown_fields W (SubscribeRsp_unknown m)
                  then ComputeUnknownFieldsSize W (SubscribeRsp_unknown m) total_size else total_size)
      in (size, m\<lparr>SubscribeRsp_cached_size := wrap32 (int size)\<rparr>))"

definition SubscribeRsp_MergeFrom :: "'u wire \<Rightarrow> 'u SubscribeRsp \<Rightarrow> 'u SubscribeRsp \<Rightarrow> 'u SubscribeRsp" where
  "SubscribeRsp_MergeFrom W from m =
     m\<lparr>SubscribeRsp_errorcode_v := (if SubscribeRsp_errorcode from \<noteq> 0 then SubscribeRsp_errorcode from else SubscribeRsp_errorcode_v m),
       SubscribeRsp_unknown := unknown_MergeFrom W (SubscribeRsp_unknown m) (SubscribeRsp_unknown from)\<rparr>"

definition SubscribeRsp_CopyFrom :: "'u wire \<Rightarrow> 'u SubscribeRsp \<Rightarrow> 'u SubscribeRsp \<Rightarrow> 'u SubscribeRsp" where
  "SubscribeRsp_CopyFrom W from m = SubscribeRsp_MergeFrom W from (SubscribeRsp_Clear W m)"

definition SubscribeRsp_InternalSwap :: "'u SubscribeRsp \<Rightarrow> 'u SubscribeRsp \<Rightarrow> 'u SubscribeRsp \<times> 'u SubscribeRsp" where
  "SubscribeRsp_InternalSwap m other =
     (m\<lparr>SubscribeRsp_errorcode_v := SubscribeRsp_errorcode_v other, SubscribeRsp_unknown := SubscribeRsp_unknown other\<rparr>,
      other\<lparr>SubscribeRsp_errorcode_v := SubscribeRsp_errorcode_v m, SubscribeRsp_unknown := SubscribeRsp_unknown m\<rparr>)"

text \<open>The messages without unknown fields whose strings the runtime accepts.\<close>

definition SubscribeRsp_ok :: "'u wire \<Rightarrow> 'u SubscribeRsp \<Rightarrow> bool" where
  "SubscribeRsp_ok W m \<longleftrightarrow> \<not> have_unknown_fields W (SubscribeRsp_unknown m)"

lemma SubscribeRsp_parse_step:
  assumes "wire_ok W"
  shows "SubscribeRsp_InternalParse W m (WriteInt32ToArray W 1 (v1 :: int32) @ r)
      = SubscribeRsp_InternalParse W (m\<lparr>SubscribeRsp_errorcode_v := v1\<rparr>) r"
    and "SubscribeRsp_InternalParse W m [] = Some (Some (m, [], None))"
  unfolding SubscribeRsp_InternalParse_def
  by (auto simp: SubscribeRsp_parse_field_def tag_simps parse_loop_done [OF assms]
      intro!: parse_loop_int32 parse_loop_int64 parse_loop_string assms)

lemma SubscribeRsp_parse_merge:
  assumes "wire_ok W" and "SubscribeRsp_ok W m"
  shows "SubscribeRsp_InternalParse W m0 (SubscribeRsp_InternalSerialize W (snd (SubscribeRsp_ByteSizeLong W m)))
    = Some (Some (SubscribeRsp_MergeFrom W m m0, [], None))"
  using assms(2) SubscribeRsp_parse_step [OF assms(1)]
    SubscribeRsp_parse_step(1) [OF assms(1), where r = "[]", unfolded append_Nil2]
    unknown_merge_none [OF assms(1)]
  by (simp add: SubscribeRsp_ok_def SubscribeRsp_InternalSerialize_def SubscribeRsp_ByteSizeLong_def Let_def SubscribeRsp_MergeFrom_def
      SubscribeRsp_errorcode_def)

lemma SubscribeRsp_size:
  assumes "wire_ok W" and "SubscribeRsp_ok W m"
  shows "fst (SubscribeRsp_ByteSizeLong W m) = length (SubscribeRsp_InternalSerialize W (snd (SubscribeRsp_ByteSizeLong W m)))"
  using assms(2)
  by (simp add: SubscribeRsp_ok_def SubscribeRsp_InternalSerialize_def SubscribeRsp_ByteSizeLong_def Let_def
      wire_sizes [OF assms(1)] SubscribeRsp_errorcode_def)

lemma SubscribeRsp_merge_new:
  assumes "wire_ok W" and "SubscribeRsp_ok W m"
  shows "SubscribeRsp_MergeFrom W m (SubscribeRsp_new W) = m\<lparr>SubscribeRsp_cached_size := 0\<rparr>"
  using assms unknown_none_eq [OF assms(1) unknown_default_none [OF assms(1)]]
  by (cases m) (auto simp: SubscribeRsp_ok_def SubscribeRsp_MergeFrom_def SubscribeRsp_new_def unknown_merge_none SubscribeRsp_errorcode_def)

lemma SubscribeRsp_CopyFrom_eq:
  assumes "wire_ok W" and "SubscribeRsp_ok W from"
  shows "SubscribeRsp_CopyFrom W from m = from\<lparr>SubscribeRsp_cached_size := SubscribeRsp_cached_size m\<rparr>"
  using assms unknown_none_eq [OF assms(1) unknown_default_none [OF assms(1)]]
  by (cases m; cases "from")
    (auto simp: SubscribeRsp_ok_def SubscribeRsp_CopyFrom_def SubscribeRsp_MergeFrom_def SubscribeRsp_Clear_def unknown_merge_none SubscribeRsp_errorcode_def)

section \<open>HeartbeatReq\<close>

record 'u HeartbeatReq =
  HeartbeatReq_cpu_v :: "int32"
  HeartbeatReq_memory_v :: "int32"
  HeartbeatReq_unknown :: 'u
  HeartbeatReq_cached_size :: int

definition HeartbeatReq_FullMessageName :: string where
  "HeartbeatReq_FullMessageName = ''ProtoBase.HeartbeatReq''"

definition HeartbeatReq_new :: "'u wire \<Rightarrow> 'u HeartbeatReq" where
  "HeartbeatReq_new W = \<lparr>HeartbeatReq_cpu_v = 0, HeartbeatReq_memory_v = 0, HeartbeatReq_unknown = unknown_default W, HeartbeatReq_cached_size = 0\<rparr>"

definition HeartbeatReq_copy :: "'u wire \<Rightarrow> 'u HeartbeatReq \<Rightarrow> 'u HeartbeatReq" where
  "HeartbeatReq_copy W from = (HeartbeatReq_new W)\<lparr>HeartbeatReq_cpu_v := HeartbeatReq_cpu_v from, HeartbeatReq_memory_v := HeartbeatReq_memory_v from, HeartbeatReq_unknown := unknown_MergeFrom W (unknown_default W) (HeartbeatReq_unknown from)\<rparr>"

definition HeartbeatReq_cpu :: "'u HeartbeatReq \<Rightarrow> int32" where
  "HeartbeatReq_cpu m = HeartbeatReq_cpu_v m"

definition HeartbeatReq_set_cpu :: "int32 \<Rightarrow> 'u HeartbeatReq \<Rightarrow> 'u HeartbeatReq" where
  "HeartbeatReq_set_cpu value m = m\<lparr>HeartbeatReq_cpu_v := value\<rparr>"

definition HeartbeatReq_clear_cpu :: "'u HeartbeatReq \<Rightarrow> 'u HeartbeatReq" where
  "HeartbeatReq_clear_cpu m = m\<lparr>HeartbeatReq_cpu_v := 0\<rparr>"

definition HeartbeatReq_memory :: "'u HeartbeatReq \<Rightarrow> int32" where
  "HeartbeatReq_memory m = HeartbeatReq_memory_v m"

definition HeartbeatReq_set_memory :: "int32 \<Rightarrow> 'u HeartbeatReq \<Rightarrow> 'u HeartbeatReq" where
  "HeartbeatReq_set_memory value m = m\<lparr>HeartbeatReq_memory_v := value\<rparr>"

definition HeartbeatReq_clear_memory :: "'u HeartbeatReq \<Rightarrow> 'u HeartbeatReq" where
  "HeartbeatReq_clear_memory m = m\<lparr>HeartbeatReq_memory_v := 0\<rparr>"

definition HeartbeatReq_Clear :: "'u wire \<Rightarrow> 'u HeartbeatReq \<Rightarrow> 'u HeartbeatReq" where
  "HeartbeatReq_Clear W m = m\<lparr>HeartbeatReq_cpu_v := 0, HeartbeatReq_memory_v := 0, HeartbeatReq_unknown := unknown_default W\<rparr>"

definition HeartbeatReq_parse_field ::
    "'u wire \<Rightarrow> 32 word \<Rightarrow> 'u HeartbeatReq \<Rightarrow> char list \<Rightarrow> 'u HeartbeatReq field_step option" where
  "HeartbeatReq_parse_field W tag m ptr =
     (if drop_bit 3 tag = 1 then
        (if take_bit 8 tag = 8 then
           (case ReadVarint64 W ptr of
              None \<Rightarrow> Some Failure
            | Some (v, ptr') \<Rightarrow> Some (Field (m\<lparr>HeartbeatReq_cpu_v := ucast v\<rparr>) ptr'))
         else Some Unusual)
      else if drop_bit 3 tag = 2 then
        (if take_bit 8 tag = 16 then
           (case ReadVarint64 W ptr of
              None \<Rightarrow> Some Failure
            | Some (v, ptr') \<Rightarrow> Some (Field (m\<lparr>HeartbeatReq_memory_v := ucast v\<rparr>) ptr'))
         else Some Unusual)
      else Some Unusual)"

definition HeartbeatReq_InternalParse :: "'u wire \<Rightarrow> 'u HeartbeatReq \<Rightarrow> char list \<Rightarrow> 'u HeartbeatReq parse_result option" where
  "HeartbeatReq_InternalParse W = parse_loop W (HeartbeatReq_parse_field W) HeartbeatReq_unknown HeartbeatReq_unknown_update"

definition HeartbeatReq_InternalSerialize :: "'u wire \<Rightarrow> 'u HeartbeatReq \<Rightarrow> char list" where
  "HeartbeatReq_InternalSerialize W m =
     (if HeartbeatReq_cpu m \<noteq> 0 then WriteInt32ToArray W 1 (HeartbeatReq_cpu m) else [])
     @ (if HeartbeatReq_memory m \<noteq> 0 then WriteInt32ToArray W 2 (HeartbeatReq_memory m) else [])
     @ (if have_unknown_fields W (HeartbeatReq_unknown m)
        then InternalSerializeUnknownFieldsToArray W (HeartbeatReq_unknown m) else [])"

definition HeartbeatReq_ByteSizeLong :: "'u wire \<Rightarrow> 'u HeartbeatReq \<Rightarrow> nat \<times> 'u HeartbeatReq" where
  "HeartbeatReq_ByteSizeLong W m =
     (let total_size = (if HeartbeatReq_cpu m \<noteq> 0 then 1 + Int32Size W (HeartbeatReq_cpu m) else 0)
        + (if HeartbeatReq_memory m \<noteq> 0 then 1 + Int32Size W (HeartbeatReq_memory m) else 0);
          size = (if have_unknown_fields W (HeartbeatReq_unknown m)
                  then ComputeUnknownFieldsSize W (HeartbeatReq_unknown m) total_size else total_size)
      in (size, m\<lparr>HeartbeatReq_cached_size := wrap32 (int size)\<rparr>))"

definition HeartbeatReq_MergeFrom :: "'u wire \<Rightarrow> 'u HeartbeatReq \<Rightarrow> 'u HeartbeatReq \<Rightarrow> 'u HeartbeatReq" where
  "HeartbeatReq_MergeFrom W from m =
     m\<lparr>HeartbeatReq_cpu_v := (if HeartbeatReq_cpu from \<noteq> 0 then HeartbeatReq_cpu from else HeartbeatReq_cpu_v m),
       HeartbeatReq_memory_v := (if HeartbeatReq_memory from \<noteq> 0 then HeartbeatReq_memory from else HeartbeatReq_memory_v m),
       HeartbeatReq_unknown := unknown_MergeFrom W (HeartbeatReq_unknown m) (HeartbeatReq_unknown from)\<rparr>"

definition HeartbeatReq_CopyFrom :: "'u wire \<Rightarrow> 'u HeartbeatReq \<Rightarrow> 'u HeartbeatReq \<Rightarrow> 'u HeartbeatReq" where
  "HeartbeatReq_CopyFrom W from m = HeartbeatReq_MergeFrom W from (HeartbeatReq_Clear W m)"

definition HeartbeatReq_InternalSwap :: "'u HeartbeatReq \<Rightarrow> 'u HeartbeatReq \<Rightarrow> 'u HeartbeatReq \<times> 'u HeartbeatReq" where
  "HeartbeatReq_InternalSwap m other =
     (m\<lparr>HeartbeatReq_cpu_v := HeartbeatReq_cpu_v other, HeartbeatReq_memory_v := HeartbeatReq_memory_v other, HeartbeatReq_unknown := HeartbeatReq_unknown other\<rparr>,
      other\<lparr>HeartbeatReq_cpu_v := HeartbeatReq_cpu_v m, HeartbeatReq_memory_v := HeartbeatReq_memory_v m, HeartbeatReq_unknown := HeartbeatReq_unknown m\<rparr>)"

text \<open>The messages without unknown fields whose strings the runtime accepts.\<close>

definition HeartbeatReq_ok :: "'u wire \<Rightarrow> 'u HeartbeatReq \<Rightarrow> bool" where
  "HeartbeatReq_ok W m \<longleftrightarrow> \<not> have_unknown_fields W (HeartbeatReq_unknown m)"

lemma HeartbeatReq_parse_step:
  assumes "wire_ok W"
  shows "HeartbeatReq_InternalParse W m (WriteInt32ToArray W 1 (v1 :: int32) @ r)
      = HeartbeatReq_InternalParse W (m\<lparr>HeartbeatReq_cpu_v := v1\<rparr>) r"
    and "HeartbeatReq_InternalParse W m (WriteInt32ToArray W 2 (v2 :: int32) @ r)
      = HeartbeatReq_InternalParse W (m\<lparr>HeartbeatReq_memory_v := v2\<rparr>) r"
    and "HeartbeatReq_InternalParse W m [] = Some (Some (m, [], None))"
  unfolding HeartbeatReq_InternalParse_def
  by (auto simp: HeartbeatReq_parse_field_def tag_simps parse_loop_done [OF assms]
      intro!: parse_loop_int32 parse_loop_int64 parse_loop_string assms)

lemma HeartbeatReq_parse_merge:
  assumes "wire_ok W" and "HeartbeatReq_ok W m"
  shows "HeartbeatReq_InternalParse W m0 (HeartbeatReq_InternalSerialize W (snd (HeartbeatReq_ByteSizeLong W m)))
    = Some (Some (HeartbeatReq_MergeFrom W m m0, [], None))"
  using assms(2) HeartbeatReq_parse_step [OF assms(1)]
    HeartbeatReq_parse_step(1) [OF assms(1), where r = "[]", unfolded append_Nil2] HeartbeatReq_parse_step(2) [OF assms(1), where r = "[]", unfolded append_Nil2]
    unknown_merge_none [OF assms(1)]
  by (simp add: HeartbeatReq_ok_def HeartbeatReq_InternalSerialize_def HeartbeatReq_ByteSizeLong_def Let_def HeartbeatReq_MergeFrom_def
      HeartbeatReq_cpu_def HeartbeatReq_memory_def)

lemma HeartbeatReq_size:
  assumes "wire_ok W" and "HeartbeatReq_ok W m"
  shows "fst (HeartbeatReq_ByteSizeLong W m) = length (HeartbeatReq_InternalSerialize W (snd (HeartbeatReq_ByteSizeLong W m)))"
  using assms(2)
  by (simp add: HeartbeatReq_ok_def HeartbeatReq_InternalSerialize_def HeartbeatReq_ByteSizeLong_def Let_def
      wire_sizes [OF assms(1)] HeartbeatReq_cpu_def HeartbeatReq_memory_def)

lemma HeartbeatReq_merge_new:
  assumes "wire_ok W" and "HeartbeatReq_ok W m"
  shows "HeartbeatReq_MergeFrom W m (HeartbeatReq_new W) = m\<lparr>HeartbeatReq_cached_size := 0\<rparr>"
  using assms unknown_none_eq [OF assms(1) unknown_default_none [OF assms(1)]]
  by (cases m) (auto simp: HeartbeatReq_ok_def HeartbeatReq_MergeFrom_def HeartbeatReq_new_def unknown_merge_none HeartbeatReq_cpu_def HeartbeatReq_memory_def)

lemma HeartbeatReq_CopyFrom_eq:
  assumes "wire_ok W" and "HeartbeatReq_ok W from"
  shows "HeartbeatReq_CopyFrom W from m = from\<lparr>HeartbeatReq_cached_size := HeartbeatReq_cached_size m\<rparr>"
  using assms unknown_none_eq [OF assms(1) unknown_default_none [OF assms(1)]]
  by (cases m; cases "from")
    (auto simp: HeartbeatReq_ok_def HeartbeatReq_CopyFrom_def HeartbeatReq_MergeFrom_def HeartbeatReq_Clear_def unknown_merge_none HeartbeatReq_cpu_def HeartbeatReq_memory_def)

section \<open>HeartbeatRsp\<close>

record 'u HeartbeatRsp =
  HeartbeatRsp_servertime_v :: "int64"
  HeartbeatRsp_unknown :: 'u
  HeartbeatRsp_cached_size :: int

definition HeartbeatRsp_FullMessageName :: string where
  "HeartbeatRsp_FullMessageName = ''ProtoBase.HeartbeatRsp''"

definition HeartbeatRsp_new :: "'u wire \<Rightarrow> 'u HeartbeatRsp" where
  "HeartbeatRsp_new W = \<lparr>HeartbeatRsp_servertime_v = 0, HeartbeatRsp_unknown = unknown_default W, HeartbeatRsp_cached_size = 0\<rparr>"

definition HeartbeatRsp_copy :: "'u wire \<Rightarrow> 'u HeartbeatRsp \<Rightarrow> 'u HeartbeatRsp" where
  "HeartbeatRsp_copy W from = (HeartbeatRsp_new W)\<lparr>HeartbeatRsp_servertime_v := HeartbeatRsp_servertime_v from, HeartbeatRsp_unknown := unknown_MergeFrom W (unknown_default W) (HeartbeatRsp_unknown from)\<rparr>"

definition HeartbeatRsp_servertime :: "'u HeartbeatRsp \<Rightarrow> int64" where
  "HeartbeatRsp_servertime m = HeartbeatRsp_servertime_v m"

definition HeartbeatRsp_set_servertime :: "int64 \<Rightarrow> 'u HeartbeatRsp \<Rightarrow> 'u HeartbeatRsp" where
  "HeartbeatRsp_set_servertime value m = m\<lparr>HeartbeatRsp_servertime_v := value\<rparr>"

definition HeartbeatRsp_clear_servertime :: "'u HeartbeatRsp \<Rightarrow> 'u HeartbeatRsp" where
  "HeartbeatRsp_clear_servertime m = m\<lparr>HeartbeatRsp_servertime_v := 0\<rparr>"

definition HeartbeatRsp_Clear :: "'u wire \<Rightarrow> 'u HeartbeatRsp \<Rightarrow> 'u HeartbeatRsp" where
  "HeartbeatRsp_Clear W m = m\<lparr>HeartbeatRsp_servertime_v := 0, HeartbeatRsp_unknown := unknown_default W\<rparr>"

definition HeartbeatRsp_parse_field ::
    "'u wire \<Rightarrow> 32 word \<Rightarrow> 'u HeartbeatRsp \<Rightarrow> char list \<Rightarrow> 'u HeartbeatRsp field_step option" where
  "HeartbeatRsp_parse_field W tag m ptr =
     (if drop_bit 3 tag = 1 then
        (if take_bit 8 tag = 8 then
           (case ReadVarint64 W ptr of
              None \<Rightarrow> Some Failure
            | Some (v, ptr') \<Rightarrow> Some (Field (m\<lparr>HeartbeatRsp_servertime_v := v\<rparr>) ptr'))
         else Some Unusual)
      else Some Unusual)"

definition HeartbeatRsp_InternalParse :: "'u wire \<Rightarrow> 'u HeartbeatRsp \<Rightarrow> char list \<Rightarrow> 'u HeartbeatRsp parse_result option" where
  "HeartbeatRsp_InternalParse W = parse_loop W (HeartbeatRsp_parse_field W) HeartbeatRsp_unknown HeartbeatRsp_unknown_update"

definition HeartbeatRsp_InternalSerialize :: "'u wire \<Rightarrow> 'u HeartbeatRsp \<Rightarrow> char list" where
  "HeartbeatRsp_InternalSerialize W m =
     (if HeartbeatRsp_servertime m \<noteq> 0 then WriteInt64ToArray W 1 (HeartbeatRsp_servertime m) else [])
     @ (if have_unknown_fields W (HeartbeatRsp_unknown m)
        then InternalSerializeUnknownFieldsToArray W (HeartbeatRsp_unknown m) else [])"

definition HeartbeatRsp_ByteSizeLong :: "'u wire \<Rightarrow> 'u HeartbeatRsp \<Rightarrow> nat \<times> 'u HeartbeatRsp" where
  "HeartbeatRsp_ByteSizeLong W m =
     (let total_size = (if HeartbeatRsp_servertime m \<noteq> 0 then 1 + Int64Size W (HeartbeatRsp_servertime m) else 0);
          size = (if have_unknown_fields W (HeartbeatRsp_unknown m)
                  then ComputeUnknownFieldsSize W (HeartbeatRsp_unknown m) total_size else total_size)
      in (size, m\<lparr>HeartbeatRsp_cached_size := wrap32 (int size)\<rparr>))"

definition HeartbeatRsp_MergeFrom :: "'u wire \<Rightarrow> 'u HeartbeatRsp \<Rightarrow> 'u HeartbeatRsp \<Rightarrow> 'u HeartbeatRsp" where
  "HeartbeatRsp_MergeFrom W from m =
     m\<lparr>HeartbeatRsp_servertime_v := (if HeartbeatRsp_servertime from \<noteq> 0 then HeartbeatRsp_servertime from else HeartbeatRsp_servertime_v m),
       HeartbeatRsp_unknown := unknown_MergeFrom W (HeartbeatRsp_unknown m) (HeartbeatRsp_unknown from)\<rparr>"

definition HeartbeatRsp_CopyFrom :: "'u wire \<Rightarrow> 'u HeartbeatRsp \<Rightarrow> 'u HeartbeatRsp \<Rightarrow> 'u HeartbeatRsp" where
  "HeartbeatRsp_CopyFrom W from m = HeartbeatRsp_MergeFrom W from (HeartbeatRsp_Clear W m)"

definition HeartbeatRsp_InternalSwap :: "'u HeartbeatRsp \<Rightarrow> 'u HeartbeatRsp \<Rightarrow> 'u HeartbeatRsp \<times> 'u HeartbeatRsp" where
  "HeartbeatRsp_InternalSwap m other =
     (m\<lparr>HeartbeatRsp_servertime_v := HeartbeatRsp_servertime_v other, HeartbeatRsp_unknown := HeartbeatRsp_unknown other\<rparr>,
      other\<lparr>HeartbeatRsp_servertime_v := HeartbeatRsp_servertime_v m, HeartbeatRsp_unknown := HeartbeatRsp_unknown m\<rparr>)"

text \<open>The messages without unknown fields whose strings the runtime accepts.\<close>

definition HeartbeatRsp_ok :: "'u wire \<Rightarrow> 'u HeartbeatRsp \<Rightarrow> bool" where
  "HeartbeatRsp_ok W m \<longleftrightarrow> \<not> have_unknown_fields W (HeartbeatRsp_unknown m)"

lemma HeartbeatRsp_parse_step:
  assumes "wire_ok W"
  shows "HeartbeatRsp_InternalParse W m (WriteInt64ToArray W 1 (v1 :: int64) @ r)
      = HeartbeatRsp_InternalParse W (m\<lparr>HeartbeatRsp_servertime_v := v1\<rparr>) r"
    and "HeartbeatRsp_InternalParse W m [] = Some (Some (m, [], None))"
  unfolding HeartbeatRsp_InternalParse_def
  by (auto simp: HeartbeatRsp_parse_field_def tag_simps parse_loop_done [OF assms]
      intro!: parse_loop_int32 parse_loop_int64 parse_loop_string assms)

lemma HeartbeatRsp_parse_merge:
  assumes "wire_ok W" and "HeartbeatRsp_ok W m"
  shows "HeartbeatRsp_InternalParse W m0 (HeartbeatRsp_InternalSerialize W (snd (HeartbeatRsp_ByteSizeLong W m)))
    = Some (Some (HeartbeatRsp_MergeFrom W m m0, [], None))"
  using assms(2) HeartbeatRsp_parse_step [OF assms(1)]
    HeartbeatRsp_parse_step(1) [OF assms(1), where r = "[]", unfolded append_Nil2]
    unknown_merge_none [OF assms(1)]
  by (simp add: HeartbeatRsp_ok_def HeartbeatRsp_InternalSerialize_def HeartbeatRsp_ByteSizeLong_def Let_def HeartbeatRsp_MergeFrom_def
      HeartbeatRsp_servertime_def)

lemma HeartbeatRsp_size:
  assumes "wire_ok W" and "HeartbeatRsp_ok W m"
  shows "fst (HeartbeatRsp_ByteSizeLong W m) = length (HeartbeatRsp_InternalSerialize W (snd (HeartbeatRsp_ByteSizeLong W m)))"
  using assms(2)
  by (simp add: HeartbeatRsp_ok_def HeartbeatRsp_InternalSerialize_def HeartbeatRsp_ByteSizeLong_def Let_def
      wire_sizes [OF assms(1)] HeartbeatRsp_servertime_def)

lemma HeartbeatRsp_merge_new:
  assumes "wire_ok W" and "HeartbeatRsp_ok W m"
  shows "HeartbeatRsp_MergeFrom W m (HeartbeatRsp_new W) = m\<lparr>HeartbeatRsp_cached_size := 0\<rparr>"
  using assms unknown_none_eq [OF assms(1) unknown_default_none [OF assms(1)]]
  by (cases m) (auto simp: HeartbeatRsp_ok_def HeartbeatRsp_MergeFrom_def HeartbeatRsp_new_def unknown_merge_none HeartbeatRsp_servertime_def)

lemma HeartbeatRsp_CopyFrom_eq:
  assumes "wire_ok W" and "HeartbeatRsp_ok W from"
  shows "HeartbeatRsp_CopyFrom W from m = from\<lparr>HeartbeatRsp_cached_size := HeartbeatRsp_cached_size m\<rparr>"
  using assms unknown_none_eq [OF assms(1) unknown_default_none [OF assms(1)]]
  by (cases m; cases "from")
    (auto simp: HeartbeatRsp_ok_def HeartbeatRsp_CopyFrom_def HeartbeatRsp_MergeFrom_def HeartbeatRsp_Clear_def unknown_merge_none HeartbeatRsp_servertime_def)

section \<open>CommonRsp\<close>

record 'u CommonRsp =
  CommonRsp_code_v :: "int32"
  CommonRsp_msg_v :: "string"
  CommonRsp_unknown :: 'u
  CommonRsp_cached_size :: int

definition CommonRsp_FullMessageName :: string where
  "CommonRsp_FullMessageName = ''ProtoBase.CommonRsp''"

definition CommonRsp_new :: "'u wire \<Rightarrow> 'u CommonRsp" where
  "CommonRsp_new W = \<lparr>CommonRsp_code_v = 0, CommonRsp_msg_v = '''', CommonRsp_unknown = unknown_default W, CommonRsp_cached_size = 0\<rparr>"

definition CommonRsp_copy :: "'u wire \<Rightarrow> 'u CommonRsp \<Rightarrow> 'u CommonRsp" where
  "CommonRsp_copy W from = (CommonRsp_new W)\<lparr>CommonRsp_code_v := CommonRsp_code_v from, CommonRsp_msg_v := CommonRsp_msg_v from, CommonRsp_unknown := unknown_MergeFrom W (unknown_default W) (CommonRsp_unknown from)\<rparr>"

definition CommonRsp_code :: "'u CommonRsp \<Rightarrow> int32" where
  "CommonRsp_code m = CommonRsp_code_v m"

definition CommonRsp_set_code :: "int32 \<Rightarrow> 'u CommonRsp \<Rightarrow> 'u CommonRsp" where
  "CommonRsp_set_code value m = m\<lparr>CommonRsp_code_v := value\<rparr>"

definition CommonRsp_clear_code :: "'u CommonRsp \<Rightarrow> 'u CommonRsp" where
  "CommonRsp_clear_code m = m\<lparr>CommonRsp_code_v := 0\<rparr>"

definition CommonRsp_msg :: "'u CommonRsp \<Rightarrow> string" where
  "CommonRsp_msg m = CommonRsp_msg_v m"

definition CommonRsp_set_msg :: "string \<Rightarrow> 'u CommonRsp \<Rightarrow> 'u CommonRsp" where
  "CommonRsp_set_msg value m = m\<lparr>CommonRsp_msg_v := value\<rparr>"

definition CommonRsp_clear_msg :: "'u CommonRsp \<Rightarrow> 'u CommonRsp" where
  "CommonRsp_clear_msg m = m\<lparr>CommonRsp_msg_v := ''''\<rparr>"

definition CommonRsp_Clear :: "'u wire \<Rightarrow> 'u CommonRsp \<Rightarrow> 'u CommonRsp" where
  "CommonRsp_Clear W m = m\<lparr>CommonRsp_code_v := 0, CommonRsp_msg_v := '''', CommonRsp_unknown := unknown_default W\<rparr>"

definition CommonRsp_parse_field ::
    "'u wire \<Rightarrow> 32 word \<Rightarrow> 'u CommonRsp \<Rightarrow> char list \<Rightarrow> 'u CommonRsp field_step option" where
  "CommonRsp_parse_field W tag m ptr =
     (if drop_bit 3 tag = 1 then
        (if take_bit 8 tag = 8 then
           (case ReadVarint64 W ptr of
              None \<Rightarrow> Some Failure
            | Some (v, ptr') \<Rightarrow> Some (Field (m\<lparr>CommonRsp_code_v := ucast v\<rparr>) ptr'))
         else Some Unusual)
      else if drop_bit 3 tag = 2 then
        (if take_bit 8 tag = 18 then
           (case parse_string W ptr of
              None \<Rightarrow> Some Failure
            | Some (str, ptr') \<Rightarrow> Some (Field (m\<lparr>CommonRsp_msg_v := str\<rparr>) ptr'))
         else Some Unusual)
      else Some Unusual)"

definition CommonRsp_InternalParse :: "'u wire \<Rightarrow> 'u CommonRsp \<Rightarrow> char list \<Rightarrow> 'u CommonRsp parse_result option" where
  "CommonRsp_InternalParse W = parse_loop W (CommonRsp_parse_field W) CommonRsp_unknown CommonRsp_unknown_update"

definition CommonRsp_InternalSerialize :: "'u wire \<Rightarrow> 'u CommonRsp \<Rightarrow> char list" where
  "CommonRsp_InternalSerialize W m =
     (if CommonRsp_code m \<noteq> 0 then WriteInt32ToArray W 1 (CommonRsp_code m) else [])
     @ (if 0 < length (CommonRsp_msg m) then WriteStringMaybeAliased W 2 (CommonRsp_msg m) else [])
     @ (if have_unknown_fields W (CommonRsp_unknown m)
        then InternalSerializeUnknownFieldsToArray W (CommonRsp_unknown m) else [])"

definition CommonRsp_ByteSizeLong :: "'u wire \<Rightarrow> 'u CommonRsp \<Rightarrow> nat \<times> 'u CommonRsp" where
  "CommonRsp_ByteSizeLong W m =
     (let total_size = (if 0 < length (CommonRsp_msg m) then 1 + StringSize W (CommonRsp_msg m) else 0)
        + (if CommonRsp_code m \<noteq> 0 then 1 + Int32Size W (CommonRsp_code m) else 0);
          size = (if have_unknown_fields W (CommonRsp_unknown m)
                  then ComputeUnknownFieldsSize W (CommonRsp_unknown m) total_size else total_size)
      in (size, m\<lparr>CommonRsp_cached_size := wrap32 (int size)\<rparr>))"

definition CommonRsp_MergeFrom :: "'u wire \<Rightarrow> 'u CommonRsp \<Rightarrow> 'u CommonRsp \<Rightarrow> 'u CommonRsp" where
  "CommonRsp_MergeFrom W from m =
     m\<lparr>CommonRsp_code_v := (if CommonRsp_code from \<noteq> 0 then CommonRsp_code from else CommonRsp_code_v m),
       CommonRsp_msg_v := (if 0 < length (CommonRsp_msg from) then CommonRsp_msg from else CommonRsp_msg_v m),
       CommonRsp_unknown := unknown_MergeFrom W (CommonRsp_unknown m) (CommonRsp_unknown from)\<rparr>"

definition CommonRsp_CopyFrom :: "'u wire \<Rightarrow> 'u CommonRsp \<Rightarrow> 'u CommonRsp \<Rightarrow> 'u CommonRsp" where
  "CommonRsp_CopyFrom W from m = CommonRsp_MergeFrom W from (CommonRsp_Clear W m)"

definition CommonRsp_InternalSwap :: "'u CommonRsp \<Rightarrow> 'u CommonRsp \<Rightarrow> 'u CommonRsp \<times> 'u CommonRsp" where
  "CommonRsp_InternalSwap m other =
     (m\<lparr>CommonRsp_code_v := CommonRsp_code_v other, CommonRsp_msg_v := CommonRsp_msg_v other, CommonRsp_unknown := CommonRsp_unknown other\<rparr>,
      other\<lparr>CommonRsp_code_v := CommonRsp_code_v m, CommonRsp_msg_v := CommonRsp_msg_v m, CommonRsp_unknown := CommonRsp_unknown m\<rparr>)"

text \<open>The messages without unknown fields whose strings the runtime accepts.\<close>

definition CommonRsp_ok :: "'u wire \<Rightarrow> 'u CommonRsp \<Rightarrow> bool" where
  "CommonRsp_ok W m \<longleftrightarrow> \<not> have_unknown_fields W (CommonRsp_unknown m) \<and> pb_string W (CommonRsp_msg_v m)"

lemma CommonRsp_parse_step:
  assumes "wire_ok W"
  shows "CommonRsp_InternalParse W m (WriteInt32ToArray W 1 (v1 :: int32) @ r)
      = CommonRsp_InternalParse W (m\<lparr>CommonRsp_code_v := v1\<rparr>) r"
    and "pb_string W s \<Longrightarrow> CommonRsp_InternalParse W m (WriteStringMaybeAliased W 2 s @ r)
      = CommonRsp_InternalParse W (m\<lparr>CommonRsp_msg_v := s\<rparr>) r"
    and "CommonRsp_InternalParse W m [] = Some (Some (m, [], None))"
  unfolding CommonRsp_InternalParse_def
  by (auto simp: CommonRsp_parse_field_def tag_simps parse_loop_done [OF assms]
      intro!: parse_loop_int32 parse_loop_int64 parse_loop_string assms)

lemma CommonRsp_parse_merge:
  assumes "wire_ok W" and "CommonRsp_ok W m"
  shows "CommonRsp_InternalParse W m0 (CommonRsp_InternalSerialize W (snd (CommonRsp_ByteSizeLong W m)))
    = Some (Some (CommonRsp_MergeFrom W m m0, [], None))"
  using assms(2) CommonRsp_parse_step [OF assms(1)]
    CommonRsp_parse_step(1) [OF assms(1), where r = "[]", unfolded append_Nil2] CommonRsp_parse_step(2) [OF assms(1), where r = "[]", unfolded append_Nil2]
    unknown_merge_none [OF assms(1)]
  by (simp add: CommonRsp_ok_def CommonRsp_InternalSerialize_def CommonRsp_ByteSizeLong_def Let_def CommonRsp_MergeFrom_def
      CommonRsp_code_def CommonRsp_msg_def)

lemma CommonRsp_size:
  assumes "wire_ok W" and "CommonRsp_ok W m"
  shows "fst (CommonRsp_ByteSizeLong W m) = length (CommonRsp_InternalSerialize W (snd (CommonRsp_ByteSizeLong W m)))"
  using assms(2)
  by (simp add: CommonRsp_ok_def CommonRsp_InternalSerialize_def CommonRsp_ByteSizeLong_def Let_def
      wire_sizes [OF assms(1)] CommonRsp_code_def CommonRsp_msg_def)

lemma CommonRsp_merge_new:
  assumes "wire_ok W" and "CommonRsp_ok W m"
  shows "CommonRsp_MergeFrom W m (CommonRsp_new W) = m\<lparr>CommonRsp_cached_size := 0\<rparr>"
  using assms unknown_none_eq [OF assms(1) unknown_default_none [OF assms(1)]]
  by (cases m) (auto simp: CommonRsp_ok_def CommonRsp_MergeFrom_def CommonRsp_new_def unknown_merge_none CommonRsp_code_def CommonRsp_msg_def)

lemma CommonRsp_CopyFrom_eq:
  assumes "wire_ok W" and "CommonRsp_ok W from"
  shows "CommonRsp_CopyFrom W from m = from\<lparr>CommonRsp_cached_size := CommonRsp_cached_size m\<rparr>"
  using assms unknown_none_eq [OF assms(1) unknown_default_none [OF assms(1)]]
  by (cases m; cases "from")
    (auto simp: CommonRsp_ok_def CommonRsp_CopyFrom_def CommonRsp_MergeFrom_def CommonRsp_Clear_def unknown_merge_none CommonRsp_code_def CommonRsp_msg_def)

end
