(* ===== verification/Pb_Simple.thy ===== *)
theory Pb_Simple
  imports Pb_Wire
begin

text \<open>
  The messages of the example services, generated from \<^verbatim>\<open>asio/proto/pb_simple.proto\<close> into
  \<^verbatim>\<open>pb_simple.pb.h\<close> and \<^verbatim>\<open>pb_simple.pb.cc\<close>, in the same form as \<^verbatim>\<open>Pb_Base\<close>.
\<close>

section \<open>PingPongReq\<close>

record 'u PingPongReq =
  PingPongReq_content_v :: "string"
  PingPongReq_unknown :: 'u
  PingPongReq_cached_size :: int

definition PingPongReq_FullMessageName :: string where
  "PingPongReq_FullMessageName = ''ProtoSimple.PingPongReq''"

definition PingPongReq_new :: "'u wire \<Rightarrow> 'u PingPongReq" where
  "PingPongReq_new W = \<lparr>PingPongReq_content_v = '''', PingPongReq_unknown = unknown_default W, PingPongReq_cached_size = 0\<rparr>"

definition PingPongReq_copy :: "'u wire \<Rightarrow> 'u PingPongReq \<Rightarrow> 'u PingPongReq" where
  "PingPongReq_copy W from = (PingPongReq_new W)\<lparr>PingPongReq_content_v := PingPongReq_content_v from, PingPongReq_unknown := unknown_MergeFrom W (unknown_default W) (PingPongReq_unknown from)\<rparr>"

definition PingPongReq_content :: "'u PingPongReq \<Rightarrow> string" where
  "PingPongReq_content m = PingPongReq_content_v m"

definition PingPongReq_set_content :: "string \<Rightarrow> 'u PingPongReq \<Rightarrow> 'u PingPongReq" where
  "PingPongReq_set_content value m = m\<lparr>PingPongReq_content_v := value\<rparr>"

definition PingPongReq_clear_content :: "'u PingPongReq \<Rightarrow> 'u PingPongReq" where
  "PingPongReq_clear_content m = m\<lparr>PingPongReq_content_v := ''''\<rparr>"

definition PingPongReq_Clear :: "'u wire \<Rightarrow> 'u PingPongReq \<Rightarrow> 'u PingPongReq" where
  "PingPongReq_Clear W m = m\<lparr>PingPongReq_content_v := '''', PingPongReq_unknown := unknown_default W\<rparr>"

definition PingPongReq_parse_field ::
    "'u wire \<Rightarrow> 32 word \<Rightarrow> 'u PingPongReq \<Rightarrow> char list \<Rightarrow> 'u PingPongReq field_step option" where
  "PingPongReq_parse_field W tag m ptr =
     (if drop_bit 3 tag = 1 then
        (if take_bit 8 tag = 10 then
           (case parse_string W ptr of
              None \<Rightarrow> Some Failure
            | Some (str, ptr') \<Rightarrow> Some (Field (m\<lparr>PingPongReq_content_v := str\<rparr>) ptr'))
         else Some Unusual)
      else Some Unusual)"

definition PingPongReq_InternalParse :: "'u wire \<Rightarrow> 'u PingPongReq \<Rightarrow> char list \<Rightarrow> 'u PingPongReq parse_result option" where
  "PingPongReq_InternalParse W = parse_loop W (PingPongReq_parse_field W) PingPongReq_unknown PingPongReq_unknown_update"

definition PingPongReq_InternalSerialize :: "'u wire \<Rightarrow> 'u PingPongReq \<Rightarrow> char list" where
  "PingPongReq_InternalSerialize W m =
     (if 0 < length (PingPongReq_content m) then WriteStringMaybeAliased W 1 (PingPongReq_content m) else [])
     @ (if have_unknown_fields W (PingPongReq_unknown m)
        then InternalSerializeUnknownFieldsToArray W (PingPongReq_unknown m) else [])"

definition PingPongReq_ByteSizeLong :: "'u wire \<Rightarrow> 'u PingPongReq \<Rightarrow> nat \<times> 'u PingPongReq" where
  "PingPongReq_ByteSizeLong W m =
     (let total_size = (if 0 < length (PingPongReq_content m) then 1 + StringSize W (PingPongReq_content m) else 0);
          size = (if have_unknown_fields W (PingPongReq_unknown m)
                  then ComputeUnknownFieldsSize W (PingPongReq_unknown m) total_size else total_size)
      in (size, m\<lparr>PingPongReq_cached_size := wrap32 (int size)\<rparr>))"

definition PingPongReq_MergeFrom :: "'u wire \<Rightarrow> 'u PingPongReq \<Rightarrow> 'u PingPongReq \<Rightarrow> 'u PingPongReq" where
  "PingPongReq_MergeFrom W from m =
     m\<lparr>PingPongReq_content_v := (if 0 < length (PingPongReq_content from) then PingPongReq_content from else PingPongReq_content_v m),
       PingPongReq_unknown := unknown_MergeFrom W (PingPongReq_unknown m) (PingPongReq_unknown from)\<rparr>"

definition PingPongReq_CopyFrom :: "'u wire \<Rightarrow> 'u PingPongReq \<Rightarrow> 'u PingPongReq \<Rightarrow> 'u PingPongReq" where
  "PingPongReq_CopyFrom W from m = PingPongReq_MergeFrom W from (PingPongReq_Clear W m)"

definition PingPongReq_InternalSwap :: "'u PingPongReq \<Rightarrow> 'u PingPongReq \<Rightarrow> 'u PingPongReq \<times> 'u PingPongReq" where
  "PingPongReq_InternalSwap m other =
     (m\<lparr>PingPongReq_content_v := PingPongReq_content_v other, PingPongReq_unknown := PingPongReq_unknown other\<rparr>,
      other\<lparr>PingPongReq_content_v := PingPongReq_content_v m, PingPongReq_unknown := PingPongReq_unknown m\<rparr>)"

text \<open>The messages without unknown fields whose strings the runtime accepts.\<close>

definition PingPongReq_ok :: "'u wire \<Rightarrow> 'u PingPongReq \<Rightarrow> bool" where
  "PingPongReq_ok W m \<longleftrightarrow> \<not> have_unknown_fields W (PingPongReq_unknown m) \<and> pb_string W (PingPongReq_content_v m)"

lemma PingPongReq_parse_step:
  assumes "wire_ok W"
  shows "pb_string W s \<Longrightarrow> PingPongReq_InternalParse W m (WriteStringMaybeAliased W 1 s @ r)
      = PingPongReq_InternalParse W (m\<lparr>PingPongReq_content_v := s\<rparr>) r"
    and "PingPongReq_InternalParse W m [] = Some (Some (m, [], None))"
  unfolding PingPongReq_InternalParse_def
  by (auto simp: PingPongReq_parse_field_def tag_simps parse_loop_done [OF assms]
      intro!: parse_loop_int32 parse_loop_int64 parse_loop_string assms)

lemma PingPongReq_parse_merge:
  assumes "wire_ok W" and "PingPongReq_ok W m"
  shows "PingPongReq_InternalParse W m0 (PingPongReq_InternalSerialize W (snd (PingPongReq_ByteSizeLong W m)))
    = Some (Some (PingPongReq_MergeFrom W m m0, [], None))"
  using assms(2) PingPongReq_parse_step [OF assms(1)]
    PingPongReq_parse_step(1) [OF assms(1), where r = "[]", unfolded append_Nil2]
    unknown_merge_none [OF assms(1)]
  by (simp add: PingPongReq_ok_def PingPongReq_InternalSerialize_def PingPongReq_ByteSizeLong_def Let_def PingPongReq_MergeFrom_def
      PingPongReq_content_def)

lemma PingPongReq_size:
  assumes "wire_ok W" and "PingPongReq_ok W m"
  shows "fst (PingPongReq_ByteSizeLong W m) = length (PingPongReq_InternalSerialize W (snd (PingPongReq_ByteSizeLong W m)))"
  using assms(2)
  by (simp add: PingPongReq_ok_def PingPongReq_InternalSerialize_def PingPongReq_ByteSizeLong_def Let_def
      wire_sizes [OF assms(1)] PingPongReq_content_def)

lemma PingPongReq_merge_new:
  assumes "wire_ok W" and "PingPongReq_ok W m"
  shows "PingPongReq_MergeFrom W m (PingPongReq_new W) = m\<lparr>PingPongReq_cached_size := 0\<rparr>"
  using assms unknown_none_eq [OF assms(1) unknown_default_none [OF assms(1)]]
  by (cases m) (auto simp: PingPongReq_ok_def PingPongReq_MergeFrom_def PingPongReq_new_def unknown_merge_none PingPongReq_content_def)

lemma PingPongReq_CopyFrom_eq:
  assumes "wire_ok W" and "PingPongReq_ok W from"
  shows "PingPongReq_CopyFrom W from m = from\<lparr>PingPongReq_cached_size := PingPongReq_cached_size m\<rparr>"
  using assms unknown_none_eq [OF assms(1) unknown_default_none [OF assms(1)]]
  by (cases m; cases "from")
    (auto simp: PingPongReq_ok_def PingPongReq_CopyFrom_def PingPongReq_MergeFrom_def PingPongReq_Clear_def unknown_merge_none PingPongReq_content_def)

section \<open>PingPongRsp\<close>

record 'u PingPongRsp =
  PingPongRsp_content_v :: "string"
  PingPongRsp_unknown :: 'u
  PingPongRsp_cached_size :: int

definition PingPongRsp_FullMessageName :: string where
  "PingPongRsp_FullMessageName = ''ProtoSimple.PingPongRsp''"

definition PingPongRsp_new :: "'u wire \<Rightarrow> 'u PingPongRsp" where
  "PingPongRsp_new W = \<lparr>PingPongRsp_content_v = '''', PingPongRsp_unknown = unknown_default W, PingPongRsp_cached_size = 0\<rparr>"

definition PingPongRsp_copy :: "'u wire \<Rightarrow> 'u PingPongRsp \<Rightarrow> 'u PingPongRsp" where
  "PingPongRsp_copy W from = (PingPongRsp_new W)\<lparr>PingPongRsp_content_v := PingPongRsp_content_v from, PingPongRsp_unknown := unknown_MergeFrom W (unknown_default W) (PingPongRsp_unknown from)\<rparr>"

definition PingPongRsp_content :: "'u PingPongRsp \<Rightarrow> string" where
  "PingPongRsp_content m = PingPongRsp_content_v m"

definition PingPongRsp_set_content :: "string \<Rightarrow> 'u PingPongRsp \<Rightarrow> 'u PingPongRsp" where
  "PingPongRsp_set_content value m = m\<lparr>PingPongRsp_content_v := value\<rparr>"

definition PingPongRsp_clear_content :: "'u PingPongRsp \<Rightarrow> 'u PingPongRsp" where
  "PingPongRsp_clear_content m = m\<lparr>PingPongRsp_content_v := ''''\<rparr>"

definition PingPongRsp_Clear :: "'u wire \<Rightarrow> 'u PingPongRsp \<Rightarrow> 'u PingPongRsp" where
  "PingPongRsp_Clear W m = m\<lparr>PingPongRsp_content_v := '''', PingPongRsp_unknown := unknown_default W\<rparr>"

definition PingPongRsp_parse_field ::
    "'u wire \<Rightarrow> 32 word \<Rightarrow> 'u PingPongRsp \<Rightarrow> char list \<Rightarrow> 'u PingPongRsp field_step option" where
  "PingPongRsp_parse_field W tag m ptr =
     (if drop_bit 3 tag = 1 then
        (if take_bit 8 tag = 10 then
           (case parse_string W ptr of
              None \<Rightarrow> Some Failure
            | Some (str, ptr') \<Rightarrow> Some (Field (m\<lparr>PingPongRsp_content_v := str\<rparr>) ptr'))
         else Some Unusual)
      else Some Unusual)"

definition PingPongRsp_InternalParse :: "'u wire \<Rightarrow> 'u PingPongRsp \<Rightarrow> char list \<Rightarrow> 'u PingPongRsp parse_result option" where
  "PingPongRsp_InternalParse W = parse_loop W (PingPongRsp_parse_field W) PingPongRsp_unknown PingPongRsp_unknown_update"

definition PingPongRsp_InternalSerialize :: "'u wire \<Rightarrow> 'u PingPongRsp \<Rightarrow> char list" where
  "PingPongRsp_InternalSerialize W m =
     (if 0 < length (PingPongRsp_content m) then WriteStringMaybeAliased W 1 (PingPongRsp_content m) else [])
     @ (if have_unknown_fields W (PingPongRsp_unknown m)
        then InternalSerializeUnknownFieldsToArray W (PingPongRsp_unknown m) else [])"

definition PingPongRsp_ByteSizeLong :: "'u wire \<Rightarrow> 'u PingPongRsp \<Rightarrow> nat \<times> 'u PingPongRsp" where
  "PingPongRsp_ByteSizeLong W m =
     (let total_size = (if 0 < length (PingPongRsp_content m) then 1 + StringSize W (PingPongRsp_content m) else 0);
          size = (if have_unknown_fields W (PingPongRsp_unknown m)
                  then ComputeUnknownFieldsSize W (PingPongRsp_unknown m) total_size else total_size)
      in (size, m\<lparr>PingPongRsp_cached_size := wrap32 (int size)\<rparr>))"

definition PingPongRsp_MergeFrom :: "'u wire \<Rightarrow> 'u PingPongRsp \<Rightarrow> 'u PingPongRsp \<Rightarrow> 'u PingPongRsp" where
  "PingPongRsp_MergeFrom W from m =
     m\<lparr>PingPongRsp_content_v := (if 0 < length (PingPongRsp_content from) then PingPongRsp_content from else PingPongRsp_content_v m),
       PingPongRsp_unknown := unknown_MergeFrom W (PingPongRsp_unknown m) (PingPongRsp_unknown from)\<rparr>"

definition PingPongRsp_CopyFrom :: "'u wire \<Rightarrow> 'u PingPongRsp \<Rightarrow> 'u PingPongRsp \<Rightarrow> 'u PingPongRsp" where
  "PingPongRsp_CopyFrom W from m = PingPongRsp_MergeFrom W from (PingPongRsp_Clear W m)"

definition PingPongRsp_InternalSwap :: "'u PingPongRsp \<Rightarrow> 'u PingPongRsp \<Rightarrow> 'u PingPongRsp \<times> 'u PingPongRsp" where
  "PingPongRsp_InternalSwap m other =
     (m\<lparr>PingPongRsp_content_v := PingPongRsp_content_v other, PingPongRsp_unknown := PingPongRsp_unknown other\<rparr>,
      other\<lparr>PingPongRsp_content_v := PingPongRsp_content_v m, PingPongRsp_unknown := PingPongRsp_unknown m\<rparr>)"

text \<open>The messages without unknown fields whose strings the runtime accepts.\<close>

definition PingPongRsp_ok :: "'u wire \<Rightarrow> 'u PingPongRsp \<Rightarrow> bool" where
  "PingPongRsp_ok W m \<longleftrightarrow> \<not> have_unknown_fields W (PingPongRsp_unknown m) \<and> pb_string W (PingPongRsp_content_v m)"

lemma PingPongRsp_parse_step:
  assumes "wire_ok W"
  shows "pb_string W s \<Longrightarrow> PingPongRsp_InternalParse W m (WriteStringMaybeAliased W 1 s @ r)
      = PingPongRsp_InternalParse W (m\<lparr>PingPongRsp_content_v := s\<rparr>) r"
    and "PingPongRsp_InternalParse W m [] = Some (Some (m, [], None))"
  unfolding PingPongRsp_InternalParse_def
  by (auto simp: PingPongRsp_parse_field_def tag_simps parse_loop_done [OF assms]
      intro!: parse_loop_int32 parse_loop_int64 parse_loop_string assms)

lemma PingPongRsp_parse_merge:
  assumes "wire_ok W" and "PingPongRsp_ok W m"
  shows "PingPongRsp_InternalParse W m0 (PingPongRsp_InternalSerialize W (snd (PingPongRsp_ByteSizeLong W m)))
    = Some (Some (PingPongRsp_MergeFrom W m m0, [], None))"
  using assms(2) PingPongRsp_parse_step [OF assms(1)]
    PingPongRsp_parse_step(1) [OF assms(1), where r = "[]", unfolded append_Nil2]
    unknown_merge_none [OF assms(1)]
  by (simp add: PingPongRsp_ok_def PingPongRsp_InternalSerialize_def PingPongRsp_ByteSizeLong_def Let_def PingPongRsp_MergeFrom_def
      PingPongRsp_content_def)

lemma PingPongRsp_size:
  assumes "wire_ok W" and "PingPongRsp_ok W m"
  shows "fst (PingPongRsp_ByteSizeLong W m) = length (PingPongRsp_InternalSerialize W (snd (PingPongRsp_ByteSizeLong W m)))"
  using assms(2)
  by (simp add: PingPongRsp_ok_def PingPongRsp_InternalSerialize_def PingPongRsp_ByteSizeLong_def Let_def
      wire_sizes [OF assms(1)] PingPongRsp_content_def)

lemma PingPongRsp_merge_new:
  assumes "wire_ok W" and "PingPongRsp_ok W m"
  shows "PingPongRsp_MergeFrom W m (PingPongRsp_new W) = m\<lparr>PingPongRsp_cached_size := 0\<rparr>"
  using assms unknown_none_eq [OF assms(1) unknown_default_none [OF assms(1)]]
  by (cases m) (auto simp: PingPongRsp_ok_def PingPongRsp_MergeFrom_def PingPongRsp_new_def unknown_merge_none PingPongRsp_content_def)

lemma PingPongRsp_CopyFrom_eq:
  assumes "wire_ok W" and "PingPongRsp_ok W from"
  shows "PingPongRsp_CopyFrom W from m = from\<lparr>PingPongRsp_cached_size := PingPongRsp_cached_size m\<rparr>"
  using assms unknown_none_eq [OF assms(1) unknown_default_none [OF assms(1)]]
  by (cases m; cases "from")
    (auto simp: PingPongRsp_ok_def PingPongRsp_CopyFrom_def PingPongRsp_MergeFrom_def PingPongRsp_Clear_def unknown_merge_none PingPongRsp_content_def)

section \<open>DaytimeReq\<close>

record 'u DaytimeReq =
  DaytimeReq_unknown :: 'u
  DaytimeReq_cached_size :: int

definition DaytimeReq_FullMessageName :: string where
  "DaytimeReq_FullMessageName = ''ProtoSimple.DaytimeReq''"

definition DaytimeReq_new :: "'u wire \<Rightarrow> 'u DaytimeReq" where
  "DaytimeReq_new W = \<lparr>DaytimeReq_unknown = unknown_default W, DaytimeReq_cached_size = 0\<rparr>"

definition DaytimeReq_copy :: "'u wire \<Rightarrow> 'u DaytimeReq \<Rightarrow> 'u DaytimeReq" where
  "DaytimeReq_copy W from = (DaytimeReq_new W)\<lparr>DaytimeReq_unknown := unknown_MergeFrom W (unknown_default W) (DaytimeReq_unknown from)\<rparr>"

definition DaytimeReq_Clear :: "'u wire \<Rightarrow> 'u DaytimeReq \<Rightarrow> 'u DaytimeReq" where
  "DaytimeReq_Clear W m = m\<lparr>DaytimeReq_unknown := unknown_default W\<rparr>"

definition DaytimeReq_parse_field ::
    "'u wire \<Rightarrow> 32 word \<Rightarrow> 'u DaytimeReq \<Rightarrow> char list \<Rightarrow> 'u DaytimeReq field_step option" where
  "DaytimeReq_parse_field W tag m ptr = Some Unusual"

definition DaytimeReq_InternalParse :: "'u wire \<Rightarrow> 'u DaytimeReq \<Rightarrow> char list \<Rightarrow> 'u DaytimeReq parse_result option" where
  "DaytimeReq_InternalParse W = parse_loop W (DaytimeReq_parse_field W) DaytimeReq_unknown DaytimeReq_unknown_update"

definition DaytimeReq_InternalSerialize :: "'u wire \<Rightarrow> 'u DaytimeReq \<Rightarrow> char list" where
  "DaytimeReq_InternalSerialize W m =
     (if have_unknown_fields W (DaytimeReq_unknown m)
        then InternalSerializeUnknownFieldsToArray W (DaytimeReq_unknown m) else [])"

definition DaytimeReq_ByteSizeLong :: "'u wire \<Rightarrow> 'u DaytimeReq \<Rightarrow> nat \<times> 'u DaytimeReq" where
  "DaytimeReq_ByteSizeLong W m =
     (let total_size = 0;
          size = (if have_unknown_fields W (DaytimeReq_unknown m)
                  then ComputeUnknownFieldsSize W (DaytimeReq_unknown m) total_size else total_size)
      in (size, m\<lparr>DaytimeReq_cached_size := wrap32 (int size)\<rparr>))"

definition DaytimeReq_MergeFrom :: "'u wire \<Rightarrow> 'u DaytimeReq \<Rightarrow> 'u DaytimeReq \<Rightarrow> 'u DaytimeReq" where
  "DaytimeReq_MergeFrom W from m =
     m\<lparr>DaytimeReq_unknown := unknown_MergeFrom W (DaytimeReq_unknown m) (DaytimeReq_unknown from)\<rparr>"

definition DaytimeReq_CopyFrom :: "'u wire \<Rightarrow> 'u DaytimeReq \<Rightarrow> 'u DaytimeReq \<Rightarrow> 'u DaytimeReq" where
  "DaytimeReq_CopyFrom W from m = DaytimeReq_MergeFrom W from (DaytimeReq_Clear W m)"

definition DaytimeReq_InternalSwap :: "'u DaytimeReq \<Rightarrow> 'u DaytimeReq \<Rightarrow> 'u DaytimeReq \<times> 'u DaytimeReq" where
  "DaytimeReq_InternalSwap m other =
     (m\<lparr>DaytimeReq_unknown := DaytimeReq_unknown other\<rparr>,
      other\<lparr>DaytimeReq_unknown := DaytimeReq_unknown m\<rparr>)"

text \<open>The messages without unknown fields whose strings the runtime accepts.\<close>

definition DaytimeReq_ok :: "'u wire \<Rightarrow> 'u DaytimeReq \<Rightarrow> bool" where
  "DaytimeReq_ok W m \<longleftrightarrow> \<not> have_unknown_fields W (DaytimeReq_unknown m)"

lemma DaytimeReq_parse_step:
  assumes "wire_ok W"
  shows "DaytimeReq_InternalParse W m [] = Some (Some (m, [], None))"
  unfolding DaytimeReq_InternalParse_def
  by (auto simp: DaytimeReq_parse_field_def tag_simps parse_loop_done [OF assms]
      intro!: parse_loop_int32 parse_loop_int64 parse_loop_string assms)

lemma DaytimeReq_parse_merge:
  assumes "wire_ok W" and "DaytimeReq_ok W m"
  shows "DaytimeReq_InternalParse W m0 (DaytimeReq_InternalSerialize W (snd (DaytimeReq_ByteSizeLong W m)))
    = Some (Some (DaytimeReq_MergeFrom W m m0, [], None))"
  using assms(2) DaytimeReq_parse_step [OF assms(1)]
    unknown_merge_none [OF assms(1)]
  by (simp add: DaytimeReq_ok_def DaytimeReq_InternalSerialize_def DaytimeReq_ByteSizeLong_def Let_def DaytimeReq_MergeFrom_def
      )

lemma DaytimeReq_size:
  assumes "wire_ok W" and "DaytimeReq_ok W m"
  shows "fst (DaytimeReq_ByteSizeLong W m) = length (DaytimeReq_InternalSerialize W (snd (DaytimeReq_ByteSizeLong W m)))"
  using assms(2)
  by (simp add: DaytimeReq_ok_def DaytimeReq_InternalSerialize_def DaytimeReq_ByteSizeLong_def Let_def
      wire_sizes [OF assms(1)] )

lemma DaytimeReq_merge_new:
  assumes "wire_ok W" and "DaytimeReq_ok W m"
  shows "DaytimeReq_MergeFrom W m (DaytimeReq_new W) = m\<lparr>DaytimeReq_cached_size := 0\<rparr>"
  using assms unknown_none_eq [OF assms(1) unknown_default_none [OF assms(1)]]
  by (cases m) (auto simp: DaytimeReq_ok_def DaytimeReq_MergeFrom_def DaytimeReq_new_def unknown_merge_none )

lemma DaytimeReq_CopyFrom_eq:
  assumes "wire_ok W" and "DaytimeReq_ok W from"
  shows "DaytimeReq_CopyFrom W from m = from\<lparr>DaytimeReq_cached_size := DaytimeReq_cached_size m\<rparr>"
  using assms unknown_none_eq [OF assms(1) unknown_default_none [OF assms(1)]]
  by (cases m; cases "from")
    (auto simp: DaytimeReq_ok_def DaytimeReq_CopyFrom_def DaytimeReq_MergeFrom_def DaytimeReq_Clear_def unknown_merge_none )

section \<open>DaytimeRsp\<close>

record 'u DaytimeRsp =
  DaytimeRsp_time_v :: "string"
  DaytimeRsp_unknown :: 'u
  DaytimeRsp_cached_size :: int

definition DaytimeRsp_FullMessageName :: string where
  "DaytimeRsp_FullMessageName = ''ProtoSimple.DaytimeRsp''"

definition DaytimeRsp_new :: "'u wire \<Rightarrow> 'u DaytimeRsp" where
  "DaytimeRsp_new W = \<lparr>DaytimeRsp_time_v = '''', DaytimeRsp_unknown = unknown_default W, DaytimeRsp_cached_size = 0\<rparr>"

definition DaytimeRsp_copy :: "'u wire \<Rightarrow> 'u DaytimeRsp \<Rightarrow> 'u DaytimeRsp" where
  "DaytimeRsp_copy W from = (DaytimeRsp_new W)\<lparr>DaytimeRsp_time_v := DaytimeRsp_time_v from, DaytimeRsp_unknown := unknown_MergeFrom W (unknown_default W) (DaytimeRsp_unknown from)\<rparr>"

definition DaytimeRsp_time :: "'u DaytimeRsp \<Rightarrow> string" where
  "DaytimeRsp_time m = DaytimeRsp_time_v m"

definition DaytimeRsp_set_time :: "string \<Rightarrow> 'u DaytimeRsp \<Rightarrow> 'u DaytimeRsp" where
  "DaytimeRsp_set_time value m = m\<lparr>DaytimeRsp_time_v := value\<rparr>"

definition DaytimeRsp_clear_time :: "'u DaytimeRsp \<Rightarrow> 'u DaytimeRsp" where
  "DaytimeRsp_clear_time m = m\<lparr>DaytimeRsp_time_v := ''''\<rparr>"

definition DaytimeRsp_Clear :: "'u wire \<Rightarrow> 'u DaytimeRsp \<Rightarrow> 'u DaytimeRsp" where
  "DaytimeRsp_Clear W m = m\<lparr>DaytimeRsp_time_v := '''', DaytimeRsp_unknown := unknown_default W\<rparr>"

definition DaytimeRsp_parse_field ::
    "'u wire \<Rightarrow> 32 word \<Rightarrow> 'u DaytimeRsp \<Rightarrow> char list \<Rightarrow> 'u DaytimeRsp field_step option" where
  "DaytimeRsp_parse_field W tag m ptr =
     (if drop_bit 3 tag = 1 then
        (if take_bit 8 tag = 10 then
           (case parse_string W ptr of
              None \<Rightarrow> Some Failure
            | Some (str, ptr') \<Rightarrow> Some (Field (m\<lparr>DaytimeRsp_time_v := str\<rparr>) ptr'))
         else Some Unusual)
      else Some Unusual)"

definition DaytimeRsp_InternalParse :: "'u wire \<Rightarrow> 'u DaytimeRsp \<Rightarrow> char list \<Rightarrow> 'u DaytimeRsp parse_result option" where
  "DaytimeRsp_InternalParse W = parse_loop W (DaytimeRsp_parse_field W) DaytimeRsp_unknown DaytimeRsp_unknown_update"

definition DaytimeRsp_InternalSerialize :: "'u wire \<Rightarrow> 'u DaytimeRsp \<Rightarrow> char list" where
  "DaytimeRsp_InternalSerialize W m =
     (if 0 < length (DaytimeRsp_time m) then WriteStringMaybeAliased W 1 (DaytimeRsp_time m) else [])
     @ (if have_unknown_fields W (DaytimeRsp_unknown m)
        then InternalSerializeUnknownFieldsToArray W (DaytimeRsp_unknown m) else [])"

definition DaytimeRsp_ByteSizeLong :: "'u wire \<Rightarrow> 'u DaytimeRsp \<Rightarrow> nat \<times> 'u DaytimeRsp" where
  "DaytimeRsp_ByteSizeLong W m =
     (let total_size = (if 0 < length (DaytimeRsp_time m) then 1 + StringSize W (DaytimeRsp_time m) else 0);
          size = (if have_unknown_fields W (DaytimeRsp_unknown m)
                  then ComputeUnknownFieldsSize W (DaytimeRsp_unknown m) total_size else total_size)
      in (size, m\<lparr>DaytimeRsp_cached_size := wrap32 (int size)\<rparr>))"

definition DaytimeRsp_MergeFrom :: "'u wire \<Rightarrow> 'u DaytimeRsp \<Rightarrow> 'u DaytimeRsp \<Rightarrow> 'u DaytimeRsp" where
  "DaytimeRsp_MergeFrom W from m =
     m\<lparr>DaytimeRsp_time_v := (if 0 < length (DaytimeRsp_time from) then DaytimeRsp_time from else DaytimeRsp_time_v m),
       DaytimeRsp_unknown := unknown_MergeFrom W (DaytimeRsp_unknown m) (DaytimeRsp_unknown from)\<rparr>"

definition DaytimeRsp_CopyFrom :: "'u wire \<Rightarrow> 'u DaytimeRsp \<Rightarrow> 'u DaytimeRsp \<Rightarrow> 'u DaytimeRsp" where
  "DaytimeRsp_CopyFrom W from m = DaytimeRsp_MergeFrom W from (DaytimeRsp_Clear W m)"

definition DaytimeRsp_InternalSwap :: "'u DaytimeRsp \<Rightarrow> 'u DaytimeRsp \<Rightarrow> 'u DaytimeRsp \<times> 'u DaytimeRsp" where
  "DaytimeRsp_InternalSwap m other =
     (m\<lparr>DaytimeRsp_time_v := DaytimeRsp_time_v other, DaytimeRsp_unknown := DaytimeRsp_unknown other\<rparr>,
      other\<lparr>DaytimeRsp_time_v := DaytimeRsp_time_v m, DaytimeRsp_unknown := DaytimeRsp_unknown m\<rparr>)"

text \<open>The messages without unknown fields whose strings the runtime accepts.\<close>

definition DaytimeRsp_ok :: "'u wire \<Rightarrow> 'u DaytimeRsp \<Rightarrow> bool" where
  "DaytimeRsp_ok W m \<longleftrightarrow> \<not> have_unknown_fields W (DaytimeRsp_unknown m) \<and> pb_string W (DaytimeRsp_time_v m)"

lemma DaytimeRsp_parse_step:
  assumes "wire_ok W"
  shows "pb_string W s \<Longrightarrow> DaytimeRsp_InternalParse W m (WriteStringMaybeAliased W 1 s @ r)
      = DaytimeRsp_InternalParse W (m\<lparr>DaytimeRsp_time_v := s\<rparr>) r"
    and "DaytimeRsp_InternalParse W m [] = Some (Some (m, [], None))"
  unfolding DaytimeRsp_InternalParse_def
  by (auto simp: DaytimeRsp_parse_field_def tag_simps parse_loop_done [OF assms]
      intro!: parse_loop_int32 parse_loop_int64 parse_loop_string assms)

lemma DaytimeRsp_parse_merge:
  assumes "wire_ok W" and "DaytimeRsp_ok W m"
  shows "DaytimeRsp_InternalParse W m0 (DaytimeRsp_InternalSerialize W (snd (DaytimeRsp_ByteSizeLong W m)))
    = Some (Some (DaytimeRsp_MergeFrom W m m0, [], None))"
  using assms(2) DaytimeRsp_parse_step [OF assms(1)]
    DaytimeRsp_parse_step(1) [OF assms(1), where r = "[]", unfolded append_Nil2]
    unknown_merge_none [OF assms(1)]
  by (simp add: DaytimeRsp_ok_def DaytimeRsp_InternalSerialize_def DaytimeRsp_ByteSizeLong_def Let_def DaytimeRsp_MergeFrom_def
      DaytimeRsp_time_def)

lemma DaytimeRsp_size:
  assumes "wire_ok W" and "DaytimeRsp_ok W m"
  shows "fst (DaytimeRsp_ByteSizeLong W m) = length (DaytimeRsp_InternalSerialize W (snd (DaytimeRsp_ByteSizeLong W m)))"
  using assms(2)
  by (simp add: DaytimeRsp_ok_def DaytimeRsp_InternalSerialize_def DaytimeRsp_ByteSizeLong_def Let_def
      wire_sizes [OF assms(1)] DaytimeRsp_time_def)

lemma DaytimeRsp_merge_new:
  assumes "wire_ok W" and "DaytimeRsp_ok W m"
  shows "DaytimeRsp_MergeFrom W m (DaytimeRsp_new W) = m\<lparr>DaytimeRsp_cached_size := 0\<rparr>"
  using assms unknown_none_eq [OF assms(1) unknown_default_none [OF assms(1)]]
  by (cases m) (auto simp: DaytimeRsp_ok_def DaytimeRsp_MergeFrom_def DaytimeRsp_new_def unknown_merge_none DaytimeRsp_time_def)

lemma DaytimeRsp_CopyFrom_eq:
  assumes "wire_ok W" and "DaytimeRsp_ok W from"
  shows "DaytimeRsp_CopyFrom W from m = from\<lparr>DaytimeRsp_cached_size := DaytimeRsp_cached_size m\<rparr>"
  using assms unknown_none_eq [OF assms(1) unknown_default_none [OF assms(1)]]
  by (cases m; cases "from")
    (auto simp: DaytimeRsp_ok_def DaytimeRsp_CopyFrom_def DaytimeRsp_MergeFrom_def DaytimeRsp_Clear_def unknown_merge_none DaytimeRsp_time_def)

section \<open>DiscardReq\<close>

record 'u DiscardReq =
  DiscardReq_content_v :: "string"
  DiscardReq_unknown :: 'u
  DiscardReq_cached_size :: int

definition DiscardReq_FullMessageName :: string where
  "DiscardReq_FullMessageName = ''ProtoSimple.DiscardReq''"

definition DiscardReq_new :: "'u wire \<Rightarrow> 'u DiscardReq" where
  "DiscardReq_new W = \<lparr>DiscardReq_content_v = '''', DiscardReq_unknown = unknown_default W, DiscardReq_cached_size = 0\<rparr>"

definition DiscardReq_copy :: "'u wire \<Rightarrow> 'u DiscardReq \<Rightarrow> 'u DiscardReq" where
  "DiscardReq_copy W from = (DiscardReq_new W)\<lparr>DiscardReq_content_v := DiscardReq_content_v from, DiscardReq_unknown := unknown_MergeFrom W (unknown_default W) (DiscardReq_unknown from)\<rparr>"

definition DiscardReq_content :: "'u DiscardReq \<Rightarrow> string" where
  "DiscardReq_content m = DiscardReq_content_v m"

definition DiscardReq_set_content :: "string \<Rightarrow> 'u DiscardReq \<Rightarrow> 'u DiscardReq" where
  "DiscardReq_set_content value m = m\<lparr>DiscardReq_content_v := value\<rparr>"

definition DiscardReq_clear_content :: "'u DiscardReq \<Rightarrow> 'u DiscardReq" where
  "DiscardReq_clear_content m = m\<lparr>DiscardReq_content_v := ''''\<rparr>"

definition DiscardReq_Clear :: "'u wire \<Rightarrow> 'u DiscardReq \<Rightarrow> 'u DiscardReq" where
  "DiscardReq_Clear W m = m\<lparr>DiscardReq_content_v := '''', DiscardReq_unknown := unknown_default W\<rparr>"

definition DiscardReq_parse_field ::
    "'u wire \<Rightarrow> 32 word \<Rightarrow> 'u DiscardReq \<Rightarrow> char list \<Rightarrow> 'u DiscardReq field_step option" where
  "DiscardReq_parse_field W tag m ptr =
     (if drop_bit 3 tag = 1 then
        (if take_bit 8 tag = 10 then
           (case parse_string W ptr of
              None \<Rightarrow> Some Failure
            | Some (str, ptr') \<Rightarrow> Some (Field (m\<lparr>DiscardReq_content_v := str\<rparr>) ptr'))
         else Some Unusual)
      else Some Unusual)"

definition DiscardReq_InternalParse :: "'u wire \<Rightarrow> 'u DiscardReq \<Rightarrow> char list \<Rightarrow> 'u DiscardReq parse_result option" where
  "DiscardReq_InternalParse W = parse_loop W (DiscardReq_parse_field W) DiscardReq_unknown DiscardReq_unknown_update"

definition DiscardReq_InternalSerialize :: "'u wire \<Rightarrow> 'u DiscardReq \<Rightarrow> char list" where
  "DiscardReq_InternalSerialize W m =
     (if 0 < length (DiscardReq_content m) then WriteStringMaybeAliased W 1 (DiscardReq_content m) else [])
     @ (if have_unknown_fields W (DiscardReq_unknown m)
        then InternalSerializeUnknownFieldsToArray W (DiscardReq_unknown m) else [])"

definition DiscardReq_ByteSizeLong :: "'u wire \<Rightarrow> 'u DiscardReq \<Rightarrow> nat \<times> 'u DiscardReq" where
  "DiscardReq_ByteSizeLong W m =
     (let total_size = (if 0 < length (DiscardReq_content m) then 1 + StringSize W (DiscardReq_content m) else 0);
          size = (if have_unknown_fields W (DiscardReq_unknown m)
                  then ComputeUnknownFieldsSize W (DiscardReq_unknown m) total_size else total_size)
      in (size, m\<lparr>DiscardReq_cached_size := wrap32 (int size)\<rparr>))"

definition DiscardReq_MergeFrom :: "'u wire \<Rightarrow> 'u DiscardReq \<Rightarrow> 'u DiscardReq \<Rightarrow> 'u DiscardReq" where
  "DiscardReq_MergeFrom W from m =
     m\<lparr>DiscardReq_content_v := (if 0 < length (DiscardReq_content from) then DiscardReq_content from else DiscardReq_content_v m),
       DiscardReq_unknown := unknown_MergeFrom W (DiscardReq_unknown m) (DiscardReq_unknown from)\<rparr>"

definition DiscardReq_CopyFrom :: "'u wire \<Rightarrow> 'u DiscardReq \<Rightarrow> 'u DiscardReq \<Rightarrow> 'u DiscardReq" where
  "DiscardReq_CopyFrom W from m = DiscardReq_MergeFrom W from (DiscardReq_Clear W m)"

definition DiscardReq_InternalSwap :: "'u DiscardReq \<Rightarrow> 'u DiscardReq \<Rightarrow> 'u DiscardReq \<times> 'u DiscardReq" where
  "DiscardReq_InternalSwap m other =
     (m\<lparr>DiscardReq_content_v := DiscardReq_content_v other, DiscardReq_unknown := DiscardReq_unknown other\<rparr>,
      other\<lparr>DiscardReq_content_v := DiscardReq_content_v m, DiscardReq_unknown := DiscardReq_unknown m\<rparr>)"

text \<open>The messages without unknown fields whose strings the runtime accepts.\<close>

definition DiscardReq_ok :: "'u wire \<Rightarrow> 'u DiscardReq \<Rightarrow> bool" where
  "DiscardReq_ok W m \<longleftrightarrow> \<not> have_unknown_fields W (DiscardReq_unknown m) \<and> pb_string W (DiscardReq_content_v m)"

lemma DiscardReq_parse_step:
  assumes "wire_ok W"
  shows "pb_string W s \<Longrightarrow> DiscardReq_InternalParse W m (WriteStringMaybeAliased W 1 s @ r)
      = DiscardReq_InternalParse W (m\<lparr>DiscardReq_content_v := s\<rparr>) r"
    and "DiscardReq_InternalParse W m [] = Some (Some (m, [], None))"
  unfolding DiscardReq_InternalParse_def
  by (auto simp: DiscardReq_parse_field_def tag_simps parse_loop_done [OF assms]
      intro!: parse_loop_int32 parse_loop_int64 parse_loop_string assms)

lemma DiscardReq_parse_merge:
  assumes "wire_ok W" and "DiscardReq_ok W m"
  shows "DiscardReq_InternalParse W m0 (DiscardReq_InternalSerialize W (snd (DiscardReq_ByteSizeLong W m)))
    = Some (Some (DiscardReq_MergeFrom W m m0, [], None))"
  using assms(2) DiscardReq_parse_step [OF assms(1)]
    DiscardReq_parse_step(1) [OF assms(1), where r = "[]", unfolded append_Nil2]
    unknown_merge_none [OF assms(1)]
  by (simp add: DiscardReq_ok_def DiscardReq_InternalSerialize_def DiscardReq_ByteSizeLong_def Let_def DiscardReq_MergeFrom_def
      DiscardReq_content_def)

lemma DiscardReq_size:
  assumes "wire_ok W" and "DiscardReq_ok W m"
  shows "fst (DiscardReq_ByteSizeLong W m) = length (DiscardReq_InternalSerialize W (snd (DiscardReq_ByteSizeLong W m)))"
  using assms(2)
  by (simp add: DiscardReq_ok_def DiscardReq_InternalSerialize_def DiscardReq_ByteSizeLong_def Let_def
      wire_sizes [OF assms(1)] DiscardReq_content_def)

lemma DiscardReq_merge_new:
  assumes "wire_ok W" and "DiscardReq_ok W m"
  shows "DiscardReq_MergeFrom W m (DiscardReq_new W) = m\<lparr>DiscardReq_cached_size := 0\<rparr>"
  using assms unknown_none_eq [OF assms(1) unknown_default_none [OF assms(1)]]
  by (cases m) (auto simp: DiscardReq_ok_def DiscardReq_MergeFrom_def DiscardReq_new_def unknown_merge_none DiscardReq_content_def)

lemma DiscardReq_CopyFrom_eq:
  assumes "wire_ok W" and "DiscardReq_ok W from"
  shows "DiscardReq_CopyFrom W from m = from\<lparr>DiscardReq_cached_size := DiscardReq_cached_size m\<rparr>"
  using assms unknown_none_eq [OF assms(1) unknown_default_none [OF assms(1)]]
  by (cases m; cases "from")
    (auto simp: DiscardReq_ok_def DiscardReq_CopyFrom_def DiscardReq_MergeFrom_def DiscardReq_Clear_def unknown_merge_none DiscardReq_content_def)

section \<open>DiscardRsp\<close>

record 'u DiscardRsp =
  DiscardRsp_size_v :: "int32"
  DiscardRsp_total_v :: "int32"
  DiscardRsp_unknown :: 'u
  DiscardRsp_cached_size :: int

definition DiscardRsp_FullMessageName :: string where
  "DiscardRsp_FullMessageName = ''ProtoSimple.DiscardRsp''"

definition DiscardRsp_new :: "'u wire \<Rightarrow> 'u DiscardRsp" where
  "DiscardRsp_new W = \<lparr>DiscardRsp_size_v = 0, DiscardRsp_total_v = 0, DiscardRsp_unknown = unknown_default W, DiscardRsp_cached_size = 0\<rparr>"

definition DiscardRsp_copy :: "'u wire \<Rightarrow> 'u DiscardRsp \<Rightarrow> 'u DiscardRsp" where
  "DiscardRsp_copy W from = (DiscardRsp_new W)\<lparr>DiscardRsp_size_v := DiscardRsp_size_v from, DiscardRsp_total_v := DiscardRsp_total_v from, DiscardRsp_unknown := unknown_MergeFrom W (unknown_default W) (DiscardRsp_unknown from)\<rparr>"

definition DiscardRsp_size :: "'u DiscardRsp \<Rightarrow> int32" where
  "DiscardRsp_size m = DiscardRsp_size_v m"

definition DiscardRsp_set_size :: "int32 \<Rightarrow> 'u DiscardRsp \<Rightarrow> 'u DiscardRsp" where
  "DiscardRsp_set_size value m = m\<lparr>DiscardRsp_size_v := value\<rparr>"

definition DiscardRsp_clear_size :: "'u DiscardRsp \<Rightarrow> 'u DiscardRsp" where
  "DiscardRsp_clear_size m = m\<lparr>DiscardRsp_size_v := 0\<rparr>"

definition DiscardRsp_total :: "'u DiscardRsp \<Rightarrow> int32" where
  "DiscardRsp_total m = DiscardRsp_total_v m"

definition DiscardRsp_set_total :: "int32 \<Rightarrow> 'u DiscardRsp \<Rightarrow> 'u DiscardRsp" where
  "DiscardRsp_set_total value m = m\<lparr>DiscardRsp_total_v := value\<rparr>"

definition DiscardRsp_clear_total :: "'u DiscardRsp \<Rightarrow> 'u DiscardRsp" where
  "DiscardRsp_clear_total m = m\<lparr>DiscardRsp_total_v := 0\<rparr>"

definition DiscardRsp_Clear :: "'u wire \<Rightarrow> 'u DiscardRsp \<Rightarrow> 'u DiscardRsp" where
  "DiscardRsp_Clear W m = m\<lparr>DiscardRsp_size_v := 0, DiscardRsp_total_v := 0, DiscardRsp_unknown := unknown_default W\<rparr>"

definition DiscardRsp_parse_field ::
    "'u wire \<Rightarrow> 32 word \<Rightarrow> 'u DiscardRsp \<Rightarrow> char list \<Rightarrow> 'u DiscardRsp field_step option" where
  "DiscardRsp_parse_field W tag m ptr =
     (if drop_bit 3 tag = 1 then
        (if take_bit 8 tag = 8 then
           (case ReadVarint64 W ptr of
              None \<Rightarrow> Some Failure
            | Some (v, ptr') \<Rightarrow> Some (Field (m\<lparr>DiscardRsp_size_v := ucast v\<rparr>) ptr'))
         else Some Unusual)
      else if drop_bit 3 tag = 2 then
        (if take_bit 8 tag = 16 then
           (case ReadVarint64 W ptr of
              None \<Rightarrow> Some Failure
            | Some (v, ptr') \<Rightarrow> Some (Field (m\<lparr>DiscardRsp_total_v := ucast v\<rparr>) ptr'))
         else Some Unusual)
      else Some Unusual)"

definition DiscardRsp_InternalParse :: "'u wire \<Rightarrow> 'u DiscardRsp \<Rightarrow> char list \<Rightarrow> 'u DiscardRsp parse_result option" where
  "DiscardRsp_InternalParse W = parse_loop W (DiscardRsp_parse_field W) DiscardRsp_unknown DiscardRsp_unknown_update"

definition DiscardRsp_InternalSerialize :: "'u wire \<Rightarrow> 'u DiscardRsp \<Rightarrow> char list" where
  "DiscardRsp_InternalSerialize W m =
     (if DiscardRsp_size m \<noteq> 0 then WriteInt32ToArray W 1 (DiscardRsp_size m) else [])
     @ (if DiscardRsp_total m \<noteq> 0 then WriteInt32ToArray W 2 (DiscardRsp_total m) else [])
     @ (if have_unknown_fields W (DiscardRsp_unknown m)
        then InternalSerializeUnknownFieldsToArray W (DiscardRsp_unknown m) else [])"

definition DiscardRsp_ByteSizeLong :: "'u wire \<Rightarrow> 'u DiscardRsp \<Rightarrow> nat \<times> 'u DiscardRsp" where
  "DiscardRsp_ByteSizeLong W m =
     (let total_size = (if DiscardRsp_size m \<noteq> 0 then 1 + Int32Size W (DiscardRsp_size m) else 0)
        + (if DiscardRsp_total m \<noteq> 0 then 1 + Int32Size W (DiscardRsp_total m) else 0);
          size = (if have_unknown_fields W (DiscardRsp_unknown m)
                  then ComputeUnknownFieldsSize W (DiscardRsp_unknown m) total_size else total_size)
      in (size, m\<lparr>DiscardRsp_cached_size := wrap32 (int size)\<rparr>))"

definition DiscardRsp_MergeFrom :: "'u wire \<Rightarrow> 'u DiscardRsp \<Rightarrow> 'u DiscardRsp \<Rightarrow> 'u DiscardRsp" where
  "DiscardRsp_MergeFrom W from m =
     m\<lparr>DiscardRsp_size_v := (if DiscardRsp_size from \<noteq> 0 then DiscardRsp_size from else DiscardRsp_size_v m),
       DiscardRsp_total_v := (if DiscardRsp_total from \<noteq> 0 then DiscardRsp_total from else DiscardRsp_total_v m),
       DiscardRsp_unknown := unknown_MergeFrom W (DiscardRsp_unknown m) (DiscardRsp_unknown from)\<rparr>"

definition DiscardRsp_CopyFrom :: "'u wire \<Rightarrow> 'u DiscardRsp \<Rightarrow> 'u DiscardRsp \<Rightarrow> 'u DiscardRsp" where
  "DiscardRsp_CopyFrom W from m = DiscardRsp_MergeFrom W from (DiscardRsp_Clear W m)"

definition DiscardRsp_InternalSwap :: "'u DiscardRsp \<Rightarrow> 'u DiscardRsp \<Rightarrow> 'u DiscardRsp \<times> 'u DiscardRsp" where
  "DiscardRsp_InternalSwap m other =
     (m\<lparr>DiscardRsp_size_v := DiscardRsp_size_v other, DiscardRsp_total_v := DiscardRsp_total_v other, DiscardRsp_unknown := DiscardRsp_unknown other\<rparr>,
      other\<lparr>DiscardRsp_size_v := DiscardRsp_size_v m, DiscardRsp_total_v := DiscardRsp_total_v m, DiscardRsp_unknown := DiscardRsp_unknown m\<rparr>)"

text \<open>The messages without unknown fields whose strings the runtime accepts.\<close>

definition DiscardRsp_ok :: "'u wire \<Rightarrow> 'u DiscardRsp \<Rightarrow> bool" where
  "DiscardRsp_ok W m \<longleftrightarrow> \<not> have_unknown_fields W (DiscardRsp_unknown m)"

lemma DiscardRsp_parse_step:
  assumes "wire_ok W"
  shows "DiscardRsp_InternalParse W m (WriteInt32ToArray W 1 (v1 :: int32) @ r)
      = DiscardRsp_InternalParse W (m\<lparr>DiscardRsp_size_v := v1\<rparr>) r"
    and "DiscardRsp_InternalParse W m (WriteInt32ToArray W 2 (v2 :: int32) @ r)
      = DiscardRsp_InternalParse W (m\<lparr>DiscardRsp_total_v := v2\<rparr>) r"
    and "DiscardRsp_InternalParse W m [] = Some (Some (m, [], None))"
  unfolding DiscardRsp_InternalParse_def
  by (auto simp: DiscardRsp_parse_field_def tag_simps parse_loop_done [OF assms]
      intro!: parse_loop_int32 parse_loop_int64 parse_loop_string assms)

lemma DiscardRsp_parse_merge:
  assumes "wire_ok W" and "DiscardRsp_ok W m"
  shows "DiscardRsp_InternalParse W m0 (DiscardRsp_InternalSerialize W (snd (DiscardRsp_ByteSizeLong W m)))
    = Some (Some (DiscardRsp_MergeFrom W m m0, [], None))"
  using assms(2) DiscardRsp_parse_step [OF assms(1)]
    DiscardRsp_parse_step(1) [OF assms(1), where r = "[]", unfolded append_Nil2] DiscardRsp_parse_step(2) [OF assms(1), where r = "[]", unfolded append_Nil2]
    unknown_merge_none [OF assms(1)]
  by (simp add: DiscardRsp_ok_def DiscardRsp_InternalSerialize_def DiscardRsp_ByteSizeLong_def Let_def DiscardRsp_MergeFrom_def
      DiscardRsp_size_def DiscardRsp_total_def)

lemma DiscardRsp_size:
  assumes "wire_ok W" and "DiscardRsp_ok W m"
  shows "fst (DiscardRsp_ByteSizeLong W m) = length (DiscardRsp_InternalSerialize W (snd (DiscardRsp_ByteSizeLong W m)))"
  using assms(2)
  by (simp add: DiscardRsp_ok_def DiscardRsp_InternalSerialize_def DiscardRsp_ByteSizeLong_def Let_def
      wire_sizes [OF assms(1)] DiscardRsp_size_def DiscardRsp_total_def)

lemma DiscardRsp_merge_new:
  assumes "wire_ok W" and "DiscardRsp_ok W m"
  shows "DiscardRsp_MergeFrom W m (DiscardRsp_new W) = m\<lparr>DiscardRsp_cached_size := 0\<rparr>"
  using assms unknown_none_eq [OF assms(1) unknown_default_none [OF assms(1)]]
  by (cases m) (auto simp: DiscardRsp_ok_def DiscardRsp_MergeFrom_def DiscardRsp_new_def unknown_merge_none DiscardRsp_size_def DiscardRsp_total_def)

lemma DiscardRsp_CopyFrom_eq:
  assumes "wire_ok W" and "DiscardRsp_ok W from"
  shows "DiscardRsp_CopyFrom W from m = from\<lparr>DiscardRsp_cached_size := DiscardRsp_cached_size m\<rparr>"
  using assms unknown_none_eq [OF assms(1) unknown_default_none [OF assms(1)]]
  by (cases m; cases "from")
    (auto simp: DiscardRsp_ok_def DiscardRsp_CopyFrom_def DiscardRsp_MergeFrom_def DiscardRsp_Clear_def unknown_merge_none DiscardRsp_size_def DiscardRsp_total_def)

section \<open>ServerInfoPub\<close>

record 'u ServerInfoPub =
  ServerInfoPub_hello_v :: "string"
  ServerInfoPub_unknown :: 'u
  ServerInfoPub_cached_size :: int

definition ServerInfoPub_FullMessageName :: string where
  "ServerInfoPub_FullMessageName = ''ProtoSimple.ServerInfoPub''"

definition ServerInfoPub_new :: "'u wire \<Rightarrow> 'u ServerInfoPub" where
  "ServerInfoPub_new W = \<lparr>ServerInfoPub_hello_v = '''', ServerInfoPub_unknown = unknown_default W, ServerInfoPub_cached_size = 0\<rparr>"

definition ServerInfoPub_copy :: "'u wire \<Rightarrow> 'u ServerInfoPub \<Rightarrow> 'u ServerInfoPub" where
  "ServerInfoPub_copy W from = (ServerInfoPub_new W)\<lparr>ServerInfoPub_hello_v := ServerInfoPub_hello_v from, ServerInfoPub_unknown := unknown_MergeFrom W (unknown_default W) (ServerInfoPub_unknown from)\<rparr>"

definition ServerInfoPub_hello :: "'u ServerInfoPub \<Rightarrow> string" where
  "ServerInfoPub_hello m = ServerInfoPub_hello_v m"

definition ServerInfoPub_set_hello :: "string \<Rightarrow> 'u ServerInfoPub \<Rightarrow> 'u ServerInfoPub" where
  "ServerInfoPub_set_hello value m = m\<lparr>ServerInfoPub_hello_v := value\<rparr>"

definition ServerInfoPub_clear_hello :: "'u ServerInfoPub \<Rightarrow> 'u ServerInfoPub" where
  "ServerInfoPub_clear_hello m = m\<lparr>ServerInfoPub_hello_v := ''''\<rparr>"

definition ServerInfoPub_Clear :: "'u wire \<Rightarrow> 'u ServerInfoPub \<Rightarrow> 'u ServerInfoPub" where
  "ServerInfoPub_Clear W m = m\<lparr>ServerInfoPub_hello_v := '''', ServerInfoPub_unknown := unknown_default W\<rparr>"

definition ServerInfoPub_parse_field ::
    "'u wire \<Rightarrow> 32 word \<Rightarrow> 'u ServerInfoPub \<Rightarrow> char list \<Rightarrow> 'u ServerInfoPub field_step option" where
  "ServerInfoPub_parse_field W tag m ptr =
     (if drop_bit 3 tag = 1 then
        (if take_bit 8 tag = 10 then
           (case parse_string W ptr of
              None \<Rightarrow> Some Failure
            | Some (str, ptr') \<Rightarrow> Some (Field (m\<lparr>ServerInfoPub_hello_v := str\<rparr>) ptr'))
         else Some Unusual)
      else Some Unusual)"

definition ServerInfoPub_InternalParse :: "'u wire \<Rightarrow> 'u ServerInfoPub \<Rightarrow> char list \<Rightarrow> 'u ServerInfoPub parse_result option" where
  "ServerInfoPub_InternalParse W = parse_loop W (ServerInfoPub_parse_field W) ServerInfoPub_unknown ServerInfoPub_unknown_update"

definition ServerInfoPub_InternalSerialize :: "'u wire \<Rightarrow> 'u ServerInfoPub \<Rightarrow> char list" where
  "ServerInfoPub_InternalSerialize W m =
     (if 0 < length (ServerInfoPub_hello m) then WriteStringMaybeAliased W 1 (ServerInfoPub_hello m) else [])
     @ (if have_unknown_fields W (ServerInfoPub_unknown m)
        then InternalSerializeUnknownFieldsToArray W (ServerInfoPub_unknown m) else [])"

definition ServerInfoPub_ByteSizeLong :: "'u wire \<Rightarrow> 'u ServerInfoPub \<Rightarrow> nat \<times> 'u ServerInfoPub" where
  "ServerInfoPub_ByteSizeLong W m =
     (let total_size = (if 0 < length (ServerInfoPub_hello m) then 1 + StringSize W (ServerInfoPub_hello m) else 0);
          size = (if have_unknown_fields W (ServerInfoPub_unknown m)
                  then ComputeUnknownFieldsSize W (ServerInfoPub_unknown m) total_size else total_size)
      in (size, m\<lparr>ServerInfoPub_cached_size := wrap32 (int size)\<rparr>))"

definition ServerInfoPub_MergeFrom :: "'u wire \<Rightarrow> 'u ServerInfoPub \<Rightarrow> 'u ServerInfoPub \<Rightarrow> 'u ServerInfoPub" where
  "ServerInfoPub_MergeFrom W from m =
     m\<lparr>ServerInfoPub_hello_v := (if 0 < length (ServerInfoPub_hello from) then ServerInfoPub_hello from else ServerInfoPub_hello_v m),
       ServerInfoPub_unknown := unknown_MergeFrom W (ServerInfoPub_unknown m) (ServerInfoPub_unknown from)\<rparr>"

definition ServerInfoPub_CopyFrom :: "'u wire \<Rightarrow> 'u ServerInfoPub \<Rightarrow> 'u ServerInfoPub \<Rightarrow> 'u ServerInfoPub" where
  "ServerInfoPub_CopyFrom W from m = ServerInfoPub_MergeFrom W from (ServerInfoPub_Clear W m)"

definition ServerInfoPub_InternalSwap :: "'u ServerInfoPub \<Rightarrow> 'u ServerInfoPub \<Rightarrow> 'u ServerInfoPub \<times> 'u ServerInfoPub" where
  "ServerInfoPub_InternalSwap m other =
     (m\<lparr>ServerInfoPub_hello_v := ServerInfoPub_hello_v other, ServerInfoPub_unknown := ServerInfoPub_unknown other\<rparr>,
      other\<lparr>ServerInfoPub_hello_v := ServerInfoPub_hello_v m, ServerInfoPub_unknown := ServerInfoPub_unknown m\<rparr>)"

text \<open>The messages without unknown fields whose strings the runtime accepts.\<close>

definition ServerInfoPub_ok :: "'u wire \<Rightarrow> 'u ServerInfoPub \<Rightarrow> bool" where
  "ServerInfoPub_ok W m \<longleftrightarrow> \<not> have_unknown_fields W (ServerInfoPub_unknown m) \<and> pb_string W (ServerInfoPub_hello_v m)"

lemma ServerInfoPub_parse_step:
  assumes "wire_ok W"
  shows "pb_string W s \<Longrightarrow> ServerInfoPub_InternalParse W m (WriteStringMaybeAliased W 1 s @ r)
      = ServerInfoPub_InternalParse W (m\<lparr>ServerInfoPub_hello_v := s\<rparr>) r"
    and "ServerInfoPub_InternalParse W m [] = Some (Some (m, [], None))"
  unfolding ServerInfoPub_InternalParse_def
  by (auto simp: ServerInfoPub_parse_field_def tag_simps parse_loop_done [OF assms]
      intro!: parse_loop_int32 parse_loop_int64 parse_loop_string assms)

lemma ServerInfoPub_parse_merge:
  assumes "wire_ok W" and "ServerInfoPub_ok W m"
  shows "ServerInfoPub_InternalParse W m0 (ServerInfoPub_InternalSerialize W (snd (ServerInfoPub_ByteSizeLong W m)))
    = Some (Some (ServerInfoPub_MergeFrom W m m0, [], None))"
  using assms(2) ServerInfoPub_parse_step [OF assms(1)]
    ServerInfoPub_parse_step(1) [OF assms(1), where r = "[]", unfolded append_Nil2]
    unknown_merge_none [OF assms(1)]
  by (simp add: ServerInfoPub_ok_def ServerInfoPub_InternalSerialize_def ServerInfoPub_ByteSizeLong_def Let_def ServerInfoPub_MergeFrom_def
      ServerInfoPub_hello_def)

lemma ServerInfoPub_size:
  assumes "wire_ok W" and "ServerInfoPub_ok W m"
  shows "fst (ServerInfoPub_ByteSizeLong W m) = length (ServerInfoPub_InternalSerialize W (snd (ServerInfoPub_ByteSizeLong W m)))"
  using assms(2)
  by (simp add: ServerInfoPub_ok_def ServerInfoPub_InternalSerialize_def ServerInfoPub_ByteSizeLong_def Let_def
      wire_sizes [OF assms(1)] ServerInfoPub_hello_def)

lemma ServerInfoPub_merge_new:
  assumes "wire_ok W" and "ServerInfoPub_ok W m"
  shows "ServerInfoPub_MergeFrom W m (ServerInfoPub_new W) = m\<lparr>ServerInfoPub_cached_size := 0\<rparr>"
  using assms unknown_none_eq [OF assms(1) unknown_default_none [OF assms(1)]]
  by (cases m) (auto simp: ServerInfoPub_ok_def ServerInfoPub_MergeFrom_def ServerInfoPub_new_def unknown_merge_none ServerInfoPub_hello_def)

lemma ServerInfoPub_CopyFrom_eq:
  assumes "wire_ok W" and "ServerInfoPub_ok W from"
  shows "ServerInfoPub_CopyFrom W from m = from\<lparr>ServerInfoPub_cached_size := ServerInfoPub_cached_size m\<rparr>"
  using assms unknown_none_eq [OF assms(1) unknown_default_none [OF assms(1)]]
  by (cases m; cases "from")
    (auto simp: ServerInfoPub_ok_def ServerInfoPub_CopyFrom_def ServerInfoPub_MergeFrom_def ServerInfoPub_Clear_def unknown_merge_none ServerInfoPub_hello_def)

section \<open>ServerInfoReq\<close>

record 'u ServerInfoReq =
  ServerInfoReq_unknown :: 'u
  ServerInfoReq_cached_size :: int

definition ServerInfoReq_FullMessageName :: string where
  "ServerInfoReq_FullMessageName = ''ProtoSimple.ServerInfoReq''"

definition ServerInfoReq_new :: "'u wire \<Rightarrow> 'u ServerInfoReq" where
  "ServerInfoReq_new W = \<lparr>ServerInfoReq_unknown = unknown_default W, ServerInfoReq_cached_size = 0\<rparr>"

definition ServerInfoReq_copy :: "'u wire \<Rightarrow> 'u ServerInfoReq \<Rightarrow> 'u ServerInfoReq" where
  "ServerInfoReq_copy W from = (ServerInfoReq_new W)\<lparr>ServerInfoReq_unknown := unknown_MergeFrom W (unknown_default W) (ServerInfoReq_unknown from)\<rparr>"

definition ServerInfoReq_Clear :: "'u wire \<Rightarrow> 'u ServerInfoReq \<Rightarrow> 'u ServerInfoReq" where
  "ServerInfoReq_Clear W m = m\<lparr>ServerInfoReq_unknown := unknown_default W\<rparr>"

definition ServerInfoReq_parse_field ::
    "'u wire \<Rightarrow> 32 word \<Rightarrow> 'u ServerInfoReq \<Rightarrow> char list \<Rightarrow> 'u ServerInfoReq field_step option" where
  "ServerInfoReq_parse_field W tag m ptr = Some Unusual"

definition ServerInfoReq_InternalParse :: "'u wire \<Rightarrow> 'u ServerInfoReq \<Rightarrow> char list \<Rightarrow> 'u ServerInfoReq parse_result option" where
  "ServerInfoReq_InternalParse W = parse_loop W (ServerInfoReq_parse_field W) ServerInfoReq_unknown ServerInfoReq_unknown_update"

definition ServerInfoReq_InternalSerialize :: "'u wire \<Rightarrow> 'u ServerInfoReq \<Rightarrow> char list" where
  "ServerInfoReq_InternalSerialize W m =
     (if have_unknown_fields W (ServerInfoReq_unknown m)
        then InternalSerializeUnknownFieldsToArray W (ServerInfoReq_unknown m) else [])"

definition ServerInfoReq_ByteSizeLong :: "'u wire \<Rightarrow> 'u ServerInfoReq \<Rightarrow> nat \<times> 'u ServerInfoReq" where
  "ServerInfoReq_ByteSizeLong W m =
     (let total_size = 0;
          size = (if have_unknown_fields W (ServerInfoReq_unknown m)
                  then ComputeUnknownFieldsSize W (ServerInfoReq_unknown m) total_size else total_size)
      in (size, m\<lparr>ServerInfoReq_cached_size := wrap32 (int size)\<rparr>))"

definition ServerInfoReq_MergeFrom :: "'u wire \<Rightarrow> 'u ServerInfoReq \<Rightarrow> 'u ServerInfoReq \<Rightarrow> 'u ServerInfoReq" where
  "ServerInfoReq_MergeFrom W from m =
     m\<lparr>ServerInfoReq_unknown := unknown_MergeFrom W (ServerInfoReq_unknown m) (ServerInfoReq_unknown from)\<rparr>"

definition ServerInfoReq_CopyFrom :: "'u wire \<Rightarrow> 'u ServerInfoReq \<Rightarrow> 'u ServerInfoReq \<Rightarrow> 'u ServerInfoReq" where
  "ServerInfoReq_CopyFrom W from m = ServerInfoReq_MergeFrom W from (ServerInfoReq_Clear W m)"

definition ServerInfoReq_InternalSwap :: "'u ServerInfoReq \<Rightarrow> 'u ServerInfoReq \<Rightarrow> 'u ServerInfoReq \<times> 'u ServerInfoReq" where
  "ServerInfoReq_InternalSwap m other =
     (m\<lparr>ServerInfoReq_unknown := ServerInfoReq_unknown other\<rparr>,
      other\<lparr>ServerInfoReq_unknown := ServerInfoReq_unknown m\<rparr>)"

text \<open>The messages without unknown fields whose strings the runtime accepts.\<close>

definition ServerInfoReq_ok :: "'u wire \<Rightarrow> 'u ServerInfoReq \<Rightarrow> bool" where
  "ServerInfoReq_ok W m \<longleftrightarrow> \<not> have_unknown_fields W (ServerInfoReq_unknown m)"

lemma ServerInfoReq_parse_step:
  assumes "wire_ok W"
  shows "ServerInfoReq_InternalParse W m [] = Some (Some (m, [], None))"
  unfolding ServerInfoReq_InternalParse_def
  by (auto simp: ServerInfoReq_parse_field_def tag_simps parse_loop_done [OF assms]
      intro!: parse_loop_int32 parse_loop_int64 parse_loop_string assms)

lemma ServerInfoReq_parse_merge:
  assumes "wire_ok W" and "ServerInfoReq_ok W m"
  shows "ServerInfoReq_InternalParse W m0 (ServerInfoReq_InternalSerialize W (snd (ServerInfoReq_ByteSizeLong W m)))
    = Some (Some (ServerInfoReq_MergeFrom W m m0, [], None))"
  using assms(2) ServerInfoReq_parse_step [OF assms(1)]
    unknown_merge_none [OF assms(1)]
  by (simp add: ServerInfoReq_ok_def ServerInfoReq_InternalSerialize_def ServerInfoReq_ByteSizeLong_def Let_def ServerInfoReq_MergeFrom_def
      )

lemma ServerInfoReq_size:
  assumes "wire_ok W" and "ServerInfoReq_ok W m"
  shows "fst (ServerInfoReq_ByteSizeLong W m) = length (ServerInfoReq_InternalSerialize W (snd (ServerInfoReq_ByteSizeLong W m)))"
  using assms(2)
  by (simp add: ServerInfoReq_ok_def ServerInfoReq_InternalSerialize_def ServerInfoReq_ByteSizeLong_def Let_def
      wire_sizes [OF assms(1)] )

lemma ServerInfoReq_merge_new:
  assumes "wire_ok W" and "ServerInfoReq_ok W m"
  shows "ServerInfoReq_MergeFrom W m (ServerInfoReq_new W) = m\<lparr>ServerInfoReq_cached_size := 0\<rparr>"
  using assms unknown_none_eq [OF assms(1) unknown_default_none [OF assms(1)]]
  by (cases m) (auto simp: ServerInfoReq_ok_def ServerInfoReq_MergeFrom_def ServerInfoReq_new_def unknown_merge_none )

lemma ServerInfoReq_CopyFrom_eq:
  assumes "wire_ok W" and "ServerInfoReq_ok W from"
  shows "ServerInfoReq_CopyFrom W from m = from\<lparr>ServerInfoReq_cached_size := ServerInfoReq_cached_size m\<rparr>"
  using assms unknown_none_eq [OF assms(1) unknown_default_none [OF assms(1)]]
  by (cases m; cases "from")
    (auto simp: ServerInfoReq_ok_def ServerInfoReq_CopyFrom_def ServerInfoReq_MergeFrom_def ServerInfoReq_Clear_def unknown_merge_none )

section \<open>ServerInfoRsp\<close>

record 'u ServerInfoRsp =
  ServerInfoRsp_time_v :: "string"
  ServerInfoRsp_corecount_v :: "int32"
  ServerInfoRsp_memorysize_v :: "string"
  ServerInfoRsp_disksize_v :: "string"
  ServerInfoRsp_unknown :: 'u
  ServerInfoRsp_cached_size :: int

definition ServerInfoRsp_FullMessageName :: string where
  "ServerInfoRsp_FullMessageName = ''ProtoSimple.ServerInfoRsp''"

definition ServerInfoRsp_new :: "'u wire \<Rightarrow> 'u ServerInfoRsp" where
  "ServerInfoRsp_new W = \<lparr>ServerInfoRsp_time_v = '''', ServerInfoRsp_corecount_v = 0, ServerInfoRsp_memorysize_v = '''', ServerInfoRsp_disksize_v = '''', ServerInfoRsp_unknown = unknown_default W, ServerInfoRsp_cached_size = 0\<rparr>"

definition ServerInfoRsp_copy :: "'u wire \<Rightarrow> 'u ServerInfoRsp \<Rightarrow> 'u ServerInfoRsp" where
  "ServerInfoRsp_copy W from = (ServerInfoRsp_new W)\<lparr>ServerInfoRsp_time_v := ServerInfoRsp_time_v from, ServerInfoRsp_corecount_v := ServerInfoRsp_corecount_v from, ServerInfoRsp_memorysize_v := ServerInfoRsp_memorysize_v from, ServerInfoRsp_disksize_v := ServerInfoRsp_disksize_v from, ServerInfoRsp_unknown := unknown_MergeFrom W (unknown_default W) (ServerInfoRsp_unknown from)\<rparr>"

definition ServerInfoRsp_time :: "'u ServerInfoRsp \<Rightarrow> string" where
  "ServerInfoRsp_time m = ServerInfoRsp_time_v m"

definition ServerInfoRsp_set_time :: "string \<Rightarrow> 'u ServerInfoRsp \<Rightarrow> 'u ServerInfoRsp" where
  "ServerInfoRsp_set_time value m = m\<lparr>ServerInfoRsp_time_v := value\<rparr>"

definition ServerInfoRsp_clear_time :: "'u ServerInfoRsp \<Rightarrow> 'u ServerInfoRsp" where
  "ServerInfoRsp_clear_time m = m\<lparr>ServerInfoRsp_time_v := ''''\<rparr>"

definition ServerInfoRsp_corecount :: "'u ServerInfoRsp \<Rightarrow> int32" where
  "ServerInfoRsp_corecount m = ServerInfoRsp_corecount_v m"

definition ServerInfoRsp_set_corecount :: "int32 \<Rightarrow> 'u ServerInfoRsp \<Rightarrow> 'u ServerInfoRsp" where
  "ServerInfoRsp_set_corecount value m = m\<lparr>ServerInfoRsp_corecount_v := value\<rparr>"

definition ServerInfoRsp_clear_corecount :: "'u ServerInfoRsp \<Rightarrow> 'u ServerInfoRsp" where
  "ServerInfoRsp_clear_corecount m = m\<lparr>ServerInfoRsp_corecount_v := 0\<rparr>"

definition ServerInfoRsp_memorysize :: "'u ServerInfoRsp \<Rightarrow> string" where
  "ServerInfoRsp_memorysize m = ServerInfoRsp_memorysize_v m"

definition ServerInfoRsp_set_memorysize :: "string \<Rightarrow> 'u ServerInfoRsp \<Rightarrow> 'u ServerInfoRsp" where
  "ServerInfoRsp_set_memorysize value m = m\<lparr>ServerInfoRsp_memorysize_v := value\<rparr>"

definition ServerInfoRsp_clear_memorysize :: "'u ServerInfoRsp \<Rightarrow> 'u ServerInfoRsp" where
  "ServerInfoRsp_clear_memorysize m = m\<lparr>ServerInfoRsp_memorysize_v := ''''\<rparr>"

definition ServerInfoRsp_disksize :: "'u ServerInfoRsp \<Rightarrow> string" where
  "ServerInfoRsp_disksize m = ServerInfoRsp_disksize_v m"

definition ServerInfoRsp_set_disksize :: "string \<Rightarrow> 'u ServerInfoRsp \<Rightarrow> 'u ServerInfoRsp" where
  "ServerInfoRsp_set_disksize value m = m\<lparr>ServerInfoRsp_disksize_v := value\<rparr>"

definition ServerInfoRsp_clear_disksize :: "'u ServerInfoRsp \<Rightarrow> 'u ServerInfoRsp" where
  "ServerInfoRsp_clear_disksize m = m\<lparr>ServerInfoRsp_disksize_v := ''''\<rparr>"

definition ServerInfoRsp_Clear :: "'u wire \<Rightarrow> 'u ServerInfoRsp \<Rightarrow> 'u ServerInfoRsp" where
  "ServerInfoRsp_Clear W m = m\<lparr>ServerInfoRsp_time_v := '''', ServerInfoRsp_corecount_v := 0, ServerInfoRsp_memorysize_v := '''', ServerInfoRsp_disksize_v := '''', ServerInfoRsp_unknown := unknown_default W\<rparr>"

definition ServerInfoRsp_parse_field ::
    "'u wire \<Rightarrow> 32 word \<Rightarrow> 'u ServerInfoRsp \<Rightarrow> char list \<Rightarrow> 'u ServerInfoRsp field_step option" where
  "ServerInfoRsp_parse_field W tag m ptr =
     (if drop_bit 3 tag = 1 then
        (if take_bit 8 tag = 10 then
           (case parse_string W ptr of
              None \<Rightarrow> Some Failure
            | Some (str, ptr') \<Rightarrow> Some (Field (m\<lparr>ServerInfoRsp_time_v := str\<rparr>) ptr'))
         else Some Unusual)
      else if drop_bit 3 tag = 2 then
        (if take_bit 8 tag = 16 then
           (case ReadVarint64 W ptr of
              None \<Rightarrow> Some Failure
            | Some (v, ptr') \<Rightarrow> Some (Field (m\<lparr>ServerInfoRsp_corecount_v := ucast v\<rparr>) ptr'))
         else Some Unusual)
      else if drop_bit 3 tag = 3 then
        (if take_bit 8 tag = 26 then
           (case parse_string W ptr of
              None \<Rightarrow> Some Failure
            | Some (str, ptr') \<Rightarrow> Some (Field (m\<lparr>ServerInfoRsp_memorysize_v := str\<rparr>) ptr'))
         else Some Unusual)
      else if drop_bit 3 tag = 4 then
        (if take_bit 8 tag = 34 then
           (case parse_string W ptr of
              None \<Rightarrow> Some Failure
            | Some (str, ptr') \<Rightarrow> Some (Field (m\<lparr>ServerInfoRsp_disksize_v := str\<rparr>) ptr'))
         else Some Unusual)
      else Some Unusual)"

definition ServerInfoRsp_InternalParse :: "'u wire \<Rightarrow> 'u ServerInfoRsp \<Rightarrow> char list \<Rightarrow> 'u ServerInfoRsp parse_result option" where
  "ServerInfoRsp_InternalParse W = parse_loop W (ServerInfoRsp_parse_field W) ServerInfoRsp_unknown ServerInfoRsp_unknown_update"

definition ServerInfoRsp_InternalSerialize :: "'u wire \<Rightarrow> 'u ServerInfoRsp \<Rightarrow> char list" where
  "ServerInfoRsp_InternalSerialize W m =
     (if 0 < length (ServerInfoRsp_time m) then WriteStringMaybeAliased W 1 (ServerInfoRsp_time m) else [])
     @ (if ServerInfoRsp_corecount m \<noteq> 0 then WriteInt32ToArray W 2 (ServerInfoRsp_corecount m) else [])
     @ (if 0 < length (ServerInfoRsp_memorysize m) then WriteStringMaybeAliased W 3 (ServerInfoRsp_memorysize m) else [])
     @ (if 0 < length (ServerInfoRsp_disksize m) then WriteStringMaybeAliased W 4 (ServerInfoRsp_disksize m) else [])
     @ (if have_unknown_fields W (ServerInfoRsp_unknown m)
        then InternalSerializeUnknownFieldsToArray W (ServerInfoRsp_unknown m) else [])"

definition ServerInfoRsp_ByteSizeLong :: "'u wire \<Rightarrow> 'u ServerInfoRsp \<Rightarrow> nat \<times> 'u ServerInfoRsp" where
  "ServerInfoRsp_ByteSizeLong W m =
     (let total_size = (if 0 < length (ServerInfoRsp_time m) then 1 + StringSize W (ServerInfoRsp_time m) else 0)
        + (if 0 < length (ServerInfoRsp_memorysize m) then 1 + StringSize W (ServerInfoRsp_memorysize m) else 0)
        + (if 0 < length (ServerInfoRsp_disksize m) then 1 + StringSize W (ServerInfoRsp_disksize m) else 0)
        + (if ServerInfoRsp_corecount m \<noteq> 0 then 1 + Int32Size W (ServerInfoRsp_corecount m) else 0);
          size = (if have_unknown_fields W (ServerInfoRsp_unknown m)
                  then ComputeUnknownFieldsSize W (ServerInfoRsp_unknown m) total_size else total_size)
      in (size, m\<lparr>ServerInfoRsp_cached_size := wrap32 (int size)\<rparr>))"

definition ServerInfoRsp_MergeFrom :: "'u wire \<Rightarrow> 'u ServerInfoRsp \<Rightarrow> 'u ServerInfoRsp \<Rightarrow> 'u ServerInfoRsp" where
  "ServerInfoRsp_MergeFrom W from m =
     m\<lparr>ServerInfoRsp_time_v := (if 0 < length (ServerInfoRsp_time from) then ServerInfoRsp_time from else ServerInfoRsp_time_v m),
       ServerInfoRsp_corecount_v := (if ServerInfoRsp_corecount from \<noteq> 0 then ServerInfoRsp_corecount from else ServerInfoRsp_corecount_v m),
       ServerInfoRsp_memorysize_v := (if 0 < length (ServerInfoRsp_memorysize from) then ServerInfoRsp_memorysize from else ServerInfoRsp_memorysize_v m),
       ServerInfoRsp_disksize_v := (if 0 < length (ServerInfoRsp_disksize from) then ServerInfoRsp_disksize from else ServerInfoRsp_disksize_v m),
       ServerInfoRsp_unknown := unknown_MergeFrom W (ServerInfoRsp_unknown m) (ServerInfoRsp_unknown from)\<rparr>"

definition ServerInfoRsp_CopyFrom :: "'u wire \<Rightarrow> 'u ServerInfoRsp \<Rightarrow> 'u ServerInfoRsp \<Rightarrow> 'u ServerInfoRsp" where
  "ServerInfoRsp_CopyFrom W from m = ServerInfoRsp_MergeFrom W from (ServerInfoRsp_Clear W m)"

definition ServerInfoRsp_InternalSwap :: "'u ServerInfoRsp \<Rightarrow> 'u ServerInfoRsp \<Rightarrow> 'u ServerInfoRsp \<times> 'u ServerInfoRsp" where
  "ServerInfoRsp_InternalSwap m other =
     (m\<lparr>ServerInfoRsp_time_v := ServerInfoRsp_time_v other, ServerInfoRsp_corecount_v := ServerInfoRsp_corecount_v other, ServerInfoRsp_memorysize_v := ServerInfoRsp_memorysize_v other, ServerInfoRsp_disksize_v := ServerInfoRsp_disksize_v other, ServerInfoRsp_unknown := ServerInfoRsp_unknown other\<rparr>,
      other\<lparr>ServerInfoRsp_time_v := ServerInfoRsp_time_v m, ServerInfoRsp_corecount_v := ServerInfoRsp_corecount_v m, ServerInfoRsp_memorysize_v := ServerInfoRsp_memorysize_v m, ServerInfoRsp_disksize_v := ServerInfoRsp_disksize_v m, ServerInfoRsp_unknown := ServerInfoRsp_unknown m\<rparr>)"

text \<open>The messages without unknown fields whose strings the runtime accepts.\<close>

definition ServerInfoRsp_ok :: "'u wire \<Rightarrow> 'u ServerInfoRsp \<Rightarrow> bool" where
  "ServerInfoRsp_ok W m \<longleftrightarrow> \<not> have_unknown_fields W (ServerInfoRsp_unknown m) \<and> pb_string W (ServerInfoRsp_time_v m) \<and> pb_string W (ServerInfoRsp_memorysize_v m) \<and> pb_string W (ServerInfoRsp_disksize_v m)"

lemma ServerInfoRsp_parse_step:
  assumes "wire_ok W"
  shows "pb_string W s \<Longrightarrow> ServerInfoRsp_InternalParse W m (WriteStringMaybeAliased W 1 s @ r)
      = ServerInfoRsp_InternalParse W (m\<lparr>ServerInfoRsp_time_v := s\<rparr>) r"
    and "ServerInfoRsp_InternalParse W m (WriteInt32ToArray W 2 (v2 :: int32) @ r)
      = ServerInfoRsp_InternalParse W (m\<lparr>ServerInfoRsp_corecount_v := v2\<rparr>) r"
    and "pb_string W s \<Longrightarrow> ServerInfoRsp_InternalParse W m (WriteStringMaybeAliased W 3 s @ r)
      = ServerInfoRsp_InternalParse W (m\<lparr>ServerInfoRsp_memorysize_v := s\<rparr>) r"
    and "pb_string W s \<Longrightarrow> ServerInfoRsp_InternalParse W m (WriteStringMaybeAliased W 4 s @ r)
      = ServerInfoRsp_InternalParse W (m\<lparr>ServerInfoRsp_disksize_v := s\<rparr>) r"
    and "ServerInfoRsp_InternalParse W m [] = Some (Some (m, [], None))"
  unfolding ServerInfoRsp_InternalParse_def
  by (auto simp: ServerInfoRsp_parse_field_def tag_simps parse_loop_done [OF assms]
      intro!: parse_loop_int32 parse_loop_int64 parse_loop_string assms)

lemma ServerInfoRsp_parse_merge:
  assumes "wire_ok W" and "ServerInfoRsp_ok W m"
  shows "ServerInfoRsp_InternalParse W m0 (ServerInfoRsp_InternalSerialize W (snd (ServerInfoRsp_ByteSizeLong W m)))
    = Some (Some (ServerInfoRsp_MergeFrom W m m0, [], None))"
  using assms(2) ServerInfoRsp_parse_step [OF assms(1)]
    ServerInfoRsp_parse_step(1) [OF assms(1), where r = "[]", unfolded append_Nil2] ServerInfoRsp_parse_step(2) [OF assms(1), where r = "[]", unfolded append_Nil2] ServerInfoRsp_parse_step(3) [OF assms(1), where r = "[]", unfolded append_Nil2] ServerInfoRsp_parse_step(4) [OF assms(1), where r = "[]", unfolded append_Nil2]
    unknown_merge_none [OF assms(1)]
  by (simp add: ServerInfoRsp_ok_def ServerInfoRsp_InternalSerialize_def ServerInfoRsp_ByteSizeLong_def Let_def ServerInfoRsp_MergeFrom_def
      ServerInfoRsp_time_def ServerInfoRsp_corecount_def ServerInfoRsp_memorysize_def ServerInfoRsp_disksize_def)

lemma ServerInfoRsp_size:
  assumes "wire_ok W" and "ServerInfoRsp_ok W m"
  shows "fst (ServerInfoRsp_ByteSizeLong W m) = length (ServerInfoRsp_InternalSerialize W (snd (ServerInfoRsp_ByteSizeLong W m)))"
  using assms(2)
  by (simp add: ServerInfoRsp_ok_def ServerInfoRsp_InternalSerialize_def ServerInfoRsp_ByteSizeLong_def Let_def
      wire_sizes [OF assms(1)] ServerInfoRsp_time_def ServerInfoRsp_corecount_def ServerInfoRsp_memorysize_def ServerInfoRsp_disksize_def)

lemma ServerInfoRsp_merge_new:
  assumes "wire_ok W" and "ServerInfoRsp_ok W m"
  shows "ServerInfoRsp_MergeFrom W m (ServerInfoRsp_new W) = m\<lparr>ServerInfoRsp_cached_size := 0\<rparr>"
  using assms unknown_none_eq [OF assms(1) unknown_default_none [OF assms(1)]]
  by (cases m) (auto simp: ServerInfoRsp_ok_def ServerInfoRsp_MergeFrom_def ServerInfoRsp_new_def unknown_merge_none ServerInfoRsp_time_def ServerInfoRsp_corecount_def ServerInfoRsp_memorysize_def ServerInfoRsp_disksize_def)

lemma ServerInfoRsp_CopyFrom_eq:
  assumes "wire_ok W" and "ServerInfoRsp_ok W from"
  shows "ServerInfoRsp_CopyFrom W from m = from\<lparr>ServerInfoRsp_cached_size := ServerInfoRsp_cached_size m\<rparr>"
  using assms unknown_none_eq [OF assms(1) unknown_default_none [OF assms(1)]]
  by (cases m; cases "from")
    (auto simp: ServerInfoRsp_ok_def ServerInfoRsp_CopyFrom_def ServerInfoRsp_MergeFrom_def ServerInfoRsp_Clear_def unknown_merge_none ServerInfoRsp_time_def ServerInfoRsp_corecount_def ServerInfoRsp_memorysize_def ServerInfoRsp_disksize_def)

end
