(* ===== verification/Sample_Wire.thy ===== *)
theory Sample_Wire
  imports Pb_Wire
begin

text \<open>
  A concrete runtime in which the hypotheses of \<open>Pb_Wire\<close> hold: base-128 varints, one-byte tags,
  strings and packed fields with a length prefix, and no unknown fields. The witnesses about the
  generated message classes use it.
\<close>

fun varint :: "nat \<Rightarrow> char list" where
  "varint n = (if n < 128 then [char_of n] else char_of (n mod 128 + 128) # varint (n div 128))"

declare varint.simps [simp del]

fun rd_varint :: "char list \<Rightarrow> (nat \<times> char list) option" where
  "rd_varint [] = None"
| "rd_varint (c # cs) =
     (let b = of_char c in if b < 128 then Some (b, cs)
      else map_option (\<lambda>(n, r). (b - 128 + 128 * n, r)) (rd_varint cs))"

lemma rd_varint [simp]: "rd_varint (varint n @ r) = Some (n, r)"
proof (induction n rule: varint.induct)
  case (1 n)
  show ?case
  proof (cases "n < 128")
    case True
    then show ?thesis by (subst varint.simps) (simp add: of_char_of)
  next
    case False
    then have "rd_varint (varint (n div 128) @ r) = Some (n div 128, r)" by (rule "1.IH")
    moreover have "of_char (char_of (n mod 128 + 128) :: char) = n mod 128 + (128 :: nat)"
      by (simp add: of_char_of)
    ultimately show ?thesis using False by (subst varint.simps) simp
  qed
qed

lemma varint_nonempty [simp]: "varint n \<noteq> []"
  by (subst varint.simps) simp

definition rd_word :: "char list \<Rightarrow> ('a::len word \<times> char list) option" where
  "rd_word bs = map_option (\<lambda>(n, r). (word_of_nat n, r)) (rd_varint bs)"

lemma rd_word_varint [simp]: "rd_word (varint n @ r) = Some (word_of_nat n, r)"
  by (simp add: rd_word_def)

definition wr_word :: "int64 \<Rightarrow> char list" where
  "wr_word v = varint (unat v)"

lemma rd_wr_word [simp]: "rd_word (wr_word v @ r) = Some (v, r)"
  by (simp add: wr_word_def)

lemma wr_word_nonempty [simp]: "wr_word v \<noteq> []"
  by (simp add: wr_word_def)

definition rd_bytes :: "char list \<Rightarrow> (char list \<times> char list) option" where
  "rd_bytes bs = (case rd_varint bs of
     None \<Rightarrow> None | Some (n, r) \<Rightarrow> if n \<le> length r then Some (take n r, drop n r) else None)"

lemma rd_bytes [simp]: "rd_bytes (varint (length s) @ s @ r) = Some (s, r)"
  by (simp add: rd_bytes_def)

text \<open>Packed values: every one is read as a 64-bit varint and truncated.\<close>

fun rd_packed :: "nat \<Rightarrow> char list \<Rightarrow> int32 list option" where
  "rd_packed fuel [] = Some []"
| "rd_packed 0 bs = None"
| "rd_packed (Suc fuel) bs = (case rd_word bs of
     None \<Rightarrow> None | Some (v :: int64, r) \<Rightarrow> map_option ((#) (ucast v)) (rd_packed fuel r))"

definition wr_packed :: "int32 list \<Rightarrow> char list" where
  "wr_packed vs = concat (map (\<lambda>v. wr_word (scast v)) vs)"

lemma rd_wr_packed: "length vs \<le> fuel \<Longrightarrow> rd_packed fuel (wr_packed vs) = Some vs"
proof (induction vs arbitrary: fuel)
  case Nil
  then show ?case by (cases fuel) (simp_all add: wr_packed_def)
next
  case (Cons v vs)
  then obtain k where k: "fuel = Suc k" "length vs \<le> k" by (cases fuel) auto
  obtain c cs where "wr_word (scast v) = c # cs" by (cases "wr_word (scast v)") simp_all
  then have bs: "wr_packed (v # vs) = c # (cs @ wr_packed vs)"
    "c # (cs @ wr_packed vs) = wr_word (scast v) @ wr_packed vs"
    by (simp_all add: wr_packed_def)
  show ?case using Cons.IH [OF k(2)] unfolding k(1) bs(1) rd_packed.simps unfolding bs(2) by simp
qed

lemma length_wr_packed: "length vs \<le> length (wr_packed vs)"
proof (induction vs)
  case (Cons v vs)
  have "1 \<le> length (wr_word (scast v))" by (simp add: Suc_le_eq)
  with Cons show ?case by (simp add: wr_packed_def)
qed simp

lemma wr_packed_empty [simp]: "wr_packed vs = [] \<longleftrightarrow> vs = []"
  by (cases vs) (simp_all add: wr_packed_def)

definition sample_wire :: "unit wire" where
  "sample_wire =
     \<lparr>Done = (\<lambda>bs. bs = []), DataAvailable = (\<lambda>bs. bs \<noteq> []), ReadTag = rd_word,
      ExpectTag = (\<lambda>t bs. bs \<noteq> [] \<and> hd bs = char_of t), ReadVarint64 = rd_word,
      PackedInt32Parser = (\<lambda>bs. case rd_bytes bs of None \<Rightarrow> None
        | Some (d, r) \<Rightarrow> map_option (\<lambda>vs. (vs, r)) (rd_packed (length d) d)),
      InlineGreedyStringParser = rd_bytes, VerifyUTF8 = (\<lambda>s. s \<noteq> [CHR 0xFF]),
      UnknownFieldParse = (\<lambda>tag u bs. None), unknown_default = (), have_unknown_fields = (\<lambda>u. False),
      unknown_MergeFrom = (\<lambda>u v. ()), InternalSerializeUnknownFieldsToArray = (\<lambda>u. []),
      ComputeUnknownFieldsSize = (\<lambda>u n. n),
      WriteInt32ToArray = (\<lambda>n v. char_of (8 * n) # wr_word (scast v)),
      WriteInt64ToArray = (\<lambda>n v. char_of (8 * n) # wr_word v),
      WriteInt32Packed = (\<lambda>n vs size. char_of (8 * n + 2) # varint (nat size) @ wr_packed vs),
      WriteString = (\<lambda>n s. char_of (8 * n + 2) # varint (length s) @ s),
      WriteStringMaybeAliased = (\<lambda>n s. char_of (8 * n + 2) # varint (length s) @ s),
      Int32Size = (\<lambda>v. length (wr_word (scast v))), Int64Size = (\<lambda>v. length (wr_word v)),
      Int32Size_repeated = (\<lambda>vs. length (wr_packed vs)),
      StringSize = (\<lambda>s. length (varint (length s) @ s))\<rparr>"

lemma rd_word_tag: "k < 128 \<Longrightarrow> rd_word (char_of k # r) = Some (word_of_nat k, r)"
  using rd_word_varint [of k r] varint.simps [of k] by simp

lemma scast_word_of_nat_64:
  "n < 2 ^ 31 \<Longrightarrow> (scast (word_of_nat n :: int32) :: int64) = word_of_nat n"
  by (simp add: scast_eq sint_word_of_nat)

lemma sample_size_prefix:
  assumes "n < 2 ^ 31"
  shows "length (wr_word (scast (word_of_nat n :: int32))) = length (varint n)"
proof -
  have "n < 2 ^ 64" using assms by simp
  then have "unat (word_of_nat n :: int64) = n" by (simp add: unat_of_nat)
  then show ?thesis using assms by (simp add: scast_word_of_nat_64 wr_word_def)
qed

lemma sample_packed_ok: "wire_packed_ok sample_wire"
  unfolding wire_packed_ok_def
proof (intro conjI allI ballI impI)
  fix n :: nat and vs r
  assume n: "n \<in> {1..15}" and vs: "Int32Size_repeated sample_wire vs < 2 ^ 31"
  let ?b = "WriteInt32Packed sample_wire n vs (int (Int32Size_repeated sample_wire vs))"
  show "length ?b = 1 + Int32Size sample_wire (word_of_nat (Int32Size_repeated sample_wire vs))
      + Int32Size_repeated sample_wire vs"
    using sample_size_prefix [of "length (wr_packed vs)"] vs by (simp add: sample_wire_def)
  have "8 * n + 2 < 128" using n by simp
  from rd_word_tag [OF this, of "varint (length (wr_packed vs)) @ wr_packed vs @ r", where 'a = 32]
  show "\<exists>r'. ReadTag sample_wire (?b @ r) = Some (field_tag n 2, r')
      \<and> PackedInt32Parser sample_wire r' = Some (vs, r)"
    by (simp add: sample_wire_def field_tag_def rd_wr_packed length_wr_packed)
qed (simp add: sample_wire_def)

lemma sample_string_ok: "wire_string_ok sample_wire"
  unfolding wire_string_ok_def
proof (intro ballI allI impI)
  fix n :: nat and s :: string
  assume "n \<in> {1..15}"
  then have "8 * n + 2 < 128" by simp
  note tag = rd_word_tag [OF this, where 'a = 32]
  show "length (WriteString sample_wire n s) = 1 + StringSize sample_wire s \<and>
     WriteStringMaybeAliased sample_wire n s = WriteString sample_wire n s \<and>
     (\<exists>p. WriteString sample_wire n s = char_of (8 * n + 2) # p
       \<and> (\<forall>r. ReadTag sample_wire (char_of (8 * n + 2) # p @ r) = Some (field_tag n 2, p @ r)
             \<and> InlineGreedyStringParser sample_wire (p @ r) = Some (s, r)))"
    using tag by (simp add: sample_wire_def field_tag_def)
qed

lemma sample_int_ok: "wire_int32_ok sample_wire" "wire_int64_ok sample_wire"
proof -
  have tag: "rd_word (char_of (8 * n) # r) = Some (field_tag n 0, r)" if "n \<in> {1..15}" for n r
    using rd_word_tag [of "8 * n" r, where 'a = 32] that by (simp add: field_tag_def)
  show "wire_int32_ok sample_wire" "wire_int64_ok sample_wire"
    using tag by (simp_all add: wire_int32_ok_def wire_int64_ok_def sample_wire_def)
qed

lemma sample_wire_ok: "wire_ok sample_wire"
proof -
  have "wire_ctx_ok sample_wire" "unknown_ok sample_wire"
    by (simp_all add: wire_ctx_ok_def unknown_ok_def sample_wire_def)
  then show ?thesis
    using sample_packed_ok sample_string_ok sample_int_ok by (simp add: wire_ok_def)
qed

lemma sample_wire_fields [simp]:
  "\<not> have_unknown_fields sample_wire u" "unknown_default sample_wire = ()"
  "Int32Size_repeated sample_wire vs = length (wr_packed vs)"
  by (simp_all add: sample_wire_def)

lemma sample_pb_string [simp]: "pb_string sample_wire s \<longleftrightarrow> s \<noteq> [CHR 0xFF] \<and> length s < 2 ^ 31"
  by (simp add: pb_string_def sample_wire_def)

end
