(* ===== verification/Pb_Messages.thy ===== *)
theory Pb_Messages
  imports Pb_Base Pb_Simple Sample_Wire Sample_Env
begin

text \<open>
  The message classes as the rest of the library sees them: through the virtual methods of
  \<^verbatim>\<open>google::protobuf::Message\<close>. The locale \<open>pb_class\<close> is what the library relies on for one class; every
  generated class is an instance. \<open>pb_message\<close> is a message of any class, and \<open>runtime_ok\<close> says how the
  runtime's \<^verbatim>\<open>SerializePartialToArray\<close>, \<^verbatim>\<open>ParseFromArray\<close> and class registry use the generated code.
  The result is that the messages of the repository satisfy the hypothesis \<open>proto_ok\<close> under which the
  codec is verified.
\<close>

section \<open>The interface of a generated class\<close>

locale pb_class =
  fixes ok :: "'m \<Rightarrow> bool"
    and uncached :: "'m \<Rightarrow> 'm"
    and default :: 'm
    and size :: "'m \<Rightarrow> nat \<times> 'm"
    and serialize :: "'m \<Rightarrow> char list"
    and parse :: "'m \<Rightarrow> char list \<Rightarrow> 'm parse_result option"
    and merge :: "'m \<Rightarrow> 'm \<Rightarrow> 'm"
  assumes parse_merge: "ok m \<Longrightarrow> parse m0 (serialize (snd (size m))) = Some (Some (merge m m0, [], None))"
    and size_exact: "ok m \<Longrightarrow> fst (size m) = length (serialize (snd (size m)))"
    and merge_default: "ok m \<Longrightarrow> merge m default = uncached m"
begin

lemma roundtrip:
  "ok m \<Longrightarrow> parse default (serialize (snd (size m))) = Some (Some (uncached m, [], None))"
  by (simp add: parse_merge merge_default)

end

interpretation cls_SubscribeReq: pb_class "\<lambda>m. wire_ok W \<and> SubscribeReq_ok W m" "(\<lambda>m. m\<lparr>SubscribeReq_msgtypelist_cached_byte_size := 0, SubscribeReq_cached_size := 0\<rparr>)"
  "SubscribeReq_new W" "SubscribeReq_ByteSizeLong W" "SubscribeReq_InternalSerialize W" "SubscribeReq_InternalParse W" "SubscribeReq_MergeFrom W"
  for W :: "'u wire"
  by unfold_locales (simp_all add: SubscribeReq_parse_merge SubscribeReq_size SubscribeReq_merge_new)

interpretation cls_SubscribeRsp: pb_class "\<lambda>m. wire_ok W \<and> SubscribeRsp_ok W m" "(\<lambda>m. m\<lparr>SubscribeRsp_cached_size := 0\<rparr>)"
  "SubscribeRsp_new W" "SubscribeRsp_ByteSizeLong W" "SubscribeRsp_InternalSerialize W" "SubscribeRsp_InternalParse W" "SubscribeRsp_MergeFrom W"
  for W :: "'u wire"
  by unfold_locales (simp_all add: SubscribeRsp_parse_merge SubscribeRsp_size SubscribeRsp_merge_new)

interpretation cls_HeartbeatReq: pb_class "\<lambda>m. wire_ok W \<and> HeartbeatReq_ok W m" "(\<lambda>m. m\<lparr>HeartbeatReq_cached_size := 0\<rparr>)"
  "HeartbeatReq_new W" "HeartbeatReq_ByteSizeLong W" "HeartbeatReq_InternalSerialize W" "HeartbeatReq_InternalParse W" "HeartbeatReq_MergeFrom W"
  for W :: "'u wire"
  by unfold_locales (simp_all add: HeartbeatReq_parse_merge HeartbeatReq_size HeartbeatReq_merge_new)

interpretation cls_HeartbeatRsp: pb_class "\<lambda>m. wire_ok W \<and> HeartbeatRsp_ok W m" "(\<lambda>m. m\<lparr>HeartbeatRsp_cached_size := 0\<rparr>)"
  "HeartbeatRsp_new W" "HeartbeatRsp_ByteSizeLong W" "HeartbeatRsp_InternalSerialize W" "HeartbeatRsp_InternalParse W" "HeartbeatRsp_MergeFrom W"
  for W :: "'u wire"
  by unfold_locales (simp_all add: HeartbeatRsp_parse_merge HeartbeatRsp_size HeartbeatRsp_merge_new)

interpretation cls_CommonRsp: pb_class "\<lambda>m. wire_ok W \<and> CommonRsp_ok W m" "(\<lambda>m. m\<lparr>CommonRsp_cached_size := 0\<rparr>)"
  "CommonRsp_new W" "CommonRsp_ByteSizeLong W" "CommonRsp_InternalSerialize W" "CommonRsp_InternalParse W" "CommonRsp_MergeFrom W"
  for W :: "'u wire"
  by unfold_locales (simp_all add: CommonRsp_parse_merge CommonRsp_size CommonRsp_merge_new)

interpretation cls_PingPongReq: pb_class "\<lambda>m. wire_ok W \<and> PingPongReq_ok W m" "(\<lambda>m. m\<lparr>PingPongReq_cached_size := 0\<rparr>)"
  "PingPongReq_new W" "PingPongReq_ByteSizeLong W" "PingPongReq_InternalSerialize W" "PingPongReq_InternalParse W" "PingPongReq_MergeFrom W"
  for W :: "'u wire"
  by unfold_locales (simp_all add: PingPongReq_parse_merge PingPongReq_size PingPongReq_merge_new)

interpretation cls_PingPongRsp: pb_class "\<lambda>m. wire_ok W \<and> PingPongRsp_ok W m" "(\<lambda>m. m\<lparr>PingPongRsp_cached_size := 0\<rparr>)"
  "PingPongRsp_new W" "PingPongRsp_ByteSizeLong W" "PingPongRsp_InternalSerialize W" "PingPongRsp_InternalParse W" "PingPongRsp_MergeFrom W"
  for W :: "'u wire"
  by unfold_locales (simp_all add: PingPongRsp_parse_merge PingPongRsp_size PingPongRsp_merge_new)

interpretation cls_DaytimeReq: pb_class "\<lambda>m. wire_ok W \<and> DaytimeReq_ok W m" "(\<lambda>m. m\<lparr>DaytimeReq_cached_size := 0\<rparr>)"
  "DaytimeReq_new W" "DaytimeReq_ByteSizeLong W" "DaytimeReq_InternalSerialize W" "DaytimeReq_InternalParse W" "DaytimeReq_MergeFrom W"
  for W :: "'u wire"
  by unfold_locales (simp_all add: DaytimeReq_parse_merge DaytimeReq_size DaytimeReq_merge_new)

interpretation cls_DaytimeRsp: pb_class "\<lambda>m. wire_ok W \<and> DaytimeRsp_ok W m" "(\<lambda>m. m\<lparr>DaytimeRsp_cached_size := 0\<rparr>)"
  "DaytimeRsp_new W" "DaytimeRsp_ByteSizeLong W" "DaytimeRsp_InternalSerialize W" "DaytimeRsp_InternalParse W" "DaytimeRsp_MergeFrom W"
  for W :: "'u wire"
  by unfold_locales (simp_all add: DaytimeRsp_parse_merge DaytimeRsp_size DaytimeRsp_merge_new)

interpretation cls_DiscardReq: pb_class "\<lambda>m. wire_ok W \<and> DiscardReq_ok W m" "(\<lambda>m. m\<lparr>DiscardReq_cached_size := 0\<rparr>)"
  "DiscardReq_new W" "DiscardReq_ByteSizeLong W" "DiscardReq_InternalSerialize W" "DiscardReq_InternalParse W" "DiscardReq_MergeFrom W"
  for W :: "'u wire"
  by unfold_locales (simp_all add: DiscardReq_parse_merge DiscardReq_size DiscardReq_merge_new)

interpretation cls_DiscardRsp: pb_class "\<lambda>m. wire_ok W \<and> DiscardRsp_ok W m" "(\<lambda>m. m\<lparr>DiscardRsp_cached_size := 0\<rparr>)"
  "DiscardRsp_new W" "DiscardRsp_ByteSizeLong W" "DiscardRsp_InternalSerialize W" "DiscardRsp_InternalParse W" "DiscardRsp_MergeFrom W"
  for W :: "'u wire"
  by unfold_locales (simp_all add: DiscardRsp_parse_merge DiscardRsp_size DiscardRsp_merge_new)

interpretation cls_ServerInfoPub: pb_class "\<lambda>m. wire_ok W \<and> ServerInfoPub_ok W m" "(\<lambda>m. m\<lparr>ServerInfoPub_cached_size := 0\<rparr>)"
  "ServerInfoPub_new W" "ServerInfoPub_ByteSizeLong W" "ServerInfoPub_InternalSerialize W" "ServerInfoPub_InternalParse W" "ServerInfoPub_MergeFrom W"
  for W :: "'u wire"
  by unfold_locales (simp_all add: ServerInfoPub_parse_merge ServerInfoPub_size ServerInfoPub_merge_new)

interpretation cls_ServerInfoReq: pb_class "\<lambda>m. wire_ok W \<and> ServerInfoReq_ok W m" "(\<lambda>m. m\<lparr>ServerInfoReq_cached_size := 0\<rparr>)"
  "ServerInfoReq_new W" "ServerInfoReq_ByteSizeLong W" "ServerInfoReq_InternalSerialize W" "ServerInfoReq_InternalParse W" "ServerInfoReq_MergeFrom W"
  for W :: "'u wire"
  by unfold_locales (simp_all add: ServerInfoReq_parse_merge ServerInfoReq_size ServerInfoReq_merge_new)

interpretation cls_ServerInfoRsp: pb_class "\<lambda>m. wire_ok W \<and> ServerInfoRsp_ok W m" "(\<lambda>m. m\<lparr>ServerInfoRsp_cached_size := 0\<rparr>)"
  "ServerInfoRsp_new W" "ServerInfoRsp_ByteSizeLong W" "ServerInfoRsp_InternalSerialize W" "ServerInfoRsp_InternalParse W" "ServerInfoRsp_MergeFrom W"
  for W :: "'u wire"
  by unfold_locales (simp_all add: ServerInfoRsp_parse_merge ServerInfoRsp_size ServerInfoRsp_merge_new)

section \<open>Messages of any class\<close>

datatype 'u pb_message =
    PbSubscribeReq "'u SubscribeReq"
  | PbSubscribeRsp "'u SubscribeRsp"
  | PbHeartbeatReq "'u HeartbeatReq"
  | PbHeartbeatRsp "'u HeartbeatRsp"
  | PbCommonRsp "'u CommonRsp"
  | PbPingPongReq "'u PingPongReq"
  | PbPingPongRsp "'u PingPongRsp"
  | PbDaytimeReq "'u DaytimeReq"
  | PbDaytimeRsp "'u DaytimeRsp"
  | PbDiscardReq "'u DiscardReq"
  | PbDiscardRsp "'u DiscardRsp"
  | PbServerInfoPub "'u ServerInfoPub"
  | PbServerInfoReq "'u ServerInfoReq"
  | PbServerInfoRsp "'u ServerInfoRsp"

fun pb_GetTypeName :: "'u pb_message \<Rightarrow> string" where
  "pb_GetTypeName (PbSubscribeReq m) = SubscribeReq_FullMessageName"
| "pb_GetTypeName (PbSubscribeRsp m) = SubscribeRsp_FullMessageName"
| "pb_GetTypeName (PbHeartbeatReq m) = HeartbeatReq_FullMessageName"
| "pb_GetTypeName (PbHeartbeatRsp m) = HeartbeatRsp_FullMessageName"
| "pb_GetTypeName (PbCommonRsp m) = CommonRsp_FullMessageName"
| "pb_GetTypeName (PbPingPongReq m) = PingPongReq_FullMessageName"
| "pb_GetTypeName (PbPingPongRsp m) = PingPongRsp_FullMessageName"
| "pb_GetTypeName (PbDaytimeReq m) = DaytimeReq_FullMessageName"
| "pb_GetTypeName (PbDaytimeRsp m) = DaytimeRsp_FullMessageName"
| "pb_GetTypeName (PbDiscardReq m) = DiscardReq_FullMessageName"
| "pb_GetTypeName (PbDiscardRsp m) = DiscardRsp_FullMessageName"
| "pb_GetTypeName (PbServerInfoPub m) = ServerInfoPub_FullMessageName"
| "pb_GetTypeName (PbServerInfoReq m) = ServerInfoReq_FullMessageName"
| "pb_GetTypeName (PbServerInfoRsp m) = ServerInfoRsp_FullMessageName"

fun pb_New :: "'u wire \<Rightarrow> 'u pb_message \<Rightarrow> 'u pb_message" where
  "pb_New W (PbSubscribeReq m) = PbSubscribeReq (SubscribeReq_new W)"
| "pb_New W (PbSubscribeRsp m) = PbSubscribeRsp (SubscribeRsp_new W)"
| "pb_New W (PbHeartbeatReq m) = PbHeartbeatReq (HeartbeatReq_new W)"
| "pb_New W (PbHeartbeatRsp m) = PbHeartbeatRsp (HeartbeatRsp_new W)"
| "pb_New W (PbCommonRsp m) = PbCommonRsp (CommonRsp_new W)"
| "pb_New W (PbPingPongReq m) = PbPingPongReq (PingPongReq_new W)"
| "pb_New W (PbPingPongRsp m) = PbPingPongRsp (PingPongRsp_new W)"
| "pb_New W (PbDaytimeReq m) = PbDaytimeReq (DaytimeReq_new W)"
| "pb_New W (PbDaytimeRsp m) = PbDaytimeRsp (DaytimeRsp_new W)"
| "pb_New W (PbDiscardReq m) = PbDiscardReq (DiscardReq_new W)"
| "pb_New W (PbDiscardRsp m) = PbDiscardRsp (DiscardRsp_new W)"
| "pb_New W (PbServerInfoPub m) = PbServerInfoPub (ServerInfoPub_new W)"
| "pb_New W (PbServerInfoReq m) = PbServerInfoReq (ServerInfoReq_new W)"
| "pb_New W (PbServerInfoRsp m) = PbServerInfoRsp (ServerInfoRsp_new W)"

fun pb_ByteSizeLong :: "'u wire \<Rightarrow> 'u pb_message \<Rightarrow> nat \<times> 'u pb_message" where
  "pb_ByteSizeLong W (PbSubscribeReq m) = map_prod id PbSubscribeReq (SubscribeReq_ByteSizeLong W m)"
| "pb_ByteSizeLong W (PbSubscribeRsp m) = map_prod id PbSubscribeRsp (SubscribeRsp_ByteSizeLong W m)"
| "pb_ByteSizeLong W (PbHeartbeatReq m) = map_prod id PbHeartbeatReq (HeartbeatReq_ByteSizeLong W m)"
| "pb_ByteSizeLong W (PbHeartbeatRsp m) = map_prod id PbHeartbeatRsp (HeartbeatRsp_ByteSizeLong W m)"
| "pb_ByteSizeLong W (PbCommonRsp m) = map_prod id PbCommonRsp (CommonRsp_ByteSizeLong W m)"
| "pb_ByteSizeLong W (PbPingPongReq m) = map_prod id PbPingPongReq (PingPongReq_ByteSizeLong W m)"
| "pb_ByteSizeLong W (PbPingPongRsp m) = map_prod id PbPingPongRsp (PingPongRsp_ByteSizeLong W m)"
| "pb_ByteSizeLong W (PbDaytimeReq m) = map_prod id PbDaytimeReq (DaytimeReq_ByteSizeLong W m)"
| "pb_ByteSizeLong W (PbDaytimeRsp m) = map_prod id PbDaytimeRsp (DaytimeRsp_ByteSizeLong W m)"
| "pb_ByteSizeLong W (PbDiscardReq m) = map_prod id PbDiscardReq (DiscardReq_ByteSizeLong W m)"
| "pb_ByteSizeLong W (PbDiscardRsp m) = map_prod id PbDiscardRsp (DiscardRsp_ByteSizeLong W m)"
| "pb_ByteSizeLong W (PbServerInfoPub m) = map_prod id PbServerInfoPub (ServerInfoPub_ByteSizeLong W m)"
| "pb_ByteSizeLong W (PbServerInfoReq m) = map_prod id PbServerInfoReq (ServerInfoReq_ByteSizeLong W m)"
| "pb_ByteSizeLong W (PbServerInfoRsp m) = map_prod id PbServerInfoRsp (ServerInfoRsp_ByteSizeLong W m)"

fun pb_InternalSerialize :: "'u wire \<Rightarrow> 'u pb_message \<Rightarrow> char list" where
  "pb_InternalSerialize W (PbSubscribeReq m) = SubscribeReq_InternalSerialize W m"
| "pb_InternalSerialize W (PbSubscribeRsp m) = SubscribeRsp_InternalSerialize W m"
| "pb_InternalSerialize W (PbHeartbeatReq m) = HeartbeatReq_InternalSerialize W m"
| "pb_InternalSerialize W (PbHeartbeatRsp m) = HeartbeatRsp_InternalSerialize W m"
| "pb_InternalSerialize W (PbCommonRsp m) = CommonRsp_InternalSerialize W m"
| "pb_InternalSerialize W (PbPingPongReq m) = PingPongReq_InternalSerialize W m"
| "pb_InternalSerialize W (PbPingPongRsp m) = PingPongRsp_InternalSerialize W m"
| "pb_InternalSerialize W (PbDaytimeReq m) = DaytimeReq_InternalSerialize W m"
| "pb_InternalSerialize W (PbDaytimeRsp m) = DaytimeRsp_InternalSerialize W m"
| "pb_InternalSerialize W (PbDiscardReq m) = DiscardReq_InternalSerialize W m"
| "pb_InternalSerialize W (PbDiscardRsp m) = DiscardRsp_InternalSerialize W m"
| "pb_InternalSerialize W (PbServerInfoPub m) = ServerInfoPub_InternalSerialize W m"
| "pb_InternalSerialize W (PbServerInfoReq m) = ServerInfoReq_InternalSerialize W m"
| "pb_InternalSerialize W (PbServerInfoRsp m) = ServerInfoRsp_InternalSerialize W m"

definition wrap_result :: "('m \<Rightarrow> 'n) \<Rightarrow> 'm parse_result option \<Rightarrow> 'n parse_result option" where
  "wrap_result f = map_option (map_option (\<lambda>(m, r). (f m, r)))"

fun pb_InternalParse :: "'u wire \<Rightarrow> 'u pb_message \<Rightarrow> char list \<Rightarrow> 'u pb_message parse_result option" where
  "pb_InternalParse W (PbSubscribeReq m) bs = wrap_result PbSubscribeReq (SubscribeReq_InternalParse W m bs)"
| "pb_InternalParse W (PbSubscribeRsp m) bs = wrap_result PbSubscribeRsp (SubscribeRsp_InternalParse W m bs)"
| "pb_InternalParse W (PbHeartbeatReq m) bs = wrap_result PbHeartbeatReq (HeartbeatReq_InternalParse W m bs)"
| "pb_InternalParse W (PbHeartbeatRsp m) bs = wrap_result PbHeartbeatRsp (HeartbeatRsp_InternalParse W m bs)"
| "pb_InternalParse W (PbCommonRsp m) bs = wrap_result PbCommonRsp (CommonRsp_InternalParse W m bs)"
| "pb_InternalParse W (PbPingPongReq m) bs = wrap_result PbPingPongReq (PingPongReq_InternalParse W m bs)"
| "pb_InternalParse W (PbPingPongRsp m) bs = wrap_result PbPingPongRsp (PingPongRsp_InternalParse W m bs)"
| "pb_InternalParse W (PbDaytimeReq m) bs = wrap_result PbDaytimeReq (DaytimeReq_InternalParse W m bs)"
| "pb_InternalParse W (PbDaytimeRsp m) bs = wrap_result PbDaytimeRsp (DaytimeRsp_InternalParse W m bs)"
| "pb_InternalParse W (PbDiscardReq m) bs = wrap_result PbDiscardReq (DiscardReq_InternalParse W m bs)"
| "pb_InternalParse W (PbDiscardRsp m) bs = wrap_result PbDiscardRsp (DiscardRsp_InternalParse W m bs)"
| "pb_InternalParse W (PbServerInfoPub m) bs = wrap_result PbServerInfoPub (ServerInfoPub_InternalParse W m bs)"
| "pb_InternalParse W (PbServerInfoReq m) bs = wrap_result PbServerInfoReq (ServerInfoReq_InternalParse W m bs)"
| "pb_InternalParse W (PbServerInfoRsp m) bs = wrap_result PbServerInfoRsp (ServerInfoRsp_InternalParse W m bs)"

fun pb_ok :: "'u wire \<Rightarrow> 'u pb_message \<Rightarrow> bool" where
  "pb_ok W (PbSubscribeReq m) = SubscribeReq_ok W m"
| "pb_ok W (PbSubscribeRsp m) = SubscribeRsp_ok W m"
| "pb_ok W (PbHeartbeatReq m) = HeartbeatReq_ok W m"
| "pb_ok W (PbHeartbeatRsp m) = HeartbeatRsp_ok W m"
| "pb_ok W (PbCommonRsp m) = CommonRsp_ok W m"
| "pb_ok W (PbPingPongReq m) = PingPongReq_ok W m"
| "pb_ok W (PbPingPongRsp m) = PingPongRsp_ok W m"
| "pb_ok W (PbDaytimeReq m) = DaytimeReq_ok W m"
| "pb_ok W (PbDaytimeRsp m) = DaytimeRsp_ok W m"
| "pb_ok W (PbDiscardReq m) = DiscardReq_ok W m"
| "pb_ok W (PbDiscardRsp m) = DiscardRsp_ok W m"
| "pb_ok W (PbServerInfoPub m) = ServerInfoPub_ok W m"
| "pb_ok W (PbServerInfoReq m) = ServerInfoReq_ok W m"
| "pb_ok W (PbServerInfoRsp m) = ServerInfoRsp_ok W m"

fun pb_uncached :: "'u pb_message \<Rightarrow> 'u pb_message" where
  "pb_uncached (PbSubscribeReq m) = PbSubscribeReq ((\<lambda>m. m\<lparr>SubscribeReq_msgtypelist_cached_byte_size := 0, SubscribeReq_cached_size := 0\<rparr>) m)"
| "pb_uncached (PbSubscribeRsp m) = PbSubscribeRsp ((\<lambda>m. m\<lparr>SubscribeRsp_cached_size := 0\<rparr>) m)"
| "pb_uncached (PbHeartbeatReq m) = PbHeartbeatReq ((\<lambda>m. m\<lparr>HeartbeatReq_cached_size := 0\<rparr>) m)"
| "pb_uncached (PbHeartbeatRsp m) = PbHeartbeatRsp ((\<lambda>m. m\<lparr>HeartbeatRsp_cached_size := 0\<rparr>) m)"
| "pb_uncached (PbCommonRsp m) = PbCommonRsp ((\<lambda>m. m\<lparr>CommonRsp_cached_size := 0\<rparr>) m)"
| "pb_uncached (PbPingPongReq m) = PbPingPongReq ((\<lambda>m. m\<lparr>PingPongReq_cached_size := 0\<rparr>) m)"
| "pb_uncached (PbPingPongRsp m) = PbPingPongRsp ((\<lambda>m. m\<lparr>PingPongRsp_cached_size := 0\<rparr>) m)"
| "pb_uncached (PbDaytimeReq m) = PbDaytimeReq ((\<lambda>m. m\<lparr>DaytimeReq_cached_size := 0\<rparr>) m)"
| "pb_uncached (PbDaytimeRsp m) = PbDaytimeRsp ((\<lambda>m. m\<lparr>DaytimeRsp_cached_size := 0\<rparr>) m)"
| "pb_uncached (PbDiscardReq m) = PbDiscardReq ((\<lambda>m. m\<lparr>DiscardReq_cached_size := 0\<rparr>) m)"
| "pb_uncached (PbDiscardRsp m) = PbDiscardRsp ((\<lambda>m. m\<lparr>DiscardRsp_cached_size := 0\<rparr>) m)"
| "pb_uncached (PbServerInfoPub m) = PbServerInfoPub ((\<lambda>m. m\<lparr>ServerInfoPub_cached_size := 0\<rparr>) m)"
| "pb_uncached (PbServerInfoReq m) = PbServerInfoReq ((\<lambda>m. m\<lparr>ServerInfoReq_cached_size := 0\<rparr>) m)"
| "pb_uncached (PbServerInfoRsp m) = PbServerInfoRsp ((\<lambda>m. m\<lparr>ServerInfoRsp_cached_size := 0\<rparr>) m)"

lemmas pb_class_facts =
  cls_SubscribeReq.roundtrip cls_SubscribeRsp.roundtrip cls_HeartbeatReq.roundtrip cls_HeartbeatRsp.roundtrip cls_CommonRsp.roundtrip cls_PingPongReq.roundtrip cls_PingPongRsp.roundtrip cls_DaytimeReq.roundtrip cls_DaytimeRsp.roundtrip cls_DiscardReq.roundtrip cls_DiscardRsp.roundtrip cls_ServerInfoPub.roundtrip cls_ServerInfoReq.roundtrip cls_ServerInfoRsp.roundtrip

lemmas pb_class_sizes =
  cls_SubscribeReq.size_exact cls_SubscribeRsp.size_exact cls_HeartbeatReq.size_exact cls_HeartbeatRsp.size_exact cls_CommonRsp.size_exact cls_PingPongReq.size_exact cls_PingPongRsp.size_exact cls_DaytimeReq.size_exact cls_DaytimeRsp.size_exact cls_DiscardReq.size_exact cls_DiscardRsp.size_exact cls_ServerInfoPub.size_exact cls_ServerInfoReq.size_exact cls_ServerInfoRsp.size_exact

lemma pb_roundtrip:
  assumes "wire_ok W" and "pb_ok W m"
  shows "pb_InternalParse W (pb_New W m) (pb_InternalSerialize W (snd (pb_ByteSizeLong W m)))
      = Some (Some (pb_uncached m, [], None))"
    and "fst (pb_ByteSizeLong W m) = length (pb_InternalSerialize W (snd (pb_ByteSizeLong W m)))"
  using assms by (cases m; simp add: wrap_result_def pb_class_facts pb_class_sizes)+

section \<open>The runtime\<close>

definition runtime_ok :: "('d, 'u pb_message) env \<Rightarrow> 'u wire \<Rightarrow> bool" where
  "runtime_ok E W \<longleftrightarrow> (\<forall>m.
     GetTypeName E m = pb_GetTypeName m \<and>
     ByteSizeLong E m = fst (pb_ByteSizeLong W m) \<and>
     SerializePartialToArray E m (ByteSizeLong E m)
       = Some (pb_InternalSerialize W (snd (pb_ByteSizeLong W m))) \<and>
     (\<exists>d p. FindMessageTypeByName E (pb_GetTypeName m) = Some d \<and> GetPrototype E d = Some p \<and>
        New E p = pb_New W m) \<and>
     (\<forall>bs m'. pb_InternalParse W (pb_New W m) bs = Some (Some (m', [], None)) \<longrightarrow>
        ParseFromArray E (pb_New W m) bs = Some m'))"

lemma pb_proto_ok:
  assumes "wire_ok W" and "runtime_ok E W" and "pb_ok W m" and "pb_uncached m = m"
  shows "proto_ok E m"
proof -
  obtain d p where "FindMessageTypeByName E (pb_GetTypeName m) = Some d" "GetPrototype E d = Some p"
    "New E p = pb_New W m"
    using assms(2) unfolding runtime_ok_def by blast
  moreover have "ParseFromArray E (pb_New W m) (pb_InternalSerialize W (snd (pb_ByteSizeLong W m)))
      = Some m"
    using assms(2,4) pb_roundtrip(1) [OF assms(1,3)] unfolding runtime_ok_def by metis
  moreover have "GetTypeName E m = pb_GetTypeName m" "ByteSizeLong E m = fst (pb_ByteSizeLong W m)"
    "SerializePartialToArray E m (ByteSizeLong E m)
       = Some (pb_InternalSerialize W (snd (pb_ByteSizeLong W m)))"
    using assms(2) unfolding runtime_ok_def by blast+
  ultimately show ?thesis
    using pb_roundtrip(2) [OF assms(1,3)] by (simp add: proto_ok_def)
qed

text \<open>
  Property C25. The generated classes meet the codec's requirement. For every message of the fourteen
  generated classes, with strings the runtime accepts and no unknown fields: the size that
  \<^verbatim>\<open>ByteSizeLong\<close> computes is the number of bytes \<^verbatim>\<open>_InternalSerialize\<close> writes, and parsing these
  bytes into a new message of the class that is registered under its type name gives the message
  back (up to the cached sizes). So the hypothesis \<open>proto_ok\<close> of the round trips holds for them.
\<close>

theorem generated_messages_roundtrip:
  assumes "wire_ok W" and "runtime_ok E W" and "pb_ok W m" and "pb_uncached m = m"
  shows "proto_ok E m"
  by (rule pb_proto_ok [OF assms])

text \<open>An environment that uses the generated code as the runtime does.\<close>

definition pb_registry :: "'u wire \<Rightarrow> 'u pb_message list" where
  "pb_registry W =
     [PbSubscribeReq (SubscribeReq_new W), PbSubscribeRsp (SubscribeRsp_new W),
      PbHeartbeatReq (HeartbeatReq_new W), PbHeartbeatRsp (HeartbeatRsp_new W),
      PbCommonRsp (CommonRsp_new W), PbPingPongReq (PingPongReq_new W),
      PbPingPongRsp (PingPongRsp_new W), PbDaytimeReq (DaytimeReq_new W),
      PbDaytimeRsp (DaytimeRsp_new W), PbDiscardReq (DiscardReq_new W),
      PbDiscardRsp (DiscardRsp_new W), PbServerInfoPub (ServerInfoPub_new W),
      PbServerInfoReq (ServerInfoReq_new W), PbServerInfoRsp (ServerInfoRsp_new W)]"

definition pb_env :: "('d, 'm) env \<Rightarrow> 'u wire \<Rightarrow> ('u pb_message, 'u pb_message) env" where
  "pb_env E W =
     \<lparr>MSGBUS = MSGBUS E, s_enableCompressSize = s_enableCompressSize E,
      host_to_network_short = host_to_network_short E, network_to_host_short = network_to_host_short E,
      host_to_network_long = host_to_network_long E, network_to_host_long = network_to_host_long E,
      FindMessageTypeByName = (\<lambda>n. find (\<lambda>m. pb_GetTypeName m = n) (pb_registry W)),
      GetPrototype = Some, New = pb_New W, GetTypeName = pb_GetTypeName,
      ByteSizeLong = (\<lambda>m. fst (pb_ByteSizeLong W m)),
      SerializePartialToArray = (\<lambda>m n. Some (pb_InternalSerialize W (snd (pb_ByteSizeLong W m)))),
      ParseFromArray = (\<lambda>m bs. case pb_InternalParse W (pb_New W m) bs of
         Some (Some (m', [], None)) \<Rightarrow> Some m' | _ \<Rightarrow> None),
      compressBound = compressBound E, compress = compress E, uncompress = uncompress E\<rparr>"

lemmas pb_names =
  SubscribeReq_FullMessageName_def SubscribeRsp_FullMessageName_def HeartbeatReq_FullMessageName_def
  HeartbeatRsp_FullMessageName_def CommonRsp_FullMessageName_def PingPongReq_FullMessageName_def
  PingPongRsp_FullMessageName_def DaytimeReq_FullMessageName_def DaytimeRsp_FullMessageName_def
  DiscardReq_FullMessageName_def DiscardRsp_FullMessageName_def ServerInfoPub_FullMessageName_def
  ServerInfoReq_FullMessageName_def ServerInfoRsp_FullMessageName_def

lemma pb_registered: "find (\<lambda>m'. pb_GetTypeName m' = pb_GetTypeName m) (pb_registry W) = Some (pb_New W m)"
  by (cases m) (simp_all add: pb_registry_def pb_names)

lemma pb_New_New [simp]: "pb_New W (pb_New W m) = pb_New W m"
  by (cases m) simp_all

lemma pb_env_runtime_ok: "runtime_ok (pb_env E W) W"
  by (auto simp: runtime_ok_def pb_env_def pb_registered)

theorem generated_messages_roundtrip_witness:
  "proto_ok (pb_env (sample_env False 3) sample_wire)
     (PbSubscribeReq ((SubscribeReq_new sample_wire)\<lparr>SubscribeReq_type_v := 1,
        SubscribeReq_msgtypelist_v := [2, 3], SubscribeReq_typenamelist_v := [''A'', ''B'']\<rparr>))"
  by (rule generated_messages_roundtrip [OF sample_wire_ok pb_env_runtime_ok])
    (simp_all add: SubscribeReq_ok_def SubscribeReq_new_def wr_packed_def wr_word_def
      varint.simps)

end
