(* ===== verification/Sample_Pb.thy ===== *)
theory Sample_Pb
  imports Session Pb_Messages
begin

text \<open>
  A concrete environment over the generated message classes, and a few messages and packages: the
  witnesses of the server, the client and the bus are evaluated with them.
\<close>

text \<open>The environment of the witnesses: the generated classes, no compression.\<close>

definition pb_demo :: "(unit pb_message, unit pb_message) env" where
  "pb_demo = pb_env (sample_env False (-1)) sample_wire"

lemma pb_demo_ok: "net_order_ok pb_demo" "zlib_ok pb_demo"
  using sample_env_net [of False "-1"] sample_env_zlib [of False "-1"]
  by (simp_all add: pb_demo_def pb_env_def net_order_ok_def zlib_ok_def)

lemma pb_demo_proto: "pb_ok sample_wire m \<Longrightarrow> pb_uncached m = m \<Longrightarrow> proto_ok pb_demo m"
  unfolding pb_demo_def proto_ok_def
  using pb_roundtrip [OF sample_wire_ok, of m] pb_registered [of m sample_wire]
  by (auto simp: pb_env_def)

lemma pb_demo_fields [simp]:
  "MSGBUS pb_demo = False" "s_enableCompressSize pb_demo = -1" "GetTypeName pb_demo = pb_GetTypeName"
  "ByteSizeLong pb_demo m = fst (pb_ByteSizeLong sample_wire m)"
  "SerializePartialToArray pb_demo m n
     = Some (pb_InternalSerialize sample_wire (snd (pb_ByteSizeLong sample_wire m)))"
  by (simp_all add: pb_demo_def pb_env_def)

definition demo_rsp :: "unit pb_message" where
  "demo_rsp = PbSubscribeRsp (SubscribeRsp_set_errorcode 0 (SubscribeRsp_new sample_wire))"

definition demo_req :: "unit SubscribeReq" where
  "demo_req = (SubscribeReq_new sample_wire)\<lparr>SubscribeReq_type_v := 1,
     SubscribeReq_msgtypelist_v := [2, 3], SubscribeReq_typenamelist_v := [''A'', ''B'']\<rparr>"

definition demo_req_package :: "unit pb_message Package" where
  "demo_req_package = \<lparr>header = PacHeader_new\<lparr>msgType := REQREP, msgId := 9\<rparr>,
     typeName = SubscribeReq_FullMessageName, body = [], msgPtr = Some (PbSubscribeReq demo_req)\<rparr>"

lemma demo_rsp_ok:
  "proto_ok pb_demo demo_rsp" "sendable pb_demo (reply_package pb_demo demo_req_package demo_rsp) demo_rsp"
proof -
  show "proto_ok pb_demo demo_rsp"
    by (rule pb_demo_proto) (simp_all add: demo_rsp_def SubscribeRsp_ok_def
        SubscribeRsp_set_errorcode_def SubscribeRsp_new_def)
  show "sendable pb_demo (reply_package pb_demo demo_req_package demo_rsp) demo_rsp"
    by (simp add: sendable_def reply_package_def demo_rsp_def demo_req_package_def
        SubscribeRsp_FullMessageName_def PacHeader_new_def iszip_def encode_content_def
        enableCompressSize_def kPackageHeaderSize_def kMaxPackageLen_def SubscribeRsp_ByteSizeLong_def
        SubscribeRsp_InternalSerialize_def SubscribeRsp_set_errorcode_def SubscribeRsp_new_def
        SubscribeRsp_errorcode_def)
qed

lemma demo_rsp_publishable: "\<forall>n. sendable pb_demo (publish_package pb_demo n demo_rsp) demo_rsp"
  by (simp add: sendable_def publish_package_def demo_rsp_def SubscribeRsp_FullMessageName_def
      PacHeader_new_def iszip_def encode_content_def
      enableCompressSize_def kPackageHeaderSize_def kMaxPackageLen_def SubscribeRsp_ByteSizeLong_def
      SubscribeRsp_InternalSerialize_def SubscribeRsp_set_errorcode_def SubscribeRsp_new_def
      SubscribeRsp_errorcode_def)

end
