(* ===== verification/AsioServer.thy ===== *)
theory AsioServer
  imports SessionRoom TaskManager Sample_Pb
begin

text \<open>
  The server, \<^verbatim>\<open>asio/internal/AsioServer.cpp\<close>: it accepts connections, registers the handlers of the
  library's own messages and passes publications to the room. Its state is the room, the session
  objects, the counter for session ids, the table of the message bus (unused outside of it) and the
  effects the sessions have asked for, in order. A session is referred to by its id.
\<close>

section \<open>State\<close>

datatype 'h task = DoSubscribe | DoHeartbeat | PreHandle | UserTask 'h

record 'u core =
  room :: "int room"
  sessions :: "int \<rightharpoonup> session"
  sessionIdInc :: int
  outbox :: "(int \<times> 'u pb_message effect) list"
  msgSessionCache :: "int \<rightharpoonup> int"

definition core_new :: "'u core" where
  "core_new = \<lparr>room = SessionRoom_new, sessions = Map.empty, sessionIdInc = s_sessionIdInc_init,
     outbox = [], msgSessionCache = Map.empty\<rparr>"

definition emit :: "int \<Rightarrow> 'u pb_message effect list \<Rightarrow> 'u core \<Rightarrow> 'u core" where
  "emit i effs c = c\<lparr>outbox := outbox c @ map (Pair i) effs\<rparr>"

section \<open>Start and accept\<close>

definition AsioServer_addHandleMessage ::
    "string \<Rightarrow> 'h task \<Rightarrow> ('h task, 'm) taskManager \<Rightarrow> ('h task, 'm) taskManager" where
  "AsioServer_addHandleMessage protoName task tm = addHandleTask protoName task tm"

definition AsioServer_setPreHandleTask ::
    "'h task option \<Rightarrow> ('h task, 'm) taskManager \<Rightarrow> ('h task, 'm) taskManager" where
  "AsioServer_setPreHandleTask task tm = setPreHandleTask task tm"

definition AsioServer_init :: "('h task, 'm) taskManager \<Rightarrow> ('h task, 'm) taskManager" where
  "AsioServer_init tm =
     AsioServer_addHandleMessage HeartbeatReq_FullMessageName DoHeartbeat
       (AsioServer_addHandleMessage SubscribeReq_FullMessageName DoSubscribe tm)"

definition AsioServer_new :: "nat \<Rightarrow> nat \<Rightarrow> (('h task, 'm) taskManager \<times> 'u core) result" where
  "AsioServer_new workSize poolSize =
     rbind (TaskManager_new workSize poolSize) (\<lambda>tm. Inr (AsioServer_init tm, core_new))"

text \<open>
  The event loop of the server: whether it has been stopped, and whether \<^verbatim>\<open>runthread_\<close> is joinable.
  \<^verbatim>\<open>run\<close> executes the handlers until it is stopped, and returns at once when it is. Assigning a
  joinable thread, and destroying it, ends the program.
\<close>

record io_service =
  io_stopped :: bool
  runthread_joinable :: bool

definition io_service_new :: io_service where
  "io_service_new = \<lparr>io_stopped = False, runthread_joinable = False\<rparr>"

definition AsioServer_asyncRun :: "io_service \<Rightarrow> io_service result" where
  "AsioServer_asyncRun io =
     (if runthread_joinable io then Inl Terminate else Inr (io\<lparr>runthread_joinable := True\<rparr>))"

definition AsioServer_isRunning :: "io_service \<Rightarrow> bool" where
  "AsioServer_isRunning io = (\<not> io_stopped io)"

definition AsioServer_stop :: "io_service \<Rightarrow> io_service" where
  "AsioServer_stop io =
     (if \<not> io_stopped io then
        (let io1 = io\<lparr>io_stopped := True\<rparr>
         in if runthread_joinable io1 then io1\<lparr>runthread_joinable := False\<rparr> else io1)
      else io)"

text \<open>The handlers are those that become ready until the loop is stopped.\<close>

definition AsioServer_run :: "io_service \<Rightarrow> ('s \<Rightarrow> 's) list \<Rightarrow> 's \<Rightarrow> 's" where
  "AsioServer_run io handlers s = (if io_stopped io then s else fold (\<lambda>h. h) handlers s)"

definition AsioServer_delete :: "io_service \<Rightarrow> unit result" where
  "AsioServer_delete io = (if runthread_joinable io then Inl Terminate else Inr ())"

text \<open>
  Only a server that has been stopped, by \<^verbatim>\<open>stop\<close> and before its event loop has ended in another way, can
  be destroyed after \<^verbatim>\<open>asyncRun\<close>: the destructor does not join the thread, and \<^verbatim>\<open>stop\<close> does not when the
  loop is stopped already.
\<close>

lemma asyncRun_delete:
  assumes "AsioServer_asyncRun io = Inr io'"
  shows "AsioServer_delete io' = Inl Terminate"
    and "\<not> io_stopped io' \<Longrightarrow> AsioServer_delete (AsioServer_stop io') = Inr ()"
    and "AsioServer_delete (AsioServer_stop (io'\<lparr>io_stopped := True\<rparr>)) = Inl Terminate"
  using assms by (auto simp: AsioServer_asyncRun_def AsioServer_delete_def AsioServer_stop_def split: if_splits)

text \<open>What the room does for a session that starts or ends.\<close>

fun room_effect :: "int \<Rightarrow> 'm effect \<Rightarrow> int room \<Rightarrow> int room" where
  "room_effect i RoomJoin r = SessionRoom_join id (Some i) r"
| "room_effect i RoomLeave r = SessionRoom_leave id (Some i) r"
| "room_effect i _ r = r"

text \<open>The completion handler of \<^verbatim>\<open>async_accept\<close>, which starts the next accept in either case.\<close>

definition startAccept ::
    "bool \<Rightarrow> bool \<Rightarrow> (string \<times> nat) option \<Rightarrow> 'u core \<Rightarrow> 'u core result" where
  "startAccept ec is_open remote_endpoint c =
     (if \<not> ec then
        rbind (Session_new (sessionIdInc c)) (\<lambda>(s, inc').
          (let (s', effs) = Session_start is_open remote_endpoint s
           in Inr (emit (sessionId s') effs
                (c\<lparr>room := fold (room_effect (sessionId s')) effs (room c),
                   sessions := (sessions c)(sessionId s' \<mapsto> s'), sessionIdInc := inc'\<rparr>))))
      else Inr c)"

section \<open>Handlers of the library's messages\<close>

definition subscribe_entry ::
    "int \<Rightarrow> 'u SubscribeReq \<Rightarrow> int \<Rightarrow> int room \<Rightarrow> int room result" where
  "subscribe_entry i msg k r =
     rbind (SubscribeReq_typenamelist k msg) (\<lambda>name.
     rbind (SubscribeReq_msgtypelist k msg) (\<lambda>msgtype.
       if SubscribeReq_type msg = 1 then Inr (addSubscribe i (sint msgtype) name r)
       else Inr (delSubscribe i (sint msgtype) name r)))"

fun subscribe_loop ::
    "int \<Rightarrow> 'u SubscribeReq \<Rightarrow> int list \<Rightarrow> int room \<Rightarrow> int room result" where
  "subscribe_loop i msg [] r = Inr r"
| "subscribe_loop i msg (k # ks) r =
     rbind (subscribe_entry i msg k r) (\<lambda>r'. subscribe_loop i msg ks r')"

definition doSubscribe ::
    "('d, 'u pb_message) env \<Rightarrow> 'u wire \<Rightarrow> int \<Rightarrow> 'u pb_message Package \<Rightarrow> 'u core \<Rightarrow> 'u core result" where
  "doSubscribe E W i req c =
     (case msgPtr req of
        None \<Rightarrow> Inl NullDeref
      | Some (PbSubscribeReq msg) \<Rightarrow>
          if SubscribeReq_typenamelist_size msg \<noteq> SubscribeReq_msgtypelist_size msg then Inr c
          else rbind (subscribe_loop i msg [0..SubscribeReq_typenamelist_size msg - 1] (room c)) (\<lambda>r.
            rbind (Session_replyMessage E (Some req)
                (Some (PbSubscribeRsp (SubscribeRsp_set_errorcode 0 (SubscribeRsp_new W))))) (\<lambda>effs.
              Inr (emit i effs (c\<lparr>room := r\<rparr>))))
      | Some _ \<Rightarrow> Inl BadCast)"

text \<open>\<^verbatim>\<open>util::currentMillisecond\<close> is the argument \<open>now\<close>.\<close>

definition doHeartbeat ::
    "('d, 'u pb_message) env \<Rightarrow> 'u wire \<Rightarrow> int \<Rightarrow> int \<Rightarrow> 'u pb_message Package \<Rightarrow> 'u core \<Rightarrow> 'u core result" where
  "doHeartbeat E W now i req c =
     rbind (Session_replyMessage E (Some req)
         (Some (PbHeartbeatRsp (HeartbeatRsp_set_servertime (word_of_int now) (HeartbeatRsp_new W)))))
       (\<lambda>effs. Inr (emit i effs c))"

section \<open>Publishing and delivering\<close>

text \<open>
  The calls of the room on the sessions. A package that is delivered is one object shared by all
  sessions, and \<^verbatim>\<open>encode\<close> updates it: each session gets it as the previous one left it.
\<close>

fun publish_calls ::
    "('d, 'u pb_message) env \<Rightarrow> (int, 'u pb_message) call list \<Rightarrow> 'u core \<Rightarrow> 'u core result" where
  "publish_calls E [] c = Inr c"
| "publish_calls E (CallPublishMessage i msg # calls) c =
     (case sessions c i of
        None \<Rightarrow> Inl NullDeref
      | Some s \<Rightarrow> rbind (Session_publishMessage E (Some msg) s) (\<lambda>(s', effs).
          publish_calls E calls (emit i effs (c\<lparr>sessions := (sessions c)(i \<mapsto> s')\<rparr>))))"
| "publish_calls E (CallDeliverPackage i pac # calls) c = publish_calls E calls c"

definition AsioServer_publishMessage ::
    "('d, 'u pb_message) env \<Rightarrow> 'u pb_message option \<Rightarrow> 'u core \<Rightarrow> 'u core result" where
  "AsioServer_publishMessage E msg c =
     rbind (SessionRoom_publishMessage E msg (room c)) (\<lambda>calls. publish_calls E calls c)"

fun deliver_calls ::
    "('d, 'm) env \<Rightarrow> 'm Package \<Rightarrow> int list \<Rightarrow> ('m Package \<times> (int \<times> 'm effect) list) result" where
  "deliver_calls E pac [] = Inr (pac, [])"
| "deliver_calls E pac (i # is) =
     rbind (Session_deliverPackage E pac) (\<lambda>(pac', effs).
     rbind (deliver_calls E pac' is) (\<lambda>(pac'', out). Inr (pac'', map (Pair i) effs @ out)))"

definition AsioServer_deliverPackage ::
    "('d, 'u pb_message) env \<Rightarrow> 'u pb_message Package \<Rightarrow> 'u core \<Rightarrow>
     ('u pb_message Package \<times> 'u core) result" where
  "AsioServer_deliverPackage E pac c =
     rbind (deliver_calls E pac (map callee (SessionRoom_deliverPackage pac (room c)))) (\<lambda>(pac', out).
       Inr (pac', c\<lparr>outbox := outbox c @ out\<rparr>))"

definition AsioServer_deliverPackage_to ::
    "('d, 'u pb_message) env \<Rightarrow> int \<Rightarrow> 'u pb_message Package \<Rightarrow> 'u core \<Rightarrow>
     ('u pb_message Package \<times> 'u core) result" where
  "AsioServer_deliverPackage_to E i pac c =
     rbind (deliver_calls E pac (map callee (snd (SessionRoom_deliverPackage_to i pac (room c)))))
       (\<lambda>(pac', out). Inr (pac', c\<lparr>outbox := outbox c @ out\<rparr>))"

section \<open>Subscription requests\<close>

text \<open>The entries of a request, and their effect on the room.\<close>

definition sub_entries :: "'u SubscribeReq \<Rightarrow> (string \<times> int32) list" where
  "sub_entries msg = zip (SubscribeReq_typenamelist_v msg) (SubscribeReq_msgtypelist_v msg)"

definition apply_entry :: "bool \<Rightarrow> int \<Rightarrow> string \<times> int32 \<Rightarrow> 'p room \<Rightarrow> 'p room" where
  "apply_entry add i e r =
     (if add then addSubscribe i (sint (snd e)) (fst e) r else delSubscribe i (sint (snd e)) (fst e) r)"

definition listed :: "int16 \<Rightarrow> 'u SubscribeReq \<Rightarrow> string set" where
  "listed kind msg = {n. \<exists>mt. (n, mt) \<in> set (sub_entries msg) \<and> sint mt = sint kind}"

lemma subscribe_entry_ok:
  assumes "k < length (SubscribeReq_typenamelist_v msg)" "k < length (SubscribeReq_msgtypelist_v msg)"
  shows "subscribe_entry i msg (int k) r
    = Inr (apply_entry (SubscribeReq_type msg = 1) i (sub_entries msg ! k) r)"
  using assms by (simp add: subscribe_entry_def SubscribeReq_typenamelist_def
      SubscribeReq_msgtypelist_def apply_entry_def sub_entries_def)

lemma subscribe_loop_ok:
  assumes "\<forall>k \<in> set ks. k < length (sub_entries msg)"
  shows "subscribe_loop i msg (map int ks) r
    = Inr (fold (apply_entry (SubscribeReq_type msg = 1) i) (map (nth (sub_entries msg)) ks) r)"
  using assms
proof (induction ks arbitrary: r)
  case (Cons k ks)
  then have "k < length (SubscribeReq_typenamelist_v msg)" "k < length (SubscribeReq_msgtypelist_v msg)"
    by (auto simp: sub_entries_def)
  from subscribe_entry_ok [OF this] Cons show ?case by simp
qed simp

lemma subscribe_all:
  assumes "length (SubscribeReq_typenamelist_v msg) = length (SubscribeReq_msgtypelist_v msg)"
    and "length (SubscribeReq_typenamelist_v msg) < 2 ^ 31"
  shows "subscribe_loop i msg [0..SubscribeReq_typenamelist_size msg - 1] r
    = Inr (fold (apply_entry (SubscribeReq_type msg = 1) i) (sub_entries msg) r)"
proof -
  let ?n = "length (sub_entries msg)"
  have n: "SubscribeReq_typenamelist_size msg = int ?n"
    using assms by (simp add: SubscribeReq_typenamelist_size_def sub_entries_def wrap32_id)
  have "[0..int ?n - 1] = map int [0..<?n]"
    by (rule nth_equalityI) simp_all
  moreover have "map (nth (sub_entries msg)) [0..<?n] = sub_entries msg" by (rule map_nth)
  ultimately show ?thesis using subscribe_loop_ok [of "[0..<?n]" msg i r] by (simp add: n)
qed

lemma apply_entries_members:
  "cached_ids (subscribeCache (fold (apply_entry add i) es r)) n =
     (let hit = \<exists>mt. (n, mt) \<in> set es \<and> sint mt = sint PUBSUB
      in if \<not> hit then cached_ids (subscribeCache r) n
         else if add then insert i (cached_ids (subscribeCache r) n)
         else cached_ids (subscribeCache r) n - {i})"
  "cached_ids (deliverCache (fold (apply_entry add i) es r)) n =
     (let hit = \<exists>mt. (n, mt) \<in> set es \<and> sint mt = sint DELIVER
      in if \<not> hit then cached_ids (deliverCache r) n
         else if add then insert i (cached_ids (deliverCache r) n)
         else cached_ids (deliverCache r) n - {i})"
  "sessionCache (fold (apply_entry add i) es r) = sessionCache r"
proof -
  have kinds: "sint PUBSUB \<noteq> sint DELIVER" by (simp add: PUBSUB_def DELIVER_def)
  note step = apply_entry_def addSubscribe_def delSubscribe_def st.add_members st.del_members
  show "cached_ids (subscribeCache (fold (apply_entry add i) es r)) n =
     (let hit = \<exists>mt. (n, mt) \<in> set es \<and> sint mt = sint PUBSUB
      in if \<not> hit then cached_ids (subscribeCache r) n
         else if add then insert i (cached_ids (subscribeCache r) n)
         else cached_ids (subscribeCache r) n - {i})"
    by (induction es arbitrary: r) (auto simp: step Let_def)
  show "cached_ids (deliverCache (fold (apply_entry add i) es r)) n =
     (let hit = \<exists>mt. (n, mt) \<in> set es \<and> sint mt = sint DELIVER
      in if \<not> hit then cached_ids (deliverCache r) n
         else if add then insert i (cached_ids (deliverCache r) n)
         else cached_ids (deliverCache r) n - {i})"
    using kinds by (induction es arbitrary: r) (auto simp: step Let_def)
  show "sessionCache (fold (apply_entry add i) es r) = sessionCache r"
    by (induction es arbitrary: r) (simp_all add: step)
qed

lemma doSubscribe_changes:
  assumes "msgPtr req = Some (PbSubscribeReq msg)"
    and "length (SubscribeReq_typenamelist_v msg) = length (SubscribeReq_msgtypelist_v msg)"
    and "length (SubscribeReq_typenamelist_v msg) < 2 ^ 31"
    and "rsp = PbSubscribeRsp (SubscribeRsp_set_errorcode 0 (SubscribeRsp_new W))"
    and "net_order_ok E" and "zlib_ok E" and "proto_ok E rsp" and "sendable E (reply_package E req rsp) rsp"
  shows "\<exists>c' b. doSubscribe E W i req c = Inr c' \<and>
    (\<forall>n. cached_ids (subscribeCache (room c')) n =
      (if n \<notin> listed PUBSUB msg then cached_ids (subscribeCache (room c)) n
       else if SubscribeReq_type msg = 1 then insert i (cached_ids (subscribeCache (room c)) n)
       else cached_ids (subscribeCache (room c)) n - {i})) \<and>
    (\<forall>n. cached_ids (deliverCache (room c')) n =
      (if n \<notin> listed DELIVER msg then cached_ids (deliverCache (room c)) n
       else if SubscribeReq_type msg = 1 then insert i (cached_ids (deliverCache (room c)) n)
       else cached_ids (deliverCache (room c)) n - {i})) \<and>
    sessionCache (room c') = sessionCache (room c) \<and>
    outbox c' = outbox c @ [(i, PostWriteBuffer b)] \<and>
    is_frame E (contents b) (received E (reply_package E req rsp) rsp) \<and>
    msgId (header (received E (reply_package E req rsp) rsp)) = msgId (header req) \<and>
    msgType (header (received E (reply_package E req rsp) rsp)) = msgType (header req)"
proof -
  obtain p' b where b: "Session_postPackage E (reply_package E req rsp) = Inr (p', [PostWriteBuffer b])"
    "is_frame E (contents b) (received E (reply_package E req rsp) rsp)"
    using postPackage_sendable [OF assms(5-8)] .
  let ?r = "fold (apply_entry (SubscribeReq_type msg = 1) i) (sub_entries msg) (room c)"
  have size: "SubscribeReq_typenamelist_size msg = SubscribeReq_msgtypelist_size msg"
    using assms(2) by (simp add: SubscribeReq_typenamelist_size_def SubscribeReq_msgtypelist_size_def)
  have "doSubscribe E W i req c = Inr (emit i [PostWriteBuffer b] (c\<lparr>room := ?r\<rparr>))"
    using assms(1) b(1) subscribe_all [OF assms(2,3), of i "room c"] size
    by (simp add: doSubscribe_def Session_replyMessage_def assms(4))
  moreover have "room (emit i [PostWriteBuffer b] (c\<lparr>room := ?r\<rparr>)) = ?r"
    "outbox (emit i [PostWriteBuffer b] (c\<lparr>room := ?r\<rparr>)) = outbox c @ [(i, PostWriteBuffer b)]"
    by (simp_all add: emit_def)
  moreover have "msgId (header (received E (reply_package E req rsp) rsp)) = msgId (header req)"
    "msgType (header (received E (reply_package E req rsp) rsp)) = msgType (header req)"
    by (simp_all add: received_def reply_package_def)
  ultimately show ?thesis
    using b(2) by (auto simp: apply_entries_members listed_def Let_def)
qed

text \<open>
  Property C17. Subscription requests. A request whose two lists have the same length changes exactly
  the subscriptions of its own session: for type 1 the session is entered, for any other type
  removed, under exactly the names listed with the publish kind in the publish table and the names
  listed with the deliver kind in the deliver table; entries of other kinds are ignored. The session
  then gets exactly one reply, a \<^verbatim>\<open>SubscribeRsp\<close> with error code 0 that carries the message type and
  id of the request.
\<close>

theorem doSubscribe_correct:
  assumes "msgPtr req = Some (PbSubscribeReq msg)"
    and "length (SubscribeReq_typenamelist_v msg) = length (SubscribeReq_msgtypelist_v msg)"
    and "length (SubscribeReq_typenamelist_v msg) < 2 ^ 31"
    and "rsp = PbSubscribeRsp (SubscribeRsp_set_errorcode 0 (SubscribeRsp_new W))"
    and "net_order_ok E" and "zlib_ok E" and "proto_ok E rsp" and "sendable E (reply_package E req rsp) rsp"
  shows "\<exists>c' b. doSubscribe E W i req c = Inr c' \<and>
    (\<forall>n. cached_ids (subscribeCache (room c')) n =
      (if n \<notin> listed PUBSUB msg then cached_ids (subscribeCache (room c)) n
       else if SubscribeReq_type msg = 1 then insert i (cached_ids (subscribeCache (room c)) n)
       else cached_ids (subscribeCache (room c)) n - {i})) \<and>
    (\<forall>n. cached_ids (deliverCache (room c')) n =
      (if n \<notin> listed DELIVER msg then cached_ids (deliverCache (room c)) n
       else if SubscribeReq_type msg = 1 then insert i (cached_ids (deliverCache (room c)) n)
       else cached_ids (deliverCache (room c)) n - {i})) \<and>
    sessionCache (room c') = sessionCache (room c) \<and>
    outbox c' = outbox c @ [(i, PostWriteBuffer b)] \<and>
    is_frame E (contents b) (received E (reply_package E req rsp) rsp) \<and>
    msgId (header (received E (reply_package E req rsp) rsp)) = msgId (header req) \<and>
    msgType (header (received E (reply_package E req rsp) rsp)) = msgType (header req)"
  by (rule doSubscribe_changes [OF assms])

theorem doSubscribe_correct_witness:
  "\<exists>c' b. doSubscribe pb_demo sample_wire 5 demo_req_package core_new = Inr c' \<and>
     cached_ids (subscribeCache (room c')) ''A'' = {5} \<and> cached_ids (deliverCache (room c')) ''B'' = {5}
     \<and> outbox c' = [(5, PostWriteBuffer b)]"
proof -
  have l: "''A'' \<in> listed PUBSUB demo_req" "''B'' \<in> listed DELIVER demo_req"
    by (auto simp: listed_def sub_entries_def demo_req_def PUBSUB_def DELIVER_def)
  have "msgPtr demo_req_package = Some (PbSubscribeReq demo_req)" "SubscribeReq_type demo_req = 1"
    "length (SubscribeReq_typenamelist_v demo_req) = length (SubscribeReq_msgtypelist_v demo_req)"
    "length (SubscribeReq_typenamelist_v demo_req) < 2 ^ 31"
    by (simp_all add: demo_req_package_def demo_req_def SubscribeReq_type_def)
  note h = this
  obtain c' b where c: "doSubscribe pb_demo sample_wire 5 demo_req_package core_new = Inr c'"
    "\<forall>n. cached_ids (subscribeCache (room c')) n =
      (if n \<notin> listed PUBSUB demo_req then cached_ids (subscribeCache (room (core_new :: unit core))) n
       else if SubscribeReq_type demo_req = 1 then insert 5 (cached_ids (subscribeCache (room (core_new :: unit core))) n)
       else cached_ids (subscribeCache (room (core_new :: unit core))) n - {5})"
    "\<forall>n. cached_ids (deliverCache (room c')) n =
      (if n \<notin> listed DELIVER demo_req then cached_ids (deliverCache (room (core_new :: unit core))) n
       else if SubscribeReq_type demo_req = 1 then insert 5 (cached_ids (deliverCache (room (core_new :: unit core))) n)
       else cached_ids (deliverCache (room (core_new :: unit core))) n - {5})"
    "outbox c' = outbox core_new @ [(5, PostWriteBuffer b)]"
    using doSubscribe_correct [OF h(1,3,4) demo_rsp_def pb_demo_ok demo_rsp_ok, of 5 core_new] by blast
  from spec [OF c(2), of "''A''"] spec [OF c(3), of "''B''"] l h(2) c(1,4)
  show ?thesis by (simp add: core_new_def SessionRoom_new_def cached_ids_def)
qed

text \<open>
  A subscription request whose lists differ in length is dropped: the room is unchanged
  and no reply is sent, so that its sender only notices by its own time-out.
\<close>

theorem doSubscribe_size_mismatch:
  assumes "msgPtr req = Some (PbSubscribeReq msg)"
    and "length (SubscribeReq_typenamelist_v msg) < 2 ^ 31" "length (SubscribeReq_msgtypelist_v msg) < 2 ^ 31"
  shows "length (SubscribeReq_typenamelist_v msg) \<noteq> length (SubscribeReq_msgtypelist_v msg)
    \<longrightarrow> doSubscribe E W i req c = Inr c"
  using assms by (simp add: doSubscribe_def SubscribeReq_typenamelist_size_def
      SubscribeReq_msgtypelist_size_def wrap32_id)

theorem doSubscribe_size_mismatch_witness:
  "doSubscribe pb_demo sample_wire 5 (demo_req_package\<lparr>msgPtr := Some (PbSubscribeReq
      (demo_req\<lparr>SubscribeReq_msgtypelist_v := [2]\<rparr>))\<rparr>) core_new = Inr core_new"
  using doSubscribe_size_mismatch [of "demo_req_package\<lparr>msgPtr := Some (PbSubscribeReq
      (demo_req\<lparr>SubscribeReq_msgtypelist_v := [2]\<rparr>))\<rparr>" _ pb_demo sample_wire 5 core_new]
  by (simp add: demo_req_def)

section \<open>One package for many sessions\<close>

lemma set_iszip_again: "iszip h \<Longrightarrow> set_iszip True h = h"
proof -
  have "bit x 0 \<Longrightarrow> set_bit 0 x = x" for x :: int16
    by (rule bit_word_eqI) (auto simp: bit_set_bit_iff)
  then show "iszip h \<Longrightarrow> set_iszip True h = h" by (cases h) (simp add: set_iszip_def iszip_def)
qed

lemma encode_content_again:
  assumes "encode_content E content h = (h1, content')" and "extInfo h2 = extInfo h1"
  shows "encode_content E content h2 = (h2, content')"
  using assms set_iszip_again [of h2] iszip_set_iszip(1) [of True h]
  by (auto simp: encode_content_def iszip_def split: if_splits sum.splits)

lemma encode_again:
  assumes "encode E pac b = Inr (True, pac', b')"
    and "\<forall>m. msgPtr pac = Some m \<longrightarrow> typeName pac = GetTypeName E m"
  shows "encode E pac' b = Inr (True, pac', b')"
  using assms
  by (auto simp: encode_def rbind_eq_Inr Let_def encode_content_again split: if_splits option.splits prod.splits)

lemma deliver_calls_same:
  assumes "Session_postPackage E pac = Inr (pac', [PostWriteBuffer b])"
    and "\<forall>m. msgPtr pac = Some m \<longrightarrow> typeName pac = GetTypeName E m"
  shows "\<exists>pac''. deliver_calls E pac is = Inr (pac'', map (\<lambda>i. (i, PostWriteBuffer b)) is)"
proof (cases "is")
  case (Cons i js)
  have again: "Session_postPackage E pac' = Inr (pac', [PostWriteBuffer b])"
    using assms encode_again [of E pac _ pac' b]
    by (auto simp: Session_postPackage_def rbind_eq_Inr split: if_splits)
  have "deliver_calls E pac' js = Inr (pac', map (\<lambda>i. (i, PostWriteBuffer b)) js)"
    by (induction js) (simp_all add: Session_deliverPackage_def again)
  with assms(1) Cons show ?thesis by (simp add: Session_deliverPackage_def)
qed simp

lemma deliver_callees:
  "map callee (SessionRoom_deliverPackage pac r)
    = live_publishers r (cached_ids (deliverCache r) (typeName pac))"
  by (simp add: SessionRoom_deliverPackage_def Let_def comp_def)

text \<open>
  Property C28. One package for many sessions. A delivered package is one object that each receiving
  session encodes in turn, and encoding rewrites its header, the compression flag included. All
  receivers nevertheless get the same bytes, and these decode to the package; nobody else gets
  anything, and the room is not changed.
\<close>

theorem broadcast_same_frame:
  assumes "net_order_ok E" and "zlib_ok E" and "proto_ok E m" and "sendable E pac m"
  shows "\<exists>pac' b. AsioServer_deliverPackage E pac c = Inr (pac', c\<lparr>outbox := outbox c @
      map (\<lambda>i. (i, PostWriteBuffer b))
        (live_publishers (room c) (cached_ids (deliverCache (room c)) (typeName pac)))\<rparr>) \<and>
    is_frame E (contents b) (received E pac m)"
proof -
  obtain p' b where b: "Session_postPackage E pac = Inr (p', [PostWriteBuffer b])"
    "is_frame E (contents b) (received E pac m)"
    using postPackage_sendable [OF assms] .
  have "\<forall>m. msgPtr pac = Some m \<longrightarrow> typeName pac = GetTypeName E m"
    using assms(4) by (simp add: sendable_def)
  from deliver_calls_same [OF b(1) this]
  obtain p'' where "deliver_calls E pac
      (live_publishers (room c) (cached_ids (deliverCache (room c)) (typeName pac)))
    = Inr (p'', map (\<lambda>i. (i, PostWriteBuffer b))
      (live_publishers (room c) (cached_ids (deliverCache (room c)) (typeName pac))))" by blast
  with b(2) show ?thesis
    unfolding AsioServer_deliverPackage_def deliver_callees by auto
qed

definition deliver_room :: "int room" where
  "deliver_room = SessionRoom_join id (Some 2) (addSubscribe 2 3 SubscribeRsp_FullMessageName SessionRoom_new)"

theorem broadcast_same_frame_witness:
  "\<exists>pac' b. AsioServer_deliverPackage pb_demo (reply_package pb_demo demo_req_package demo_rsp)
      (core_new\<lparr>room := deliver_room\<rparr>) = Inr (pac', core_new\<lparr>room := deliver_room, outbox := [(2, PostWriteBuffer b)]\<rparr>)"
proof -
  let ?p = "reply_package pb_demo demo_req_package demo_rsp"
  have "typeName ?p = SubscribeRsp_FullMessageName"
    by (simp add: reply_package_def demo_rsp_def)
  then have "live_publishers deliver_room (cached_ids (deliverCache deliver_room) (typeName ?p)) = [2]"
    by (simp add: deliver_room_def SessionRoom_join_def addSubscribe_def SessionRoom_new_def insertId_def
        PUBSUB_def DELIVER_def cached_ids_def live_publishers_def map_filter_def)
  then show ?thesis
    using broadcast_same_frame [OF pb_demo_ok demo_rsp_ok, of "core_new\<lparr>room := deliver_room\<rparr>"]
    by (auto simp: core_new_def)
qed

section \<open>Publications\<close>

text \<open>
  Every session that the room knows is an object of the server, under the id it has in the room.
\<close>

definition core_wf :: "'u core \<Rightarrow> bool" where
  "core_wf c \<longleftrightarrow> (\<forall>i p. sessionCache (room c) i = Some p \<longrightarrow> p = i \<and> sessions c i \<noteq> None)
     \<and> (\<forall>n. finite (cached_ids (subscribeCache (room c)) n))"

lemma core_wf_emit [simp]: "core_wf (emit i effs c) = core_wf c" "room (emit i effs c) = room c"
  "sessions (emit i effs c) = sessions c" "outbox (emit i effs c) = outbox c @ map (Pair i) effs"
  by (simp_all add: core_wf_def emit_def)

lemma core_wf_new: "core_wf core_new"
  by (simp add: core_wf_def core_new_def SessionRoom_new_def cached_ids_def)

lemma core_wf_startAccept: "core_wf c \<Longrightarrow> startAccept ec op ep c = Inr c' \<Longrightarrow> core_wf c'"
  by (auto simp: startAccept_def rbind_eq_Inr Session_start_def core_wf_def emit_def
      SessionRoom_join_def split: if_splits)

lemma core_wf_doSubscribe:
  assumes "core_wf c" and "doSubscribe E W i req c = Inr c'"
  shows "core_wf c'"
proof -
  have entry: "core_wf (c\<lparr>room := r'\<rparr>)" if "subscribe_entry i msg k r = Inr r'" "core_wf (c\<lparr>room := r\<rparr>)"
    for msg :: "'a SubscribeReq" and k r r'
    using that by (auto simp: subscribe_entry_def rbind_eq_Inr core_wf_def addSubscribe_def
        delSubscribe_def st.add_members st.del_members split: if_splits)
  have "core_wf (c\<lparr>room := r'\<rparr>)" if "subscribe_loop i msg ks r = Inr r'" "core_wf (c\<lparr>room := r\<rparr>)"
    for msg :: "'a SubscribeReq" and ks r r'
    using that by (induction ks arbitrary: r) (auto simp: rbind_eq_Inr dest: entry)
  from this [of _ _ "room c"] assms show ?thesis
    by (auto simp: doSubscribe_def rbind_eq_Inr split: option.splits pb_message.splits if_splits)
qed

lemma core_wf_leave: "core_wf c \<Longrightarrow> core_wf (c\<lparr>room := room_effect i e (room c)\<rparr>)"
  if "e \<noteq> RoomJoin"
  using that by (cases e) (auto simp: core_wf_def SessionRoom_leave_def leave_protos_def
      leave_sessions_def st.drop_members)

text \<open>The frames of a publication, one for each receiver, numbered by the receiver's own counter.\<close>

definition publication :: "('d, 'm) env \<Rightarrow> 'm \<Rightarrow> (int \<rightharpoonup> session) \<Rightarrow> int \<Rightarrow> buffer \<Rightarrow> bool" where
  "publication E m ss i b \<longleftrightarrow> (\<exists>s. ss i = Some s \<and> is_frame E (contents b)
     (received E (publish_package E (fst (next_msgId (idCounter s))) m) m))"

lemma publish_calls_all:
  assumes "net_order_ok E" and "zlib_ok E" and "proto_ok E m"
    and "\<forall>n. sendable E (publish_package E n m) m"
    and "distinct is" and "\<forall>i \<in> set is. sessions c i \<noteq> None"
  shows "\<exists>c' bs. publish_calls E (map (\<lambda>i. CallPublishMessage i m) is) c = Inr c' \<and>
    list_all2 (publication E m (sessions c)) is bs \<and>
    outbox c' = outbox c @ zip is (map PostWriteBuffer bs) \<and>
    room c' = room c \<and> (\<forall>i. sessions c' i = None \<longleftrightarrow> sessions c i = None)"
  using assms(5,6)
proof (induction "is" arbitrary: c)
  case (Cons i "is")
  then obtain s where s: "sessions c i = Some s" by auto
  obtain n n' where n: "next_msgId (idCounter s) = (n, n')" by (cases "next_msgId (idCounter s)")
  obtain p' b where b: "Session_postPackage E (publish_package E n m) = Inr (p', [PostWriteBuffer b])"
    "is_frame E (contents b) (received E (publish_package E n m) m)"
    using postPackage_sendable [OF assms(1-3) spec [OF assms(4)]] .
  let ?c = "emit i [PostWriteBuffer b] (c\<lparr>sessions := (sessions c)(i \<mapsto> s\<lparr>idCounter := n'\<rparr>)\<rparr>)"
  from Cons.prems have "\<forall>j \<in> set is. sessions ?c j \<noteq> None" and ni: "i \<notin> set is" by auto
  moreover have "distinct is" using Cons.prems(1) by simp
  ultimately obtain c' bs where
    c': "publish_calls E (map (\<lambda>i. CallPublishMessage i m) is) ?c = Inr c'"
    "list_all2 (publication E m (sessions ?c)) is bs"
    "outbox c' = outbox ?c @ zip is (map PostWriteBuffer bs)"
    "room c' = room ?c" "\<forall>i. sessions c' i = None \<longleftrightarrow> sessions ?c i = None"
    using Cons.IH [of ?c] by blast
  have "list_all2 (publication E m (sessions c)) is bs"
    using c'(2) by (rule list.rel_mono_strong) (use ni in \<open>auto simp: publication_def split: if_splits\<close>)
  moreover have "publication E m (sessions c) i b" using s n b(2) by (simp add: publication_def)
  moreover have "publish_calls E (map (\<lambda>i. CallPublishMessage i m) (i # is)) c = Inr c'"
    using c'(1) s n b(1) by (simp add: Session_publishMessage_def)
  ultimately show ?case using c'(3-5) s
    by (intro exI [of _ c'] exI [of _ "b # bs"]) auto
qed simp

lemma server_publishes:
  assumes "core_wf c" and "net_order_ok E" and "zlib_ok E" and "proto_ok E m"
    and "\<forall>n. sendable E (publish_package E n m) m"
    and "is = live_publishers (room c) (cached_ids (subscribeCache (room c)) (GetTypeName E m))"
  shows "\<exists>c' bs. AsioServer_publishMessage E (Some m) c = Inr c' \<and>
    list_all2 (publication E m (sessions c)) is bs \<and>
    outbox c' = outbox c @ zip is (map PostWriteBuffer bs) \<and> room c' = room c \<and> core_wf c' \<and> distinct is"
proof -
  let ?ids = "cached_ids (subscribeCache (room c)) (GetTypeName E m)"
  have fin: "finite ?ids" and wf: "\<And>i p. sessionCache (room c) i = Some p \<Longrightarrow> p = i \<and> sessions c i \<noteq> None"
    using assms(1) by (auto simp: core_wf_def)
  have "distinct is" unfolding assms(6)
    by (rule distinct_live_publishers [OF fin, of _ id]) (use wf in auto)
  moreover have "\<forall>i \<in> set is. sessions c i \<noteq> None"
    using wf unfolding assms(6) set_live_publishers [OF fin] by blast
  ultimately obtain c' bs where
    c': "publish_calls E (map (\<lambda>i. CallPublishMessage i m) is) c = Inr c'"
    "list_all2 (publication E m (sessions c)) is bs"
    "outbox c' = outbox c @ zip is (map PostWriteBuffer bs)" "room c' = room c"
    "\<forall>i. sessions c' i = None \<longleftrightarrow> sessions c i = None"
    using publish_calls_all [OF assms(2-5)] by blast
  moreover have "core_wf c'" using assms(1) c'(4,5) by (simp add: core_wf_def)
  ultimately show ?thesis
    using assms(6) \<open>distinct is\<close> by (auto simp: AsioServer_publishMessage_def SessionRoom_publishMessage_def Let_def)
qed

text \<open>
  Property C20. Publications of the server. A message that can be sent is posted, as one frame each,
  to exactly the joined sessions that subscribe to its type, in the order of their ids; each frame
  decodes to the message with the kind \<^verbatim>\<open>PUBSUB\<close> and the next number of that session's counter. The
  room is unchanged and the server's invariant is kept.
\<close>

theorem server_publish:
  assumes "core_wf c" and "net_order_ok E" and "zlib_ok E" and "proto_ok E m"
    and "\<forall>n. sendable E (publish_package E n m) m"
    and "is = live_publishers (room c) (cached_ids (subscribeCache (room c)) (GetTypeName E m))"
  shows "\<exists>c' bs. AsioServer_publishMessage E (Some m) c = Inr c' \<and>
    list_all2 (publication E m (sessions c)) is bs \<and>
    outbox c' = outbox c @ zip is (map PostWriteBuffer bs) \<and> room c' = room c \<and> core_wf c'"
  using server_publishes [OF assms] by blast

definition demo_core :: "unit core" where
  "demo_core = core_new\<lparr>room := SessionRoom_join id (Some 2)
       (addSubscribe 2 2 SubscribeRsp_FullMessageName SessionRoom_new),
     sessions := [2 \<mapsto> demo_session]\<rparr>"

lemma demo_core_wf: "core_wf demo_core"
  by (simp add: core_wf_def demo_core_def SessionRoom_join_def addSubscribe_def SessionRoom_new_def
      PUBSUB_def insertId_def cached_ids_def)

theorem server_publish_witness:
  "\<exists>c' b. AsioServer_publishMessage pb_demo (Some demo_rsp) demo_core = Inr c' \<and>
     outbox c' = [(2, PostWriteBuffer b)] \<and> publication pb_demo demo_rsp (sessions demo_core) 2 b"
proof -
  have "[2] = live_publishers (room demo_core)
      (cached_ids (subscribeCache (room demo_core)) (GetTypeName pb_demo demo_rsp))"
    by (simp add: demo_core_def SessionRoom_join_def addSubscribe_def SessionRoom_new_def insertId_def
        PUBSUB_def cached_ids_def live_publishers_def map_filter_def demo_rsp_def)
  from server_publish [OF demo_core_wf pb_demo_ok demo_rsp_ok(1) demo_rsp_publishable this]
  show ?thesis by (auto simp: list_all2_Cons1 demo_core_def core_new_def)
qed

end
