(* ===== verification/MsgBus.thy ===== *)
theory MsgBus
  imports AsioServer
begin

text \<open>
  The message bus, \<^verbatim>\<open>asio/msgbus.cpp\<close>: a server whose pre-handler forwards the packages it does not
  parse. A request is recorded under its message id and passed on to the sessions that deliver its
  type; the answer is passed back to the session recorded for its id.
\<close>

section \<open>The pre-handler\<close>

definition set_msgType :: "int16 \<Rightarrow> 'm Package \<Rightarrow> 'm Package" where
  "set_msgType t pac = pac\<lparr>header := (header pac)\<lparr>msgType := t\<rparr>\<rparr>"

text \<open>The package is shared with the caller: it is returned as the handler leaves it.\<close>

definition preHandleMessage ::
    "('d, 'u pb_message) env \<Rightarrow> int \<Rightarrow> 'u pb_message Package \<Rightarrow> 'u core \<Rightarrow>
     ('u pb_message Package \<times> 'u core) result" where
  "preHandleMessage E i pac c =
     (if msgPtr pac \<noteq> None then Inr (pac, c)
      else
        (let messageId = sint (msgId (header pac))
         in if msgType (header pac) = REQREP then
              AsioServer_deliverPackage E (set_msgType DELIVER pac)
                (c\<lparr>msgSessionCache := (msgSessionCache c)(messageId \<mapsto> i)\<rparr>)
            else if msgType (header pac) = DELIVER then
              (let (to, c1) = (case msgSessionCache c messageId of
                     Some j \<Rightarrow> (j, c\<lparr>msgSessionCache := (msgSessionCache c)(messageId := None)\<rparr>)
                   | None \<Rightarrow> (0, c))
               in if to > 0 then AsioServer_deliverPackage_to E to (set_msgType REQREP pac) c1
                  else Inr (pac, c1))
            else if msgType (header pac) = PUBSUB then AsioServer_deliverPackage E pac c
            else Inr (pac, c)))"

definition MsgBus_new ::
    "('d, 'm) env \<Rightarrow> (('h task, 'm) taskManager \<times> 'u core) result" where
  "MsgBus_new E =
     rbind (AsioServer_new 2 2) (\<lambda>(tm, c).
       Inr (if MSGBUS E then AsioServer_setPreHandleTask (Some PreHandle) tm else tm, c))"

definition MsgBus_run :: "io_service \<Rightarrow> ('s \<Rightarrow> 's) list \<Rightarrow> 's \<Rightarrow> 's" where
  "MsgBus_run io handlers s = AsioServer_run io handlers s"

definition MsgBus_stop :: "io_service \<Rightarrow> io_service" where
  "MsgBus_stop io = AsioServer_stop io"

section \<open>Histories of the bus\<close>

text \<open>
  Packages arrive one after the other on the thread of the event loop; in between, sessions come and
  go and subscribe.
\<close>

datatype 'u bus_event =
    BusPackage int "'u pb_message Package"
  | BusRoom "int room_op"

fun bus_step :: "('d, 'u pb_message) env \<Rightarrow> 'u bus_event \<Rightarrow> 'u core \<Rightarrow> 'u core result" where
  "bus_step E (BusPackage i pac) c = rbind (preHandleMessage E i pac c) (\<lambda>(_, c'). Inr c')"
| "bus_step E (BusRoom op) c = Inr (c\<lparr>room := room_step id op (room c)\<rparr>)"

fun bus_run :: "('d, 'u pb_message) env \<Rightarrow> 'u bus_event list \<Rightarrow> 'u core \<Rightarrow> 'u core result" where
  "bus_run E [] c = Inr c"
| "bus_run E (e # es) c = rbind (bus_step E e c) (\<lambda>c'. bus_run E es c')"

definition room_ops :: "'u bus_event list \<Rightarrow> int room_op list" where
  "room_ops es = List.map_filter (\<lambda>e. case e of BusRoom op \<Rightarrow> Some op | _ \<Rightarrow> None) es"

definition room_after :: "int room_op list \<Rightarrow> int room \<Rightarrow> int room" where
  "room_after ops r = foldl (\<lambda>r op. room_step id op r) r ops"

text \<open>Packages that the bus forwards: complete frames of a type outside of \<^verbatim>\<open>ProtoBase\<close>.\<close>

definition raw_ok :: "('d, 'm) env \<Rightarrow> 'm Package \<Rightarrow> bool" where
  "raw_ok E pac \<longleftrightarrow> MSGBUS E \<and> \<not> HasPrefixString (typeName pac) ''ProtoBase'' \<and>
     frame_ok (header pac) (typeName pac) (body pac) \<and> body pac \<noteq> [] \<and> msgPtr pac = None"

fun event_ok :: "('d, 'u pb_message) env \<Rightarrow> 'u bus_event \<Rightarrow> bool" where
  "event_ok E (BusPackage i pac) \<longleftrightarrow> msgPtr pac \<noteq> None \<or> raw_ok E pac"
| "event_ok E (BusRoom op) \<longleftrightarrow> True"

fun event_id :: "'u bus_event \<Rightarrow> int32 option" where
  "event_id (BusPackage i pac) = (if msgPtr pac = None then Some (msgId (header pac)) else None)"
| "event_id (BusRoom op) = None"

definition providers :: "string \<Rightarrow> int room \<Rightarrow> int list" where
  "providers n r = live_publishers r (cached_ids (deliverCache r) n)"

lemma set_msgType_simps [simp]:
  "typeName (set_msgType t p) = typeName p" "body (set_msgType t p) = body p"
  "msgPtr (set_msgType t p) = msgPtr p" "msgId (header (set_msgType t p)) = msgId (header p)"
  "msgType (header (set_msgType t p)) = t" "raw_ok E (set_msgType t p) = raw_ok E p"
  by (simp_all add: set_msgType_def raw_ok_def frame_ok_def)

lemma raw_post:
  assumes "net_order_ok E" and "raw_ok E pac"
  obtains b where "Session_postPackage E pac = Inr (pac, [PostWriteBuffer b])"
    "is_frame E (contents b) pac"
proof -
  have r: "MSGBUS E" "\<not> HasPrefixString (typeName pac) ''ProtoBase''"
    "frame_ok (header pac) (typeName pac) (body pac)" "body pac \<noteq> []" "msgPtr pac = None"
    using assms(2) by (auto simp: raw_ok_def)
  obtain b0 where b0: "Buffer_new kInitialSize = Inr b0" "buf_inv b0" "contents b0 = []"
    using Buffer_new_default by blast
  obtain b where b: "encode E pac b0 = Inr (True, pac, b)"
    "contents b = contents b0 @ wire_frame E (header pac) (typeName pac) (body pac)"
    using encode_raw_spec [OF b0(2) r(1-4)] .
  have "frame_package E (header pac) (typeName pac) (body pac) = Some pac"
    using r by (simp add: frame_package_def)
  then have "is_frame E (contents b) pac"
    using b(2) b0(3) r(3) assms(1) unfolding is_frame_def by auto
  moreover have "Session_postPackage E pac = Inr (pac, [PostWriteBuffer b])"
    using b0(1) b(1) by (simp add: Session_postPackage_def)
  ultimately show ?thesis by (rule that [rotated])
qed

text \<open>A forwarded package is posted to the given sessions, everything else of the core is kept.\<close>

definition posts_to :: "('d, 'u pb_message) env \<Rightarrow> 'u pb_message Package \<Rightarrow> int list \<Rightarrow> 'u core \<Rightarrow> 'u core \<Rightarrow> bool" where
  "posts_to E pac is c c' \<longleftrightarrow> (\<exists>b. is_frame E (contents b) pac \<and>
     c' = c\<lparr>outbox := outbox c @ map (\<lambda>i. (i, PostWriteBuffer b)) is\<rparr>)"

lemma deliverPackage_raw:
  assumes "net_order_ok E" and "raw_ok E pac"
  obtains pac' c' where "AsioServer_deliverPackage E pac c = Inr (pac', c')"
    "posts_to E pac (providers (typeName pac) (room c)) c c'"
proof -
  obtain b where b: "Session_postPackage E pac = Inr (pac, [PostWriteBuffer b])"
    "is_frame E (contents b) pac"
    using raw_post [OF assms] .
  have "\<forall>m. msgPtr pac = Some m \<longrightarrow> typeName pac = GetTypeName E m"
    using assms(2) by (simp add: raw_ok_def)
  from deliver_calls_same [OF b(1) this] obtain p' where
    "deliver_calls E pac (providers (typeName pac) (room c))
      = Inr (p', map (\<lambda>i. (i, PostWriteBuffer b)) (providers (typeName pac) (room c)))" by blast
  with b(2) show ?thesis
    by (intro that) (auto simp: AsioServer_deliverPackage_def deliver_callees providers_def posts_to_def)
qed

lemma deliverPackage_to_raw:
  assumes "net_order_ok E" and "raw_ok E pac"
  obtains pac' c' where "AsioServer_deliverPackage_to E i pac c = Inr (pac', c')"
    "posts_to E pac (case sessionCache (room c) i of None \<Rightarrow> [] | Some p \<Rightarrow> [p]) c c'"
proof -
  obtain b where b: "Session_postPackage E pac = Inr (pac, [PostWriteBuffer b])"
    "is_frame E (contents b) pac"
    using raw_post [OF assms] .
  then show ?thesis
    by (intro that [of pac "c\<lparr>outbox := outbox c @ map (\<lambda>i. (i, PostWriteBuffer b))
        (case sessionCache (room c) i of None \<Rightarrow> [] | Some p \<Rightarrow> [p])\<rparr>"])
      (auto simp: AsioServer_deliverPackage_to_def SessionRoom_deliverPackage_to_def
        Session_deliverPackage_def posts_to_def split: option.splits)
qed

section \<open>Requests and answers\<close>

lemma posts_to_keeps:
  "posts_to E pac is c c' \<Longrightarrow> room c' = room c \<and> msgSessionCache c' = msgSessionCache c
    \<and> (\<exists>out. outbox c' = outbox c @ out)"
  by (auto simp: posts_to_def)

lemma posts_toE:
  assumes "posts_to E pac is c c'"
  obtains b where "is_frame E (contents b) pac" "room c' = room c"
    "outbox c' = outbox c @ map (\<lambda>i. (i, PostWriteBuffer b)) is" "msgSessionCache c' = msgSessionCache c"
proof -
  from assms obtain b where "is_frame E (contents b) pac"
    "c' = c\<lparr>outbox := outbox c @ map (\<lambda>i. (i, PostWriteBuffer b)) is\<rparr>"
    unfolding posts_to_def by blast
  then show ?thesis by (intro that [of b]) simp_all
qed

lemma bus_request:
  assumes "net_order_ok E" and "raw_ok E pac" and "msgType (header pac) = REQREP"
  obtains c' where "bus_step E (BusPackage i pac) c = Inr c'"
    "posts_to E (set_msgType DELIVER pac) (providers (typeName pac) (room c))
       (c\<lparr>msgSessionCache := (msgSessionCache c)(sint (msgId (header pac)) \<mapsto> i)\<rparr>) c'"
proof -
  have raw: "raw_ok E (set_msgType DELIVER pac)" using assms(2) by simp
  let ?c = "c\<lparr>msgSessionCache := (msgSessionCache c)(sint (msgId (header pac)) \<mapsto> i)\<rparr>"
  obtain p' c' where "AsioServer_deliverPackage E (set_msgType DELIVER pac) ?c = Inr (p', c')"
    "posts_to E (set_msgType DELIVER pac) (providers (typeName pac) (room c)) ?c c'"
    using deliverPackage_raw [OF assms(1) raw, of ?c] by auto
  with assms(2,3) show ?thesis
    by (intro that) (simp_all add: preHandleMessage_def raw_ok_def Let_def)
qed

lemma bus_answer:
  assumes "net_order_ok E" and "raw_ok E pac" and "msgType (header pac) = DELIVER"
    and "msgSessionCache c (sint (msgId (header pac))) = Some j" and "0 < j"
  obtains c' where "bus_step E (BusPackage i pac) c = Inr c'"
    "posts_to E (set_msgType REQREP pac) (case sessionCache (room c) j of None \<Rightarrow> [] | Some p \<Rightarrow> [p])
       (c\<lparr>msgSessionCache := (msgSessionCache c)(sint (msgId (header pac)) := None)\<rparr>) c'"
proof -
  have raw: "raw_ok E (set_msgType REQREP pac)" using assms(2) by simp
  let ?c = "c\<lparr>msgSessionCache := (msgSessionCache c)(sint (msgId (header pac)) := None)\<rparr>"
  obtain p' c' where "AsioServer_deliverPackage_to E j (set_msgType REQREP pac) ?c = Inr (p', c')"
    "posts_to E (set_msgType REQREP pac) (case sessionCache (room c) j of None \<Rightarrow> [] | Some p \<Rightarrow> [p]) ?c c'"
    using deliverPackage_to_raw [OF assms(1) raw, of j ?c] by auto
  with assms(2-5) show ?thesis
    by (intro that) (simp_all add: preHandleMessage_def raw_ok_def Let_def REQREP_def DELIVER_def)
qed

lemma bus_answer_discarded:
  assumes "msgPtr pac = None" and "msgType (header pac) = DELIVER"
    and "msgSessionCache c (sint (msgId (header pac))) = None"
  shows "bus_step E (BusPackage i pac) c = Inr c"
  using assms by (simp add: preHandleMessage_def Let_def REQREP_def DELIVER_def)

lemma bus_publication:
  assumes "net_order_ok E" and "raw_ok E pac" and "msgType (header pac) = PUBSUB"
  obtains c' where "bus_step E (BusPackage i pac) c = Inr c'"
    "posts_to E pac (providers (typeName pac) (room c)) c c'"
proof -
  obtain p' c' where "AsioServer_deliverPackage E pac c = Inr (p', c')"
    "posts_to E pac (providers (typeName pac) (room c)) c c'"
    using deliverPackage_raw [OF assms(1,2)] .
  with assms(2,3) show ?thesis
    by (intro that) (simp_all add: preHandleMessage_def raw_ok_def Let_def REQREP_def DELIVER_def PUBSUB_def)
qed

text \<open>Every step of the bus succeeds, and touches only the entry of the message id it carries.\<close>

definition bus_frame :: "int32 option \<Rightarrow> 'u core \<Rightarrow> 'u core \<Rightarrow> bool" where
  "bus_frame k c c' \<longleftrightarrow> (\<exists>out. outbox c' = outbox c @ out) \<and>
     (\<forall>k'. k \<noteq> Some k' \<longrightarrow> msgSessionCache c' (sint k') = msgSessionCache c (sint k'))"

lemma bus_frame_refl [simp]: "bus_frame k c c"
  by (simp add: bus_frame_def)

lemma posts_to_frame:
  assumes "posts_to E pac is (c\<lparr>msgSessionCache := (msgSessionCache c)(sint k := v)\<rparr>) c'"
  shows "room c' = room c" "bus_frame (Some k) c c'"
proof -
  have inj: "sint k' = sint k \<longleftrightarrow> k' = k" for k' by (rule word_eq_iff_signed [symmetric])
  show "room c' = room c" "bus_frame (Some k) c c'"
    using posts_to_keeps [OF assms] by (auto simp: bus_frame_def inj)
qed

lemma raw_step:
  assumes "net_order_ok E" and "raw_ok E pac"
  obtains c' where "bus_step E (BusPackage i pac) c = Inr c'" "room c' = room c"
    "bus_frame (Some (msgId (header pac))) c c'"
proof -
  have p: "msgPtr pac = None" using assms(2) by (simp add: raw_ok_def)
  let ?k = "sint (msgId (header pac))" and ?t = "msgType (header pac)"
  consider "?t = REQREP" | j where "?t = DELIVER" "msgSessionCache c ?k = Some j" "0 < j"
    | j where "?t = DELIVER" "msgSessionCache c ?k = Some j" "\<not> 0 < j"
    | "?t = DELIVER" "msgSessionCache c ?k = None" | "?t = PUBSUB"
    | "?t \<noteq> REQREP" "?t \<noteq> DELIVER" "?t \<noteq> PUBSUB" by fastforce
  then show ?thesis
  proof cases
    case 1
    from bus_request [OF assms 1, of i c] show ?thesis by (metis posts_to_frame that)
  next
    case 2
    from bus_answer [OF assms 2, of i] show ?thesis by (metis posts_to_frame that)
  next
    case 3
    with p have "bus_step E (BusPackage i pac) c
        = Inr (c\<lparr>msgSessionCache := (msgSessionCache c)(?k := None)\<rparr>)"
      by (simp add: preHandleMessage_def Let_def REQREP_def DELIVER_def)
    moreover have "sint k' = ?k \<longleftrightarrow> k' = msgId (header pac)" for k'
      by (rule word_eq_iff_signed [symmetric])
    ultimately show ?thesis
      by (intro that [of "c\<lparr>msgSessionCache := (msgSessionCache c)(?k := None)\<rparr>"])
        (auto simp: bus_frame_def)
  next
    case 4
    from bus_answer_discarded [OF p 4] show ?thesis by (intro that [of c]) simp_all
  next
    case 5
    obtain c' where c': "bus_step E (BusPackage i pac) c = Inr c'"
      "posts_to E pac (providers (typeName pac) (room c)) c c'"
      using bus_publication [OF assms 5] .
    from posts_to_keeps [OF c'(2)] show ?thesis
      by (intro that [OF c'(1)]) (auto simp: bus_frame_def)
  next
    case 6
    with p show ?thesis by (intro that [of c]) (simp_all add: preHandleMessage_def Let_def)
  qed
qed

lemma bus_run_keeps:
  assumes "net_order_ok E" and "\<forall>e \<in> set es. event_ok E e"
    and "\<forall>e \<in> set es. event_id e \<noteq> Some k"
  shows "\<exists>c' out. bus_run E es c = Inr c' \<and> room c' = room_after (room_ops es) (room c) \<and>
    outbox c' = outbox c @ out \<and> msgSessionCache c' (sint k) = msgSessionCache c (sint k)"
  using assms(2,3)
proof (induction es arbitrary: c)
  case Nil
  show ?case by (simp add: room_ops_def room_after_def map_filter_simps)
next
  case (Cons e es)
  have "\<exists>c1. bus_step E e c = Inr c1 \<and> room c1 = room_after (room_ops [e]) (room c) \<and>
      bus_frame (event_id e) c c1"
  proof (cases e)
    case (BusPackage i pac)
    show ?thesis
    proof (cases "msgPtr pac = None")
      case True
      then have "raw_ok E pac" using Cons.prems(1) BusPackage by simp
      from raw_step [OF assms(1) this, of i c] show ?thesis
        using BusPackage True by (auto simp: room_ops_def room_after_def map_filter_simps)
    next
      case False
      with BusPackage show ?thesis
        by (simp add: preHandleMessage_def bus_frame_def room_ops_def room_after_def map_filter_simps)
    qed
  qed (simp add: bus_frame_def room_ops_def room_after_def map_filter_simps)
  then obtain c1 out1 where c1: "bus_step E e c = Inr c1" "room c1 = room_after (room_ops [e]) (room c)"
    "outbox c1 = outbox c @ out1" "msgSessionCache c1 (sint k) = msgSessionCache c (sint k)"
    using Cons.prems(2) by (auto simp: bus_frame_def)
  have r: "room_after (room_ops (e # es)) r = room_after (room_ops es) (room_after (room_ops [e]) r)" for r
    by (cases e) (simp_all add: room_ops_def room_after_def map_filter_simps)
  from Cons.IH [of c1] Cons.prems obtain c' out where "bus_run E es c1 = Inr c'"
    "room c' = room_after (room_ops es) (room c1)" "outbox c' = outbox c1 @ out"
    "msgSessionCache c' (sint k) = msgSessionCache c1 (sint k)" by auto
  with c1 show ?case by (auto simp: r)
qed

lemma bus_run_append: "bus_run E (es @ es') c = rbind (bus_run E es c) (\<lambda>c'. bus_run E es' c')"
  by (induction es arbitrary: c) (simp_all add: rbind_def split: sum.splits)

text \<open>
  Property C21. Requests through the bus, provided that no package that passes between the request and
  its answer carries the same message id, and that the session that asks is still joined when the answer
  comes. A request of session \<open>i\<close> is posted, with the kind \<^verbatim>\<open>DELIVER\<close>, to the sessions that deliver its
  type; the answer with its message id is posted to session \<open>i\<close> alone, with the kind \<^verbatim>\<open>REQREP\<close> and
  otherwise unchanged, however the subscriptions change in between and whichever packages with other
  message ids pass. The entry of the table is gone afterwards.
\<close>

theorem bus_request_answer:
  assumes "net_order_ok E" and "raw_ok E req" and "raw_ok E ans"
    and "msgType (header req) = REQREP" and "msgType (header ans) = DELIVER"
    and "msgId (header ans) = msgId (header req)" and "0 < i"
    and "\<forall>e \<in> set es. event_ok E e" and "\<forall>e \<in> set es. event_id e \<noteq> Some (msgId (header req))"
    and "sessionCache (room_after (room_ops es) (room c)) i = Some i"
  shows "\<exists>c' b out b'. bus_run E (BusPackage i req # es @ [BusPackage j ans]) c = Inr c' \<and>
    is_frame E (contents b) (set_msgType DELIVER req) \<and>
    is_frame E (contents b') (set_msgType REQREP ans) \<and>
    outbox c' = outbox c @ map (\<lambda>k. (k, PostWriteBuffer b)) (providers (typeName req) (room c))
      @ out @ [(i, PostWriteBuffer b')] \<and>
    msgSessionCache c' (sint (msgId (header req))) = None"
proof -
  obtain c1 where c1: "bus_step E (BusPackage i req) c = Inr c1"
    "posts_to E (set_msgType DELIVER req) (providers (typeName req) (room c))
       (c\<lparr>msgSessionCache := (msgSessionCache c)(sint (msgId (header req)) \<mapsto> i)\<rparr>) c1"
    using bus_request [OF assms(1,2,4)] .
  obtain b where b: "is_frame E (contents b) (set_msgType DELIVER req)" "room c1 = room c"
    "outbox c1 = outbox c @ map (\<lambda>k. (k, PostWriteBuffer b)) (providers (typeName req) (room c))"
    "msgSessionCache c1 (sint (msgId (header req))) = Some i"
    by (rule posts_toE [OF c1(2)]) (simp del: map_eq_conv)
  obtain c2 out where c2: "bus_run E es c1 = Inr c2" "room c2 = room_after (room_ops es) (room c)"
    "outbox c2 = outbox c1 @ out" "msgSessionCache c2 (sint (msgId (header ans))) = Some i"
    using bus_run_keeps [OF assms(1,8,9), of c1] b(2,4) assms(6) by auto
  obtain c3 where c3: "bus_step E (BusPackage j ans) c2 = Inr c3"
    "posts_to E (set_msgType REQREP ans) (case sessionCache (room c2) i of None \<Rightarrow> [] | Some p \<Rightarrow> [p])
       (c2\<lparr>msgSessionCache := (msgSessionCache c2)(sint (msgId (header ans)) := None)\<rparr>) c3"
    using bus_answer [OF assms(1,3,5) c2(4) assms(7)] .
  obtain b' where b': "is_frame E (contents b') (set_msgType REQREP ans)"
    "outbox c3 = outbox c2 @ [(i, PostWriteBuffer b')]"
    "msgSessionCache c3 (sint (msgId (header req))) = None"
    by (rule posts_toE [OF c3(2)]) (simp add: c2(2) assms(6,10) del: map_eq_conv)
  have "bus_run E (BusPackage i req # es @ [BusPackage j ans]) c = Inr c3"
    unfolding bus_run.simps(2) c1(1) rbind_simps bus_run_append c2(1) using c3(1) by simp
  with b(1,3) b'(1-3) c2(3) show ?thesis by auto
qed

definition bus_demo :: "(unit pb_message, unit pb_message) env" where
  "bus_demo = pb_env (sample_env True (-1)) sample_wire"

lemma bus_demo_ok: "net_order_ok bus_demo"
  using sample_env_net [of True "-1"] by (simp add: bus_demo_def pb_env_def net_order_ok_def)

definition bus_package :: "int16 \<Rightarrow> int32 \<Rightarrow> string \<Rightarrow> unit pb_message Package" where
  "bus_package t k content = \<lparr>header = PacHeader_new\<lparr>msgType := t, typeNameLen := 5, msgId := k,
     pacSize := word_of_nat (kPackageHeaderSize + 5 + length content)\<rparr>,
     typeName = ''Other'', body = content, msgPtr = None\<rparr>"

lemma bus_package_ok:
  "raw_ok bus_demo (bus_package t k ''abc'')" "msgType (header (bus_package t k ''abc'')) = t"
  "msgId (header (bus_package t k ''abc'')) = k" "typeName (bus_package t k ''abc'') = ''Other''"
  by (simp_all add: raw_ok_def bus_package_def bus_demo_def pb_env_def HasPrefixString_def frame_ok_def
      PacHeader_new_def kPackageHeaderSize_def kMaxPackageLen_def)

definition bus_core :: "unit core" where
  "bus_core = core_new\<lparr>room := SessionRoom_join id (Some 4) (SessionRoom_join id (Some 3)
     (addSubscribe 3 3 ''Other'' SessionRoom_new))\<rparr>"

lemma bus_core_room:
  "sessionCache (room bus_core) 4 = Some 4" "providers ''Other'' (room bus_core) = [3]"
  "outbox bus_core = []"
  by (simp_all add: bus_core_def core_new_def SessionRoom_join_def addSubscribe_def SessionRoom_new_def
      insertId_def PUBSUB_def DELIVER_def cached_ids_def live_publishers_def map_filter_def providers_def)

theorem bus_request_answer_witness:
  "\<exists>c' b out b'. bus_run bus_demo [BusPackage 4 (bus_package REQREP 7 ''abc''),
       BusPackage 5 (bus_package PUBSUB 8 ''abc''), BusPackage 3 (bus_package DELIVER 7 ''abc'')] bus_core = Inr c' \<and>
     outbox c' = (3, PostWriteBuffer b) # out @ [(4, PostWriteBuffer b')] \<and>
     is_frame bus_demo (contents b') (set_msgType REQREP (bus_package DELIVER 7 ''abc''))"
proof -
  have "event_ok bus_demo e \<and> event_id e \<noteq> Some 7"
    if "e \<in> set [BusPackage 5 (bus_package PUBSUB 8 ''abc'')]" for e
    using that bus_package_ok by (auto simp: bus_package_def)
  moreover have "room_after (room_ops [BusPackage 5 (bus_package PUBSUB 8 ''abc'')]) (room bus_core) = room bus_core"
    by (simp add: room_after_def room_ops_def map_filter_simps)
  ultimately show ?thesis
    using bus_request_answer [OF bus_demo_ok, of "bus_package REQREP 7 ''abc''" "bus_package DELIVER 7 ''abc''"
        4 "[BusPackage 5 (bus_package PUBSUB 8 ''abc'')]" bus_core 3] bus_package_ok bus_core_room
    by (auto simp del: bus_run.simps)
qed

text \<open>
  Property C36. Message ids of different clients collide. Every client numbers its requests from 1,
  and the bus records one session per number: when sessions \<open>i\<close> and \<open>j\<close> have a request with the same
  id under way, the first answer, meant for \<open>i\<close>, goes to \<open>j\<close>, and the second is discarded; \<open>i\<close> gets
  no answer.
\<close>

theorem bus_id_collision:
  assumes "net_order_ok E" and "raw_ok E req1" and "raw_ok E req2" and "raw_ok E ans1" and "raw_ok E ans2"
    and "msgType (header req1) = REQREP" and "msgType (header req2) = REQREP"
    and "msgType (header ans1) = DELIVER" and "msgType (header ans2) = DELIVER"
    and "msgId (header req1) = k" and "msgId (header req2) = k"
    and "msgId (header ans1) = k" and "msgId (header ans2) = k"
    and "0 < j" and "sessionCache (room c) j = Some j"
  shows "\<exists>c' b1 b2 b3. bus_run E [BusPackage i req1, BusPackage j req2, BusPackage s ans1, BusPackage s' ans2] c
      = Inr c' \<and>
    outbox c' = outbox c @ map (\<lambda>n. (n, PostWriteBuffer b1)) (providers (typeName req1) (room c))
      @ map (\<lambda>n. (n, PostWriteBuffer b2)) (providers (typeName req2) (room c))
      @ [(j, PostWriteBuffer b3)] \<and>
    is_frame E (contents b3) (set_msgType REQREP ans1)"
proof -
  obtain c1 where c1: "bus_step E (BusPackage i req1) c = Inr c1"
    "posts_to E (set_msgType DELIVER req1) (providers (typeName req1) (room c))
       (c\<lparr>msgSessionCache := (msgSessionCache c)(sint k \<mapsto> i)\<rparr>) c1"
    using bus_request [OF assms(1,2,6)] unfolding assms(10) .
  obtain b1 where b1: "room c1 = room c"
    "outbox c1 = outbox c @ map (\<lambda>n. (n, PostWriteBuffer b1)) (providers (typeName req1) (room c))"
    by (rule posts_toE [OF c1(2)]) (simp del: map_eq_conv)
  obtain c2 where c2: "bus_step E (BusPackage j req2) c1 = Inr c2"
    "posts_to E (set_msgType DELIVER req2) (providers (typeName req2) (room c1))
       (c1\<lparr>msgSessionCache := (msgSessionCache c1)(sint k \<mapsto> j)\<rparr>) c2"
    using bus_request [OF assms(1,3,7)] unfolding assms(11) .
  obtain b2 where b2: "room c2 = room c" "msgSessionCache c2 (sint (msgId (header ans1))) = Some j"
    "outbox c2 = outbox c1 @ map (\<lambda>n. (n, PostWriteBuffer b2)) (providers (typeName req2) (room c))"
    by (rule posts_toE [OF c2(2)]) (simp add: b1(1) assms(12) del: map_eq_conv)
  obtain c3 where c3: "bus_step E (BusPackage s ans1) c2 = Inr c3"
    "posts_to E (set_msgType REQREP ans1) (case sessionCache (room c2) j of None \<Rightarrow> [] | Some p \<Rightarrow> [p])
       (c2\<lparr>msgSessionCache := (msgSessionCache c2)(sint (msgId (header ans1)) := None)\<rparr>) c3"
    using bus_answer [OF assms(1,4,8) b2(2) assms(14)] .
  obtain b3 where b3: "is_frame E (contents b3) (set_msgType REQREP ans1)"
    "outbox c3 = outbox c2 @ [(j, PostWriteBuffer b3)]" "msgSessionCache c3 (sint k) = None"
    by (rule posts_toE [OF c3(2)]) (simp add: b2(1) assms(12,15) del: map_eq_conv)
  have "bus_step E (BusPackage s' ans2) c3 = Inr c3"
    using assms(5,9,13) b3(3) by (intro bus_answer_discarded) (simp_all add: raw_ok_def)
  then have "bus_run E [BusPackage i req1, BusPackage j req2, BusPackage s ans1, BusPackage s' ans2] c = Inr c3"
    using c1(1) c2(1) c3(1) by (simp del: bus_step.simps)
  with b1(2) b2(3) b3(1,2) show ?thesis by auto
qed

theorem bus_id_collision_witness:
  "\<exists>c' b1 b2 b3. bus_run bus_demo [BusPackage 9 (bus_package REQREP 1 ''abc''),
       BusPackage 4 (bus_package REQREP 1 ''abc''), BusPackage 3 (bus_package DELIVER 1 ''abc''),
       BusPackage 3 (bus_package DELIVER 1 ''abc'')] bus_core = Inr c' \<and>
     outbox c' = [(3, PostWriteBuffer b1), (3, PostWriteBuffer b2), (4, PostWriteBuffer b3)]"
  using bus_id_collision [OF bus_demo_ok bus_package_ok(1) bus_package_ok(1) bus_package_ok(1)
      bus_package_ok(1) bus_package_ok(2) bus_package_ok(2) bus_package_ok(2) bus_package_ok(2)
      bus_package_ok(3) bus_package_ok(3) bus_package_ok(3) bus_package_ok(3), of 4 bus_core 9 1 3 3]
    bus_core_room
  by (auto simp: bus_package_ok(4) simp del: bus_run.simps)

text \<open>
  Publications through the bus are sent by the table of deliver subscriptions. A
  session that subscribed to the type of a publication as a publication, which is what
  \<^verbatim>\<open>BusStub::addHandlePublish\<close> does, gets nothing.
\<close>

theorem bus_publication_to_providers:
  assumes "net_order_ok E" and "raw_ok E pac" and "msgType (header pac) = PUBSUB"
    and "finite (cached_ids (deliverCache (room c)) (typeName pac))"
    and "\<forall>i p. sessionCache (room c) i = Some p \<longrightarrow> p = i"
  shows "\<exists>c' out. bus_run E [BusPackage i pac] c = Inr c' \<and> outbox c' = outbox c @ out \<and>
    fst ` set out = {j. j \<in> cached_ids (deliverCache (room c)) (typeName pac) \<and> sessionCache (room c) j \<noteq> None}"
proof -
  obtain c' where c': "bus_step E (BusPackage i pac) c = Inr c'"
    "posts_to E pac (providers (typeName pac) (room c)) c c'"
    using bus_publication [OF assms(1-3)] .
  obtain b where "outbox c' = outbox c @ map (\<lambda>n. (n, PostWriteBuffer b)) (providers (typeName pac) (room c))"
    by (rule posts_toE [OF c'(2)]) (simp del: map_eq_conv)
  moreover have "set (providers (typeName pac) (room c))
      = {j. j \<in> cached_ids (deliverCache (room c)) (typeName pac) \<and> sessionCache (room c) j \<noteq> None}"
    unfolding providers_def set_live_publishers [OF assms(4)] using assms(5) by fastforce
  ultimately show ?thesis using c'(1) by (simp add: image_image del: bus_step.simps)
qed

theorem bus_publication_to_providers_witness:
  "\<exists>c' out. bus_run bus_demo [BusPackage 9 (bus_package PUBSUB 1 ''abc'')] bus_core = Inr c' \<and>
     outbox c' = out \<and> fst ` set out = {3}"
proof -
  let ?p = "bus_package PUBSUB 1 ''abc''"
  have r: "deliverCache (room bus_core) = [''Other'' \<mapsto> {3}]" "sessionCache (room bus_core) = [3 \<mapsto> 3, 4 \<mapsto> 4]"
    by (simp_all add: bus_core_def SessionRoom_join_def addSubscribe_def SessionRoom_new_def insertId_def
        PUBSUB_def DELIVER_def)
  have ids: "cached_ids (deliverCache (room bus_core)) (typeName ?p) = {3}"
    by (simp add: r bus_package_ok(4) cached_ids_def)
  have fin: "finite (cached_ids (deliverCache (room bus_core)) (typeName ?p))" by (simp add: ids)
  have self: "\<forall>i p. sessionCache (room bus_core) i = Some p \<longrightarrow> p = i" by (simp add: r)
  have "{j. j \<in> {3} \<and> sessionCache (room bus_core) j \<noteq> None} = {3}" by (auto simp: r)
  then show ?thesis
    using bus_publication_to_providers [OF bus_demo_ok bus_package_ok(1,2) fin self, of 9]
    unfolding ids bus_core_room(3) by (simp del: bus_run.simps)
qed

end
