(* ===== verification/Handlers.thy ===== *)
theory Handlers
  imports TaskManager "HOL-Library.Char_ord" "HOL-Library.List_Lexorder"
begin

text \<open>
  The handlers of a client, \<^verbatim>\<open>PublishHandler\<close> and \<^verbatim>\<open>DeliverHandler\<close> of
  \<^verbatim>\<open>asio/internal/AsioClient.h\<close>. A handler has a \<^verbatim>\<open>std::map\<close> from type names to functions, which
  is the list of its entries in ascending order of the keys, as iteration sees it. Functions of the
  user and references to packages are type variables.
\<close>

section \<open>Ordered maps\<close>

type_synonym 'f func_map = "(string \<times> 'f) list"

fun map_set :: "string \<Rightarrow> 'f \<Rightarrow> 'f func_map \<Rightarrow> 'f func_map" where
  "map_set k f [] = [(k, f)]"
| "map_set k f ((k', f') # m) =
     (if k = k' then (k, f) # m
      else if k < k' then (k, f) # (k', f') # m
      else (k', f') # map_set k f m)"

lemma map_of_map_set [simp]: "map_of (map_set k f m) = (map_of m)(k \<mapsto> f)"
  by (induction k f m rule: map_set.induct) auto

lemma set_keys_map_set [simp]: "fst ` set (map_set k f m) = insert k (fst ` set m)"
  by (induction k f m rule: map_set.induct) auto

lemma map_set_sorted:
  "sorted_wrt (<) (map fst m) \<Longrightarrow> sorted_wrt (<) (map fst (map_set k f m))"
proof (induction k f m rule: map_set.induct)
  case (2 k f k' f' m)
  then have m: "\<forall>x \<in> fst ` set m. k' < x" "sorted_wrt (<) (map fst m)" by auto
  consider "k = k'" | "k < k'" | "k \<noteq> k'" "\<not> k < k'" "k' < k" by fastforce
  then show ?case
  proof cases
    case 2
    with m show ?thesis by (auto dest: less_trans)
  next
    case 3
    with m "2.IH" have "sorted_wrt (<) (map fst (map_set k f m))" by simp
    moreover have "\<forall>x \<in> fst ` set (map_set k f m). k' < x" using m(1) 3(3) by simp
    ultimately show ?thesis using 3(1,2) by simp
  qed (use m in simp)
qed simp

section \<open>Handlers\<close>

datatype ('pub, 'del, 'p) handler =
    PublishHandler "'pub func_map"
  | DeliverHandler "'del func_map" "('del \<times> 'p) pool"

definition PublishHandler_new :: "('pub, 'del, 'p) handler" where
  "PublishHandler_new = PublishHandler []"

definition DeliverHandler_new :: "int \<Rightarrow> ('pub, 'del, 'p) handler result" where
  "DeliverHandler_new threadSize =
     rbind (ThreadPool_start (ThreadPool_new threadSize)) (\<lambda>pl. Inr (DeliverHandler [] pl))"

fun addHandlePublish :: "string \<Rightarrow> 'pub \<Rightarrow> ('pub, 'del, 'p) handler \<Rightarrow> ('pub, 'del, 'p) handler" where
  "addHandlePublish name func (PublishHandler m) = PublishHandler (map_set name func m)"
| "addHandlePublish name func h = h"

fun addHandleDeliver :: "string \<Rightarrow> 'del \<Rightarrow> ('pub, 'del, 'p) handler \<Rightarrow> ('pub, 'del, 'p) handler" where
  "addHandleDeliver name func (DeliverHandler m pl) = DeliverHandler (map_set name func m) pl"
| "addHandleDeliver name func h = h"

fun handler_type :: "('pub, 'del, 'p) handler \<Rightarrow> int" where
  "handler_type (PublishHandler m) = sint PUBSUB"
| "handler_type (DeliverHandler m pl) = sint DELIVER"

fun handler_typeNames :: "('pub, 'del, 'p) handler \<Rightarrow> string list" where
  "handler_typeNames (PublishHandler m) = map fst m"
| "handler_typeNames (DeliverHandler m pl) = map fst m"

text \<open>
  What a handler does with a package: it calls a publish function with the error code 0, or hands a
  deliver function to its pool, which executes it in place when it has no threads.
\<close>

datatype ('m, 'pub, 'del, 'p) handler_call =
    CallPublish 'pub int "'m option"
  | CallDeliver 'del 'p

fun handler_onPackage ::
    "'p \<Rightarrow> 'm Package \<Rightarrow> ('pub, 'del, 'p) handler \<Rightarrow>
     ('pub, 'del, 'p) handler \<times> ('m, 'pub, 'del, 'p) handler_call list" where
  "handler_onPackage ref package (PublishHandler m) =
     (if msgType (header package) = PUBSUB then
        (case map_of m (typeName package) of
           Some func \<Rightarrow> (PublishHandler m, [CallPublish func 0 (msgPtr package)])
         | None \<Rightarrow> (PublishHandler m, []))
      else (PublishHandler m, []))"
| "handler_onPackage ref package (DeliverHandler m pl) =
     (if msgType (header package) = DELIVER then
        (case map_of m (typeName package) of
           Some func \<Rightarrow>
             (DeliverHandler m (pool_run (func, ref) pl),
              if threads pl = [] then [CallDeliver func ref] else [])
         | None \<Rightarrow> (DeliverHandler m pl, []))
      else (DeliverHandler m pl, []))"

lemma onPackage_names [simp]:
  "handler_typeNames (fst (handler_onPackage ref p h)) = handler_typeNames h"
  "handler_type (fst (handler_onPackage ref p h)) = handler_type h"
  by (cases h; auto split: option.splits)+

end
