(* ===== verification/Pending_Table.thy ===== *)
theory Pending_Table
  imports Main
begin

text \<open>
  The interface of a table of outstanding requests, as the client's \<^verbatim>\<open>RequestMessage\<close> and the
  message bus' \<^verbatim>\<open>msgSessionCache_\<close> provide it: an entry is put under a key, may be touched while it
  waits, and is picked, which returns and removes it; touching and picking have an argument of their own,
  such as the time. What a user of such a table relies on is proved
  once, for arbitrary histories: every entry is handed out at most once, and as long as keys are not
  reused every entry is either handed out or still waiting.
\<close>

datatype ('x, 'k, 'v) tab_op = TPut 'k 'v | TTouch 'x 'k | TPick 'x 'k

fun tab_step ::
    "('k \<Rightarrow> 'v \<Rightarrow> 't \<Rightarrow> 't) \<Rightarrow> ('x \<Rightarrow> 'k \<Rightarrow> 't \<Rightarrow> 't) \<Rightarrow> ('x \<Rightarrow> 'k \<Rightarrow> 't \<Rightarrow> 'v option \<times> 't) \<Rightarrow>
     ('x, 'k, 'v) tab_op \<Rightarrow> ('k \<times> 'v) list \<times> 't \<Rightarrow> ('k \<times> 'v) list \<times> 't" where
  "tab_step put touch pick (TPut k v) (out, t) = (out, put k v t)"
| "tab_step put touch pick (TTouch x k) (out, t) = (out, touch x k t)"
| "tab_step put touch pick (TPick x k) (out, t) =
     (case pick x k t of (None, t') \<Rightarrow> (out, t') | (Some v, t') \<Rightarrow> (out @ [(k, v)], t'))"

text \<open>The entries put, in order.\<close>

fun tab_puts :: "('x, 'k, 'v) tab_op list \<Rightarrow> ('k \<times> 'v) list" where
  "tab_puts [] = []"
| "tab_puts (TPut k v # ops) = (k, v) # tab_puts ops"
| "tab_puts (_ # ops) = tab_puts ops"

lemma tab_puts_append [simp]: "tab_puts (xs @ ys) = tab_puts xs @ tab_puts ys"
  by (induction xs rule: tab_puts.induct) simp_all

locale pending_table =
  fixes lookup :: "'t \<Rightarrow> 'k \<Rightarrow> 'v option"
    and put :: "'k \<Rightarrow> 'v \<Rightarrow> 't \<Rightarrow> 't"
    and touch :: "'x \<Rightarrow> 'k \<Rightarrow> 't \<Rightarrow> 't"
    and pick :: "'x \<Rightarrow> 'k \<Rightarrow> 't \<Rightarrow> 'v option \<times> 't"
  assumes lookup_put: "lookup (put k v t) j = (if j = k then Some v else lookup t j)"
    and lookup_touch: "lookup (touch x k t) j = lookup t j"
    and pick_result: "fst (pick x k t) = lookup t k"
    and lookup_pick: "lookup (snd (pick x k t)) j = (if j = k then None else lookup t j)"
begin

lemma tab_step_pick:
  "tab_step put touch pick (TPick x k) (out, t)
    = (out @ (case lookup t k of None \<Rightarrow> [] | Some v \<Rightarrow> [(k, v)]), snd (pick x k t))"
  using pick_result [of x k t] by (cases "pick x k t") (auto split: option.splits)

lemma handed_out_or_waiting:
  assumes "\<And>k. lookup t k = None" and "distinct (map fst (tab_puts ops))"
    and "fold (tab_step put touch pick) ops ([], t) = (out, t')"
  shows "distinct (map fst out) \<and> set out \<subseteq> set (tab_puts ops) \<and>
    (\<forall>k v. lookup t' k = Some v \<longleftrightarrow> (k, v) \<in> set (tab_puts ops) \<and> (k, v) \<notin> set out)"
  using assms(2,3)
proof (induction ops arbitrary: out t' rule: rev_induct)
  case Nil
  with assms(1) show ?case by simp
next
  case (snoc op ops)
  obtain out0 t0 where s: "fold (tab_step put touch pick) ops ([], t) = (out0, t0)"
    by (cases "fold (tab_step put touch pick) ops ([], t)")
  then have st: "tab_step put touch pick op (out0, t0) = (out, t')" using snoc.prems(2) by simp
  from snoc.prems(1) have "distinct (map fst (tab_puts ops))" by simp
  from snoc.IH [OF this s]
  have IH: "distinct (map fst out0)" "set out0 \<subseteq> set (tab_puts ops)"
    "\<And>k v. lookup t0 k = Some v \<longleftrightarrow> (k, v) \<in> set (tab_puts ops) \<and> (k, v) \<notin> set out0" by blast+
  show ?case
  proof (cases op)
    case (TPut k v)
    then have "k \<notin> fst ` set (tab_puts ops)" using snoc.prems(1) by auto
    then have "(k, w) \<notin> set (tab_puts ops)" for w by force
    with TPut st IH show ?thesis by (auto simp: lookup_put split: if_splits)
  next
    case (TTouch x k)
    with st IH show ?thesis by (auto simp: lookup_touch)
  next
    case (TPick x k)
    note st = st [unfolded TPick tab_step_pick]
    show ?thesis
    proof (cases "lookup t0 k")
      case None
      then have "(k, w) \<in> set (tab_puts ops) \<Longrightarrow> (k, w) \<in> set out0" for w using IH(3) [of k w] by auto
      with None st IH TPick show ?thesis by (auto simp: lookup_pick split: if_splits)
    next
      case (Some v)
      have uniq: "w = v" if "(k, w) \<in> set (tab_puts ops)" for w
        using that IH(3) [of k v] Some snoc.prems(1) TPick by (auto dest: eq_key_imp_eq_value)
      have "(k, w) \<notin> set out0" for w using IH(2) IH(3) [of k v] Some uniq [of w] by blast
      then have new: "k \<notin> fst ` set out0" by auto
      have o: "out = out0 @ [(k, v)]" "t' = snd (pick x k t0)" "tab_puts (ops @ [op]) = tab_puts ops"
        using st Some TPick by simp_all
      have "lookup t' j = Some w \<longleftrightarrow> (j, w) \<in> set (tab_puts ops) \<and> (j, w) \<notin> set out" for j w
        using IH(3) [of j w] uniq [of w] by (cases "j = k") (auto simp: o lookup_pick)
      moreover have "set out \<subseteq> set (tab_puts ops)" using IH(2) IH(3) [of k v] Some by (simp add: o)
      ultimately show ?thesis using IH(1) new o(1,3) by simp
    qed
  qed
qed

end

end
