(* ===== verification/RequestMessage.thy ===== *)
theory RequestMessage
  imports Package Pending_Table
begin

text \<open>
  The client's table of outstanding requests, class \<^verbatim>\<open>RequestMessage\<close> of
  \<^verbatim>\<open>asio/internal/AsioClient.cpp\<close>. The package of a request is shared with the write queue and is
  a reference here, as is the caller's callback. The clock is the argument \<open>now\<close>; of the timer the
  model has the duration and whether it is being waited for.
\<close>

record ('p, 'r) request =
  rq_pac :: 'p
  rq_res :: 'r
  rq_reqTime :: int
  rq_writeFinishedTime :: int
  rq_rspTime :: int
  rq_msTimeout :: int
  rq_waiting :: bool

type_synonym ('p, 'r) requests = "int \<rightharpoonup> ('p, 'r) request"

definition Data_new :: "int \<Rightarrow> 'p \<Rightarrow> 'r \<Rightarrow> int \<Rightarrow> ('p, 'r) request" where
  "Data_new now p r msTimeout =
     \<lparr>rq_pac = p, rq_res = r, rq_reqTime = now, rq_writeFinishedTime = 0, rq_rspTime = 0,
      rq_msTimeout = msTimeout, rq_waiting = False\<rparr>"

definition RequestMessage_new :: "('p, 'r) requests" where
  "RequestMessage_new = Map.empty"

definition RequestMessage_put ::
    "int \<Rightarrow> int \<Rightarrow> 'p \<Rightarrow> 'r \<Rightarrow> int \<Rightarrow> ('p, 'r) requests \<Rightarrow> ('p, 'r) requests" where
  "RequestMessage_put now msgid p r msTimeout cache = cache(msgid \<mapsto> Data_new now p r msTimeout)"

definition RequestMessage_startTimer :: "int \<Rightarrow> int \<Rightarrow> ('p, 'r) requests \<Rightarrow> ('p, 'r) requests" where
  "RequestMessage_startTimer now msgid cache =
     (case cache msgid of
        None \<Rightarrow> cache
      | Some data \<Rightarrow> cache(msgid \<mapsto> data\<lparr>rq_writeFinishedTime := now, rq_waiting := True\<rparr>))"

definition RequestMessage_pick ::
    "int \<Rightarrow> int \<Rightarrow> ('p, 'r) requests \<Rightarrow> ('p, 'r) request option \<times> ('p, 'r) requests" where
  "RequestMessage_pick now msgid cache =
     (case cache msgid of
        Some data \<Rightarrow> (Some (data\<lparr>rq_rspTime := now\<rparr>), cache(msgid := None))
      | None \<Rightarrow> (None, cache))"

text \<open>\<^verbatim>\<open>onTimeout\<close> returns the callback to call, with the request's package, or nothing.\<close>

definition RequestMessage_onTimeout ::
    "int \<Rightarrow> int \<Rightarrow> ('p, 'r) requests \<Rightarrow> ('r \<times> ErrorCode \<times> 'p) option \<times> ('p, 'r) requests" where
  "RequestMessage_onTimeout now msgid cache =
     (case RequestMessage_pick now msgid cache of
        (Some p, cache') \<Rightarrow> (Some (rq_res p, eTimeout, rq_pac p), cache')
      | (None, cache') \<Rightarrow> (None, cache'))"

section \<open>Every request is answered once\<close>

definition request_of :: "('p, 'r) request \<Rightarrow> int \<times> 'p \<times> 'r \<times> int" where
  "request_of d = (rq_reqTime d, rq_pac d, rq_res d, rq_msTimeout d)"

definition waiting_requests :: "('p, 'r) requests \<Rightarrow> int \<Rightarrow> (int \<times> 'p \<times> 'r \<times> int) option" where
  "waiting_requests cache k = map_option request_of (cache k)"

interpretation rq: pending_table waiting_requests
  "\<lambda>k (now, p, r, ms). RequestMessage_put now k p r ms" RequestMessage_startTimer
  "\<lambda>now k c. map_prod (map_option request_of) id (RequestMessage_pick now k c)"
  by unfold_locales
    (auto simp: waiting_requests_def request_of_def RequestMessage_put_def Data_new_def
      RequestMessage_startTimer_def RequestMessage_pick_def split: option.splits)

text \<open>
  A history of the table: requests are put, their writes complete, their timers fire, and responses
  arrive. A timer handler may also run late, when its request is gone. The answers are the calls of
  the callbacks, \<^verbatim>\<open>RequestMessage::onTimeout\<close> and the request branch of \<^verbatim>\<open>AsioClient::doResponse\<close>.
\<close>

datatype ('p, 'r, 'k) req_event =
    ReqPut int int 'p 'r int
  | ReqWritten int int
  | ReqTimeout int int
  | ReqResponse int int 'k

datatype ('p, 'r, 'k) answer =
    Answer (ans_id: int) (ans_pac: 'p) (ans_res: 'r) (ans_code: ErrorCode) (ans_rsp: "'k option")

fun req_step ::
    "('p, 'r, 'k) req_event \<Rightarrow> ('p, 'r, 'k) answer list \<times> ('p, 'r) requests \<Rightarrow>
     ('p, 'r, 'k) answer list \<times> ('p, 'r) requests" where
  "req_step (ReqPut now k p r ms) (as, c) = (as, RequestMessage_put now k p r ms c)"
| "req_step (ReqWritten now k) (as, c) = (as, RequestMessage_startTimer now k c)"
| "req_step (ReqTimeout now k) (as, c) =
     (case RequestMessage_onTimeout now k c of
        (None, c') \<Rightarrow> (as, c')
      | (Some (r, code, p), c') \<Rightarrow> (as @ [Answer k p r code None], c'))"
| "req_step (ReqResponse now k pk) (as, c) =
     (case RequestMessage_pick now k c of
        (None, c') \<Rightarrow> (as, c')
      | (Some d, c') \<Rightarrow> (as @ [Answer k (rq_pac d) (rq_res d) eSuccess (Some pk)], c'))"

definition req_run ::
    "('p, 'r, 'k) req_event list \<Rightarrow> ('p, 'r, 'k) answer list \<times> ('p, 'r) requests" where
  "req_run evs = fold req_step evs ([], RequestMessage_new)"

fun tab_op_of :: "('p, 'r, 'k) req_event \<Rightarrow> (int, int, int \<times> 'p \<times> 'r \<times> int) tab_op" where
  "tab_op_of (ReqPut now k p r ms) = TPut k (now, p, r, ms)"
| "tab_op_of (ReqWritten now k) = TTouch now k"
| "tab_op_of (ReqTimeout now k) = TPick now k"
| "tab_op_of (ReqResponse now k pk) = TPick now k"

definition req_puts :: "('p, 'r, 'k) req_event list \<Rightarrow> (int \<times> 'p \<times> 'r) list" where
  "req_puts evs = map (\<lambda>(k, now, p, r, ms). (k, p, r)) (tab_puts (map tab_op_of evs))"

abbreviation req_tab where
  "req_tab \<equiv> tab_step (\<lambda>k (now, p, r, ms). RequestMessage_put now k p r ms) RequestMessage_startTimer
     (\<lambda>now k c. map_prod (map_option request_of) id (RequestMessage_pick now k c))"

definition answered :: "('p, 'r, 'k) answer list \<Rightarrow> (int \<times> 'p \<times> 'r) list" where
  "answered as = map (\<lambda>a. (ans_id a, ans_pac a, ans_res a)) as"

lemma req_step_tab:
  assumes "answered as = map (\<lambda>(k, now, p, r, ms). (k, p, r)) out"
  shows "\<exists>out'. req_tab (tab_op_of ev) (out, c) = (out', snd (req_step ev (as, c))) \<and>
    answered (fst (req_step ev (as, c))) = map (\<lambda>(k, now, p, r, ms). (k, p, r)) out'"
  using assms
  by (cases ev) (auto simp: RequestMessage_onTimeout_def RequestMessage_pick_def request_of_def
      answered_def split: option.splits)

lemma req_run_tab:
  "\<exists>out. fold req_tab (map tab_op_of evs) ([], RequestMessage_new) = (out, snd (req_run evs)) \<and>
     answered (fst (req_run evs)) = map (\<lambda>(k, now, p, r, ms). (k, p, r)) out"
proof (induction evs rule: rev_induct)
  case Nil
  show ?case by (simp add: req_run_def answered_def)
next
  case (snoc ev evs)
  obtain as c where r: "req_run evs = (as, c)" by (cases "req_run evs")
  from snoc [unfolded r fst_conv snd_conv] obtain out where out: "fold req_tab (map tab_op_of evs) ([], RequestMessage_new) = (out, c)"
    "answered as = map (\<lambda>(k, now, p, r, ms). (k, p, r)) out" by blast
  have A: "req_run (evs @ [ev]) = req_step ev (as, c)" using r by (simp add: req_run_def)
  have B: "fold req_tab (map tab_op_of (evs @ [ev])) ([], RequestMessage_new)
      = req_tab (tab_op_of ev) (out, c)"
    unfolding map_append fold_append comp_apply out(1) by simp
  show ?case unfolding A B by (rule req_step_tab [OF out(2)])
qed

definition answer_ok :: "('p, 'r, 'k) req_event list \<Rightarrow> ('p, 'r, 'k) answer \<Rightarrow> bool" where
  "answer_ok evs a \<longleftrightarrow>
     (case ans_rsp a of
        None \<Rightarrow> ans_code a = eTimeout \<and> (\<exists>now. ReqTimeout now (ans_id a) \<in> set evs)
      | Some pk \<Rightarrow> ans_code a = eSuccess \<and> (\<exists>now. ReqResponse now (ans_id a) pk \<in> set evs))"

lemma answers_ok: "\<forall>a \<in> set (fst (req_run evs)). answer_ok evs a"
proof (induction evs rule: rev_induct)
  case (snoc ev evs)
  obtain as c where r: "req_run evs = (as, c)" by (cases "req_run evs")
  have old: "answer_ok (evs @ [ev]) a" if "a \<in> set as" for a
    using snoc that r by (auto simp: answer_ok_def split: option.splits)
  have "req_run (evs @ [ev]) = req_step ev (as, c)" using r by (simp add: req_run_def)
  with old show ?case
    by (cases ev) (auto simp: RequestMessage_onTimeout_def RequestMessage_pick_def answer_ok_def
        split: option.splits)
qed (simp add: req_run_def)

text \<open>
  Property C15. Every request is answered once. In every history in which no message id is used twice,
  each callback is called at most once, with the package and the callback of its own request: with a
  response that arrived under its id, or with the time-out code when its timer fired. A request that
  has not been answered is still in the table.
\<close>

theorem requests_answered_once:
  assumes "distinct (map fst (req_puts evs))" and "req_run evs = (as, cache)"
  shows "distinct (map ans_id as) \<and> set (answered as) \<subseteq> set (req_puts evs) \<and>
    (\<forall>a \<in> set as. answer_ok evs a) \<and>
    (\<forall>(k, p, r) \<in> set (req_puts evs). (k, p, r) \<in> set (answered as) \<longleftrightarrow> cache k = None)"
proof -
  obtain out where out: "fold req_tab (map tab_op_of evs) ([], RequestMessage_new) = (out, cache)"
    "answered as = map (\<lambda>(k, now, p, r, ms). (k, p, r)) out"
    using req_run_tab [of evs] assms(2) by auto
  let ?puts = "tab_puts (map tab_op_of evs)"
  have d: "distinct (map fst ?puts)"
    using assms(1) by (simp add: req_puts_def comp_def case_prod_unfold)
  have e: "waiting_requests RequestMessage_new k = None" for k
    by (simp add: waiting_requests_def RequestMessage_new_def)
  note h = rq.handed_out_or_waiting [OF e d out(1)]
  have ids: "map ans_id as = map fst out"
    using arg_cong [OF out(2), of "map fst"] by (simp add: answered_def comp_def case_prod_unfold)
  have inj: "v = w" if "(k, v) \<in> set ?puts" "(k, w) \<in> set ?puts" for k v w
    using d that by (rule eq_key_imp_eq_value)
  have "(k, p, r) \<in> set (answered as) \<longleftrightarrow> cache k = None" if "(k, p, r) \<in> set (req_puts evs)" for k p r
  proof -
    from that obtain now ms where v: "(k, now, p, r, ms) \<in> set ?puts" by (auto simp: req_puts_def)
    have "(k, p, r) \<in> set (answered as) \<longleftrightarrow> (\<exists>now ms. (k, now, p, r, ms) \<in> set out)"
      by (force simp: out(2))
    also have "\<dots> \<longleftrightarrow> (k, now, p, r, ms) \<in> set out" using h v inj by blast
    also have "\<dots> \<longleftrightarrow> waiting_requests cache k = None"
    proof (cases "waiting_requests cache k")
      case None
      with h v show ?thesis by (metis option.distinct(1))
    next
      case (Some w)
      with h have w: "(k, w) \<in> set ?puts" "(k, w) \<notin> set out" by blast+
      from inj [OF this(1) v] w(2) Some show ?thesis by simp
    qed
    finally show ?thesis by (simp add: waiting_requests_def)
  qed
  then have "\<forall>(k, p, r) \<in> set (req_puts evs). (k, p, r) \<in> set (answered as) \<longleftrightarrow> cache k = None"
    by auto
  moreover have "set (answered as) \<subseteq> set (req_puts evs)"
    unfolding out(2) req_puts_def set_map using h by (intro image_mono) simp
  moreover have "\<forall>a \<in> set as. answer_ok evs a" using answers_ok [of evs] assms(2) by simp
  moreover have "distinct (map ans_id as)" using h ids by simp
  ultimately show ?thesis by (intro conjI)
qed

theorem requests_answered_once_witness:
  "let as = fst (req_run [ReqPut 0 1 ''a'' ''f'' 5000, ReqPut 0 2 ''b'' ''g'' 5000, ReqWritten 3 1,
      ReqResponse 9 1 ''rsp'', ReqTimeout 5000 1])
   in as = [Answer 1 ''a'' ''f'' eSuccess (Some ''rsp'')] \<and> distinct (map ans_id as)"
proof -
  let ?e = "[ReqPut 0 1 ''a'' ''f'' 5000, ReqPut 0 2 ''b'' ''g'' 5000, ReqWritten 3 1,
      ReqResponse 9 1 ''rsp'', ReqTimeout 5000 1]"
  have "distinct (map fst (req_puts ?e))" by (simp add: req_puts_def)
  from requests_answered_once [OF this] show ?thesis
    by (simp add: Let_def req_run_def RequestMessage_put_def RequestMessage_startTimer_def
        RequestMessage_pick_def RequestMessage_onTimeout_def RequestMessage_new_def Data_new_def)
qed

end
