(* ===== verification/AsioClient.thy ===== *)
theory AsioClient
  imports Session Handlers RequestMessage Sample_Pb
begin

text \<open>
  The client, \<^verbatim>\<open>asio/internal/AsioClient.cpp\<close>. Packages are shared between the write queue, the table
  of outstanding requests and the callbacks, and \<^verbatim>\<open>encode\<close> updates them: they live in a store and
  are referred to by their position in it. The methods run as handlers of the event loop; what they
  ask of it is the list of effects they return. The network, the clock and the resolver are
  arguments: a completion handler gets the error flag and the bytes, \<open>now\<close> is
  \<^verbatim>\<open>util::currentMillisecond()\<close>, and the resolver returns no endpoint when it throws.
\<close>

section \<open>State\<close>

type_synonym ref = nat

text \<open>The callbacks of the library itself, and those of the user.\<close>

datatype 'r response = UserResponse 'r | SubscribeResponse | HeartbeatResponse | SendResponse nat

text \<open>
  The local variables of a call of \<^verbatim>\<open>sendMessage\<close>, which its callback refers to, and whether the call
  is still running: it may have returned with the error of the post, or after it has been woken up.
\<close>

datatype send_frame = InCall | Refused | Done

record 'm waiter =
  wt_frame :: send_frame
  isWait :: bool
  wt_err :: int
  wt_rsp :: "'m option"

record ('u, 'r, 'pub, 'del) client =
  addressIndex :: nat
  addressList :: "string list"
  pendingList :: "ref list"
  cl_id :: int
  reconnectSeconds :: int
  heartbeatSeconds :: int
  isOnline :: bool
  cl_stopped :: bool
  connectSuccess :: bool
  cl_readBuffer :: buffer
  handlerList :: "('pub, 'del, ref) handler list"
  requestMessage :: "(ref, 'r response) requests"
  cl_store :: "'u pb_message Package list"
  waiters :: "'u pb_message waiter list"
  cl_runthread :: bool
  cl_threadDoResponse :: bool

datatype ('u, 'r, 'pub, 'del, 'ep) client_effect =
    AsyncConnect 'ep
  | ClientRead
  | ClientWrite "char list" int
  | PostClose
  | PostStartWrite ref
  | PostResponse ref
  | WaitHeartbeat
  | Sleep int
  | CloseSocket
  | CallConnectSuccess
  | CallResponse 'r ErrorCode ref "ref option"
  | HandlerCall "('u pb_message, 'pub, 'del, ref) handler_call"

type_synonym ('u, 'r, 'pub, 'del, 'ep) client_result =
  "(('u, 'r, 'pub, 'del) client \<times> ('u, 'r, 'pub, 'del, 'ep) client_effect list) result"

definition AsioClient_new :: "string list \<Rightarrow> int \<Rightarrow> int \<Rightarrow> ('u, 'r, 'pub, 'del) client result" where
  "AsioClient_new addresses reconnect heartbeat =
     rbind (Buffer_new kInitialSize) (\<lambda>b.
       Inr \<lparr>addressIndex = 0, addressList = addresses, pendingList = [], cl_id = 0,
            reconnectSeconds = reconnect, heartbeatSeconds = heartbeat, isOnline = False,
            cl_stopped = False, connectSuccess = False, cl_readBuffer = b, handlerList = [],
            requestMessage = RequestMessage_new, cl_store = [], waiters = [],
            cl_runthread = False, cl_threadDoResponse = False\<rparr>)"

definition addHandler ::
    "('pub, 'del, ref) handler \<Rightarrow> ('u, 'r, 'pub, 'del) client \<Rightarrow> ('u, 'r, 'pub, 'del) client" where
  "addHandler h c = c\<lparr>handlerList := handlerList c @ [h]\<rparr>"

definition setConnectSuccess :: "bool \<Rightarrow> ('u, 'r, 'pub, 'del) client \<Rightarrow> ('u, 'r, 'pub, 'del) client" where
  "setConnectSuccess cb c = c\<lparr>connectSuccess := cb\<rparr>"

text \<open>Allocation of a package.\<close>

definition new_package ::
    "'u pb_message Package \<Rightarrow> ('u, 'r, 'pub, 'del) client \<Rightarrow> ref \<times> ('u, 'r, 'pub, 'del) client" where
  "new_package p c = (length (cl_store c), c\<lparr>cl_store := cl_store c @ [p]\<rparr>)"

section \<open>Sending\<close>

definition postPackage ::
    "ref option \<Rightarrow> ('u, 'r, 'pub, 'del) client \<Rightarrow>
     ErrorCode \<times> ('u, 'r, 'pub, 'del, 'ep) client_effect list" where
  "postPackage package c =
     (case package of
        None \<Rightarrow> (eParams, [])
      | Some p \<Rightarrow>
          if cl_stopped c then (eServiceStopped, [])
          else if \<not> isOnline c then (eDisconnect, [])
          else (eSuccess, [PostStartWrite p]))"

text \<open>The package of a request or of a publication.\<close>

definition client_package ::
    "('d, 'u pb_message) env \<Rightarrow> int16 \<Rightarrow> bool \<Rightarrow> int \<Rightarrow> 'u pb_message \<Rightarrow> 'u pb_message Package" where
  "client_package E t isOrder i msg =
     \<lparr>header = set_isorder isOrder (PacHeader_new\<lparr>msgType := t, msgId := word_of_int i,
        typeNameLen := word_of_nat (length (GetTypeName E msg))\<rparr>),
      typeName = GetTypeName E msg, body = [], msgPtr = Some msg\<rparr>"

definition postMessage_order ::
    "('d, 'u pb_message) env \<Rightarrow> int \<Rightarrow> bool \<Rightarrow> 'u pb_message option \<Rightarrow> 'r response \<Rightarrow> int \<Rightarrow>
     ('u, 'r, 'pub, 'del) client \<Rightarrow>
     (ErrorCode \<times> ('u, 'r, 'pub, 'del) client \<times> ('u, 'r, 'pub, 'del, 'ep) client_effect list) result" where
  "postMessage_order E now isOrder msg res msTimeout c =
     (case msg of
        None \<Rightarrow> Inl NullDeref
      | Some msg \<Rightarrow>
         (let (i, n') = next_msgId (cl_id c);
              pac = client_package E REQREP isOrder i msg;
              (p, c1) = new_package pac (c\<lparr>cl_id := n'\<rparr>);
              c2 = c1\<lparr>requestMessage := RequestMessage_put now (sint (msgId (header pac))) p res msTimeout
                     (requestMessage c1)\<rparr>;
              (code, effs) = postPackage (Some p) c2
          in Inr (code, c2, effs)))"

definition AsioClient_postMessage ::
    "('d, 'u pb_message) env \<Rightarrow> int \<Rightarrow> 'u pb_message option \<Rightarrow> 'r response \<Rightarrow> int \<Rightarrow>
     ('u, 'r, 'pub, 'del) client \<Rightarrow>
     (ErrorCode \<times> ('u, 'r, 'pub, 'del) client \<times> ('u, 'r, 'pub, 'del, 'ep) client_effect list) result" where
  "AsioClient_postMessage E now msg res msTimeout c = postMessage_order E now False msg res msTimeout c"

definition postOrderMessage ::
    "('d, 'u pb_message) env \<Rightarrow> int \<Rightarrow> 'u pb_message option \<Rightarrow> 'r response \<Rightarrow> int \<Rightarrow>
     ('u, 'r, 'pub, 'del) client \<Rightarrow>
     (ErrorCode \<times> ('u, 'r, 'pub, 'del) client \<times> ('u, 'r, 'pub, 'del, 'ep) client_effect list) result" where
  "postOrderMessage E now msg res msTimeout c = postMessage_order E now True msg res msTimeout c"

definition AsioClient_publishMessage ::
    "('d, 'u pb_message) env \<Rightarrow> 'u pb_message option \<Rightarrow> ('u, 'r, 'pub, 'del) client \<Rightarrow>
     ('u, 'r, 'pub, 'del, 'ep) client_result" where
  "AsioClient_publishMessage E msg c =
     (case msg of
        None \<Rightarrow> Inl NullDeref
      | Some msg \<Rightarrow>
         (let (i, n') = next_msgId (cl_id c);
              (p, c1) = new_package (client_package E PUBSUB False i msg) (c\<lparr>cl_id := n'\<rparr>)
          in Inr (c1, snd (postPackage (Some p) c1))))"

text \<open>
  \<^verbatim>\<open>startWrite()\<close> encodes the front of the queue and starts to write it. Nothing happens when it
  cannot be encoded.
\<close>

definition startWrite_front ::
    "('d, 'u pb_message) env \<Rightarrow> ('u, 'r, 'pub, 'del) client \<Rightarrow> ('u, 'r, 'pub, 'del, 'ep) client_result" where
  "startWrite_front E c =
     (case pendingList c of
        [] \<Rightarrow> Inl OutOfBounds
      | p # _ \<Rightarrow>
          if length (cl_store c) \<le> p then Inl NullDeref
          else rbind (Buffer_new kInitialSize) (\<lambda>b0.
            rbind (encode E (cl_store c ! p) b0) (\<lambda>(ok, pac', b).
              let c' = c\<lparr>cl_store := (cl_store c)[p := pac']\<rparr>
              in if ok then rbind (load (peek b) (readableBytes b) b) (\<lambda>d.
                   Inr (c', [ClientWrite d (sint (msgId (header pac')))]))
                 else Inr (c', []))))"

definition startWrite ::
    "('d, 'u pb_message) env \<Rightarrow> ref \<Rightarrow> ('u, 'r, 'pub, 'del) client \<Rightarrow>
     ('u, 'r, 'pub, 'del, 'ep) client_result" where
  "startWrite E p c =
     (let isProgress = (pendingList c \<noteq> []);
          c' = c\<lparr>pendingList := pendingList c @ [p]\<rparr>
      in if \<not> isProgress then startWrite_front E c' else Inr (c', []))"

text \<open>The completion handler of the write.\<close>

definition write_completed ::
    "('d, 'u pb_message) env \<Rightarrow> int \<Rightarrow> bool \<Rightarrow> int \<Rightarrow> ('u, 'r, 'pub, 'del) client \<Rightarrow>
     ('u, 'r, 'pub, 'del, 'ep) client_result" where
  "write_completed E now ec msgid c =
     (let c1 = c\<lparr>requestMessage := RequestMessage_startTimer now msgid (requestMessage c)\<rparr>
      in if \<not> ec then
           (case pendingList c1 of
              [] \<Rightarrow> Inl OutOfBounds
            | _ # ps \<Rightarrow>
               (let c2 = c1\<lparr>pendingList := ps\<rparr>
                in if ps \<noteq> [] then startWrite_front E c2 else Inr (c2, [])))
         else Inr (c1, [PostClose]))"

section \<open>Connecting\<close>

text \<open>\<^verbatim>\<open>addressList_[addressIndex_].find(":")\<close>, assigned to an \<^verbatim>\<open>int\<close>: -1 if there is none.\<close>

definition find_colon :: "string \<Rightarrow> int" where
  "find_colon s = (if CHR '':'' \<in> set s then wrap32 (int (length (takeWhile (\<lambda>ch. ch \<noteq> CHR '':'') s))) else -1)"

definition connect ::
    "(string \<Rightarrow> string \<Rightarrow> 'ep option) \<Rightarrow> ('u, 'r, 'pub, 'del) client \<Rightarrow>
     ('u, 'r, 'pub, 'del, 'ep) client_result" where
  "connect resolve c =
     (let c1 = (if length (addressList c) \<le> addressIndex c then c\<lparr>addressIndex := 0\<rparr> else c)
      in if length (addressList c1) \<le> addressIndex c1 then Inl OutOfBounds
         else
          (let address = addressList c1 ! addressIndex c1;
               pos = find_colon address
           in rbind (cpp_assert (pos > 0)) (\<lambda>_.
              (case resolve (take (nat pos) address) (drop (nat (pos + 1)) address) of
                 None \<Rightarrow> Inl SystemError
               | Some ep \<Rightarrow> Inr (c1, [AsyncConnect ep])))))"

text \<open>
  \<^verbatim>\<open>start\<close> starts the threads that are not joinable, \<^verbatim>\<open>stop\<close> joins them; a thread ends when its event
  loop is stopped. An event loop that has been stopped is never reset.
\<close>

definition AsioClient_start ::
    "(string \<Rightarrow> string \<Rightarrow> 'ep option) \<Rightarrow> ('u, 'r, 'pub, 'del) client \<Rightarrow>
     ('u, 'r, 'pub, 'del, 'ep) client_result" where
  "AsioClient_start resolve c =
     rbind (connect resolve c) (\<lambda>(c1, effs).
       Inr (c1\<lparr>cl_runthread := True, cl_threadDoResponse := True\<rparr>, effs))"

definition AsioClient_close :: "('u, 'r, 'pub, 'del, 'ep) client_effect list" where
  "AsioClient_close = [PostClose]"

definition AsioClient_stop ::
    "('u, 'r, 'pub, 'del) client \<Rightarrow>
     ('u, 'r, 'pub, 'del) client \<times> ('u, 'r, 'pub, 'del, 'ep) client_effect list" where
  "AsioClient_stop c =
     (c\<lparr>cl_stopped := True, cl_runthread := False, cl_threadDoResponse := False\<rparr>, AsioClient_close)"

definition AsioClient_stopped :: "('u, 'r, 'pub, 'del) client \<Rightarrow> bool" where
  "AsioClient_stopped c = cl_stopped c"

declare AsioClient_stopped_def [simp]

definition AsioClient_delete ::
    "('u, 'r, 'pub, 'del) client \<Rightarrow>
     ('u, 'r, 'pub, 'del) client \<times> ('u, 'r, 'pub, 'del, 'ep) client_effect list" where
  "AsioClient_delete c = AsioClient_stop c"

definition startRead :: "('u, 'r, 'pub, 'del, 'ep) client_effect list" where
  "startRead = [ClientRead]"

text \<open>The subscription request lists the names of all handlers with their kinds.\<close>

fun subscribe_names :: "int32 \<Rightarrow> string list \<Rightarrow> 'u SubscribeReq \<Rightarrow> 'u SubscribeReq" where
  "subscribe_names t [] msg = msg"
| "subscribe_names t (n # ns) msg =
     subscribe_names t ns (SubscribeReq_add_typenamelist n (SubscribeReq_add_msgtypelist t msg))"

fun subscribe_handlers :: "('pub, 'del, 'p) handler list \<Rightarrow> 'u SubscribeReq \<Rightarrow> 'u SubscribeReq" where
  "subscribe_handlers [] msg = msg"
| "subscribe_handlers (h # hs) msg =
     subscribe_handlers hs (subscribe_names (word_of_int (handler_type h)) (handler_typeNames h) msg)"

text \<open>The message that \<^verbatim>\<open>startSubscribe\<close> makes, and its post.\<close>

definition subscription_of :: "'u wire \<Rightarrow> ('pub, 'del, 'p) handler list \<Rightarrow> 'u SubscribeReq" where
  "subscription_of W hs = subscribe_handlers hs (SubscribeReq_set_type 1 (SubscribeReq_new W))"

definition startSubscribe ::
    "('d, 'u pb_message) env \<Rightarrow> 'u wire \<Rightarrow> int \<Rightarrow> ('u, 'r, 'pub, 'del) client \<Rightarrow>
     ('u, 'r, 'pub, 'del, 'ep) client_result" where
  "startSubscribe E W now c =
     (if handlerList c = [] then Inr (c, [])
      else
        rbind (AsioClient_postMessage E now (Some (PbSubscribeReq (subscription_of W (handlerList c))))
            SubscribeResponse kMsTimeout c)
          (\<lambda>(_, c', effs). Inr (c', effs)))"

definition startHeartbeatTimer ::
    "('u, 'r, 'pub, 'del) client \<Rightarrow> ('u, 'r, 'pub, 'del, 'ep) client_effect list" where
  "startHeartbeatTimer c = (if heartbeatSeconds c > 0 then [WaitHeartbeat] else [])"

definition AsioClient_doHeartbeat ::
    "('d, 'u pb_message) env \<Rightarrow> 'u wire \<Rightarrow> int \<Rightarrow> bool \<Rightarrow> ('u, 'r, 'pub, 'del) client \<Rightarrow>
     ('u, 'r, 'pub, 'del, 'ep) client_result" where
  "AsioClient_doHeartbeat E W now e c =
     (if e then Inr (c, [])
      else
        (let msg = HeartbeatReq_set_memory 0 (HeartbeatReq_set_cpu 0 (HeartbeatReq_new W))
         in rbind (AsioClient_postMessage E now (Some (PbHeartbeatReq msg)) HeartbeatResponse (10 * 1000) c)
              (\<lambda>(_, c', effs). Inr (c', effs))))"

definition doConnect ::
    "('d, 'u pb_message) env \<Rightarrow> 'u wire \<Rightarrow> (string \<Rightarrow> string \<Rightarrow> 'ep option) \<Rightarrow> int \<Rightarrow> bool \<Rightarrow>
     ('u, 'r, 'pub, 'del) client \<Rightarrow> ('u, 'r, 'pub, 'del, 'ep) client_result" where
  "doConnect E W resolve now ec c =
     (let c1 = c\<lparr>isOnline := \<not> ec\<rparr>
      in if \<not> ec then
           rbind (startSubscribe E W now c1) (\<lambda>(c2, effs).
             Inr (c2, startRead @ effs @ startHeartbeatTimer c2
               @ (if connectSuccess c2 then [CallConnectSuccess] else [])))
         else if reconnectSeconds c1 > 0 then
           rbind (connect resolve (c1\<lparr>addressIndex := addressIndex c1 + 1\<rparr>)) (\<lambda>(c2, effs).
             Inr (c2, Sleep (reconnectSeconds c1) # effs))
         else Inr (c1, []))"

definition doClose ::
    "(string \<Rightarrow> string \<Rightarrow> 'ep option) \<Rightarrow> bool \<Rightarrow> ('u, 'r, 'pub, 'del) client \<Rightarrow>
     ('u, 'r, 'pub, 'del, 'ep) client_result" where
  "doClose resolve is_open c =
     (let effs = (if is_open then [CloseSocket] else []);
          c1 = c\<lparr>isOnline := False\<rparr>
      in if \<not> cl_stopped c1 \<and> reconnectSeconds c1 > 0 then
           rbind (connect resolve c1) (\<lambda>(c2, effs').
             Inr (c2, effs @ Sleep (reconnectSeconds c1) # effs'))
         else Inr (c1, effs))"

section \<open>Receiving\<close>

fun new_packages ::
    "'u pb_message Package list \<Rightarrow> ('u, 'r, 'pub, 'del) client \<Rightarrow> ref list \<times> ('u, 'r, 'pub, 'del) client" where
  "new_packages [] c = ([], c)"
| "new_packages (p # ps) c =
     (let (r, c1) = new_package p c; (rs, c2) = new_packages ps c1 in (r # rs, c2))"

definition AsioClient_doRead ::
    "('d, 'u pb_message) env \<Rightarrow> bool \<Rightarrow> char list \<Rightarrow> ('u, 'r, 'pub, 'del) client \<Rightarrow>
     ('u, 'r, 'pub, 'del, 'ep) client_result" where
  "AsioClient_doRead E ec tempBuf c =
     (if ec then Inr (c, AsioClient_close)
      else
        rbind (append_data tempBuf (length tempBuf) (cl_readBuffer c)) (\<lambda>b.
        rbind (readLoop E b) (\<lambda>(packs, b').
          let (refs, c') = new_packages packs (c\<lparr>cl_readBuffer := b'\<rparr>)
          in Inr (c', map PostResponse refs @ startRead))))"

text \<open>
  Calling a callback. That of the subscription only looks at the error code of the response; that of
  the heartbeat waits for the next one; that of \<^verbatim>\<open>sendMessage\<close> wakes up its caller, through references to the
  caller's local variables, which dangle once the call has returned.
\<close>

definition subscribe_response ::
    "ErrorCode \<Rightarrow> 'u pb_message Package option \<Rightarrow> unit result" where
  "subscribe_response error rsp =
     (if error \<noteq> eSuccess then Inr ()
      else (case rsp of
        None \<Rightarrow> Inl NullDeref
      | Some pac \<Rightarrow> (case msgPtr pac of
          None \<Rightarrow> Inl NullDeref
        | Some (PbSubscribeRsp p) \<Rightarrow> Inr ()
        | Some _ \<Rightarrow> Inl BadCast)))"

definition send_response ::
    "ErrorCode \<Rightarrow> 'u pb_message Package option \<Rightarrow> 'u pb_message waiter \<Rightarrow> 'u pb_message waiter result" where
  "send_response error rsp w =
     rbind (if error = eSuccess then
              (case rsp of None \<Rightarrow> Inl NullDeref | Some pac \<Rightarrow> Inr (w\<lparr>wt_rsp := msgPtr pac\<rparr>))
            else Inr w)
       (\<lambda>w1. Inr (w1\<lparr>wt_err := error_code error, isWait := False\<rparr>))"

definition get_package :: "('u, 'r, 'pub, 'del) client \<Rightarrow> ref option \<Rightarrow> 'u pb_message Package option" where
  "get_package c r = map_option (\<lambda>r. cl_store c ! r) r"

fun call_response ::
    "'r response \<Rightarrow> ErrorCode \<Rightarrow> ref \<Rightarrow> ref option \<Rightarrow> ('u, 'r, 'pub, 'del) client \<Rightarrow>
     ('u, 'r, 'pub, 'del, 'ep) client_result" where
  "call_response (UserResponse r) error req rsp c = Inr (c, [CallResponse r error req rsp])"
| "call_response SubscribeResponse error req rsp c =
     rbind (subscribe_response error (get_package c rsp)) (\<lambda>_. Inr (c, []))"
| "call_response HeartbeatResponse error req rsp c = Inr (c, [WaitHeartbeat])"
| "call_response (SendResponse k) error req rsp c =
     (if length (waiters c) \<le> k \<or> wt_frame (waiters c ! k) \<noteq> InCall then Inl DanglingReference
      else rbind (send_response error (get_package c rsp) (waiters c ! k)) (\<lambda>w.
        Inr (c\<lparr>waiters := (waiters c)[k := w]\<rparr>, [])))"

definition request_timeout ::
    "int \<Rightarrow> int \<Rightarrow> ('u, 'r, 'pub, 'del) client \<Rightarrow> ('u, 'r, 'pub, 'del, 'ep) client_result" where
  "request_timeout now msgid c =
     (case RequestMessage_onTimeout now msgid (requestMessage c) of
        (None, cache) \<Rightarrow> Inr (c\<lparr>requestMessage := cache\<rparr>, [])
      | (Some (res, code, p), cache) \<Rightarrow>
          call_response res code p None (c\<lparr>requestMessage := cache\<rparr>))"

fun handlers_onPackage ::
    "ref \<Rightarrow> 'm Package \<Rightarrow> ('pub, 'del, ref) handler list \<Rightarrow>
     ('pub, 'del, ref) handler list \<times> ('m, 'pub, 'del, ref) handler_call list" where
  "handlers_onPackage r pack [] = ([], [])"
| "handlers_onPackage r pack (h # hs) =
     (let (h', calls) = handler_onPackage r pack h; (hs', calls') = handlers_onPackage r pack hs
      in (h' # hs', calls @ calls'))"

definition doResponse ::
    "int \<Rightarrow> ref \<Rightarrow> ('u, 'r, 'pub, 'del) client \<Rightarrow> ('u, 'r, 'pub, 'del, 'ep) client_result" where
  "doResponse now r c =
     (if length (cl_store c) \<le> r then Inl NullDeref
      else
        (let pack = cl_store c ! r; msgid = sint (msgId (header pack))
         in if msgType (header pack) = REQREP then
              (case RequestMessage_pick now msgid (requestMessage c) of
                 (None, cache) \<Rightarrow> Inr (c\<lparr>requestMessage := cache\<rparr>, [])
               | (Some rsp, cache) \<Rightarrow>
                   call_response (rq_res rsp) eSuccess (rq_pac rsp) (Some r) (c\<lparr>requestMessage := cache\<rparr>))
            else
              (let (hs, calls) = handlers_onPackage r pack (handlerList c)
               in Inr (c\<lparr>handlerList := hs\<rparr>, map HandlerCall calls))))"

text \<open>
  A job of a deliver handler's pool: the user's function \<open>call\<close> gives the response, and
  \<^verbatim>\<open>replyDeliver\<close> posts it under the header of the request.
\<close>

definition replyDeliver ::
    "('d, 'u pb_message) env \<Rightarrow> ref \<Rightarrow> 'u pb_message option \<Rightarrow> ('u, 'r, 'pub, 'del) client \<Rightarrow>
     ('u, 'r, 'pub, 'del, 'ep) client_result" where
  "replyDeliver E req rspMsg c =
     (if length (cl_store c) \<le> req then Inl NullDeref
      else (case rspMsg of
        None \<Rightarrow> Inl NullDeref
      | Some rsp \<Rightarrow>
         (let (p, c1) = new_package (reply_package E (cl_store c ! req) rsp) c
          in Inr (c1, snd (postPackage (Some p) c1)))))"

definition deliver_job ::
    "('d, 'u pb_message) env \<Rightarrow> ('del \<Rightarrow> 'u pb_message Package \<Rightarrow> 'u pb_message option) \<Rightarrow>
     'del \<times> ref \<Rightarrow> ('u, 'r, 'pub, 'del) client \<Rightarrow> ('u, 'r, 'pub, 'del, 'ep) client_result" where
  "deliver_job E call job c =
     (if length (cl_store c) \<le> snd job then Inl NullDeref
      else replyDeliver E (snd job) (call (fst job) (cl_store c ! snd job)) c)"

section \<open>Waiting\<close>

text \<open>
  \<^verbatim>\<open>sendMessage\<close> posts the message and waits for its callback. Its first part returns the waiter that
  it waits for, or the error of the post; the callback is in the table in either case. Its second part is
  what it returns once the waiter has been woken up. With either return its local variables are gone.
\<close>

definition sendMessage_begin ::
    "('d, 'u pb_message) env \<Rightarrow> int \<Rightarrow> 'u pb_message option \<Rightarrow> int \<Rightarrow> ('u, 'r, 'pub, 'del) client \<Rightarrow>
     ((ErrorCode + nat) \<times> ('u, 'r, 'pub, 'del) client \<times> ('u, 'r, 'pub, 'del, 'ep) client_effect list) result" where
  "sendMessage_begin E now msg msTimeout c =
     (let k = length (waiters c);
          c1 = c\<lparr>waiters := waiters c @ [\<lparr>wt_frame = InCall, isWait = True, wt_err = 0, wt_rsp = None\<rparr>]\<rparr>
      in rbind (AsioClient_postMessage E now msg (SendResponse k) msTimeout c1) (\<lambda>(code, c2, effs).
           if code \<noteq> eSuccess
           then Inr (Inl code, c2\<lparr>waiters := (waiters c2)[k := (waiters c2 ! k)\<lparr>wt_frame := Refused\<rparr>]\<rparr>, effs)
           else Inr (Inr k, c2, effs)))"

definition sendMessage_end ::
    "nat \<Rightarrow> ('u, 'r, 'pub, 'del) client \<Rightarrow> (int \<times> 'u pb_message option) option" where
  "sendMessage_end k c =
     (if isWait (waiters c ! k) then None else Some (wt_err (waiters c ! k), wt_rsp (waiters c ! k)))"

text \<open>The waiting thread wakes up: it returns if it has been answered, and waits on if not.\<close>

definition sendMessage_wake ::
    "nat \<Rightarrow> ('u, 'r, 'pub, 'del) client \<Rightarrow> ('u, 'r, 'pub, 'del) client" where
  "sendMessage_wake k c =
     (if k < length (waiters c) \<and> wt_frame (waiters c ! k) = InCall \<and> \<not> isWait (waiters c ! k)
      then c\<lparr>waiters := (waiters c)[k := (waiters c ! k)\<lparr>wt_frame := Done\<rparr>]\<rparr>
      else c)"

text \<open>
  \<^verbatim>\<open>waitConnected\<close>: \<open>online k\<close> is the value of \<^verbatim>\<open>isOnline_\<close> at its \<open>k\<close>-th reading. The result is the
  number of times it sleeps, and the last reading; the log line before it reads the flag too.
\<close>

function wait_loop :: "(nat \<Rightarrow> bool) \<Rightarrow> int \<Rightarrow> nat \<Rightarrow> int \<Rightarrow> nat" where
  "wait_loop online limit k cost =
     (if \<not> online k \<and> cost < limit then wait_loop online limit (k + 1) (cost + 100) else k)"
  by pat_completeness auto
termination
  by (relation "measure (\<lambda>(online, limit, k, cost). nat (limit - cost))") auto

declare wait_loop.simps [simp del]

definition waitConnected :: "(nat \<Rightarrow> bool) \<Rightarrow> int \<Rightarrow> nat \<times> bool" where
  "waitConnected online timeoutSeconds =
     (let k = wait_loop online (wrap32 (timeoutSeconds * 1000)) 0 0 in (k, online (k + 2)))"

section \<open>Message ids\<close>

lemma wrap32_wrap32_add: "wrap32 (wrap32 a + b) = wrap32 (a + b)" "wrap32 (b + wrap32 a) = wrap32 (b + a)"
  by (simp_all add: wrap32_def)

lemma next_msgId_counter:
  "next_msgId (wrap32 k) = (c_rem (wrap32 (k + 1)) INT_MAX, wrap32 (k + 1))"
  by (simp add: next_msgId_def Let_def wrap32_wrap32_add)

section \<open>Connecting\<close>

text \<open>An address of the list that can be connected to, and its endpoint.\<close>

definition endpoint_at ::
    "(string \<Rightarrow> string \<Rightarrow> 'ep option) \<Rightarrow> ('u, 'r, 'pub, 'del) client \<Rightarrow> nat \<Rightarrow> 'ep option" where
  "endpoint_at resolve c i =
     (let address = addressList c ! i; pos = find_colon address
      in if pos > 0 then resolve (take (nat pos) address) (drop (nat (pos + 1)) address) else None)"

lemma connect_at:
  assumes "addressIndex c \<le> length (addressList c)" and "addressList c \<noteq> []"
    and "endpoint_at resolve c (addressIndex c mod length (addressList c)) = Some ep"
  shows "connect resolve c
    = Inr (c\<lparr>addressIndex := addressIndex c mod length (addressList c)\<rparr>, [AsyncConnect ep])"
  using assms by (cases "addressIndex c = length (addressList c)")
    (auto simp: connect_def endpoint_at_def Let_def split: if_splits option.splits)

text \<open>A number of failed connection attempts in a row.\<close>

fun connect_failures ::
    "('d, 'u pb_message) env \<Rightarrow> 'u wire \<Rightarrow> (string \<Rightarrow> string \<Rightarrow> 'ep option) \<Rightarrow> int \<Rightarrow> nat \<Rightarrow>
     ('u, 'r, 'pub, 'del) client \<Rightarrow> ('u, 'r, 'pub, 'del, 'ep) client_result" where
  "connect_failures E W resolve now 0 c = Inr (c, [])"
| "connect_failures E W resolve now (Suc k) c =
     rbind (connect_failures E W resolve now k c) (\<lambda>(c1, effs).
     rbind (doConnect E W resolve now True c1) (\<lambda>(c2, effs'). Inr (c2, effs @ effs')))"

text \<open>
  Property C33. Reconnecting. After any number \<open>k\<close> of failed attempts the client is trying the address
  \<open>k\<close> places further in its list, starting over at the end of it, and before each attempt it has
  waited for the configured time; so every address of the list is tried.
\<close>

theorem reconnect_round_robin:
  assumes "addressIndex c < length (addressList c)" and "0 < reconnectSeconds c"
    and "\<forall>i < length (addressList c). endpoint_at resolve c i = Some (ep i)"
  shows "\<exists>c'. connect_failures E W resolve now k c = Inr (c', concat (map
      (\<lambda>j. [Sleep (reconnectSeconds c), AsyncConnect (ep ((addressIndex c + j) mod length (addressList c)))]) [1..<Suc k])) \<and>
    addressIndex c' = (addressIndex c + k) mod length (addressList c) \<and>
    addressList c' = addressList c \<and> reconnectSeconds c' = reconnectSeconds c"
proof (induction k)
  case 0
  from assms(1) show ?case by simp
next
  case (Suc k)
  let ?n = "length (addressList c)"
  from Suc obtain c1 where c1: "connect_failures E W resolve now k c = Inr (c1, concat (map
      (\<lambda>j. [Sleep (reconnectSeconds c), AsyncConnect (ep ((addressIndex c + j) mod ?n))]) [1..<Suc k]))"
    "addressIndex c1 = (addressIndex c + k) mod ?n" "addressList c1 = addressList c"
    "reconnectSeconds c1 = reconnectSeconds c" by blast
  have n: "0 < ?n" using assms(1) by auto
  let ?c2 = "c1\<lparr>isOnline := False, addressIndex := addressIndex c1 + 1\<rparr>"
  let ?i = "(addressIndex c + Suc k) mod ?n"
  have i: "addressIndex ?c2 mod length (addressList ?c2) = ?i"
    by (simp add: c1(2,3) mod_Suc_eq)
  have "endpoint_at resolve ?c2 ?i = Some (ep ?i)"
    using assms(3) n c1(3) by (simp add: endpoint_at_def)
  then have "connect resolve ?c2 = Inr (?c2\<lparr>addressIndex := ?i\<rparr>, [AsyncConnect (ep ?i)])"
    using connect_at [of ?c2 resolve "ep ?i"] n c1(2,3) i by (simp add: Suc_leI)
  then have "doConnect E W resolve now True c1
      = Inr (?c2\<lparr>addressIndex := ?i\<rparr>, [Sleep (reconnectSeconds c), AsyncConnect (ep ?i)])"
    using assms(2) c1(4) by (simp add: doConnect_def)
  with c1 show ?case by simp
qed

definition demo_client :: "(unit, string, string, string) client" where
  "demo_client = \<lparr>addressIndex = 1, addressList = [''a:1'', ''b:2''], pendingList = [], cl_id = 0,
     reconnectSeconds = 1, heartbeatSeconds = 5, isOnline = True, cl_stopped = False,
     connectSuccess = False, cl_readBuffer = buffer_of [], handlerList = [],
     requestMessage = RequestMessage_new, cl_store = [], waiters = [],
            cl_runthread = False, cl_threadDoResponse = False\<rparr>"

theorem reconnect_round_robin_witness:
  "\<exists>c'. connect_failures (pb_demo) sample_wire (\<lambda>h p. Some (h, p)) 0 1 demo_client
     = Inr (c', [Sleep 1, AsyncConnect (''a'', ''1'')]) \<and> addressIndex c' = 0"
proof -
  have "\<forall>i < length (addressList demo_client). endpoint_at (\<lambda>h p. Some (h, p)) demo_client i
      = Some ([(''a'', ''1''), (''b'', ''2'')] ! i)"
    by (simp add: demo_client_def endpoint_at_def find_colon_def wrap32_def less_Suc_eq numeral_2_eq_2 Let_def)
  from reconnect_round_robin [OF _ _ this, of "pb_demo" sample_wire 0 1]
  show ?thesis by (auto simp: demo_client_def)
qed

section \<open>Reading\<close>

lemma new_packages_eq:
  "new_packages ps c = ([length (cl_store c)..<length (cl_store c) + length ps],
     c\<lparr>cl_store := cl_store c @ ps\<rparr>)"
proof (induction ps arbitrary: c)
  case (Cons p ps)
  have "[length (cl_store c)..<length (cl_store c) + length (p # ps)]
      = length (cl_store c) # [Suc (length (cl_store c))..<Suc (length (cl_store c)) + length ps]"
    by (simp add: upt_rec)
  with Cons [of "c\<lparr>cl_store := cl_store c @ [p]\<rparr>"] show ?case by (simp add: new_package_def)
qed simp

text \<open>The packages that a handler posts for \<^verbatim>\<open>doResponse\<close>.\<close>

definition posted_responses ::
    "('u, 'r, 'pub, 'del) client \<Rightarrow> ('u, 'r, 'pub, 'del, 'ep) client_effect list \<Rightarrow> 'u pb_message Package list" where
  "posted_responses c effs =
     concat (map (\<lambda>e. case e of PostResponse r \<Rightarrow> [cl_store c ! r] | _ \<Rightarrow> []) effs)"

definition client_chunk ::
    "('d, 'u pb_message) env \<Rightarrow> char list \<Rightarrow> ('u, 'r, 'pub, 'del) client \<Rightarrow>
     cpp_error + ('u pb_message Package list \<times> ('u, 'r, 'pub, 'del) client)" where
  "client_chunk E d c = map_sum id
     (\<lambda>(c', effs :: ('u, 'r, 'pub, 'del, unit) client_effect list). (posted_responses c' effs, c'))
     (AsioClient_doRead E False d c)"

lemma doRead_posts:
  assumes "rbind (append_data d (length d) (cl_readBuffer c)) (readLoop E) = Inr (ps, b)"
  shows "client_chunk E d c = Inr (ps, c\<lparr>cl_readBuffer := b, cl_store := cl_store c @ ps\<rparr>)"
proof -
  have "map (\<lambda>r. (cl_store c @ ps) ! r) [length (cl_store c)..<length (cl_store c) + length ps] = ps"
    by (rule nth_equalityI) (simp_all add: nth_append)
  then show ?thesis
    using assms
    by (auto simp: client_chunk_def AsioClient_doRead_def rbind_eq_Inr new_packages_eq posted_responses_def
        startRead_def comp_def concat_map_singleton)
qed

lemma feed_client_chunk:
  assumes "feed (\<lambda>d b. rbind (append_data d (length d) b) (readLoop E)) ds (cl_readBuffer c) = Inr (ps, b)"
  shows "feed (client_chunk E) ds c = Inr (ps, c\<lparr>cl_readBuffer := b, cl_store := cl_store c @ ps\<rparr>)"
  using assms
proof (induction ds arbitrary: c ps)
  case (Cons d ds)
  then obtain ps1 b1 ps2 where
    s: "rbind (append_data d (length d) (cl_readBuffer c)) (readLoop E) = Inr (ps1, b1)"
    "feed (\<lambda>d b. rbind (append_data d (length d) b) (readLoop E)) ds b1 = Inr (ps2, b)" "ps = ps1 @ ps2"
    by (auto simp: rbind_eq_Inr)
  let ?c = "c\<lparr>cl_readBuffer := b1, cl_store := cl_store c @ ps1\<rparr>"
  from Cons.IH [of ?c ps2] s(2) doRead_posts [OF s(1)] s(3) show ?case by simp
qed simp

text \<open>
  Reassembly at the client. However the transport cuts a stream of frames into chunks,
  the client posts exactly the packages of the complete frames to its response thread, each once and
  in order, and keeps the bytes of the incomplete one.
\<close>

theorem client_reassembles:
  assumes "buf_inv (cl_readBuffer c)" and "contents (cl_readBuffer c) = []"
    and "list_all2 (is_frame E) fs ps" and "concat chunks = take n (concat fs)"
    and "n \<le> length (concat fs)"
  shows "\<exists>c'. feed (client_chunk E) chunks c = Inr (take (frames_in fs n) ps, c')
    \<and> cl_store c' = cl_store c @ take (frames_in fs n) ps \<and> buf_inv (cl_readBuffer c')
    \<and> concat (take (frames_in fs n) fs) @ contents (cl_readBuffer c') = concat chunks"
proof -
  obtain b where b: "feed (\<lambda>d b. rbind (append_data d (length d) b) (readLoop E)) chunks (cl_readBuffer c)
      = Inr (take (frames_in fs n) ps, b)" "buf_inv b"
    "contents b = take (n - complete fs n) (concat (drop (frames_in fs n) fs))"
    using rd.feed_stream [OF assms(1-5)] by blast
  have "concat (take (frames_in fs n) fs) @ contents b = concat chunks"
    using take_concat_split [OF complete_le [of fs n]] b(3) assms(4) by simp
  with feed_client_chunk [OF b(1)] b(2) show ?thesis by auto
qed

theorem client_reassembles_witness:
  "\<exists>f c' p. feed (client_chunk pb_demo) [take 7 f, drop 7 f] demo_client = Inr ([p], c') \<and>
     cl_store c' = [p] \<and> p = received pb_demo (publish_package pb_demo 1 demo_rsp) demo_rsp"
proof -
  obtain p' b where b: "Session_postPackage pb_demo (publish_package pb_demo 1 demo_rsp) = Inr (p', [PostWriteBuffer b])"
    "is_frame pb_demo (contents b) (received pb_demo (publish_package pb_demo 1 demo_rsp) demo_rsp)"
    using postPackage_sendable [OF pb_demo_ok demo_rsp_ok(1) spec [OF demo_rsp_publishable]] .
  let ?p = "received pb_demo (publish_package pb_demo 1 demo_rsp) demo_rsp" and ?f = "contents b"
  have fr: "list_all2 (is_frame pb_demo) [?f] [?p]" using b(2) by simp
  have "concat [take 7 ?f, drop 7 ?f] = take (length (concat [?f])) (concat [?f])" by simp
  from client_reassembles [OF _ _ fr this order_refl, of demo_client] show ?thesis
    by (intro exI [of _ ?f]) (auto simp: demo_client_def)
qed

section \<open>Synchronous calls\<close>

text \<open>
  Property C23. \<^verbatim>\<open>sendMessage\<close> blocks exactly until its request is answered. After it has posted the
  message, its caller waits; whenever later the response with the message's id arrives the call
  returns 0 and the message of the response, and whenever the timer of the request fires first it
  returns the timeout code and leaves the response empty.
\<close>

theorem sendMessage_returns:
  fixes c :: "('u, 'r, 'pub, 'del) client"
  assumes "isOnline c" and "\<not> cl_stopped c" and "next_msgId (cl_id c) = (i, n')" and "i = wrap32 i"
  shows "\<exists>p k c1 d. sendMessage_begin E now (Some msg) ms c
      = Inr (Inr k, c1, [PostStartWrite p :: ('u, 'r, 'pub, 'del, 'ep) client_effect]) \<and>
    requestMessage c1 i = Some d \<and> sendMessage_end k c1 = None \<and>
    (\<forall>c2 r t. k < length (waiters c2) \<longrightarrow> waiters c2 ! k = waiters c1 ! k \<longrightarrow>
       map_option rq_res (requestMessage c2 i) = Some (rq_res d) \<longrightarrow>
       (r < length (cl_store c2) \<longrightarrow> msgType (header (cl_store c2 ! r)) = REQREP \<longrightarrow>
          sint (msgId (header (cl_store c2 ! r))) = i \<longrightarrow>
          (\<exists>c3. doResponse t r c2 = Inr (c3, [] :: ('u, 'r, 'pub, 'del, 'ep) client_effect list) \<and>
                sendMessage_end k c3 = Some (0, msgPtr (cl_store c2 ! r)))) \<and>
       (\<exists>c3. request_timeout t i c2 = Inr (c3, [] :: ('u, 'r, 'pub, 'del, 'ep) client_effect list) \<and>
             sendMessage_end k c3 = Some (error_code eTimeout, None)))"
proof -
  let ?k = "length (waiters c)" and ?w = "\<lparr>wt_frame = InCall, isWait = True, wt_err = 0, wt_rsp = None\<rparr>"
  obtain p c1 d where b: "sendMessage_begin E now (Some msg) ms c
      = Inr (Inr ?k, c1, [PostStartWrite p :: ('u, 'r, 'pub, 'del, 'ep) client_effect])"
    and d: "requestMessage c1 i = Some d" "rq_res d = SendResponse ?k" and w: "waiters c1 = waiters c @ [?w]"
    using assms by (simp add: sendMessage_begin_def AsioClient_postMessage_def postMessage_order_def
        new_package_def postPackage_def client_package_def set_isorder_def RequestMessage_put_def
        Data_new_def Let_def wrap32_def)
  show ?thesis
  proof (rule exI [of _ p], rule exI [of _ ?k], rule exI [of _ c1], rule exI [of _ d],
      intro conjI allI impI)
    show "sendMessage_end ?k c1 = None" by (simp add: sendMessage_end_def w)
  next
    fix c2 :: "('u, 'r, 'pub, 'del) client" and r t
    assume c2: "?k < length (waiters c2)" "waiters c2 ! ?k = waiters c1 ! ?k"
      "map_option rq_res (requestMessage c2 i) = Some (rq_res d)"
    then obtain d2 where d2: "requestMessage c2 i = Some d2" "rq_res d2 = SendResponse ?k" using d by auto
    have w2: "waiters c2 ! ?k = ?w" using c2(2) w by simp
    show "\<exists>c3. request_timeout t i c2 = Inr (c3, [] :: ('u, 'r, 'pub, 'del, 'ep) client_effect list) \<and>
        sendMessage_end ?k c3 = Some (error_code eTimeout, None)"
      using c2(1) d2 w2 by (simp add: request_timeout_def RequestMessage_onTimeout_def
          RequestMessage_pick_def send_response_def sendMessage_end_def)
    assume "r < length (cl_store c2)" "msgType (header (cl_store c2 ! r)) = REQREP"
      "sint (msgId (header (cl_store c2 ! r))) = i"
    then show "\<exists>c3. doResponse t r c2 = Inr (c3, [] :: ('u, 'r, 'pub, 'del, 'ep) client_effect list) \<and>
        sendMessage_end ?k c3 = Some (0, msgPtr (cl_store c2 ! r))"
      using c2(1) d2 w2 by (simp add: doResponse_def RequestMessage_pick_def send_response_def
          sendMessage_end_def get_package_def)
  qed (fact b d)+
qed

theorem sendMessage_returns_witness:
  "\<exists>p k c1 d. sendMessage_begin pb_demo 0 (Some demo_rsp) 5000 demo_client
      = Inr (Inr k, c1, [PostStartWrite p :: (unit, string, string, string, unit) client_effect]) \<and>
    requestMessage c1 1 = Some d \<and> sendMessage_end k c1 = None \<and>
    (\<exists>c3. request_timeout 7 1 c1 = Inr (c3, [] :: (unit, string, string, string, unit) client_effect list) \<and>
       sendMessage_end k c3 = Some (2, None))"
proof -
  have c: "isOnline demo_client" "\<not> cl_stopped demo_client" "next_msgId (cl_id demo_client) = (1, 1)"
    "1 = wrap32 1"
    by (simp_all add: demo_client_def next_msgId_def wrap32_id c_rem_def INT_MAX_def)
  obtain p k c1 d where b: "sendMessage_begin pb_demo 0 (Some demo_rsp) 5000 demo_client
      = Inr (Inr k, c1, [PostStartWrite p :: (unit, string, string, string, unit) client_effect])"
      "requestMessage c1 1 = Some d" "sendMessage_end k c1 = None"
    and t: "\<forall>c2 r t. k < length (waiters c2) \<longrightarrow> waiters c2 ! k = waiters c1 ! k \<longrightarrow>
       map_option rq_res (requestMessage c2 1) = Some (rq_res d) \<longrightarrow>
       (r < length (cl_store c2) \<longrightarrow> msgType (header (cl_store c2 ! r)) = REQREP \<longrightarrow>
          sint (msgId (header (cl_store c2 ! r))) = 1 \<longrightarrow>
          (\<exists>c3. doResponse t r c2 = Inr (c3, [] :: (unit, string, string, string, unit) client_effect list) \<and>
                sendMessage_end k c3 = Some (0, msgPtr (cl_store c2 ! r)))) \<and>
       (\<exists>c3. request_timeout t 1 c2 = Inr (c3, [] :: (unit, string, string, string, unit) client_effect list) \<and>
             sendMessage_end k c3 = Some (error_code eTimeout, None))"
    using sendMessage_returns [OF c, of pb_demo 0 demo_rsp 5000, where 'ep = unit] by blast
  have "k < length (waiters c1)"
    using b(1) c(3) by (auto simp: sendMessage_begin_def AsioClient_postMessage_def
        postMessage_order_def new_package_def postPackage_def demo_client_def Let_def)
  with spec [OF t, of c1] b(2) obtain c3 where
    "request_timeout 7 1 c1 = Inr (c3, [] :: (unit, string, string, string, unit) client_effect list)"
    "sendMessage_end k c3 = Some (2, None)" by auto
  with b show ?thesis by (intro exI conjI)
qed

end
