(* ===== verification/Client_Queue.thy ===== *)
theory Client_Queue
  imports AsioClient
begin

text \<open>
  The client's write queue together with the event loop: what the threads of the program post to the
  loop, the writes that are under way, and what has been written. Every operation of the client that
  can touch the queue, or allocate packages beside it, is a step.
\<close>

section \<open>Steps\<close>

text \<open>
  Besides the client: the posted calls of \<^verbatim>\<open>startWrite\<close>, the started writes, and as history the
  packages accepted for sending (as they were posted), those written, and the bytes of each write.
\<close>

record ('u, 'r, 'pub, 'del) csys =
  cs_client :: "('u, 'r, 'pub, 'del) client"
  cs_posted :: "ref list"
  cs_inflight :: "(char list \<times> int) list"
  cs_all :: "(ref \<times> 'u pb_message Package) list"
  cs_sent :: "ref list"
  cs_frames :: "char list list"

fun post_refs :: "('u, 'r, 'pub, 'del, 'ep) client_effect list \<Rightarrow> ref list" where
  "post_refs [] = []"
| "post_refs (PostStartWrite p # es) = p # post_refs es"
| "post_refs (_ # es) = post_refs es"

fun writes :: "('u, 'r, 'pub, 'del, 'ep) client_effect list \<Rightarrow> (char list \<times> int) list" where
  "writes [] = []"
| "writes (ClientWrite d i # es) = (d, i) # writes es"
| "writes (_ # es) = writes es"

lemma post_refs_append [simp]: "post_refs (xs @ ys) = post_refs xs @ post_refs ys"
  by (induction xs rule: post_refs.induct) simp_all

lemma writes_append [simp]: "writes (xs @ ys) = writes xs @ writes ys"
  by (induction xs rule: writes.induct) simp_all

lemma responses_beside [simp]: "post_refs (map PostResponse rs) = []" "writes (map PostResponse rs) = []"
  by (induction rs) simp_all

definition after ::
    "('u, 'r, 'pub, 'del) client \<Rightarrow> ('u, 'r, 'pub, 'del, 'ep) client_effect list \<Rightarrow>
     ('u, 'r, 'pub, 'del) csys \<Rightarrow> ('u, 'r, 'pub, 'del) csys" where
  "after c effs s = s\<lparr>cs_client := c, cs_posted := cs_posted s @ post_refs effs,
     cs_inflight := cs_inflight s @ writes effs,
     cs_all := cs_all s @ map (\<lambda>p. (p, cl_store c ! p)) (post_refs effs)\<rparr>"

text \<open>
  The packages that are posted are assumed to satisfy \<open>ok\<close>. A write completes as a whole or fails;
  the steps of connecting and closing are those of a reconnection.
\<close>

inductive cstep ::
    "('d, 'u pb_message) env \<Rightarrow> 'u wire \<Rightarrow> ('u pb_message Package \<Rightarrow> bool) \<Rightarrow>
     ('u, 'r, 'pub, 'del) csys \<Rightarrow> ('u, 'r, 'pub, 'del) csys \<Rightarrow> bool"
  for E :: "('d, 'u pb_message) env" and W :: "'u wire" and ok :: "'u pb_message Package \<Rightarrow> bool" where
  request: "postMessage_order E now isOrder msg res ms (cs_client s)
      = Inr (code, c', effs :: ('u, 'r, 'pub, 'del, unit) client_effect list) \<Longrightarrow>
    \<forall>p \<in> set (post_refs effs). ok (cl_store c' ! p) \<Longrightarrow> cstep E W ok s (after c' effs s)"
| publish: "AsioClient_publishMessage E msg (cs_client s)
      = Inr (c', effs :: ('u, 'r, 'pub, 'del, unit) client_effect list) \<Longrightarrow>
    \<forall>p \<in> set (post_refs effs). ok (cl_store c' ! p) \<Longrightarrow> cstep E W ok s (after c' effs s)"
| reply: "replyDeliver E req rsp (cs_client s)
      = Inr (c', effs :: ('u, 'r, 'pub, 'del, unit) client_effect list) \<Longrightarrow>
    \<forall>p \<in> set (post_refs effs). ok (cl_store c' ! p) \<Longrightarrow> cstep E W ok s (after c' effs s)"
| connected: "doConnect E W resolve now ec (cs_client s)
      = Inr (c', effs :: ('u, 'r, 'pub, 'del, unit) client_effect list) \<Longrightarrow>
    \<forall>p \<in> set (post_refs effs). ok (cl_store c' ! p) \<Longrightarrow> cstep E W ok s (after c' effs s)"
| closed: "doClose resolve is_open (cs_client s)
      = Inr (c', effs :: ('u, 'r, 'pub, 'del, unit) client_effect list) \<Longrightarrow> cstep E W ok s (after c' effs s)"
| read: "AsioClient_doRead E ec d (cs_client s)
      = Inr (c', effs :: ('u, 'r, 'pub, 'del, unit) client_effect list) \<Longrightarrow> cstep E W ok s (after c' effs s)"
| run_write: "cs_posted s = p # ps \<Longrightarrow> startWrite E p (cs_client s)
      = Inr (c', effs :: ('u, 'r, 'pub, 'del, unit) client_effect list) \<Longrightarrow>
    cstep E W ok s (after c' effs (s\<lparr>cs_posted := ps\<rparr>))"
| write_done: "cs_inflight s = (d, i) # ws \<Longrightarrow> write_completed E now False i (cs_client s)
      = Inr (c', effs :: ('u, 'r, 'pub, 'del, unit) client_effect list) \<Longrightarrow>
    cstep E W ok s (after c' effs (s\<lparr>cs_inflight := ws, cs_frames := cs_frames s @ [d],
      cs_sent := cs_sent s @ take 1 (pendingList (cs_client s))\<rparr>))"
| write_failed: "cs_inflight s = (d, i) # ws \<Longrightarrow> write_completed E now True i (cs_client s)
      = Inr (c', effs :: ('u, 'r, 'pub, 'del, unit) client_effect list) \<Longrightarrow>
    cstep E W ok s (after c' effs (s\<lparr>cs_inflight := ws\<rparr>))"

definition csys_init :: "('u, 'r, 'pub, 'del) client \<Rightarrow> ('u, 'r, 'pub, 'del) csys" where
  "csys_init c = \<lparr>cs_client = c, cs_posted = [], cs_inflight = [], cs_all = [], cs_sent = [], cs_frames = []\<rparr>"

section \<open>Operations beside the queue\<close>

text \<open>
  All operations but the three of the queue itself leave the queue alone, start no write, only add
  packages to the store, and post packages that they added.
\<close>

definition beside ::
    "('u, 'r, 'pub, 'del) client \<Rightarrow> ('u, 'r, 'pub, 'del) client \<Rightarrow>
     ('u, 'r, 'pub, 'del, 'ep) client_effect list \<Rightarrow> bool" where
  "beside c c' effs \<longleftrightarrow> pendingList c' = pendingList c \<and> writes effs = [] \<and>
     (\<exists>new. cl_store c' = cl_store c @ new) \<and>
     (post_refs effs = [] \<or> post_refs effs = [length (cl_store c)] \<and> length (cl_store c) < length (cl_store c'))"

lemma postPackage_posts:
  "postPackage (Some p) c = (code, effs) \<Longrightarrow> effs = [] \<or> effs = [PostStartWrite p]"
  by (auto simp: postPackage_def split: if_splits)

lemma beside_request:
  assumes "postMessage_order E now isOrder msg res ms c = Inr (code, c', effs)"
  shows "beside c c' effs"
  using assms
  by (auto simp: postMessage_order_def new_package_def beside_def Let_def split: option.splits prod.splits
      dest!: postPackage_posts)

lemma beside_publish: "AsioClient_publishMessage E msg c = Inr (c', effs) \<Longrightarrow> beside c c' effs"
  by (auto simp: AsioClient_publishMessage_def new_package_def beside_def Let_def postPackage_def
      split: option.splits prod.splits if_splits)

lemma beside_reply: "replyDeliver E req rsp c = Inr (c', effs) \<Longrightarrow> beside c c' effs"
  by (auto simp: replyDeliver_def new_package_def beside_def Let_def postPackage_def
      split: option.splits prod.splits if_splits)

lemma beside_connect: "connect resolve c = Inr (c', effs) \<Longrightarrow> beside c c' effs"
  by (auto simp: connect_def beside_def Let_def split: option.splits if_splits)

lemma beside_subscribe: "startSubscribe E W now c = Inr (c', effs) \<Longrightarrow> beside c c' effs"
  by (auto simp: startSubscribe_def AsioClient_postMessage_def rbind_eq_Inr Let_def
      dest: beside_request split: if_splits) (simp add: beside_def)

lemma beside_read: "AsioClient_doRead E ec d c = Inr (c', effs) \<Longrightarrow> beside c c' effs"
  by (auto simp: AsioClient_doRead_def rbind_eq_Inr new_packages_eq beside_def AsioClient_close_def startRead_def
      Let_def split: if_splits)

lemma beside_doConnect:
  assumes "doConnect E W resolve now ec c = Inr (c', effs)"
  shows "beside c c' effs"
proof (cases ec)
  case True
  with assms show ?thesis
    by (auto simp: doConnect_def Let_def rbind_eq_Inr beside_def split: if_splits
        dest!: beside_connect)
next
  case False
  with assms obtain effs' where "startSubscribe E W now (c\<lparr>isOnline := True\<rparr>) = Inr (c', effs')"
    "effs = startRead @ effs' @ startHeartbeatTimer c' @ (if connectSuccess c' then [CallConnectSuccess] else [])"
    by (auto simp: doConnect_def Let_def rbind_eq_Inr)
  then show ?thesis
    by (auto simp: beside_def startRead_def startHeartbeatTimer_def dest!: beside_subscribe)
qed

lemma beside_doClose: "doClose resolve is_open c = Inr (c', effs) \<Longrightarrow> beside c c' effs"
  by (auto simp: doClose_def Let_def rbind_eq_Inr beside_def split: if_splits
      dest!: beside_connect)

section \<open>Order of the writes\<close>

definition postable :: "('d, 'u pb_message) env \<Rightarrow> 'u pb_message Package \<Rightarrow> bool" where
  "postable E pac \<longleftrightarrow> (\<exists>m. proto_ok E m \<and> sendable E pac m)"

text \<open>The bytes are the frame of the package with its message.\<close>

definition frame_of :: "('d, 'u pb_message) env \<Rightarrow> 'u pb_message Package \<Rightarrow> char list \<Rightarrow> bool" where
  "frame_of E pac d \<longleftrightarrow> (\<exists>m. msgPtr pac = Some m \<and> is_frame E d (received E pac m))"

lemma startWrite_front_ok:
  assumes "net_order_ok E" and "zlib_ok E" and "pendingList c = p # ps" and "p < length (cl_store c)"
    and "postable E (cl_store c ! p)"
  obtains d pac' where "startWrite_front E c
      = Inr (c\<lparr>cl_store := (cl_store c)[p := pac']\<rparr>, [ClientWrite d (sint (msgId (header pac')))])"
    "frame_of E (cl_store c ! p) d" "msgId (header pac') = msgId (header (cl_store c ! p))"
proof -
  let ?p = "cl_store c ! p"
  from assms(5) obtain m where m: "proto_ok E m" "sendable E ?p m" by (auto simp: postable_def)
  obtain p' b where b: "Session_postPackage E ?p = Inr (p', [PostWriteBuffer b])"
    "is_frame E (contents b) (received E ?p m)"
    using postPackage_sendable [OF assms(1,2) m] .
  obtain b0 where b0: "Buffer_new kInitialSize = Inr b0" "buf_inv b0" using Buffer_new_default by blast
  have enc: "encode E ?p b0 = Inr (True, p', b)"
    using b(1) b0(1) by (auto simp: Session_postPackage_def rbind_eq_Inr split: if_splits)
  then have "buf_inv b" by (rule encode_keeps_inv [OF b0(2)])
  then have "load (peek b) (readableBytes b) b = Inr (contents b)"
    by (simp add: load_peek length_contents)
  moreover have "msgId (header p') = msgId (header ?p)"
    using enc m(2) by (auto simp: encode_def rbind_eq_Inr Let_def sendable_def encode_content_def
        split: if_splits option.splits prod.splits sum.splits)
  moreover have "frame_of E ?p (contents b)" using b(2) m(2) by (auto simp: frame_of_def sendable_def)
  ultimately show ?thesis
    using assms(3,4) b0(1) enc
    by (intro that [where d = "contents b" and pac' = p']) (simp_all add: startWrite_front_def)
qed

text \<open>
  The accepted packages are those written, the one being written, and those waiting, which have not
  been touched since they were posted.
\<close>

definition cinv ::
    "('d, 'u pb_message) env \<Rightarrow> ('u, 'r, 'pub, 'del) csys \<Rightarrow> (ref \<times> 'u pb_message Package) list \<Rightarrow>
     (ref \<times> 'u pb_message Package) list \<Rightarrow> (ref \<times> 'u pb_message Package) list \<Rightarrow> bool" where
  "cinv E s done cur rest \<longleftrightarrow>
     cs_all s = done @ cur @ rest \<and> cs_sent s = map fst done \<and>
     pendingList (cs_client s) @ cs_posted s = map fst (cur @ rest) \<and>
     length cur = min 1 (length (pendingList (cs_client s))) \<and>
     list_all2 (frame_of E) (map snd done) (cs_frames s) \<and>
     distinct (map fst (cs_all s)) \<and>
     (\<forall>p \<in> fst ` set (cs_all s). p < length (cl_store (cs_client s))) \<and>
     (\<forall>(p, pac) \<in> set rest. cl_store (cs_client s) ! p = pac \<and> postable E pac) \<and>
     (cs_inflight s = [] \<or> (\<exists>d i. cs_inflight s = [(d, i)] \<and> cur \<noteq> [] \<and> frame_of E (snd (hd cur)) d))"

lemma cinvD:
  assumes "cinv E s done cur rest"
  shows "cs_all s = done @ cur @ rest" "cs_sent s = map fst done"
    "pendingList (cs_client s) @ cs_posted s = map fst (cur @ rest)"
    "length cur = min 1 (length (pendingList (cs_client s)))"
    "list_all2 (frame_of E) (map snd done) (cs_frames s)"
    "distinct (map fst (cs_all s))"
    "\<forall>p \<in> fst ` set (cs_all s). p < length (cl_store (cs_client s))"
    "\<forall>(p, pac) \<in> set rest. cl_store (cs_client s) ! p = pac \<and> postable E pac"
    "cs_inflight s = [] \<or> (\<exists>d i. cs_inflight s = [(d, i)] \<and> cur \<noteq> [] \<and> frame_of E (snd (hd cur)) d)"
  using assms unfolding cinv_def by - (elim conjE, assumption)+

lemma cinvI:
  assumes "cs_all s = done @ cur @ rest" "cs_sent s = map fst done"
    "pendingList (cs_client s) @ cs_posted s = map fst (cur @ rest)"
    "length cur = min 1 (length (pendingList (cs_client s)))"
    "list_all2 (frame_of E) (map snd done) (cs_frames s)"
    "distinct (map fst (cs_all s))"
    "\<forall>p \<in> fst ` set (cs_all s). p < length (cl_store (cs_client s))"
    "\<forall>(p, pac) \<in> set rest. cl_store (cs_client s) ! p = pac \<and> postable E pac"
    "cs_inflight s = [] \<or> (\<exists>d i. cs_inflight s = [(d, i)] \<and> cur \<noteq> [] \<and> frame_of E (snd (hd cur)) d)"
  shows "cinv E s done cur rest"
  using assms unfolding cinv_def by (intro conjI)

lemma cinv_beside:
  assumes "cinv E s done cur rest" and "beside (cs_client s) c' effs"
    and "\<forall>p \<in> set (post_refs effs). postable E (cl_store c' ! p)"
  shows "\<exists>new. cinv E (after c' effs s) done cur (rest @ new)"
proof -
  let ?c = "cs_client s" and ?new = "map (\<lambda>p. (p, cl_store c' ! p)) (post_refs effs)"
  from assms(2) obtain added where b: "pendingList c' = pendingList ?c" "writes effs = []"
    "cl_store c' = cl_store ?c @ added"
    "post_refs effs = [] \<or> post_refs effs = [length (cl_store ?c)] \<and> length (cl_store ?c) < length (cl_store c')"
    by (auto simp: beside_def)
  note range = cinvD(7) [OF assms(1)] and rest = cinvD(8) [OF assms(1)]
  have sub: "set rest \<subseteq> set (cs_all s)" using cinvD(1) [OF assms(1)] by auto
  have "\<forall>(p, pac) \<in> set rest. cl_store c' ! p = pac \<and> postable E pac"
    using range rest sub unfolding b(3) by (fastforce simp: nth_append)
  moreover have "\<forall>p \<in> fst ` set (cs_all s @ ?new). p < length (cl_store c')"
    using range b(3,4) by fastforce
  moreover have "distinct (map fst (cs_all s @ ?new))"
  proof -
    note cinvD(6) [OF assms(1)]
    moreover have "length (cl_store ?c) \<notin> fst ` set (cs_all s)" using range by blast
    ultimately show ?thesis using b(4) by (elim disjE) (simp_all add: comp_def)
  qed
  moreover have "\<forall>(p, pac) \<in> set ?new. cl_store c' ! p = pac \<and> postable E pac"
    using assms(3) by auto
  ultimately have "cinv E (after c' effs s) done cur (rest @ ?new)"
    using cinvD [OF assms(1)] b(1,2) by (intro cinvI) (simp_all add: after_def ball_Un comp_def)
  then show ?thesis by blast
qed

text \<open>The state in which the queue is all still to be run, to start from.\<close>

abbreviation unqueued :: "('u, 'r, 'pub, 'del) csys \<Rightarrow> ('u, 'r, 'pub, 'del) csys" where
  "unqueued s \<equiv> s\<lparr>cs_client := (cs_client s)\<lparr>pendingList := []\<rparr>,
     cs_posted := pendingList (cs_client s) @ cs_posted s\<rparr>"

lemma cinv_start:
  assumes "net_order_ok E" and "zlib_ok E" and "cinv E (unqueued s) done [] rest"
    and "pendingList (cs_client s) = p # ps"
    and "startWrite_front E (cs_client s) = Inr (c', effs :: ('u, 'r, 'pub, 'del, unit) client_effect list)"
  shows "\<exists>cur rest'. cinv E (after c' effs (s :: ('u, 'r, 'pub, 'del) csys)) done cur rest'"
proof -
  note i = cinvD [OF assms(3), simplified, unfolded assms(4)]
  then obtain pac rest' where rest: "rest = (p, pac) # rest'" by (cases rest) auto
  have pac: "cl_store (cs_client s) ! p = pac" "postable E pac" using i(8) rest by auto
  have "p < length (cl_store (cs_client s))" using i(1,7) rest by simp
  from startWrite_front_ok [OF assms(1,2,4) this] pac obtain d pac' where
    w: "startWrite_front E (cs_client s) = Inr ((cs_client s)\<lparr>cl_store := (cl_store (cs_client s))[p := pac']\<rparr>,
          [ClientWrite d (sint (msgId (header pac')))] :: ('u, 'r, 'pub, 'del, unit) client_effect list)"
    "frame_of E pac d" by metis
  have np: "p \<notin> fst ` set rest'" using i(1,6) rest by simp
  have "(cl_store (cs_client s))[p := pac'] ! q = qac \<and> postable E qac" if "(q, qac) \<in> set rest'" for q qac
  proof -
    have "q \<noteq> p" using np that by force
    then show ?thesis using i(8) that rest by auto
  qed
  then have "\<forall>(q, qac) \<in> set rest'. (cl_store (cs_client s))[p := pac'] ! q = qac \<and> postable E qac" by blast
  then have "cinv E (after c' effs s) done [(p, pac)] rest'"
    using i w assms(4,5) rest by (intro cinvI) (simp_all add: after_def)
  then show ?thesis by blast
qed

lemma cinv_run_write:
  assumes "net_order_ok E" and "zlib_ok E" and "cinv E s done cur rest" and "cs_posted s = p # ps"
    and "startWrite E p (cs_client s) = Inr (c', effs :: ('u, 'r, 'pub, 'del, unit) client_effect list)"
  shows "\<exists>done cur rest'. cinv E (after c' effs (s\<lparr>cs_posted := ps\<rparr> :: ('u, 'r, 'pub, 'del) csys)) done cur rest'"
proof (cases "pendingList (cs_client s) = []")
  case True
  let ?s = "s\<lparr>cs_posted := ps, cs_client := (cs_client s)\<lparr>pendingList := [p]\<rparr>\<rparr>"
  note i = cinvD [OF assms(3)]
  have cur: "cur = []" using i(4) True by simp
  have "cinv E (unqueued ?s) done [] rest"
    using i True cur assms(4) by (intro cinvI) simp_all
  moreover have "startWrite_front E (cs_client ?s) = Inr (c', effs)"
    using assms(5) True by (simp add: startWrite_def)
  ultimately have "\<exists>cur rest'. cinv E (after c' effs ?s) done cur rest'"
    by (intro cinv_start [OF assms(1,2)]) simp_all
  then show ?thesis by (auto simp: after_def)
next
  case False
  note i = cinvD [OF assms(3)]
  from False assms(5) have e: "c' = (cs_client s)\<lparr>pendingList := pendingList (cs_client s) @ [p]\<rparr>" "effs = []"
    by (simp_all add: startWrite_def)
  have "cinv E (after c' effs (s\<lparr>cs_posted := ps\<rparr>)) done cur rest"
    using i False assms(4) unfolding e by (intro cinvI) (simp_all add: after_def min_def Suc_le_eq)
  then show ?thesis by blast
qed

lemma cinv_write_done:
  assumes "net_order_ok E" and "zlib_ok E" and "cinv E s done cur rest" and "cs_inflight s = (d, i) # ws"
    and "write_completed E now False i (cs_client s)
      = Inr (c', effs :: ('u, 'r, 'pub, 'del, unit) client_effect list)"
  shows "\<exists>done cur rest. cinv E (after c' effs (s\<lparr>cs_inflight := ws, cs_frames := cs_frames s @ [d],
      cs_sent := cs_sent s @ take 1 (pendingList (cs_client s))\<rparr> :: ('u, 'r, 'pub, 'del) csys)) done cur rest"
proof -
  note iv = cinvD [OF assms(3)]
  from iv(9) assms(4) have ws: "ws = []" "cur \<noteq> []" "frame_of E (snd (hd cur)) d" by auto
  from iv(4) ws(2) obtain q ps where pl: "pendingList (cs_client s) = q # ps"
    by (cases "pendingList (cs_client s)") auto
  with iv(3,4) ws(2) obtain pac where cur: "cur = [(q, pac)]"
    by (cases cur; cases "tl cur") auto
  let ?c1 = "(cs_client s)\<lparr>requestMessage := RequestMessage_startTimer now i (requestMessage (cs_client s)),
    pendingList := ps\<rparr>"
  let ?s = "s\<lparr>cs_inflight := [], cs_frames := cs_frames s @ [d], cs_sent := cs_sent s @ [q], cs_client := ?c1\<rparr>"
  have fr: "list_all2 (frame_of E) (map snd done @ [pac]) (cs_frames s @ [d])"
    using iv(5) ws(3) cur by (simp add: list_all2_appendI)
  have moved: "cinv E (unqueued ?s) (done @ cur) [] rest"
    using iv pl cur fr by (intro cinvI) simp_all
  show ?thesis
  proof (cases ps)
    case Nil
    then have e: "c' = ?c1" "effs = []"
      using assms(5) pl by (simp_all add: write_completed_def)
    have "cinv E (after c' effs ?s) (done @ cur) [] rest"
      using cinvD [OF moved] Nil unfolding e by (intro cinvI) (simp_all add: after_def)
    then show ?thesis using ws(1) pl by (auto simp: after_def)
  next
    case (Cons q' ps')
    then have "startWrite_front E (cs_client ?s) = Inr (c', effs)"
      using assms(5) pl by (simp add: write_completed_def)
    from cinv_start [OF assms(1,2) moved _ this, of q' ps'] Cons
    have "\<exists>cur' rest'. cinv E (after c' effs ?s) (done @ cur) cur' rest'" by simp
    then show ?thesis using ws(1) pl by (auto simp: after_def)
  qed
qed

lemma cinv_write_failed:
  assumes "cinv E s done cur rest" and "cs_inflight s = (d, i) # ws"
    and "write_completed E now True i (cs_client s)
      = Inr (c', effs :: ('u, 'r, 'pub, 'del, unit) client_effect list)"
  shows "cinv E (after c' effs (s\<lparr>cs_inflight := ws\<rparr> :: ('u, 'r, 'pub, 'del) csys)) done cur rest"
proof -
  note iv = cinvD [OF assms(1)]
  from iv(9) assms(2) have ws: "ws = []" by auto
  from assms(3) have e: "c' = (cs_client s)\<lparr>requestMessage := RequestMessage_startTimer now i (requestMessage (cs_client s))\<rparr>"
    "effs = [PostClose]" by (simp_all add: write_completed_def)
  show ?thesis using iv ws unfolding e by (intro cinvI) (simp_all add: after_def)
qed

lemma cinv_step:
  assumes "net_order_ok E" and "zlib_ok E" and "cstep E W (postable E) s s'" and "cinv E s done cur rest"
  shows "\<exists>done cur rest. cinv E s' done cur rest"
  using assms(3)
proof cases
  case (request now isOrder msg res ms code c' effs)
  from cinv_beside [OF assms(4) beside_request [OF request(2)] request(3)] request(1) show ?thesis by blast
next
  case (publish msg c' effs)
  from cinv_beside [OF assms(4) beside_publish [OF publish(2)] publish(3)] publish(1) show ?thesis by blast
next
  case (reply req rsp c' effs)
  from cinv_beside [OF assms(4) beside_reply [OF reply(2)] reply(3)] reply(1) show ?thesis by blast
next
  case (connected resolve now ec c' effs)
  from cinv_beside [OF assms(4) beside_doConnect [OF connected(2)] connected(3)] connected(1)
  show ?thesis by blast
next
  case (closed resolve is_open c' effs)
  have "post_refs effs = []"
    using closed(2) by (auto simp: doClose_def Let_def rbind_eq_Inr connect_def split: if_splits option.splits)
  with cinv_beside [OF assms(4) beside_doClose [OF closed(2)]] closed(1) show ?thesis by auto
next
  case (read ec d c' effs)
  have "post_refs effs = []"
    using read(2) by (auto simp: AsioClient_doRead_def rbind_eq_Inr new_packages_eq AsioClient_close_def
        startRead_def Let_def split: if_splits)
  with cinv_beside [OF assms(4) beside_read [OF read(2)]] read(1) show ?thesis by auto
next
  case (run_write p ps c' effs)
  from cinv_run_write [OF assms(1,2,4) run_write(2,3)] run_write(1) show ?thesis by blast
next
  case (write_done d i ws now c' effs)
  from cinv_write_done [OF assms(1,2,4) write_done(2,3)] write_done(1) show ?thesis by blast
next
  case (write_failed d i ws now c' effs)
  from cinv_write_failed [OF assms(4) write_failed(2,3)] write_failed(1) show ?thesis by blast
qed

subsection \<open>The work of the loop\<close>

text \<open>A write is under way whenever the queue is not empty: no write has failed.\<close>

definition cs_busy :: "('u, 'r, 'pub, 'del) csys \<Rightarrow> bool" where
  "cs_busy s \<longleftrightarrow> pendingList (cs_client s) = [] \<or> cs_inflight s \<noteq> []"

text \<open>The work that is left.\<close>

definition cs_work :: "('u, 'r, 'pub, 'del) csys \<Rightarrow> nat" where
  "cs_work s = 2 * length (cs_posted s) + length (pendingList (cs_client s))"

lemma cinv_next:
  assumes "net_order_ok E" and "zlib_ok E" and "cinv E s done cur rest"
    and "map fst rest = p # xs" and "cl_store c = cl_store (cs_client s)" and "pendingList c = p # ps"
  obtains c' d i where "startWrite_front E c = Inr (c', [ClientWrite d i] :: ('u, 'r, 'pub, 'del, unit) client_effect list)"
    "pendingList c' = p # ps"
proof -
  note i = cinvD [OF assms(3)]
  from assms(4) obtain pac rest' where rest: "rest = (p, pac) # rest'" by (cases rest) auto
  have ok: "p < length (cl_store c)" "postable E (cl_store c ! p)"
    using i(1,7,8) rest assms(5) by auto
  obtain d pac' where "startWrite_front E c = Inr (c\<lparr>cl_store := (cl_store c)[p := pac']\<rparr>,
      [ClientWrite d (sint (msgId (header pac')))] :: ('u, 'r, 'pub, 'del, unit) client_effect list)"
    using startWrite_front_ok [OF assms(1,2,6) ok] by metis
  then show ?thesis by (rule that) (simp add: assms(6))
qed

lemma cinv_drain_step:
  fixes s :: "('u, 'r, 'pub, 'del) csys"
  assumes "net_order_ok E" and "zlib_ok E" and "cinv E s done cur rest" and "cs_busy s"
    and "cs_posted s \<noteq> [] \<or> cs_inflight s \<noteq> []"
  shows "\<exists>s'. cstep E W ok s s' \<and> (\<exists>done cur rest. cinv E s' done cur rest) \<and> cs_busy s' \<and>
    cs_all s' = cs_all s \<and> cs_work s' < cs_work s"
proof -
  note iv = cinvD [OF assms(3)]
  show ?thesis
  proof (cases "cs_inflight s = []")
    case True
    with assms(4,5) iv(4) obtain p ps where e: "pendingList (cs_client s) = []" "cs_posted s = p # ps" "cur = []"
      by (cases "cs_posted s") (auto simp: cs_busy_def)
    then have e': "map fst rest = p # ps" using iv(3) by simp
    obtain c' d i where w: "startWrite_front E ((cs_client s)\<lparr>pendingList := [p]\<rparr>)
        = Inr (c', [ClientWrite d i] :: ('u, 'r, 'pub, 'del, unit) client_effect list)" "pendingList c' = [p]"
      by (rule cinv_next [OF assms(1-3) e', where c = "(cs_client s)\<lparr>pendingList := [p]\<rparr>" and ps = "[]"]) simp_all
    then have sw: "startWrite E p (cs_client s)
        = Inr (c', [ClientWrite d i] :: ('u, 'r, 'pub, 'del, unit) client_effect list)"
      using e(1) by (simp add: startWrite_def)
    let ?s = "after c' [ClientWrite d i :: ('u, 'r, 'pub, 'del, unit) client_effect] (s\<lparr>cs_posted := ps\<rparr>)"
    have "cstep E W ok s ?s" by (rule cstep.run_write [OF e(2) sw])
    moreover have "\<exists>done cur rest. cinv E ?s done cur rest"
      by (rule cinv_run_write [OF assms(1-3) e(2) sw])
    moreover have "cs_busy ?s" "cs_all ?s = cs_all s" "cs_work ?s < cs_work s"
      using e w(2) by (simp_all add: cs_busy_def cs_work_def after_def)
    ultimately show ?thesis by blast
  next
    case False
    with iv(9) obtain d i where fl: "cs_inflight s = [(d, i)]" "cur \<noteq> []" by auto
    from iv(4) fl(2) obtain q ps where pl: "pendingList (cs_client s) = q # ps"
      by (cases "pendingList (cs_client s)") auto
    with iv(3,4) fl(2) have rest: "map fst rest = ps @ cs_posted s"
      by (cases cur; cases "tl cur") auto
    let ?c = "(cs_client s)\<lparr>requestMessage := RequestMessage_startTimer 0 i (requestMessage (cs_client s)), pendingList := ps\<rparr>"
    obtain c' ws where w: "write_completed E 0 False i (cs_client s)
        = Inr (c', map (\<lambda>(d, i). ClientWrite d i) ws :: ('u, 'r, 'pub, 'del, unit) client_effect list)"
      "pendingList c' = ps" "ps = [] \<or> ws \<noteq> []"
    proof (cases ps)
      case Nil
      then show thesis using pl by (intro that [of ?c "[]"]) (simp_all add: write_completed_def)
    next
      case (Cons p ps')
      with rest have e': "map fst rest = p # (ps' @ cs_posted s)" by simp
      obtain c' d i where "startWrite_front E ?c = Inr (c', [ClientWrite d i] :: ('u, 'r, 'pub, 'del, unit) client_effect list)"
        "pendingList c' = p # ps'"
        by (rule cinv_next [OF assms(1-3) e', where c = ?c and ps = ps']) (simp_all add: Cons)
      then show thesis using pl Cons by (intro that [of c' "[(d, i)]"]) (simp_all add: write_completed_def)
    qed
    let ?effs = "map (\<lambda>(d, i). ClientWrite d i) ws :: ('u, 'r, 'pub, 'del, unit) client_effect list"
    have effs: "post_refs ?effs = []" "writes ?effs = ws" by (induction ws) auto
    let ?s = "after c' ?effs (s\<lparr>cs_inflight := [], cs_frames := cs_frames s @ [d],
      cs_sent := cs_sent s @ take 1 (pendingList (cs_client s))\<rparr>)"
    have "cstep E W ok s ?s" by (rule cstep.write_done [OF fl(1) w(1)])
    moreover have "\<exists>done cur rest. cinv E ?s done cur rest"
      by (rule cinv_write_done [OF assms(1-3) fl(1) w(1)])
    moreover have "cs_busy ?s" "cs_all ?s = cs_all s" "cs_work ?s < cs_work s"
      using pl w(2,3) by (auto simp: cs_busy_def cs_work_def after_def effs)
    ultimately show ?thesis by blast
  qed
qed

definition client_inv :: "('d, 'u pb_message) env \<Rightarrow> ('u, 'r, 'pub, 'del) csys \<Rightarrow> bool" where
  "client_inv E s \<longleftrightarrow> net_order_ok E \<and> zlib_ok E \<and> (\<exists>done cur rest. cinv E s done cur rest)"

lemma client_inv_init:
  "net_order_ok E \<Longrightarrow> zlib_ok E \<Longrightarrow> pendingList c = [] \<Longrightarrow> client_inv E (csys_init c)"
  unfolding client_inv_def
  by (intro conjI exI [of _ "[]"] cinvI) (simp_all add: csys_init_def)

interpretation cq: draining_system "cstep E W (postable E)" "client_inv E" cs_busy
    "\<lambda>s. cs_posted s = [] \<and> cs_inflight s = []" cs_work cs_all
  for E :: "('d, 'u pb_message) env" and W :: "'u wire"
proof (unfold_locales, goal_cases)
  case (1 s s')
  then show ?case unfolding client_inv_def using cinv_step by blast
next
  case (2 s)
  then show ?case unfolding client_inv_def using cinv_drain_step by blast
qed

text \<open>
  Property C13. Order of what a client sends. However the threads of a program post requests,
  publications and answers, and however reconnections interleave with the writes: packages are
  written one at a time, in the order in which they were posted, each as the frame of the package as
  it was posted. No package is lost or sent twice: those accepted are exactly those written, those in
  the queue, and those whose \<^verbatim>\<open>startWrite\<close> has not run yet.
\<close>

theorem client_writes_in_order:
  assumes "net_order_ok E" and "zlib_ok E" and "pendingList c = []"
    and "(cstep E W (postable E))\<^sup>*\<^sup>* (csys_init c) s"
  shows "map fst (cs_all s) = cs_sent s @ pendingList (cs_client s) @ cs_posted s \<and>
    distinct (map fst (cs_all s)) \<and> length (cs_inflight s) \<le> 1 \<and>
    list_all2 (frame_of E) (map snd (take (length (cs_sent s)) (cs_all s))) (cs_frames s)"
proof -
  obtain "done" cur rest where i: "cinv E s done cur rest"
    using cq.steps_keep [OF assms(4) client_inv_init [OF assms(1-3)]] by (auto simp: client_inv_def)
  note i = cinvD [OF i]
  have "map fst (cs_all s) = cs_sent s @ pendingList (cs_client s) @ cs_posted s"
    unfolding i(1,2) map_append i(3) [unfolded map_append] by simp
  moreover have "take (length (cs_sent s)) (cs_all s) = done" by (simp add: i(1,2))
  ultimately show ?thesis using i(5,6,9) by auto
qed

text \<open>
  Property C14. The client's queue drains. In every state that its operations can reach, if a write is
  under way whenever the queue is not empty (so if no write has failed), the event loop and the
  transport can finish: there is a run, in which nothing further is posted, after which the queue is empty and
  every package accepted has been written, in the order of the posts, as the frame of the package as
  it was posted.
\<close>

theorem client_queue_drains:
  fixes s :: "('u, 'r, 'pub, 'del) csys"
  assumes "net_order_ok E" and "zlib_ok E" and "pendingList c = []"
    and "(cstep E W (postable E))\<^sup>*\<^sup>* (csys_init c) s" and "cs_busy s"
  shows "\<exists>s'. (cstep E W (postable E))\<^sup>*\<^sup>* s s' \<and> cs_all s' = cs_all s \<and>
    cs_posted s' = [] \<and> pendingList (cs_client s') = [] \<and> cs_inflight s' = [] \<and>
    cs_sent s' = map fst (cs_all s) \<and> list_all2 (frame_of E) (map snd (cs_all s)) (cs_frames s')"
proof -
  have "client_inv E s" using cq.steps_keep [OF assms(4) client_inv_init [OF assms(1-3)]] .
  from cq.drains [OF this assms(5)] obtain s' "done" cur rest where
    s': "(cstep E W (postable E))\<^sup>*\<^sup>* s s'" "cinv E s' done cur rest" "cs_busy s'" "cs_all s' = cs_all s"
    "cs_posted s' = []" "cs_inflight s' = []" unfolding client_inv_def by blast
  then have q: "pendingList (cs_client s') = []" by (simp add: cs_busy_def)
  note i = cinvD [OF s'(2)]
  have "cur = []" "rest = []" using i(3) s'(5) q by simp_all
  with s' q i(1,2,5) show ?thesis by (intro exI [of _ s']) simp
qed

section \<open>A client that falls silent\<close>

text \<open>
  The steps with which a client fails to write the package \<open>p\<close>: its write fails; the package that is to be written to the idle
  socket cannot be encoded; or the next package of the queue cannot be.
\<close>

definition cannot_encode :: "('d, 'u pb_message) env \<Rightarrow> 'u pb_message Package \<Rightarrow> bool" where
  "cannot_encode E pac \<longleftrightarrow> (\<exists>b0 pac' b. Buffer_new kInitialSize = Inr b0 \<and> encode E pac b0 = Inr (False, pac', b))"

inductive fails_to_write ::
    "('d, 'u pb_message) env \<Rightarrow> ref \<Rightarrow> ('u, 'r, 'pub, 'del) csys \<Rightarrow> ('u, 'r, 'pub, 'del) csys \<Rightarrow> bool"
  for E :: "('d, 'u pb_message) env" and p :: ref where
  failed_write: "cs_inflight s = (d, i) # ws \<Longrightarrow> pendingList (cs_client s) = p # ps \<Longrightarrow> write_completed E now True i (cs_client s)
      = Inr (c', effs :: ('u, 'r, 'pub, 'del, unit) client_effect list) \<Longrightarrow>
    fails_to_write E p s (after c' effs (s\<lparr>cs_inflight := ws\<rparr>))"
| failed_first: "cs_posted s = p # ps \<Longrightarrow> pendingList (cs_client s) = [] \<Longrightarrow>
    cannot_encode E (cl_store (cs_client s) ! p) \<Longrightarrow> startWrite E p (cs_client s)
      = Inr (c', effs :: ('u, 'r, 'pub, 'del, unit) client_effect list) \<Longrightarrow>
    fails_to_write E p s (after c' effs (s\<lparr>cs_posted := ps\<rparr>))"
| failed_next: "cs_inflight s = (d, i) # ws \<Longrightarrow> pendingList (cs_client s) = q # p # ps \<Longrightarrow>
    cannot_encode E (cl_store (cs_client s) ! p) \<Longrightarrow> write_completed E now False i (cs_client s)
      = Inr (c', effs :: ('u, 'r, 'pub, 'del, unit) client_effect list) \<Longrightarrow>
    fails_to_write E p s (after c' effs (s\<lparr>cs_inflight := ws, cs_frames := cs_frames s @ [d],
      cs_sent := cs_sent s @ [q]\<rparr>))"

lemma front_not_encoded:
  assumes "startWrite_front E c = Inr (c', effs)" and "pendingList c = p # ps" and "cannot_encode E (cl_store c ! p)"
  shows "pendingList c' = p # ps" "writes effs = []"
  using assms by (auto simp: startWrite_front_def cannot_encode_def rbind_eq_Inr Let_def split: if_splits)

lemma front_writes:
  assumes "startWrite_front E c = Inr (c', effs)"
  shows "pendingList c' = pendingList c \<and> length (writes effs) \<le> 1 \<and> pendingList c \<noteq> []"
  using assms by (auto simp: startWrite_front_def rbind_eq_Inr Let_def split: list.splits if_splits)

text \<open>Whatever is posted: a write is under way only for the front of a queue, and then it is the only one.\<close>

definition one_write :: "('u, 'r, 'pub, 'del) csys \<Rightarrow> bool" where
  "one_write s \<longleftrightarrow> length (cs_inflight s) \<le> (if pendingList (cs_client s) = [] then 0 else 1)"

lemma one_write_beside: "one_write s \<Longrightarrow> beside (cs_client s) c' effs \<Longrightarrow> one_write (after c' effs s)"
  by (simp add: one_write_def beside_def after_def)

lemma one_write_step:
  assumes "cstep E W ok s s'" and "one_write s"
  shows "one_write s'"
  using assms(1)
proof cases
  case (request now isOrder msg res ms code c' effs)
  with one_write_beside [OF assms(2) beside_request] show ?thesis by simp
next
  case (publish msg c' effs)
  with one_write_beside [OF assms(2) beside_publish] show ?thesis by simp
next
  case (reply req rsp c' effs)
  with one_write_beside [OF assms(2) beside_reply] show ?thesis by simp
next
  case (connected resolve now ec c' effs)
  with one_write_beside [OF assms(2) beside_doConnect] show ?thesis by simp
next
  case (closed resolve is_open c' effs)
  with one_write_beside [OF assms(2) beside_doClose] show ?thesis by simp
next
  case (read ec d c' effs)
  with one_write_beside [OF assms(2) beside_read] show ?thesis by simp
next
  case (run_write p ps c' effs)
  with assms(2) show ?thesis
    by (auto simp: startWrite_def one_write_def after_def Let_def split: if_splits dest!: front_writes)
next
  case (write_done d i ws now c' effs)
  with assms(2) show ?thesis
    by (auto simp: write_completed_def one_write_def after_def Let_def split: if_splits list.splits dest!: front_writes)
next
  case (write_failed d i ws now c' effs)
  with assms(2) show ?thesis
    by (auto simp: write_completed_def one_write_def after_def split: if_splits)
qed

lemma one_write_reach:
  assumes "pendingList c = []" and "(cstep E W ok)\<^sup>*\<^sup>* (csys_init c) s"
  shows "one_write s"
  using assms(2)
proof (induction rule: rtranclp_induct)
  case base
  show ?case by (simp add: one_write_def csys_init_def)
qed (rule one_write_step)

text \<open>What stays after a failure.\<close>

definition stuck :: "ref \<Rightarrow> ('u, 'r, 'pub, 'del) csys \<Rightarrow> bool" where
  "stuck p s \<longleftrightarrow> (\<exists>ps. pendingList (cs_client s) = p # ps) \<and> cs_inflight s = []"

lemma fails_stuck:
  assumes "fails_to_write E p s0 s" and "one_write s0"
  shows "stuck p s"
  using assms(1)
proof cases
  case (failed_write d i ws ps now c' effs)
  with assms(2) show ?thesis
    by (auto simp: write_completed_def stuck_def one_write_def after_def split: if_splits)
next
  case (failed_first ps c' effs)
  then have "startWrite_front E ((cs_client s0)\<lparr>pendingList := [p]\<rparr>) = Inr (c', effs)" by (simp add: startWrite_def)
  from front_not_encoded [OF this] failed_first assms(2) show ?thesis by (simp add: stuck_def one_write_def after_def)
next
  case (failed_next d i ws q ps now c' effs)
  let ?c = "(cs_client s0)\<lparr>requestMessage := RequestMessage_startTimer now i (requestMessage (cs_client s0)),
    pendingList := p # ps\<rparr>"
  have "startWrite_front E ?c = Inr (c', effs)" using failed_next by (simp add: write_completed_def)
  from front_not_encoded [OF this] failed_next assms(2) show ?thesis by (simp add: stuck_def one_write_def after_def)
qed

lemma stuck_step:
  fixes t :: "('u, 'r, 'pub, 'del) csys"
  assumes "cstep E W ok t u" and "stuck p t"
  shows "stuck p u \<and> cs_frames u = cs_frames t \<and> prefix (pendingList (cs_client t)) (pendingList (cs_client u))"
proof -
  have stay: "stuck p (after c' effs t) \<and> cs_frames (after c' effs t) = cs_frames t \<and>
      prefix (pendingList (cs_client t)) (pendingList (cs_client (after c' effs t)))"
    if "beside (cs_client t) c' effs" for c' and effs :: "('u, 'r, 'pub, 'del, unit) client_effect list"
    using assms(2) that by (simp add: stuck_def beside_def after_def)
  from assms(1) show ?thesis
  proof cases
    case (request now isOrder msg res ms code c' effs)
    from stay [OF beside_request [OF request(2)]] request(1) show ?thesis by simp
  next
    case (publish msg c' effs)
    from stay [OF beside_publish [OF publish(2)]] publish(1) show ?thesis by simp
  next
    case (reply req rsp c' effs)
    from stay [OF beside_reply [OF reply(2)]] reply(1) show ?thesis by simp
  next
    case (connected resolve now ec c' effs)
    from stay [OF beside_doConnect [OF connected(2)]] connected(1) show ?thesis by simp
  next
    case (closed resolve is_open c' effs)
    from stay [OF beside_doClose [OF closed(2)]] closed(1) show ?thesis by simp
  next
    case (read ec d c' effs)
    from stay [OF beside_read [OF read(2)]] read(1) show ?thesis by simp
  next
    case (run_write q qs c' effs)
    with assms(2) show ?thesis by (auto simp: startWrite_def stuck_def after_def)
  qed (use assms(2) in \<open>simp_all add: stuck_def\<close>)
qed

text \<open>
  Property C39. A client that falls silent. Let a client, at any time, have to write a package that cannot be
  encoded, or let a write of it fail. Then the package stays at the front of its queue with no write under
  way, and from then on nothing is ever written again, whatever is posted and however often the client
  reconnects: the queue only grows.
\<close>

theorem client_silent:
  fixes s :: "('u, 'r, 'pub, 'del) csys"
  assumes "pendingList c = []" and "(cstep E W ok)\<^sup>*\<^sup>* (csys_init c) s0"
    and "fails_to_write E p s0 s" and "(cstep E W ok)\<^sup>*\<^sup>* s s'"
  shows "(\<exists>ps. pendingList (cs_client s) = p # ps) \<and> cs_inflight s' = [] \<and> cs_frames s' = cs_frames s \<and>
    prefix (pendingList (cs_client s)) (pendingList (cs_client s'))"
proof -
  have s: "stuck p s" using fails_stuck [OF assms(3) one_write_reach [OF assms(1,2)]] .
  from assms(4) have "stuck p s' \<and> cs_frames s' = cs_frames s \<and>
      prefix (pendingList (cs_client s)) (pendingList (cs_client s'))"
  proof (induction rule: rtranclp_induct)
    case (step t u)
    with stuck_step [OF step.hyps(2)] show ?case by (auto intro: prefix_order.trans)
  qed (use s in simp)
  with s show ?thesis by (simp add: stuck_def)
qed

section \<open>A history\<close>

abbreviation demo_pub :: "int \<Rightarrow> unit pb_message Package" where
  "demo_pub i \<equiv> client_package pb_demo PUBSUB False i demo_rsp"

lemma demo_pub_postable: "postable pb_demo (demo_pub i)"
proof -
  have "sendable pb_demo (demo_pub i) demo_rsp"
    by (simp add: sendable_def client_package_def demo_rsp_def SubscribeRsp_FullMessageName_def
        set_isorder_def PacHeader_new_def iszip_def encode_content_def
        enableCompressSize_def kPackageHeaderSize_def kMaxPackageLen_def SubscribeRsp_ByteSizeLong_def
        SubscribeRsp_InternalSerialize_def SubscribeRsp_set_errorcode_def SubscribeRsp_new_def
        SubscribeRsp_errorcode_def)
  with demo_rsp_ok(1) show ?thesis by (auto simp: postable_def)
qed

lemma demo_publish:
  fixes c :: "(unit, string, string, string) client"
  assumes "cl_id c = n" and "0 \<le> n" "n < 100" and "isOnline c" and "\<not> cl_stopped c"
  shows "AsioClient_publishMessage pb_demo (Some demo_rsp) c
    = Inr (c\<lparr>cl_id := n + 1, cl_store := cl_store c @ [demo_pub (n + 1)]\<rparr>, [PostStartWrite (length (cl_store c))])"
  using assms by (simp add: AsioClient_publishMessage_def next_msgId_def new_package_def postPackage_def
      wrap32_id c_rem_def INT_MAX_def Let_def)

lemma demo_written:
  obtains d i pac' c where
    "c = demo_client\<lparr>cl_id := 1, cl_store := [pac'], pendingList := [0]\<rparr>"
    "(cstep pb_demo sample_wire (postable pb_demo))\<^sup>*\<^sup>* (csys_init demo_client)
       \<lparr>cs_client = c, cs_posted = [], cs_inflight = [(d, i)], cs_all = [(0, demo_pub 1)], cs_sent = [],
        cs_frames = []\<rparr>"
proof -
  let ?R = "cstep pb_demo sample_wire (postable pb_demo)"
  let ?c1 = "demo_client\<lparr>cl_id := 1, cl_store := [demo_pub 1]\<rparr>"
  let ?s1 = "\<lparr>cs_client = ?c1, cs_posted = [0], cs_inflight = [], cs_all = [(0, demo_pub 1)], cs_sent = [],
    cs_frames = []\<rparr>"
  have p: "AsioClient_publishMessage pb_demo (Some demo_rsp) demo_client
    = Inr (?c1, [PostStartWrite 0] :: (unit, string, string, string, unit) client_effect list)"
    using demo_publish [of demo_client] by (simp add: demo_client_def)
  have s1: "?R (csys_init demo_client) ?s1"
    using cstep.publish [of pb_demo "Some demo_rsp" "csys_init demo_client" ?c1 "[PostStartWrite 0]"
        "postable pb_demo" sample_wire] p demo_pub_postable
    by (simp add: csys_init_def after_def demo_client_def)
  let ?c2 = "?c1\<lparr>pendingList := [0]\<rparr>"
  have f: "pendingList ?c2 = 0 # []" "0 < length (cl_store ?c2)" "postable pb_demo (cl_store ?c2 ! 0)"
    using demo_pub_postable by simp_all
  obtain d pac' where "startWrite_front pb_demo ?c2 = Inr (?c2\<lparr>cl_store := (cl_store ?c2)[0 := pac']\<rparr>,
      [ClientWrite d (sint (msgId (header pac')))] :: (unit, string, string, string, unit) client_effect list)"
    using startWrite_front_ok [OF pb_demo_ok f] by blast
  then have w: "startWrite_front pb_demo ?c2 = Inr (?c2\<lparr>cl_store := [pac']\<rparr>,
      [ClientWrite d (sint (msgId (header pac')))] :: (unit, string, string, string, unit) client_effect list)"
    by simp
  let ?c3 = "demo_client\<lparr>cl_id := 1, cl_store := [pac'], pendingList := [0]\<rparr>"
  let ?s3 = "\<lparr>cs_client = ?c3, cs_posted = [], cs_inflight = [(d, sint (msgId (header pac')))],
    cs_all = [(0, demo_pub 1)], cs_sent = [], cs_frames = []\<rparr>"
  have "startWrite pb_demo 0 (cs_client ?s1) = Inr (?c3,
      [ClientWrite d (sint (msgId (header pac')))] :: (unit, string, string, string, unit) client_effect list)"
    using w by (simp add: startWrite_def demo_client_def)
  from cstep.run_write [OF _ this, of "[]" sample_wire "postable pb_demo"]
  have "?R ?s1 ?s3" by (simp add: after_def)
  with s1 have "?R\<^sup>*\<^sup>* (csys_init demo_client) ?s3" by (rule converse_rtranclp_into_rtranclp [OF _ r_into_rtranclp])
  then show ?thesis using that by blast
qed

theorem client_writes_in_order_witness:
  "\<exists>s. (cstep pb_demo sample_wire (postable pb_demo))\<^sup>*\<^sup>* (csys_init demo_client) s \<and>
     map fst (cs_all s) = [0] \<and> cs_sent s @ pendingList (cs_client s) @ cs_posted s = [0] \<and>
     length (cs_inflight s) = 1"
proof -
  obtain d i pac' c where c: "c = demo_client\<lparr>cl_id := 1, cl_store := [pac'], pendingList := [0]\<rparr>"
    "(cstep pb_demo sample_wire (postable pb_demo))\<^sup>*\<^sup>* (csys_init demo_client)
       \<lparr>cs_client = c, cs_posted = [], cs_inflight = [(d, i)], cs_all = [(0, demo_pub 1)], cs_sent = [],
        cs_frames = []\<rparr>" by (rule demo_written)
  from client_writes_in_order [OF pb_demo_ok _ c(2)] c(2) show ?thesis
    by (intro exI conjI) (auto simp: demo_client_def c(1))
qed

theorem client_queue_drains_witness:
  "\<exists>s s'. (cstep pb_demo sample_wire (postable pb_demo))\<^sup>*\<^sup>* (csys_init demo_client) s \<and>
     map fst (cs_all s) = [0] \<and> cs_sent s = [] \<and> cs_frames s = [] \<and>
     (cstep pb_demo sample_wire (postable pb_demo))\<^sup>*\<^sup>* s s' \<and> cs_sent s' = [0] \<and> length (cs_frames s') = 1"
proof -
  obtain d i pac' c where c: "c = demo_client\<lparr>cl_id := 1, cl_store := [pac'], pendingList := [0]\<rparr>"
    "(cstep pb_demo sample_wire (postable pb_demo))\<^sup>*\<^sup>* (csys_init demo_client)
       \<lparr>cs_client = c, cs_posted = [], cs_inflight = [(d, i)], cs_all = [(0, demo_pub 1)], cs_sent = [],
        cs_frames = []\<rparr>" by (rule demo_written)
  have "pendingList demo_client = []" by (simp add: demo_client_def)
  from client_queue_drains [OF pb_demo_ok this c(2)] obtain s' where
    "(cstep pb_demo sample_wire (postable pb_demo))\<^sup>*\<^sup>* \<lparr>cs_client = c, cs_posted = [], cs_inflight = [(d, i)],
      cs_all = [(0, demo_pub 1)], cs_sent = [], cs_frames = []\<rparr> s'"
    "cs_sent s' = [0]" "length (cs_frames s') = 1"
    by (auto simp: cs_busy_def dest: list_all2_lengthD)
  with c(2) show ?thesis by (intro exI conjI) simp_all
qed

theorem client_silent_witness:
  "\<exists>s s'. (cstep pb_demo sample_wire (postable pb_demo))\<^sup>*\<^sup>* (csys_init demo_client) s \<and>
     (cstep pb_demo sample_wire (postable pb_demo))\<^sup>*\<^sup>* s s' \<and> map fst (cs_all s') = [0, 1] \<and>
     cs_frames s' = [] \<and> cs_inflight s' = []"
proof -
  let ?R = "cstep pb_demo sample_wire (postable pb_demo)"
  obtain d i pac' c where c: "c = demo_client\<lparr>cl_id := 1, cl_store := [pac'], pendingList := [0]\<rparr>"
    "?R\<^sup>*\<^sup>* (csys_init demo_client) \<lparr>cs_client = c, cs_posted = [], cs_inflight = [(d, i)],
      cs_all = [(0, demo_pub 1)], cs_sent = [], cs_frames = []\<rparr>" by (rule demo_written)
  let ?s = "\<lparr>cs_client = c, cs_posted = [], cs_inflight = [], cs_all = [(0, demo_pub 1)], cs_sent = [],
    cs_frames = []\<rparr>"
  have "write_completed pb_demo 0 True i c = Inr (c, [PostClose] :: (unit, string, string, string, unit) client_effect list)"
    by (simp add: write_completed_def c(1) demo_client_def RequestMessage_new_def RequestMessage_startTimer_def)
  then have fail: "fails_to_write pb_demo 0 \<lparr>cs_client = c, cs_posted = [], cs_inflight = [(d, i)],
      cs_all = [(0, demo_pub 1)], cs_sent = [], cs_frames = []\<rparr> ?s"
    and "?R \<lparr>cs_client = c, cs_posted = [], cs_inflight = [(d, i)], cs_all = [(0, demo_pub 1)], cs_sent = [],
      cs_frames = []\<rparr> ?s"
    using failed_write [of "\<lparr>cs_client = c, cs_posted = [], cs_inflight = [(d, i)],
      cs_all = [(0, demo_pub 1)], cs_sent = [], cs_frames = []\<rparr>" d i "[]" 0 "[]" pb_demo 0 c "[PostClose]"]
      cstep.write_failed [of "\<lparr>cs_client = c, cs_posted = [], cs_inflight = [(d, i)],
      cs_all = [(0, demo_pub 1)], cs_sent = [], cs_frames = []\<rparr>" d i "[]" pb_demo 0 c "[PostClose]"]
    by (simp_all add: after_def c(1))
  from c(2) this(2) have s: "?R\<^sup>*\<^sup>* (csys_init demo_client) ?s" by (rule rtranclp.rtrancl_into_rtrancl)
  let ?c2 = "c\<lparr>cl_id := 2, cl_store := [pac', demo_pub 2]\<rparr>"
  have "AsioClient_publishMessage pb_demo (Some demo_rsp) c
      = Inr (?c2, [PostStartWrite 1] :: (unit, string, string, string, unit) client_effect list)"
    using demo_publish [of c 1] by (simp add: c(1) demo_client_def)
  then have p: "?R ?s (after ?c2 [PostStartWrite 1 :: (unit, string, string, string, unit) client_effect] ?s)"
    using cstep.publish [of pb_demo "Some demo_rsp" ?s ?c2 "[PostStartWrite 1]" "postable pb_demo" sample_wire]
      demo_pub_postable [of 2] by simp
  let ?s' = "after ?c2 [PostStartWrite 1 :: (unit, string, string, string, unit) client_effect] ?s"
  have e: "pendingList demo_client = []" by (simp add: demo_client_def)
  note silent = client_silent [OF e c(2) fail r_into_rtranclp [of ?R, OF p]]
  have g: "cs_inflight ?s' = []" by (rule conjunct1 [OF conjunct2 [OF silent]])
  have "cs_frames ?s' = cs_frames ?s" by (rule conjunct1 [OF conjunct2 [OF conjunct2 [OF silent]]])
  then have f: "cs_frames ?s' = []" by simp
  have a: "map fst (cs_all ?s') = [0, 1]" by (simp add: after_def)
  show ?thesis
    by (rule exI [of _ ?s], rule exI [of _ ?s'], intro conjI s r_into_rtranclp [of ?R, OF p] a f g)
qed

end
