(* ===== verification/Client_Events.thy ===== *)
theory Client_Events
  imports Client_Queue
begin

text \<open>
  The operations of \<^verbatim>\<open>asio/internal/AsioClient.cpp\<close> gathered in one type of events, for the properties of a
  client's whole life: the callbacks that \<^verbatim>\<open>sendMessage\<close> leaves in the table of requests, and the numbers of the
  messages.
\<close>

section \<open>Events\<close>

text \<open>
  The calls of the program, then the handlers of the event loop. \<open>EvWake\<close> is a wake-up of a thread that waits
  in \<^verbatim>\<open>sendMessage\<close>, \<open>EvReply\<close> a job of a deliver handler that has called its function.
\<close>

datatype ('u, 'r) client_event =
    EvStart
  | EvStop
  | EvRequest bool "'u pb_message" 'r int
  | EvSend "'u pb_message" int
  | EvWake nat
  | EvPublish "'u pb_message"
  | EvReply ref "'u pb_message"
  | EvTimeout int
  | EvConnect bool
  | EvClose bool
  | EvRead bool string
  | EvStartWrite ref
  | EvWritten bool int
  | EvHeartbeat bool
  | EvResponse ref

fun client_run ::
    "('d, 'u pb_message) env \<Rightarrow> 'u wire \<Rightarrow> (string \<Rightarrow> string \<Rightarrow> 'ep option) \<Rightarrow> int \<Rightarrow> ('u, 'r) client_event \<Rightarrow>
     ('u, 'r, 'pub, 'del) client \<Rightarrow> ('u, 'r, 'pub, 'del, 'ep) client_result" where
  "client_run E W resolve now EvStart c = AsioClient_start resolve c"
| "client_run E W resolve now EvStop c = Inr (AsioClient_stop c)"
| "client_run E W resolve now (EvRequest isOrder msg r ms) c =
     map_sum id snd (postMessage_order E now isOrder (Some msg) (UserResponse r) ms c)"
| "client_run E W resolve now (EvSend msg ms) c = map_sum id snd (sendMessage_begin E now (Some msg) ms c)"
| "client_run E W resolve now (EvWake k) c = Inr (sendMessage_wake k c, [])"
| "client_run E W resolve now (EvPublish msg) c = AsioClient_publishMessage E (Some msg) c"
| "client_run E W resolve now (EvReply req msg) c = replyDeliver E req (Some msg) c"
| "client_run E W resolve now (EvTimeout i) c = request_timeout now i c"
| "client_run E W resolve now (EvConnect ec) c = doConnect E W resolve now ec c"
| "client_run E W resolve now (EvClose is_open) c = doClose resolve is_open c"
| "client_run E W resolve now (EvRead ec d) c = AsioClient_doRead E ec d c"
| "client_run E W resolve now (EvStartWrite p) c = startWrite E p c"
| "client_run E W resolve now (EvWritten ec i) c = write_completed E now ec i c"
| "client_run E W resolve now (EvHeartbeat e) c = AsioClient_doHeartbeat E W now e c"
| "client_run E W resolve now (EvResponse r) c = doResponse now r c"

lemma map_sum_Inr_eq: "map_sum id f x = Inr y \<longleftrightarrow> (\<exists>a. x = Inr a \<and> y = f a)"
  "map_sum id f x = Inl e \<longleftrightarrow> x = Inl e"
  by (cases x; auto)+

section \<open>The callbacks of sendMessage\<close>

text \<open>
  The callbacks of \<^verbatim>\<open>sendMessage\<close> in the table, by message id. Each of them belongs to a call of its own, which
  is still waiting, unless its post has been refused.
\<close>

definition sends :: "(ref, 'r response) requests \<Rightarrow> int \<rightharpoonup> nat" where
  "sends m i = (case m i of
     Some d \<Rightarrow> (case rq_res d of SendResponse k \<Rightarrow> Some k | _ \<Rightarrow> None)
   | None \<Rightarrow> None)"

lemma sends_empty [simp]: "sends (\<lambda>i. None) = (\<lambda>i. None)"
  by (rule ext) (simp add: sends_def)

definition waits_for :: "'m waiter list \<Rightarrow> nat \<Rightarrow> bool" where
  "waits_for ws k \<longleftrightarrow> k < length ws \<and>
     (wt_frame (ws ! k) = Refused \<or> wt_frame (ws ! k) = InCall \<and> isWait (ws ! k))"

definition wf_waits :: "('u, 'r, 'pub, 'del) client \<Rightarrow> bool" where
  "wf_waits c \<longleftrightarrow> inj_on (sends (requestMessage c)) (dom (sends (requestMessage c))) \<and>
     (\<forall>k \<in> ran (sends (requestMessage c)). waits_for (waiters c) k)"

lemma waits_for_update [simp]: "j \<noteq> k \<Longrightarrow> waits_for (ws[k := w]) j = waits_for ws j"
  by (simp add: waits_for_def)

lemma drop_le [simp]: "m(i := None) \<subseteq>\<^sub>m m"
  by (simp add: map_le_def)

text \<open>An operation that adds no such callback and touches no waiter.\<close>

definition waits_kept :: "('u, 'r, 'pub, 'del) client \<Rightarrow> ('u, 'r, 'pub, 'del) client \<Rightarrow> bool" where
  "waits_kept c c' \<longleftrightarrow> sends (requestMessage c') \<subseteq>\<^sub>m sends (requestMessage c) \<and> waiters c' = waiters c"

lemma wf_waits_kept:
  assumes "waits_kept c c'" and "wf_waits c"
  shows "wf_waits c'"
proof -
  have le: "sends (requestMessage c') i = Some k \<Longrightarrow> sends (requestMessage c) i = Some k" for i k
    using assms(1) by (auto simp: waits_kept_def map_le_def dom_def)
  have "inj_on (sends (requestMessage c')) (dom (sends (requestMessage c')))"
  proof (rule inj_onI)
    fix i j
    assume "i \<in> dom (sends (requestMessage c'))" and e: "sends (requestMessage c') i = sends (requestMessage c') j"
    then obtain k where k: "sends (requestMessage c') i = Some k" by blast
    with le [OF k] le [of j k] e have "sends (requestMessage c) i = Some k" "sends (requestMessage c) j = Some k" by simp_all
    with assms(2) show "i = j" by (auto simp: wf_waits_def inj_on_def dom_def)
  qed
  then show ?thesis
    using assms by (auto simp: wf_waits_def waits_kept_def ran_def dest!: le)
qed

lemma waits_kept_trans: "waits_kept c c1 \<Longrightarrow> waits_kept c1 c2 \<Longrightarrow> waits_kept c c2"
  by (auto simp: waits_kept_def intro: map_le_trans)

lemma waits_kept_same [simp]:
  "requestMessage c' = requestMessage c \<Longrightarrow> waiters c' = waiters c \<Longrightarrow> waits_kept c c'"
  by (simp add: waits_kept_def)

lemma sends_put:
  "sends (RequestMessage_put now i p res ms m)
     = (sends m)(i := (case res of SendResponse k \<Rightarrow> Some k | _ \<Rightarrow> None))"
  by (rule ext) (simp add: sends_def RequestMessage_put_def Data_new_def)

lemma sends_startTimer [simp]: "sends (RequestMessage_startTimer now i m) = sends m"
  by (rule ext) (auto simp: sends_def RequestMessage_startTimer_def split: option.splits)

lemma sends_drop [simp]: "sends (m(i := None)) = (sends m)(i := None)"
  by (rule ext) (simp add: sends_def)

lemma kept_request:
  assumes "postMessage_order E now isOrder msg res ms c = Inr (code, c', effs)" and "\<And>k. res \<noteq> SendResponse k"
  shows "waits_kept c c'"
  using assms
  by (cases res) (auto simp: postMessage_order_def new_package_def waits_kept_def sends_put Let_def
      split: option.splits prod.splits)

lemma kept_publish: "AsioClient_publishMessage E msg c = Inr (c', effs) \<Longrightarrow> waits_kept c c'"
  by (auto simp: AsioClient_publishMessage_def new_package_def Let_def split: option.splits prod.splits)

lemma kept_reply: "replyDeliver E req rsp c = Inr (c', effs) \<Longrightarrow> waits_kept c c'"
  by (auto simp: replyDeliver_def new_package_def Let_def split: option.splits prod.splits if_splits)

lemma kept_connect: "connect resolve c = Inr (c', effs) \<Longrightarrow> waits_kept c c'"
  by (auto simp: connect_def Let_def split: option.splits if_splits)

lemma kept_subscribe: "startSubscribe E W now c = Inr (c', effs) \<Longrightarrow> waits_kept c c'"
  by (auto simp: startSubscribe_def AsioClient_postMessage_def rbind_eq_Inr intro: kept_request split: if_splits)

lemma kept_doConnect:
  assumes "doConnect E W resolve now ec c = Inr (c', effs)"
  shows "waits_kept c c'"
proof (cases ec)
  case True
  with assms show ?thesis
    by (auto simp: doConnect_def Let_def rbind_eq_Inr waits_kept_def split: if_splits dest!: kept_connect)
next
  case False
  with assms obtain effs' where "startSubscribe E W now (c\<lparr>isOnline := True\<rparr>) = Inr (c', effs')"
    "effs = startRead @ effs' @ startHeartbeatTimer c' @ (if connectSuccess c' then [CallConnectSuccess] else [])"
    by (auto simp: doConnect_def Let_def rbind_eq_Inr)
  from kept_subscribe [OF this(1)] show ?thesis by (simp add: waits_kept_def)
qed

lemma kept_doClose: "doClose resolve is_open c = Inr (c', effs) \<Longrightarrow> waits_kept c c'"
  by (auto simp: doClose_def Let_def rbind_eq_Inr waits_kept_def split: if_splits dest!: kept_connect)

lemma kept_read: "AsioClient_doRead E ec d c = Inr (c', effs) \<Longrightarrow> waits_kept c c'"
  by (auto simp: AsioClient_doRead_def rbind_eq_Inr new_packages_eq split: if_splits)

lemma kept_front: "startWrite_front E c = Inr (c', effs) \<Longrightarrow> waits_kept c c'"
  by (auto simp: startWrite_front_def rbind_eq_Inr Let_def split: list.splits if_splits)

lemma kept_startWrite: "startWrite E p c = Inr (c', effs) \<Longrightarrow> waits_kept c c'"
  by (auto simp: startWrite_def waits_kept_def Let_def split: if_splits dest!: kept_front)

lemma kept_written: "write_completed E now ec i c = Inr (c', effs) \<Longrightarrow> waits_kept c c'"
  by (auto simp: write_completed_def waits_kept_def Let_def split: if_splits list.splits dest!: kept_front)

lemma kept_heartbeat: "AsioClient_doHeartbeat E W now e c = Inr (c', effs) \<Longrightarrow> waits_kept c c'"
  by (auto simp: AsioClient_doHeartbeat_def AsioClient_postMessage_def rbind_eq_Inr intro: kept_request split: if_splits)

lemma sendMessage_begin_post:
  fixes c :: "('u, 'r, 'pub, 'del) client"
  assumes "sendMessage_begin E now (Some msg) ms c
      = Inr (r, c', effs :: ('u, 'r, 'pub, 'del, 'ep) client_effect list)"
  obtains code c2 f where "postMessage_order E now False (Some msg) (SendResponse (length (waiters c))) ms
      (c\<lparr>waiters := waiters c @ [\<lparr>wt_frame = InCall, isWait = True, wt_err = 0, wt_rsp = None\<rparr>]\<rparr>)
        = Inr (code, c2, effs :: ('u, 'r, 'pub, 'del, 'ep) client_effect list)"
    "c' = c2\<lparr>waiters := waiters c @ [\<lparr>wt_frame = f, isWait = True, wt_err = 0, wt_rsp = None\<rparr>]\<rparr>"
    "f = (if code = eSuccess then InCall else Refused)"
proof -
  let ?w = "\<lparr>wt_frame = InCall, isWait = True, wt_err = 0, wt_rsp = None\<rparr>"
  obtain code c2 where p: "postMessage_order E now False (Some msg) (SendResponse (length (waiters c))) ms
      (c\<lparr>waiters := waiters c @ [?w]\<rparr>) = Inr (code, c2, effs :: ('u, 'r, 'pub, 'del, 'ep) client_effect list)"
    "c' = (if code \<noteq> eSuccess
       then c2\<lparr>waiters := (waiters c2)[length (waiters c) := (waiters c2 ! length (waiters c))\<lparr>wt_frame := Refused\<rparr>]\<rparr>
       else c2)"
    using assms by (auto simp: sendMessage_begin_def AsioClient_postMessage_def rbind_eq_Inr Let_def split: if_splits)
  moreover have "waiters c2 = waiters c @ [?w]"
    using p(1) by (auto simp: postMessage_order_def new_package_def Let_def split: prod.splits)
  ultimately show ?thesis by (intro that [OF p(1)]) (auto split: if_splits)
qed

lemma waits_send:
  assumes "sendMessage_begin E now (Some msg) ms c = Inr (r, c', effs)" and "wf_waits c"
  shows "wf_waits c'"
proof -
  let ?k = "length (waiters c)" and ?s = "sends (requestMessage c)"
  obtain code c2 f where p: "postMessage_order E now False (Some msg) (SendResponse ?k) ms
      (c\<lparr>waiters := waiters c @ [\<lparr>wt_frame = InCall, isWait = True, wt_err = 0, wt_rsp = None\<rparr>]\<rparr>) = Inr (code, c2, effs)"
    "c' = c2\<lparr>waiters := waiters c @ [\<lparr>wt_frame = f, isWait = True, wt_err = 0, wt_rsp = None\<rparr>]\<rparr>"
    "f = (if code = eSuccess then InCall else Refused)"
    using sendMessage_begin_post [OF assms(1)] by blast
  obtain i where s: "sends (requestMessage c') = ?s(i \<mapsto> ?k)"
    using p(1,2) by (auto simp: postMessage_order_def new_package_def sends_put Let_def split: prod.splits)
  have old: "waits_for (waiters c) k \<Longrightarrow> waits_for (waiters c') k" for k
    by (auto simp: waits_for_def p(2) nth_append)
  have "waits_for (waiters c') ?k" by (simp add: waits_for_def p(2,3))
  moreover have "?k \<notin> ran ?s" using assms(2) by (auto simp: wf_waits_def waits_for_def)
  ultimately show ?thesis
    using assms(2) old unfolding wf_waits_def s
    by (auto simp: inj_on_def ran_def dom_def split: if_splits)
qed

lemma waits_wake:
  assumes "wf_waits c"
  shows "wf_waits (sendMessage_wake k c)"
proof -
  have "k \<notin> ran (sends (requestMessage c))" if "wt_frame (waiters c ! k) = InCall" "\<not> isWait (waiters c ! k)"
    using assms that by (auto simp: wf_waits_def waits_for_def)
  with assms show ?thesis by (auto simp: sendMessage_wake_def wf_waits_def waits_for_def nth_list_update)
qed

lemma waits_answer:
  assumes "call_response (rq_res d) err p rsp (c\<lparr>requestMessage := m\<rparr>) = Inr (c', effs)"
    and "RequestMessage_pick now i (requestMessage c) = (Some d, m)" and "wf_waits c"
  shows "wf_waits c'"
proof -
  have m: "m = (requestMessage c)(i := None)" "sends (requestMessage c) i = (case rq_res d of SendResponse k \<Rightarrow> Some k | _ \<Rightarrow> None)"
    using assms(2) by (auto simp: RequestMessage_pick_def sends_def split: option.splits response.splits)
  have c1: "wf_waits (c\<lparr>requestMessage := m\<rparr>)"
    by (rule wf_waits_kept [OF _ assms(3)]) (simp add: waits_kept_def m(1))
  show ?thesis
  proof (cases "rq_res d")
    case (SendResponse k)
    then have k: "sends (requestMessage c) i = Some k" by (simp add: m(2))
    have "k \<notin> ran ((sends (requestMessage c))(i := None))"
    proof
      assume "k \<in> ran ((sends (requestMessage c))(i := None))"
      then obtain j where "j \<noteq> i" "sends (requestMessage c) j = Some k" by (auto simp: ran_def split: if_splits)
      with k assms(3) show False by (auto simp: wf_waits_def inj_on_def dom_def)
    qed
    moreover obtain w where "c' = c\<lparr>requestMessage := m, waiters := (waiters c)[k := w]\<rparr>"
      using assms(1) SendResponse by (auto simp: rbind_eq_Inr split: if_splits)
    ultimately show ?thesis
      using c1 unfolding wf_waits_def m(1) by (auto intro!: waits_for_update [THEN iffD2])
  qed (use assms(1) c1 in \<open>auto simp: rbind_eq_Inr\<close>)
qed

lemma client_run_waits:
  assumes "client_run E W resolve now ev c = Inr (c', effs)" and "wf_waits c"
  shows "wf_waits c'"
proof (cases ev)
  case EvStart
  with assms show ?thesis
    by (auto simp: AsioClient_start_def rbind_eq_Inr waits_kept_def intro!: wf_waits_kept [OF _ assms(2)] dest!: kept_connect)
next
  case EvStop
  with assms show ?thesis by (auto simp: AsioClient_stop_def wf_waits_def)
next
  case (EvRequest isOrder msg r ms)
  with assms show ?thesis by (auto simp: map_sum_Inr_eq intro: wf_waits_kept kept_request)
next
  case (EvSend msg ms)
  with assms show ?thesis by (auto simp: map_sum_Inr_eq intro: waits_send)
next
  case (EvTimeout i)
  with assms show ?thesis
    by (auto simp: request_timeout_def RequestMessage_onTimeout_def split: prod.splits option.splits
        intro: waits_answer) (auto simp: RequestMessage_pick_def split: option.splits)
next
  case (EvResponse r)
  with assms show ?thesis
    by (auto simp: doResponse_def Let_def wf_waits_def [of "c\<lparr>handlerList := _\<rparr>"] wf_waits_def [of c]
        split: prod.splits option.splits if_splits intro: waits_answer)
      (auto simp: RequestMessage_pick_def wf_waits_def split: option.splits)
qed (use assms in \<open>auto intro: waits_wake wf_waits_kept kept_publish kept_reply kept_doConnect kept_doClose kept_read
      kept_startWrite kept_written kept_heartbeat\<close>)

section \<open>Stopping\<close>

lemma stopped_posts_nothing:
  "cl_stopped c \<Longrightarrow> snd (postPackage p c) = []"
  by (simp add: postPackage_def split: option.splits)

lemma request_stopped:
  fixes c :: "('u, 'r, 'pub, 'del) client"
  assumes "postMessage_order E now isOrder msg res ms c
      = Inr (code, c', effs :: ('u, 'r, 'pub, 'del, 'ep) client_effect list)" and "cl_stopped c"
  shows "cl_stopped c' \<and> effs = []"
  using assms by (auto simp: postMessage_order_def new_package_def postPackage_def Let_def split: option.splits prod.splits)

lemma connect_stopped:
  "connect resolve c = Inr (c', effs) \<Longrightarrow> cl_stopped c' = cl_stopped c \<and> post_refs effs = []"
  by (auto simp: connect_def Let_def split: option.splits if_splits)

lemma call_response_stopped:
  "call_response res err p rsp c = Inr (c', effs) \<Longrightarrow> cl_stopped c' = cl_stopped c \<and> post_refs effs = []"
  by (cases res) (auto simp: rbind_eq_Inr split: if_splits)

lemma subscribe_stopped:
  fixes c :: "('u, 'r, 'pub, 'del) client"
  assumes "startSubscribe E W now c = Inr (c', effs :: ('u, 'r, 'pub, 'del, 'ep) client_effect list)" and "cl_stopped c"
  shows "cl_stopped c' \<and> effs = []"
  using assms by (auto simp: startSubscribe_def AsioClient_postMessage_def rbind_eq_Inr Let_def
      dest: request_stopped split: if_splits)

lemma handler_calls_posts [simp]: "post_refs (map HandlerCall xs) = []"
  by (induction xs) simp_all

lemma startWrite_front_stopped:
  "startWrite_front E c = Inr (c', effs) \<Longrightarrow> cl_stopped c' = cl_stopped c \<and> post_refs effs = []"
  by (auto simp: startWrite_front_def rbind_eq_Inr Let_def split: list.splits if_splits)

text \<open>A stopped client stays stopped and puts nothing into its queue, whatever happens to it.\<close>

lemma client_run_stopped:
  fixes c :: "('u, 'r, 'pub, 'del) client"
  assumes "client_run E W resolve now ev c = Inr (c', effs :: ('u, 'r, 'pub, 'del, 'ep) client_effect list)"
    and "cl_stopped c"
  shows "cl_stopped c' \<and> post_refs effs = []"
proof (cases ev)
  case EvStart
  with assms show ?thesis by (auto simp: AsioClient_start_def rbind_eq_Inr dest!: connect_stopped)
next
  case (EvRequest isOrder msg r ms)
  with assms show ?thesis by (auto simp: map_sum_Inr_eq dest: request_stopped)
next
  case (EvSend msg ms)
  with assms show ?thesis
    by (auto simp: map_sum_Inr_eq sendMessage_begin_def AsioClient_postMessage_def rbind_eq_Inr Let_def
        dest!: request_stopped split: if_splits)
next
  case (EvTimeout i)
  with assms show ?thesis
    by (auto simp: request_timeout_def split: prod.splits option.splits dest!: call_response_stopped)
next
  case (EvConnect ec)
  with assms show ?thesis
    by (auto simp: doConnect_def Let_def rbind_eq_Inr startRead_def startHeartbeatTimer_def split: if_splits
        dest!: connect_stopped subscribe_stopped)
next
  case (EvClose is_open)
  with assms show ?thesis by (auto simp: doClose_def Let_def)
next
  case (EvResponse r)
  with assms show ?thesis
    by (auto simp: doResponse_def Let_def split: prod.splits option.splits if_splits dest!: call_response_stopped)
next
  case (EvHeartbeat e)
  with assms show ?thesis
    by (auto simp: AsioClient_doHeartbeat_def AsioClient_postMessage_def rbind_eq_Inr Let_def split: if_splits
        dest!: request_stopped)
next
  case (EvStartWrite p)
  with assms show ?thesis
    by (auto simp: startWrite_def Let_def split: if_splits dest!: startWrite_front_stopped)
next
  case (EvWritten ec i)
  with assms show ?thesis
    by (auto simp: write_completed_def Let_def split: if_splits list.splits dest!: startWrite_front_stopped)
qed (use assms in \<open>auto simp: sendMessage_wake_def AsioClient_stop_def AsioClient_close_def AsioClient_publishMessage_def replyDeliver_def
      new_package_def AsioClient_doRead_def startRead_def rbind_eq_Inr new_packages_eq stopped_posts_nothing Let_def
      split: prod.splits if_splits\<close>)

text \<open>The events that run a write handler of the loop. No other event changes the queue.\<close>

definition write_event :: "('u, 'r) client_event \<Rightarrow> bool" where
  "write_event ev = (case ev of EvStartWrite p \<Rightarrow> True | EvWritten ec i \<Rightarrow> True | _ \<Rightarrow> False)"

lemma call_response_queue: "call_response res err p rsp c = Inr (c', effs) \<Longrightarrow> pendingList c' = pendingList c"
  by (cases res) (auto simp: rbind_eq_Inr split: if_splits)

lemma beside_queue: "beside c c' effs \<Longrightarrow> pendingList c' = pendingList c"
  by (simp add: beside_def)

lemma client_run_queue:
  assumes "client_run E W resolve now ev c = Inr (c', effs)" and "\<not> write_event ev"
  shows "pendingList c' = pendingList c"
proof (cases ev)
  case EvStart
  with assms(1) show ?thesis by (auto simp: AsioClient_start_def rbind_eq_Inr dest!: beside_connect beside_queue)
next
  case (EvRequest isOrder msg r ms)
  with assms(1) show ?thesis by (auto simp: map_sum_Inr_eq dest!: beside_request beside_queue)
next
  case (EvSend msg ms)
  with assms(1) show ?thesis
    by (auto simp: map_sum_Inr_eq sendMessage_begin_def AsioClient_postMessage_def rbind_eq_Inr Let_def
        dest!: beside_request beside_queue split: if_splits)
next
  case (EvTimeout i)
  with assms(1) show ?thesis
    by (auto simp: request_timeout_def split: prod.splits option.splits dest!: call_response_queue)
next
  case (EvResponse r)
  with assms(1) show ?thesis
    by (auto simp: doResponse_def Let_def split: prod.splits option.splits if_splits dest!: call_response_queue)
next
  case (EvHeartbeat e)
  with assms(1) show ?thesis
    by (auto simp: AsioClient_doHeartbeat_def AsioClient_postMessage_def rbind_eq_Inr Let_def
        dest!: beside_request beside_queue split: if_splits)
qed (use assms in \<open>auto simp: write_event_def AsioClient_stop_def sendMessage_wake_def
      dest!: beside_publish beside_reply beside_doConnect beside_doClose beside_read beside_queue\<close>)

section \<open>The numbers of the messages\<close>

text \<open>A run of events, each at its time, and the events that number a message of the client.\<close>

fun client_runs ::
    "('d, 'u pb_message) env \<Rightarrow> 'u wire \<Rightarrow> (string \<Rightarrow> string \<Rightarrow> 'ep option) \<Rightarrow> (int \<times> ('u, 'r) client_event) list \<Rightarrow>
     ('u, 'r, 'pub, 'del) client \<Rightarrow> ('u, 'r, 'pub, 'del, 'ep) client_result" where
  "client_runs E W resolve [] c = Inr (c, [])"
| "client_runs E W resolve ((now, ev) # evs) c =
     rbind (client_run E W resolve now ev c) (\<lambda>(c1, effs).
     rbind (client_runs E W resolve evs c1) (\<lambda>(c2, effs'). Inr (c2, effs @ effs')))"

definition numbers :: "bool \<Rightarrow> ('u, 'r) client_event \<Rightarrow> bool" where
  "numbers has_handlers ev =
     (case ev of
        EvRequest isOrder msg r ms \<Rightarrow> True
      | EvSend msg ms \<Rightarrow> True
      | EvPublish msg \<Rightarrow> True
      | EvHeartbeat e \<Rightarrow> \<not> e
      | EvConnect ec \<Rightarrow> \<not> ec \<and> has_handlers
      | _ \<Rightarrow> False)"

text \<open>An operation that keeps the counter, or takes one number, and does not add or remove handlers.\<close>

definition counts :: "bool \<Rightarrow> ('u, 'r, 'pub, 'del) client \<Rightarrow> ('u, 'r, 'pub, 'del) client \<Rightarrow> bool" where
  "counts b c c' \<longleftrightarrow> cl_id c' = (if b then snd (next_msgId (cl_id c)) else cl_id c) \<and>
     (handlerList c' = [] \<longleftrightarrow> handlerList c = [])"

lemma counts_same [simp]: "cl_id c' = cl_id c \<Longrightarrow> handlerList c' = handlerList c \<Longrightarrow> counts False c c'"
  by (simp add: counts_def)

lemma counts_request: "postMessage_order E now isOrder (Some msg) res ms c = Inr (code, c', effs) \<Longrightarrow> counts True c c'"
  by (auto simp: postMessage_order_def new_package_def counts_def Let_def split: prod.splits)

lemma counts_send: "sendMessage_begin E now (Some msg) ms c = Inr (r, c', effs) \<Longrightarrow> counts True c c'"
  by (auto simp: sendMessage_begin_def AsioClient_postMessage_def rbind_eq_Inr counts_def Let_def
      dest!: counts_request split: if_splits)

lemma counts_publish: "AsioClient_publishMessage E (Some msg) c = Inr (c', effs) \<Longrightarrow> counts True c c'"
  by (auto simp: AsioClient_publishMessage_def new_package_def counts_def Let_def split: prod.splits)

lemma counts_connect: "connect resolve c = Inr (c', effs) \<Longrightarrow> counts False c c'"
  by (auto simp: connect_def Let_def split: option.splits if_splits)

lemma counts_subscribe: "startSubscribe E W now c = Inr (c', effs) \<Longrightarrow> counts (handlerList c \<noteq> []) c c'"
  by (auto simp: startSubscribe_def AsioClient_postMessage_def rbind_eq_Inr counts_def dest!: counts_request split: if_splits)

lemma counts_doConnect:
  assumes "doConnect E W resolve now ec c = Inr (c', effs)"
  shows "counts (\<not> ec \<and> handlerList c \<noteq> []) c c'"
proof (cases ec)
  case True
  with assms show ?thesis
    by (auto simp: doConnect_def Let_def rbind_eq_Inr counts_def split: if_splits dest!: counts_connect)
next
  case False
  with assms obtain effs' where "startSubscribe E W now (c\<lparr>isOnline := True\<rparr>) = Inr (c', effs')"
    "effs = startRead @ effs' @ startHeartbeatTimer c' @ (if connectSuccess c' then [CallConnectSuccess] else [])"
    by (auto simp: doConnect_def Let_def rbind_eq_Inr)
  from counts_subscribe [OF this(1)] False show ?thesis by (simp add: counts_def)
qed

lemma counts_front: "startWrite_front E c = Inr (c', effs) \<Longrightarrow> counts False c c'"
  by (auto simp: startWrite_front_def rbind_eq_Inr Let_def split: list.splits if_splits)

lemma counts_call: "call_response res err p rsp c = Inr (c', effs) \<Longrightarrow> counts False c c'"
  by (cases res) (auto simp: rbind_eq_Inr split: if_splits)

lemma handlers_onPackage_none [simp]: "fst (handlers_onPackage r p hs) = [] \<longleftrightarrow> hs = []"
  by (cases hs) (simp_all split: prod.splits)

lemma handlers_onPackage_Nil: "handlers_onPackage r p hs = ([], calls) \<Longrightarrow> hs = []"
  using handlers_onPackage_none [of r p hs] by simp

lemma client_run_counts:
  assumes "client_run E W resolve now ev c = Inr (c', effs)"
  shows "counts (numbers (handlerList c \<noteq> []) ev) c c'"
proof (cases ev)
  case EvStart
  with assms show ?thesis
    by (auto simp: AsioClient_start_def rbind_eq_Inr numbers_def counts_def dest!: counts_connect)
next
  case (EvRequest isOrder msg r ms)
  with assms show ?thesis by (auto simp: map_sum_Inr_eq numbers_def intro: counts_request)
next
  case (EvSend msg ms)
  with assms show ?thesis by (auto simp: map_sum_Inr_eq numbers_def intro: counts_send)
next
  case (EvPublish msg)
  with assms show ?thesis by (auto simp: numbers_def intro: counts_publish)
next
  case (EvReply r msg)
  with assms show ?thesis by (auto simp: replyDeliver_def new_package_def numbers_def Let_def split: if_splits)
next
  case (EvTimeout i)
  with assms show ?thesis
    by (auto simp: request_timeout_def numbers_def counts_def split: prod.splits option.splits dest!: counts_call)
next
  case (EvConnect ec)
  with assms counts_doConnect show ?thesis by (fastforce simp: numbers_def)
next
  case (EvClose is_open)
  with assms show ?thesis
    by (auto simp: doClose_def Let_def rbind_eq_Inr numbers_def counts_def split: if_splits dest!: counts_connect)
next
  case (EvHeartbeat e)
  with assms show ?thesis
    by (auto simp: AsioClient_doHeartbeat_def AsioClient_postMessage_def rbind_eq_Inr numbers_def Let_def
        intro: counts_request split: if_splits)
next
  case (EvResponse r)
  with assms show ?thesis
    by (auto simp: doResponse_def Let_def numbers_def counts_def split: prod.splits option.splits if_splits
        dest!: counts_call dest: handlers_onPackage_Nil)
next
  case (EvStartWrite p)
  with assms show ?thesis
    by (auto simp: startWrite_def Let_def numbers_def counts_def split: if_splits dest!: counts_front)
next
  case (EvWritten ec i)
  with assms show ?thesis
    by (auto simp: write_completed_def Let_def numbers_def counts_def split: if_splits list.splits dest!: counts_front)
qed (use assms in \<open>auto simp: AsioClient_stop_def sendMessage_wake_def AsioClient_doRead_def rbind_eq_Inr new_packages_eq
      numbers_def split: if_splits\<close>)

lemma client_runs_counts:
  assumes "client_runs E W resolve evs c = Inr (c', effs)" and "cl_id c = wrap32 n"
  shows "cl_id c' = wrap32 (n + int (length (filter (numbers (handlerList c \<noteq> [])) (map snd evs))))"
  using assms
proof (induction evs arbitrary: c effs n)
  case (Cons x evs)
  obtain now ev where x: "x = (now, ev)" by (cases x)
  from Cons.prems(1) obtain c1 e1 e2 where r: "client_run E W resolve now ev c = Inr (c1, e1)"
    "client_runs E W resolve evs c1 = Inr (c', e2)" "effs = e1 @ e2"
    by (auto simp: x rbind_eq_Inr)
  have k: "cl_id c1 = (if numbers (handlerList c \<noteq> []) ev then wrap32 (n + 1) else wrap32 n)"
    "handlerList c1 = [] \<longleftrightarrow> handlerList c = []"
    using client_run_counts [OF r(1)] Cons.prems(2) by (simp_all add: counts_def next_msgId_counter)
  show ?case
  proof (cases "numbers (handlerList c \<noteq> []) ev")
    case True
    with Cons.IH [OF r(2), of "n + 1"] k show ?thesis by (simp add: x ac_simps)
  next
    case False
    with Cons.IH [OF r(2), of n] k show ?thesis by (simp add: x)
  qed
qed simp

text \<open>The remainders of a 32-bit counter.\<close>

lemma wrap32_mod:
  "wrap32 n = (let r = n mod 2 ^ 32 in if r < 2 ^ 31 then r else r - 2 ^ 32)"
proof -
  let ?r = "n mod 2 ^ 32"
  have r: "0 \<le> ?r" "?r < 2 ^ 32" by simp_all
  have "(word_of_int n :: int32) = word_of_int ?r" "(word_of_int ?r :: int32) = word_of_int (?r - 2 ^ 32)"
    by (simp_all add: word_of_int_eq_iff take_bit_eq_mod)
  then have "wrap32 n = wrap32 ?r" "wrap32 ?r = wrap32 (?r - 2 ^ 32)" by (simp_all only: wrap32_def)
  then show ?thesis using r wrap32_id [of ?r] wrap32_id [of "?r - 2 ^ 32"] by (simp add: Let_def)
qed

lemma counter_id:
  assumes "r = k mod 2 ^ 32"
  shows "c_rem (wrap32 (int k)) INT_MAX =
    (if r < 2 ^ 31 - 1 then int r else if r = 2 ^ 31 then - 1 else if r \<le> 2 ^ 31 + 1 then 0 else int r - 2 ^ 32)"
proof -
  have r: "int k mod 4294967296 = int r" "r < 4294967296" by (simp_all add: assms zmod_int)
  consider "r < 2147483647" | "r = 2147483647" | "r = 2147483648" | "r = 2147483649" | "r > 2147483649" by linarith
  then show ?thesis
  proof cases
    case 5
    then have "(4294967296 - int r) mod 2147483647 = 4294967296 - int r" by (intro mod_pos_pos_trivial) (use r(2) in simp_all)
    moreover have "int r - 4294967296 < 0" using r(2) by simp
    ultimately show ?thesis using 5 by (auto simp: wrap32_mod r(1) Let_def c_rem_def INT_MAX_def)
  qed (auto simp: wrap32_mod r(1) Let_def c_rem_def INT_MAX_def)
qed

lemma fold_addHandler: "fold addHandler hs c = c\<lparr>handlerList := handlerList c @ hs\<rparr>"
  by (induction hs arbitrary: c) (simp_all add: addHandler_def)

text \<open>The number that the client gives to its next message after a run.\<close>

lemma client_runs_number:
  assumes "AsioClient_new addresses reconnect heartbeat = Inr c0"
    and "client_runs E W resolve evs (fold addHandler hs c0) = Inr (c, effs)"
    and "r = (length (filter (numbers (hs \<noteq> [])) (map snd evs)) + 1) mod 2 ^ 32"
  shows "fst (next_msgId (cl_id c)) =
    (if r < 2 ^ 31 - 1 then int r else if r = 2 ^ 31 then - 1 else if r \<le> 2 ^ 31 + 1 then 0 else int r - 2 ^ 32)"
proof -
  have "handlerList c0 = []" "cl_id c0 = wrap32 0"
    using assms(1) by (auto simp: AsioClient_new_def rbind_eq_Inr wrap32_id)
  then have "cl_id c = wrap32 (int (length (filter (numbers (hs \<noteq> [])) (map snd evs))))"
    using client_runs_counts [OF assms(2), of 0] by (simp add: fold_addHandler)
  then have "fst (next_msgId (cl_id c)) =
      c_rem (wrap32 (int (length (filter (numbers (hs \<noteq> [])) (map snd evs)) + 1))) INT_MAX"
    by (simp add: next_msgId_counter ac_simps)
  then show ?thesis by (simp only: counter_id [OF assms(3)])
qed

text \<open>
  Property C34. The numbers of the messages. Take a client with any handlers after any run of calls and
  completions, and let \<open>r\<close> be the number of messages that it has numbered in it, plus one, modulo two to the
  power 32. The next request that it posts is stored with the message id \<open>i\<close> in its header and entered in the
  table of requests under \<open>i\<close>, and the next publication carries \<open>i\<close> as well, where \<open>i\<close> is \<open>r\<close> itself below the largest
  32-bit integer, then 0, -1 and 0 again, and then \<open>r\<close> less two to the power 32, so negative. The
  numbers are counted by requests, calls of \<^verbatim>\<open>sendMessage\<close>, publications, heartbeats and, when the client has
  handlers, the subscriptions after a connect, refused posts included.
\<close>

theorem message_ids:
  fixes c0 c :: "('u, 'r, 'pub, 'del) client" and resolve :: "string \<Rightarrow> string \<Rightarrow> 'ep option"
  assumes "AsioClient_new addresses reconnect heartbeat = Inr c0"
    and "client_runs E W resolve evs (fold addHandler hs c0) = Inr (c, effs)"
    and "r = (length (filter (numbers (hs \<noteq> [])) (map snd evs)) + 1) mod 2 ^ 32"
    and "i = (if r < 2 ^ 31 - 1 then int r else if r = 2 ^ 31 then - 1 else if r \<le> 2 ^ 31 + 1 then 0
      else int r - 2 ^ 32)"
  shows "(\<exists>code c' effs'. postMessage_order E now isOrder (Some msg) res ms c
        = Inr (code, c', effs' :: ('u, 'r, 'pub, 'del, 'ep) client_effect list) \<and>
      sint (msgId (header (cl_store c' ! length (cl_store c)))) = i \<and>
      requestMessage c' = RequestMessage_put now i (length (cl_store c)) res ms (requestMessage c)) \<and>
    (\<exists>c' effs'. AsioClient_publishMessage E (Some msg) c
        = Inr (c', effs' :: ('u, 'r, 'pub, 'del, 'ep) client_effect list) \<and>
      sint (msgId (header (cl_store c' ! length (cl_store c)))) = i)"
proof -
  obtain n where n: "next_msgId (cl_id c) = (i, n)"
    using client_runs_number [OF assms(1-3)] assms(4) by (metis prod.collapse)
  have "r < 4294967296" by (simp add: assms(3))
  then have "- 2147483648 \<le> i \<and> i < 2147483648" by (auto simp: assms(4))
  then have i: "sint (word_of_int i :: int32) = i" by (simp add: sint_word_of_int_32)
  show ?thesis
    by (simp add: postMessage_order_def AsioClient_publishMessage_def new_package_def n client_package_def set_isorder_def i
        Let_def nth_append split: prod.splits)
qed

theorem message_ids_witness:
  "\<exists>(c0 :: (unit, string, string, string) client) c effs.
    AsioClient_new [''a:1''] 1 5 = Inr c0 \<and>
    client_runs pb_demo sample_wire (\<lambda>h p. Some h) [(0, EvRequest False demo_rsp ''r'' 5), (0, EvPublish demo_rsp)] c0
        = Inr (c, effs :: (unit, string, string, string, string) client_effect list) \<and>
    (\<exists>c' effs'. AsioClient_publishMessage pb_demo (Some demo_rsp) c
        = Inr (c', effs' :: (unit, string, string, string, string) client_effect list) \<and>
      sint (msgId (header (cl_store c' ! length (cl_store c)))) = 3)"
proof -
  let ?r = "\<lambda>h p :: string. Some (h :: string)" and ?evs = "[(0, EvRequest False demo_rsp ''r'' 5), (0, EvPublish demo_rsp)]"
  obtain b where "Buffer_new kInitialSize = Inr b" using Buffer_new_default by blast
  then obtain c0 :: "(unit, string, string, string) client" where n: "AsioClient_new [''a:1''] 1 5 = Inr c0"
    by (simp add: AsioClient_new_def)
  obtain c effs where run: "client_runs pb_demo sample_wire ?r ?evs c0
      = Inr (c, effs :: (unit, string, string, string, string) client_effect list)"
    by (simp add: postMessage_order_def AsioClient_publishMessage_def new_package_def Let_def split_beta)
  have run': "client_runs pb_demo sample_wire ?r ?evs (fold addHandler [] c0) = Inr (c, effs)" using run by simp
  have "\<exists>c' effs'. AsioClient_publishMessage pb_demo (Some demo_rsp) c
        = Inr (c', effs' :: (unit, string, string, string, string) client_effect list) \<and>
      sint (msgId (header (cl_store c' ! length (cl_store c)))) = 3"
    by (rule message_ids [OF n run', of 3 3, THEN conjunct2]) (simp_all add: numbers_def)
  with n run show ?thesis by blast
qed

end
