(* ===== verification/Msg_Client.thy ===== *)
theory Msg_Client
  imports Client_Events
begin

text \<open>
  The client wrappers \<^verbatim>\<open>asio/msgclient.cpp\<close> and \<^verbatim>\<open>BusStub\<close> of \<^verbatim>\<open>asio/msgbus.cpp\<close>. The handlers that
  a wrapper keeps a pointer to are the elements of the client's handler list at the positions the
  wrapper records.
\<close>

section \<open>MsgClient\<close>

record ('u, 'r, 'pub, 'del) msg_client =
  mc_client :: "('u, 'r, 'pub, 'del) client"
  mc_publishHandler :: nat

text \<open>A call of a method of the client, with its effects.\<close>

definition on_handler ::
    "nat \<Rightarrow> (('pub, 'del, ref) handler \<Rightarrow> ('pub, 'del, ref) handler) \<Rightarrow>
     ('u, 'r, 'pub, 'del) client \<Rightarrow> ('u, 'r, 'pub, 'del) client" where
  "on_handler k f c = c\<lparr>handlerList := (handlerList c)[k := f (handlerList c ! k)]\<rparr>"

definition MsgClient_new :: "string list \<Rightarrow> int \<Rightarrow> ('u, 'r, 'pub, 'del) msg_client result" where
  "MsgClient_new addresses heartbeat =
     rbind (AsioClient_new addresses 1 heartbeat) (\<lambda>c.
       Inr \<lparr>mc_client = addHandler PublishHandler_new c, mc_publishHandler = length (handlerList c)\<rparr>)"

definition MsgClient_addHandlePublish ::
    "string \<Rightarrow> 'pub \<Rightarrow> ('u, 'r, 'pub, 'del) msg_client \<Rightarrow> ('u, 'r, 'pub, 'del) msg_client" where
  "MsgClient_addHandlePublish name func m =
     m\<lparr>mc_client := on_handler (mc_publishHandler m) (addHandlePublish name func) (mc_client m)\<rparr>"

definition MsgClient_start ::
    "(string \<Rightarrow> string \<Rightarrow> 'ep option) \<Rightarrow> ('u, 'r, 'pub, 'del) msg_client \<Rightarrow>
     (('u, 'r, 'pub, 'del) msg_client \<times> ('u, 'r, 'pub, 'del, 'ep) client_effect list) result" where
  "MsgClient_start resolve m =
     rbind (AsioClient_start resolve (mc_client m)) (\<lambda>(c, effs). Inr (m\<lparr>mc_client := c\<rparr>, effs))"

definition MsgClient_stop ::
    "('u, 'r, 'pub, 'del) msg_client \<Rightarrow>
     ('u, 'r, 'pub, 'del) msg_client \<times> ('u, 'r, 'pub, 'del, 'ep) client_effect list" where
  "MsgClient_stop m = (let (c, effs) = AsioClient_stop (mc_client m) in (m\<lparr>mc_client := c\<rparr>, effs))"

definition MsgClient_waitConnected :: "(nat \<Rightarrow> bool) \<Rightarrow> int \<Rightarrow> bool" where
  "MsgClient_waitConnected online timeoutSecond = snd (waitConnected online timeoutSecond)"

text \<open>The three ways to send all refuse a stopped client with \<^verbatim>\<open>eDisconnect\<close>.\<close>

definition MsgClient_sendMessage ::
    "('d, 'u pb_message) env \<Rightarrow> int \<Rightarrow> 'u pb_message option \<Rightarrow> int \<Rightarrow> ('u, 'r, 'pub, 'del) msg_client \<Rightarrow>
     ((ErrorCode + nat) \<times> ('u, 'r, 'pub, 'del) msg_client \<times> ('u, 'r, 'pub, 'del, 'ep) client_effect list) result" where
  "MsgClient_sendMessage E now msg msTimeout m =
     (if AsioClient_stopped (mc_client m) then Inr (Inl eDisconnect, m, [])
      else rbind (sendMessage_begin E now msg msTimeout (mc_client m)) (\<lambda>(code, c, effs).
        Inr (code, m\<lparr>mc_client := c\<rparr>, effs)))"

definition MsgClient_postMessage ::
    "('d, 'u pb_message) env \<Rightarrow> int \<Rightarrow> 'u pb_message option \<Rightarrow> 'r response \<Rightarrow> int \<Rightarrow>
     ('u, 'r, 'pub, 'del) msg_client \<Rightarrow>
     (ErrorCode \<times> ('u, 'r, 'pub, 'del) msg_client \<times> ('u, 'r, 'pub, 'del, 'ep) client_effect list) result" where
  "MsgClient_postMessage E now msg res msTimeout m =
     (if AsioClient_stopped (mc_client m) then Inr (eDisconnect, m, [])
      else rbind (AsioClient_postMessage E now msg res msTimeout (mc_client m)) (\<lambda>(code, c, effs).
        Inr (code, m\<lparr>mc_client := c\<rparr>, effs)))"

definition MsgClient_postOrderMessage ::
    "('d, 'u pb_message) env \<Rightarrow> int \<Rightarrow> 'u pb_message option \<Rightarrow> 'r response \<Rightarrow> int \<Rightarrow>
     ('u, 'r, 'pub, 'del) msg_client \<Rightarrow>
     (ErrorCode \<times> ('u, 'r, 'pub, 'del) msg_client \<times> ('u, 'r, 'pub, 'del, 'ep) client_effect list) result" where
  "MsgClient_postOrderMessage E now msg res msTimeout m =
     (if AsioClient_stopped (mc_client m) then Inr (eDisconnect, m, [])
      else rbind (postOrderMessage E now msg res msTimeout (mc_client m)) (\<lambda>(code, c, effs).
        Inr (code, m\<lparr>mc_client := c\<rparr>, effs)))"

section \<open>BusStub\<close>

record ('u, 'r, 'pub, 'del) bus_stub =
  bs_client :: "('u, 'r, 'pub, 'del) client"
  bs_publishHandler :: nat
  bs_deliverHandler :: nat

definition BusStub_new :: "int \<Rightarrow> string list \<Rightarrow> int \<Rightarrow> ('u, 'r, 'pub, 'del) bus_stub result" where
  "BusStub_new workSize addresses heartbeat =
     rbind (AsioClient_new addresses 1 heartbeat) (\<lambda>c.
     rbind (DeliverHandler_new workSize) (\<lambda>d.
       let c1 = addHandler PublishHandler_new c
       in Inr \<lparr>bs_client = addHandler d c1, bs_publishHandler = length (handlerList c),
               bs_deliverHandler = length (handlerList c1)\<rparr>))"

definition BusStub_addHandleDeliver ::
    "string \<Rightarrow> 'del \<Rightarrow> ('u, 'r, 'pub, 'del) bus_stub \<Rightarrow> ('u, 'r, 'pub, 'del) bus_stub" where
  "BusStub_addHandleDeliver name func b =
     b\<lparr>bs_client := on_handler (bs_deliverHandler b) (addHandleDeliver name func) (bs_client b)\<rparr>"

definition BusStub_addHandlePublish ::
    "string \<Rightarrow> 'pub \<Rightarrow> ('u, 'r, 'pub, 'del) bus_stub \<Rightarrow> ('u, 'r, 'pub, 'del) bus_stub" where
  "BusStub_addHandlePublish name func b =
     b\<lparr>bs_client := on_handler (bs_publishHandler b) (addHandlePublish name func) (bs_client b)\<rparr>"

definition BusStub_publishMessage ::
    "('d, 'u pb_message) env \<Rightarrow> 'u pb_message option \<Rightarrow> ('u, 'r, 'pub, 'del) bus_stub \<Rightarrow>
     (('u, 'r, 'pub, 'del) bus_stub \<times> ('u, 'r, 'pub, 'del, 'ep) client_effect list) result" where
  "BusStub_publishMessage E msg b =
     rbind (AsioClient_publishMessage E msg (bs_client b)) (\<lambda>(c, effs). Inr (b\<lparr>bs_client := c\<rparr>, effs))"

definition BusStub_start ::
    "(string \<Rightarrow> string \<Rightarrow> 'ep option) \<Rightarrow> ('u, 'r, 'pub, 'del) bus_stub \<Rightarrow>
     (('u, 'r, 'pub, 'del) bus_stub \<times> ('u, 'r, 'pub, 'del, 'ep) client_effect list) result" where
  "BusStub_start resolve b =
     rbind (AsioClient_start resolve (bs_client b)) (\<lambda>(c, effs). Inr (b\<lparr>bs_client := c\<rparr>, effs))"

definition BusStub_stop ::
    "('u, 'r, 'pub, 'del) bus_stub \<Rightarrow>
     ('u, 'r, 'pub, 'del) bus_stub \<times> ('u, 'r, 'pub, 'del, 'ep) client_effect list" where
  "BusStub_stop b = (let (c, effs) = AsioClient_stop (bs_client b) in (b\<lparr>bs_client := c\<rparr>, effs))"

section \<open>A provider on the bus\<close>

text \<open>
  A stub whose deliver handler is at its place, with threads, and the function registered for a name
  by the calls of \<^verbatim>\<open>addHandleDeliver\<close>.
\<close>

definition provider :: "('u, 'r, 'pub, 'del) bus_stub \<Rightarrow> 'pub func_map \<Rightarrow> 'del func_map \<Rightarrow> ('del \<times> ref) pool \<Rightarrow> bool" where
  "provider b pm dm pl \<longleftrightarrow> handlerList (bs_client b) = [PublishHandler pm, DeliverHandler dm pl] \<and>
     bs_publishHandler b = 0 \<and> bs_deliverHandler b = 1"

lemma BusStub_new_provider:
  assumes "0 < workSize" and "workSize < 2 ^ 31"
  obtains b pl where "BusStub_new workSize addresses hb = Inr b" "provider b [] [] pl" "threads pl \<noteq> []"
proof -
  obtain bf where "Buffer_new kInitialSize = Inr bf" using Buffer_new_default by blast
  with assms show ?thesis
    by (intro that) (auto simp: BusStub_new_def AsioClient_new_def DeliverHandler_new_def
      ThreadPool_start_def ThreadPool_new_def PublishHandler_new_def addHandler_def provider_def)
qed

lemma provider_add:
  "provider b pm dm pl \<Longrightarrow> provider (BusStub_addHandleDeliver name func b) pm (map_set name func dm) pl"
  "provider b pm dm pl \<Longrightarrow> provider (BusStub_addHandlePublish name pf b) (map_set name pf pm) dm pl"
  by (simp_all add: provider_def BusStub_addHandleDeliver_def BusStub_addHandlePublish_def on_handler_def)

lemma deliver_answered:
  fixes c :: "('u, 'r, 'pub, 'del) client" and E :: "('d, 'u pb_message) env"
  assumes "handlerList c = [PublishHandler pm, DeliverHandler dm pl]" and "threads pl \<noteq> []"
    and "r < length (cl_store c)" and "msgType (header (cl_store c ! r)) = DELIVER"
    and "map_of dm (typeName (cl_store c ! r)) = Some func" and "call func (cl_store c ! r) = Some rsp"
    and "isOnline c" and "\<not> cl_stopped c"
  obtains c1 c2 where "doResponse now r c = Inr (c1, [] :: ('u, 'r, 'pub, 'del, 'ep) client_effect list)"
    "handlerList c1 = [PublishHandler pm, DeliverHandler dm (pl\<lparr>callers := callers pl @ [Calling (func, r)], called := called pl @ [(func, r)]\<rparr>)]"
    "deliver_job E call (func, r) c1
      = Inr (c2, [PostStartWrite (length (cl_store c))] :: ('u, 'r, 'pub, 'del, 'ep) client_effect list)"
    "cl_store c2 = cl_store c @ [reply_package E (cl_store c ! r) rsp]" "pendingList c2 = pendingList c"
proof -
  have kinds: "DELIVER \<noteq> REQREP" "DELIVER \<noteq> PUBSUB" by (simp_all add: DELIVER_def REQREP_def PUBSUB_def)
  let ?c1 = "c\<lparr>handlerList := [PublishHandler pm, DeliverHandler dm (pool_run (func, r) pl)]\<rparr>"
  have "doResponse now r c = Inr (?c1, [] :: ('u, 'r, 'pub, 'del, 'ep) client_effect list)"
    using assms(1-5) kinds by (simp add: doResponse_def)
  then show ?thesis
    using assms(3,6-8) pool_run_started [OF assms(2)]
    by (intro that) (assumption | simp add: deliver_job_def replyDeliver_def new_package_def postPackage_def)+
qed

text \<open>
  Property C22. A provider answers under the header of the request. When a \<^verbatim>\<open>DELIVER\<close> package arrives whose
  type name a function has last been registered for, the stub hands exactly this function, with the
  package, to its pool and calls no publish function; and when a thread of the pool executes the job,
  the function's response is posted with the header of the package, so with its message id and kind.
\<close>

theorem provider_answers:
  fixes b :: "('u, 'r, 'pub, 'del) bus_stub" and E :: "('d, 'u pb_message) env"
  assumes "provider b0 pm dm pl" and "threads pl \<noteq> []"
    and "b = BusStub_addHandleDeliver name func b0" and "c = bs_client b"
    and "r < length (cl_store c)" and "msgType (header (cl_store c ! r)) = DELIVER"
    and "typeName (cl_store c ! r) = name" and "call func (cl_store c ! r) = Some rsp"
    and "isOnline c" and "\<not> cl_stopped c"
  shows "\<exists>c1 pl' c2 p. doResponse now r c = Inr (c1, [] :: ('u, 'r, 'pub, 'del, 'ep) client_effect list) \<and>
    handlerList c1 = [PublishHandler pm, DeliverHandler (map_set name func dm) pl'] \<and>
    callers pl' = callers pl @ [Calling (func, r)] \<and> called pl' = called pl @ [(func, r)] \<and>
    deliver_job E call (func, r) c1 = Inr (c2, [PostStartWrite p] :: ('u, 'r, 'pub, 'del, 'ep) client_effect list) \<and>
    cl_store c2 ! p = \<lparr>header = header (cl_store c ! r), typeName = GetTypeName E rsp, body = [], msgPtr = Some rsp\<rparr>"
proof -
  have "provider b pm (map_set name func dm) pl" using provider_add(1) [OF assms(1)] assms(3) by simp
  then have h: "handlerList c = [PublishHandler pm, DeliverHandler (map_set name func dm) pl]"
    using assms(4) by (simp add: provider_def)
  have f: "map_of (map_set name func dm) (typeName (cl_store c ! r)) = Some func" by (simp add: assms(7))
  obtain c1 c2 where "doResponse now r c = Inr (c1, [] :: ('u, 'r, 'pub, 'del, 'ep) client_effect list)"
    "handlerList c1 = [PublishHandler pm, DeliverHandler (map_set name func dm)
       (pl\<lparr>callers := callers pl @ [Calling (func, r)], called := called pl @ [(func, r)]\<rparr>)]"
    "deliver_job E call (func, r) c1
      = Inr (c2, [PostStartWrite (length (cl_store c))] :: ('u, 'r, 'pub, 'del, 'ep) client_effect list)"
    "cl_store c2 = cl_store c @ [reply_package E (cl_store c ! r) rsp]"
    by (rule deliver_answered [where call = call and E = E and now = now, OF h assms(2,5,6) f assms(8-10)])
  then show ?thesis by (intro exI conjI) (assumption | simp add: reply_package_def)+
qed

definition demo_stub :: "(unit, string, string, string) bus_stub" where
  "demo_stub = \<lparr>bs_client = demo_client\<lparr>handlerList := [PublishHandler [], DeliverHandler []
       ((ThreadPool_new 1)\<lparr>running := True, threads := [AtWhile]\<rparr>)],
       cl_store := [\<lparr>header = PacHeader_new\<lparr>msgType := DELIVER, msgId := 7\<rparr>, typeName = ''A'', body = [],
         msgPtr = Some demo_rsp\<rparr>]\<rparr>,
     bs_publishHandler = 0, bs_deliverHandler = 1\<rparr>"

theorem provider_answers_witness:
  "\<exists>c1 c2 p. doResponse 1 0 (bs_client (BusStub_addHandleDeliver ''A'' ''f'' demo_stub))
      = Inr (c1, [] :: (unit, string, string, string, unit) client_effect list) \<and>
    deliver_job pb_demo (\<lambda>f q. msgPtr q) (''f'', 0) c1
      = Inr (c2, [PostStartWrite p] :: (unit, string, string, string, unit) client_effect list) \<and>
    msgId (header (cl_store c2 ! p)) = 7 \<and> msgPtr (cl_store c2 ! p) = Some demo_rsp"
proof -
  let ?pl = "(ThreadPool_new 1)\<lparr>running := True, threads := [AtWhile]\<rparr> :: (string \<times> ref) pool"
  let ?b = "BusStub_addHandleDeliver ''A'' ''f'' demo_stub"
  have pr: "provider demo_stub [] [] ?pl" "threads ?pl \<noteq> []" by (simp_all add: provider_def demo_stub_def)
  have c: "0 < length (cl_store (bs_client ?b))" "msgType (header (cl_store (bs_client ?b) ! 0)) = DELIVER"
    "typeName (cl_store (bs_client ?b) ! 0) = ''A''"
    "(\<lambda>f q. msgPtr q) ''f'' (cl_store (bs_client ?b) ! 0) = Some demo_rsp"
    "isOnline (bs_client ?b)" "\<not> cl_stopped (bs_client ?b)"
    by (simp_all add: demo_stub_def BusStub_addHandleDeliver_def on_handler_def demo_client_def)
  have "msgId (header (cl_store (bs_client ?b) ! 0)) = 7"
    by (simp add: demo_stub_def BusStub_addHandleDeliver_def on_handler_def)
  with provider_answers [where b = ?b and func = "''f''" and call = "\<lambda>f q. msgPtr q" and now = 1 and E = pb_demo
      and 'ep = unit, OF pr refl refl c] show ?thesis by auto
qed

section \<open>Stopping and starting again\<close>

text \<open>
  What may happen to a wrapper after it has been stopped: it is started or stopped, and its client is used
  or is called by the loop.
\<close>

inductive msg_step ::
    "('d, 'u pb_message) env \<Rightarrow> 'u wire \<Rightarrow> (string \<Rightarrow> string \<Rightarrow> 'ep option) \<Rightarrow>
     ('u, 'r, 'pub, 'del) msg_client \<Rightarrow> ('u, 'r, 'pub, 'del) msg_client \<Rightarrow> bool"
  for E :: "('d, 'u pb_message) env" and W :: "'u wire" and resolve :: "string \<Rightarrow> string \<Rightarrow> 'ep option" where
  "MsgClient_start resolve m = Inr (m', effs) \<Longrightarrow> msg_step E W resolve m m'"
| "MsgClient_stop m = (m', effs :: ('u, 'r, 'pub, 'del, 'ep) client_effect list) \<Longrightarrow> msg_step E W resolve m m'"
| "client_run E W resolve now ev (mc_client m) = Inr (c, effs) \<Longrightarrow> msg_step E W resolve m (m\<lparr>mc_client := c\<rparr>)"

inductive stub_step ::
    "('d, 'u pb_message) env \<Rightarrow> 'u wire \<Rightarrow> (string \<Rightarrow> string \<Rightarrow> 'ep option) \<Rightarrow>
     ('u, 'r, 'pub, 'del) bus_stub \<Rightarrow> ('u, 'r, 'pub, 'del) bus_stub \<Rightarrow> bool"
  for E :: "('d, 'u pb_message) env" and W :: "'u wire" and resolve :: "string \<Rightarrow> string \<Rightarrow> 'ep option" where
  "BusStub_start resolve b = Inr (b', effs) \<Longrightarrow> stub_step E W resolve b b'"
| "BusStub_stop b = (b', effs :: ('u, 'r, 'pub, 'del, 'ep) client_effect list) \<Longrightarrow> stub_step E W resolve b b'"
| "client_run E W resolve now ev (bs_client b) = Inr (c, effs) \<Longrightarrow> stub_step E W resolve b (b\<lparr>bs_client := c\<rparr>)"

lemma msg_step_stopped: "msg_step E W resolve m m' \<Longrightarrow> cl_stopped (mc_client m) \<Longrightarrow> cl_stopped (mc_client m')"
  by (induction rule: msg_step.induct)
    (auto simp: MsgClient_start_def MsgClient_stop_def AsioClient_start_def AsioClient_stop_def rbind_eq_Inr Let_def
      dest: connect_stopped client_run_stopped)

lemma stub_step_stopped: "stub_step E W resolve b b' \<Longrightarrow> cl_stopped (bs_client b) \<Longrightarrow> cl_stopped (bs_client b')"
  by (induction rule: stub_step.induct)
    (auto simp: BusStub_start_def BusStub_stop_def AsioClient_start_def AsioClient_stop_def rbind_eq_Inr Let_def
      dest: connect_stopped client_run_stopped)

lemma msg_steps_stopped: "(msg_step E W resolve)\<^sup>*\<^sup>* m m' \<Longrightarrow> cl_stopped (mc_client m) \<Longrightarrow> cl_stopped (mc_client m')"
  by (induction rule: rtranclp_induct) (auto dest: msg_step_stopped)

lemma stub_steps_stopped: "(stub_step E W resolve)\<^sup>*\<^sup>* b b' \<Longrightarrow> cl_stopped (bs_client b) \<Longrightarrow> cl_stopped (bs_client b')"
  by (induction rule: rtranclp_induct) (auto dest: stub_step_stopped)

text \<open>
  Property C37. A client that has been stopped stays dead. \<^verbatim>\<open>start\<close> after \<^verbatim>\<open>stop\<close> does not restart the
  event loop: however often the wrapper is started and stopped again, and whatever else is done with its
  client, every message is refused with \<^verbatim>\<open>eDisconnect\<close>, and a stub's publications and answers are dropped.
\<close>

theorem stopped_for_ever:
  fixes m :: "('u, 'r, 'pub, 'del) msg_client" and b :: "('u, 'r, 'pub, 'del) bus_stub"
    and resolve :: "string \<Rightarrow> string \<Rightarrow> 'ep option"
  assumes "MsgClient_stop m = (m0, e :: ('u, 'r, 'pub, 'del, 'ep) client_effect list)" and "(msg_step E W resolve)\<^sup>*\<^sup>* m0 m'"
    and "BusStub_stop b = (b0, e' :: ('u, 'r, 'pub, 'del, 'ep) client_effect list)" and "(stub_step E W resolve)\<^sup>*\<^sup>* b0 b'"
  shows "MsgClient_postMessage E now msg res ms m' = Inr (eDisconnect, m', [] :: ('u, 'r, 'pub, 'del, 'ep) client_effect list) \<and>
    MsgClient_postOrderMessage E now msg res ms m' = Inr (eDisconnect, m', [] :: ('u, 'r, 'pub, 'del, 'ep) client_effect list) \<and>
    MsgClient_sendMessage E now msg ms m' = Inr (Inl eDisconnect, m', [] :: ('u, 'r, 'pub, 'del, 'ep) client_effect list) \<and>
    (\<exists>b''. BusStub_publishMessage E (Some p) b' = Inr (b'', [] :: ('u, 'r, 'pub, 'del, 'ep) client_effect list)) \<and>
    postPackage (Some r) (bs_client b') = (eServiceStopped, [] :: ('u, 'r, 'pub, 'del, 'ep) client_effect list)"
proof -
  have "cl_stopped (mc_client m0)" "cl_stopped (bs_client b0)"
    using assms(1,3) by (auto simp: MsgClient_stop_def BusStub_stop_def AsioClient_stop_def Let_def)
  then have "cl_stopped (mc_client m')" "cl_stopped (bs_client b')"
    using msg_steps_stopped [OF assms(2)] stub_steps_stopped [OF assms(4)] by simp_all
  then show ?thesis
    by (simp add: MsgClient_postMessage_def MsgClient_postOrderMessage_def MsgClient_sendMessage_def
        BusStub_publishMessage_def AsioClient_publishMessage_def new_package_def postPackage_def Let_def
        split: prod.splits)
qed

theorem stopped_for_ever_witness:
  "\<exists>m0 m1 m2 e e1 e2. MsgClient_stop \<lparr>mc_client = demo_client, mc_publishHandler = 0\<rparr> = (m0, e :: (unit, string, string, string, string) client_effect list) \<and>
    MsgClient_start (\<lambda>h p. Some h) m0 = Inr (m1, e1 :: (unit, string, string, string, string) client_effect list) \<and>
    MsgClient_start (\<lambda>h p. Some h) m1 = Inr (m2, e2 :: (unit, string, string, string, string) client_effect list) \<and>
    MsgClient_postMessage pb_demo 0 (Some demo_rsp) (UserResponse ''f'') 5000 m2
      = Inr (eDisconnect, m2, [] :: (unit, string, string, string, string) client_effect list)"
proof -
  let ?m = "\<lparr>mc_client = demo_client, mc_publishHandler = 0\<rparr>" and ?r = "\<lambda>h p :: string. Some (h :: string)"
  let ?ok = "\<lambda>c :: (unit, string, string, string) client. addressList c = [''a:1'', ''b:2''] \<and> addressIndex c = 1"
  have s: "\<exists>m' effs. MsgClient_start ?r m = Inr (m', effs) \<and> ?ok (mc_client m')" if "?ok (mc_client m)"
    for m :: "(unit, string, string, string) msg_client"
    using that by (simp add: MsgClient_start_def AsioClient_start_def connect_def find_colon_def wrap32_id Let_def)
  obtain m0 and e :: "(unit, string, string, string, string) client_effect list" where m0: "MsgClient_stop ?m = (m0, e)"
    by (cases "MsgClient_stop ?m :: _ \<times> (unit, string, string, string, string) client_effect list")
  obtain b0 and e' :: "(unit, string, string, string, string) client_effect list" where b0: "BusStub_stop demo_stub = (b0, e')"
    by (cases "BusStub_stop demo_stub :: _ \<times> (unit, string, string, string, string) client_effect list")
  have "?ok (mc_client m0)" using m0 by (auto simp: MsgClient_stop_def AsioClient_stop_def demo_client_def)
  from s [OF this] obtain m1 e1 where m1: "MsgClient_start ?r m0 = Inr (m1, e1)" "?ok (mc_client m1)" by blast
  from s [OF m1(2)] obtain m2 e2 where m2: "MsgClient_start ?r m1 = Inr (m2, e2)" by blast
  have run: "(msg_step pb_demo sample_wire ?r)\<^sup>*\<^sup>* m0 m2"
    by (rule rtranclp.rtrancl_into_rtrancl [where b = m1], rule r_into_rtranclp) (rule msg_step.intros(1), fact)+
  note dead = stopped_for_ever [OF m0 run b0 rtranclp.rtrancl_refl,
    of 0 "Some demo_rsp" "UserResponse ''f''" 5000 demo_rsp 0]
  show ?thesis by (intro exI conjI, rule m0, rule m1(1), rule m2, rule conjunct1 [OF dead])
qed

end
