(* ===== verification/Rpc.thy ===== *)
theory Rpc
  imports AsioServer Client_Queue
begin

text \<open>
  Client and server together: a request from the call of \<^verbatim>\<open>postMessage\<close> to the call of its callback,
  the subscriptions of a client's handlers, and the blocking call \<^verbatim>\<open>sendMessage\<close>.
\<close>

section \<open>A request and its response\<close>

lemma request_posted:
  fixes c :: "('u, 'r, 'pub, 'del) client"
  assumes "isOnline c" and "\<not> cl_stopped c" and "next_msgId (cl_id c) = (i, n)"
    and "- (2 ^ 31) \<le> i" "i < 2 ^ 31"
  shows "postMessage_order E now isOrder (Some msg) res ms c =
    Inr (eSuccess,
      c\<lparr>cl_id := n, cl_store := cl_store c @ [client_package E REQREP isOrder i msg],
        requestMessage := RequestMessage_put now i (length (cl_store c)) res ms (requestMessage c)\<rparr>,
      [PostStartWrite (length (cl_store c))] :: ('u, 'r, 'pub, 'del, 'ep) client_effect list)"
proof -
  have "sint (word_of_int i :: int32) = i" using assms(4,5) by (rule sint_word_of_int_32)
  then show ?thesis
    using assms(1-3)
    by (simp add: postMessage_order_def new_package_def postPackage_def client_package_def Let_def
        set_isorder_def)
qed

lemma read_one_frame:
  assumes "buf_inv b" and "contents b = []" and "is_frame E d p"
  obtains b' where "rbind (append_data d (length d) b) (readLoop E) = Inr ([p], b')" "buf_inv b'" "contents b' = []"
proof -
  have fr: "list_all2 (is_frame E) [d] [p]" using assms(3) by simp
  have "concat [d] = take (length (concat [d])) (concat [d])" by simp
  from rd.feed_stream [OF assms(1,2) fr this order_refl] obtain b' where
    "feed (\<lambda>d b. rbind (append_data d (length d) b) (readLoop E)) [d] b = Inr ([p], b')" "buf_inv b'"
    "contents b' = []" by (auto split: if_splits)
  then show ?thesis using that by (auto simp: rbind_eq_Inr split: prod.splits)
qed

lemma next_msgId_range:
  assumes "next_msgId m = (i, n)"
  shows "- (2 ^ 31) \<le> i" "i < 2 ^ 31"
proof -
  let ?m = "\<bar>wrap32 (m + 1)\<bar> mod INT_MAX"
  have m: "0 \<le> ?m" "?m < 2 ^ 31" "\<bar>INT_MAX\<bar> = INT_MAX"
    using pos_mod_bound [of INT_MAX "\<bar>wrap32 (m + 1)\<bar>"] by (simp_all add: INT_MAX_def)
  have "sgn (wrap32 (m + 1)) \<in> {-1, 0, 1}" by (simp add: sgn_if)
  then have "- (2 ^ 31) \<le> sgn (wrap32 (m + 1)) * ?m \<and> sgn (wrap32 (m + 1)) * ?m < 2 ^ 31"
    using m(1,2) by (elim insertE) simp_all
  with assms m(3) show "- (2 ^ 31) \<le> i" "i < 2 ^ 31"
    by (auto simp: next_msgId_def c_rem_def Let_def)
qed

lemma client_package_fields [simp]:
  "msgType (header (client_package E t isOrder i m)) = t"
  "msgId (header (client_package E t isOrder i m)) = word_of_int i"
  "msgPtr (client_package E t isOrder i m) = Some m"
  "typeName (client_package E t isOrder i m) = GetTypeName E m"
  by (simp_all add: client_package_def set_isorder_def)

lemma received_fields [simp]:
  "msgType (header (received E p m)) = msgType (header p)"
  "msgId (header (received E p m)) = msgId (header p)" "msgPtr (received E p m) = Some m"
  "msgType (header (reply_package E p m)) = msgType (header p)"
  "msgId (header (reply_package E p m)) = msgId (header p)"
  by (simp_all add: received_def reply_package_def)

lemma request_written:
  fixes c :: "('u, 'r, 'pub, 'del) client"
  assumes "net_order_ok E" and "zlib_ok E" and "isOnline c" and "\<not> cl_stopped c" and "pendingList c = []"
    and "next_msgId (cl_id c) = (i, n)"
    and "proto_ok E req" and "sendable E (client_package E REQREP isOrder i req) req"
  obtains c1 c2 d where "postMessage_order E now isOrder (Some req) res ms c = Inr (eSuccess, c1,
      [PostStartWrite (length (cl_store c))] :: ('u, 'r, 'pub, 'del, 'ep) client_effect list)"
    "startWrite E (length (cl_store c)) c1
      = Inr (c2, [ClientWrite d i] :: ('u, 'r, 'pub, 'del, 'ep) client_effect list)"
    "is_frame E d (received E (client_package E REQREP isOrder i req) req)"
    "requestMessage c2 = RequestMessage_put now i (length (cl_store c)) res ms (requestMessage c)"
    "cl_readBuffer c2 = cl_readBuffer c" "length (cl_store c2) = length (cl_store c) + 1"
    "handlerList c2 = handlerList c"
proof -
  let ?p = "length (cl_store c)" and ?pac = "client_package E REQREP isOrder i req"
  note range = next_msgId_range [OF assms(6)]
  let ?c1 = "c\<lparr>cl_id := n, cl_store := cl_store c @ [?pac],
    requestMessage := RequestMessage_put now i ?p res ms (requestMessage c)\<rparr>"
  note c1 = request_posted [OF assms(3,4,6) range, of E now isOrder req res ms, where 'ep = 'ep]
  let ?q = "?c1\<lparr>pendingList := [?p]\<rparr>"
  have f: "pendingList ?q = ?p # []" "?p < length (cl_store ?q)" "postable E (cl_store ?q ! ?p)"
    using assms(7,8) by (auto simp: postable_def)
  obtain d pac' where w: "startWrite_front E ?q = Inr (?q\<lparr>cl_store := (cl_store ?q)[?p := pac']\<rparr>,
      [ClientWrite d (sint (msgId (header pac')))] :: ('u, 'r, 'pub, 'del, 'ep) client_effect list)"
    "frame_of E (cl_store ?q ! ?p) d" "msgId (header pac') = msgId (header (cl_store ?q ! ?p))"
    using startWrite_front_ok [OF assms(1,2) f] by blast
  have "sint (msgId (header pac')) = i"
    using w(3) sint_word_of_int_32 [OF range] by simp
  with w(1) assms(5) have "startWrite E ?p ?c1 = Inr (?q\<lparr>cl_store := (cl_store ?q)[?p := pac']\<rparr>,
      [ClientWrite d i] :: ('u, 'r, 'pub, 'del, 'ep) client_effect list)"
    by (simp add: startWrite_def)
  moreover have "is_frame E d (received E ?pac req)" using w(2) by (simp add: frame_of_def)
  ultimately show ?thesis by (intro that [OF c1]) (assumption, assumption, simp_all)
qed

lemma response_called:
  fixes c :: "('u, 'r, 'pub, 'del) client"
  assumes "buf_inv (cl_readBuffer c)" and "contents (cl_readBuffer c) = []"
    and "is_frame E d p" and "msgType (header p) = REQREP" and "sint (msgId (header p)) = i"
    and "requestMessage c i = Some data" and "rq_res data = UserResponse r"
  obtains c3 c4 where "AsioClient_doRead E False d c = Inr (c3,
      [PostResponse (length (cl_store c)), ClientRead] :: ('u, 'r, 'pub, 'del, 'ep) client_effect list)"
    "doResponse now (length (cl_store c)) c3 = Inr (c4,
      [CallResponse r eSuccess (rq_pac data) (Some (length (cl_store c)))] :: ('u, 'r, 'pub, 'del, 'ep) client_effect list)"
    "cl_store c4 ! length (cl_store c) = p" "requestMessage c4 = (requestMessage c)(i := None)"
proof -
  obtain b where "rbind (append_data d (length d) (cl_readBuffer c)) (readLoop E) = Inr ([p], b)"
    using read_one_frame [OF assms(1-3)] .
  then obtain b0 where b: "append_data d (length d) (cl_readBuffer c) = Inr b0" "readLoop E b0 = Inr ([p], b)"
    by (auto simp: rbind_eq_Inr)
  let ?c3 = "c\<lparr>cl_readBuffer := b, cl_store := cl_store c @ [p]\<rparr>"
  have "AsioClient_doRead E False d c = Inr (?c3, [PostResponse (length (cl_store c)), ClientRead])"
    using b by (simp add: AsioClient_doRead_def new_packages_eq startRead_def)
  moreover have "doResponse now (length (cl_store c)) ?c3
    = Inr (?c3\<lparr>requestMessage := (requestMessage c)(i := None)\<rparr>,
        [CallResponse r eSuccess (rq_pac data) (Some (length (cl_store c)))])"
    using assms(4-7) by (simp add: doResponse_def RequestMessage_pick_def)
  ultimately show ?thesis by (rule that) simp_all
qed

lemma package_written:
  fixes c :: "('u, 'r, 'pub, 'del) client"
  assumes "net_order_ok E" and "zlib_ok E" and "pendingList c = []" and "p < length (cl_store c)"
    and "proto_ok E m" and "sendable E (cl_store c ! p) m"
  obtains c' d where "startWrite E p c = Inr (c', [ClientWrite d (sint (msgId (header (cl_store c ! p))))]
      :: ('u, 'r, 'pub, 'del, 'ep) client_effect list)"
    "is_frame E d (received E (cl_store c ! p) m)"
proof -
  let ?q = "c\<lparr>pendingList := [p]\<rparr>"
  have f: "pendingList ?q = p # []" "p < length (cl_store ?q)" "postable E (cl_store ?q ! p)"
    using assms(4-6) by (auto simp: postable_def)
  obtain d pac' where "startWrite_front E ?q = Inr (?q\<lparr>cl_store := (cl_store ?q)[p := pac']\<rparr>,
      [ClientWrite d (sint (msgId (header pac')))] :: ('u, 'r, 'pub, 'del, 'ep) client_effect list)"
    "frame_of E (cl_store ?q ! p) d" "msgId (header pac') = msgId (header (cl_store ?q ! p))"
    using startWrite_front_ok [OF assms(1,2) f] by blast
  with assms(3,6) show ?thesis
    by (intro that) (simp_all add: startWrite_def frame_of_def sendable_def)
qed

lemma client_reads_frame:
  fixes c :: "('u, 'r, 'pub, 'del) client"
  assumes "buf_inv (cl_readBuffer c)" and "contents (cl_readBuffer c) = []" and "is_frame E d p"
  obtains b where "AsioClient_doRead E False d c = Inr (c\<lparr>cl_readBuffer := b, cl_store := cl_store c @ [p]\<rparr>,
      [PostResponse (length (cl_store c)), ClientRead] :: ('u, 'r, 'pub, 'del, 'ep) client_effect list)"
    "buf_inv b" "contents b = []"
proof -
  obtain b where b: "rbind (append_data d (length d) (cl_readBuffer c)) (readLoop E) = Inr ([p], b)"
    "buf_inv b" "contents b = []"
    using read_one_frame [OF assms] .
  then show ?thesis
    by (intro that [of b]) (auto simp: AsioClient_doRead_def new_packages_eq startRead_def rbind_eq_Inr)
qed

lemma session_reads_frame:
  assumes "buf_inv (readBuffer s)" and "contents (readBuffer s) = []" and "is_frame E d p"
  obtains s' where "Session_doRead E False d s = Inr (s', [HandleMessage p, AsyncRead])"
proof -
  obtain b where "rbind (append_data d (length d) (readBuffer s)) (readLoop E) = Inr ([p], b)"
    using read_one_frame [OF assms] .
  then show ?thesis by (intro that) (auto simp: Session_doRead_def rbind_eq_Inr)
qed

lemma rpc_calls:
  fixes c :: "('u, 'r, 'pub, 'del) client"
  assumes "net_order_ok E" and "zlib_ok E" and "isOnline c" and "\<not> cl_stopped c" and "pendingList c = []"
    and "buf_inv (cl_readBuffer c)" and "contents (cl_readBuffer c) = []"
    and "buf_inv (readBuffer s)" and "contents (readBuffer s) = []"
    and "next_msgId (cl_id c) = (i, n)"
    and "proto_ok E req" and "sendable E (client_package E REQREP isOrder i req) req"
    and "rq = received E (client_package E REQREP isOrder i req) req"
    and "proto_ok E rsp" and "sendable E (reply_package E rq rsp) rsp"
  shows "\<exists>p c1 c2 d s' b q c3 c4.
    postMessage_order E now isOrder (Some req) (UserResponse r) ms c
      = Inr (eSuccess, c1, [PostStartWrite p] :: ('u, 'r, 'pub, 'del, 'ep) client_effect list) \<and>
    startWrite E p c1 = Inr (c2, [ClientWrite d i] :: ('u, 'r, 'pub, 'del, 'ep) client_effect list) \<and>
    Session_doRead E False d s = Inr (s', [HandleMessage rq, AsyncRead]) \<and> msgPtr rq = Some req \<and>
    Session_replyMessage E (Some rq) (Some rsp) = Inr [PostWriteBuffer b] \<and>
    AsioClient_doRead E False (contents b) c2
      = Inr (c3, [PostResponse q, ClientRead] :: ('u, 'r, 'pub, 'del, 'ep) client_effect list) \<and>
    doResponse now' q c3
      = Inr (c4, [CallResponse r eSuccess p (Some q)] :: ('u, 'r, 'pub, 'del, 'ep) client_effect list) \<and>
    msgPtr (cl_store c4 ! q) = Some rsp \<and> requestMessage c4 i = None"
proof -
  let ?p = "length (cl_store c)" and ?E = "[] :: ('u, 'r, 'pub, 'del, 'ep) client_effect list"
  obtain c1 c2 d where w: "postMessage_order E now isOrder (Some req) (UserResponse r) ms c = Inr (eSuccess, c1,
      [PostStartWrite ?p] :: ('u, 'r, 'pub, 'del, 'ep) client_effect list)"
    "startWrite E ?p c1 = Inr (c2, [ClientWrite d i] :: ('u, 'r, 'pub, 'del, 'ep) client_effect list)"
    "is_frame E d rq"
    "requestMessage c2 = RequestMessage_put now i ?p (UserResponse r) ms (requestMessage c)"
    "cl_readBuffer c2 = cl_readBuffer c"
    using request_written [OF assms(1-5,10-12)] unfolding assms(13) .
  obtain rb where "rbind (append_data d (length d) (readBuffer s)) (readLoop E) = Inr ([rq], rb)"
    using read_one_frame [OF assms(8,9) w(3)] .
  then have s': "Session_doRead E False d s = Inr (s\<lparr>readBuffer := rb\<rparr>, [HandleMessage rq, AsyncRead])"
    by (auto simp: Session_doRead_def rbind_eq_Inr)
  obtain p' b where b: "Session_postPackage E (reply_package E rq rsp) = Inr (p', [PostWriteBuffer b])"
    "is_frame E (contents b) (received E (reply_package E rq rsp) rsp)"
    using postPackage_sendable [OF assms(1,2,14,15)] .
  have rep: "Session_replyMessage E (Some rq) (Some rsp) = Inr [PostWriteBuffer b]"
    using b(1) by (simp add: Session_replyMessage_def)
  let ?rp = "received E (reply_package E rq rsp) rsp"
  have t: "msgType (header ?rp) = REQREP" "sint (msgId (header ?rp)) = i"
    using sint_word_of_int_32 [OF next_msgId_range [OF assms(10)]] by (simp_all add: assms(13))
  have e: "requestMessage c2 i = Some (Data_new now ?p (UserResponse r) ms)"
    using w(4) by (simp add: RequestMessage_put_def)
  obtain c3 c4 where c3: "AsioClient_doRead E False (contents b) c2 = Inr (c3,
      [PostResponse (length (cl_store c2)), ClientRead] :: ('u, 'r, 'pub, 'del, 'ep) client_effect list)"
    "doResponse now' (length (cl_store c2)) c3 = Inr (c4,
      [CallResponse r eSuccess ?p (Some (length (cl_store c2)))] :: ('u, 'r, 'pub, 'del, 'ep) client_effect list)"
    "cl_store c4 ! length (cl_store c2) = ?rp" "requestMessage c4 = (requestMessage c2)(i := None)"
    using response_called [OF _ _ b(2) t e, of r now'] w(5) assms(6,7) by (auto simp: Data_new_def)
  have "msgPtr rq = Some req" by (simp add: assms(13))
  with w(1,2) s' rep c3 show ?thesis by (intro exI conjI) (assumption | simp)+
qed

text \<open>
  So a request posted on an idle, connected client is written as one frame; the server session that reads it
  hands exactly this request to its handlers; the frame of the handler's reply, read back by the client, leads
  to exactly one call of the callback, with the success code, the request, and a package that carries the
  reply; and the request is no longer outstanding. The same on concrete data:
\<close>

lemma demo_request_sendable:
  "sendable pb_demo (client_package pb_demo REQREP False 1 demo_rsp) demo_rsp"
  "sendable pb_demo (reply_package pb_demo
     (received pb_demo (client_package pb_demo REQREP False 1 demo_rsp) demo_rsp) demo_rsp) demo_rsp"
  by (simp_all add: sendable_def client_package_def reply_package_def received_def sent_header_def demo_rsp_def
      SubscribeRsp_FullMessageName_def set_isorder_def PacHeader_new_def iszip_def encode_content_def
      enableCompressSize_def kPackageHeaderSize_def kMaxPackageLen_def SubscribeRsp_ByteSizeLong_def
      SubscribeRsp_InternalSerialize_def SubscribeRsp_set_errorcode_def SubscribeRsp_new_def
      SubscribeRsp_errorcode_def)

lemma rpc_calls_example:
  "\<exists>c1 c2 d s' b c3 c4 q rq.
    postMessage_order pb_demo 0 False (Some demo_rsp) (UserResponse ''f'') 5000 demo_client
      = Inr (eSuccess, c1, [PostStartWrite 0] :: (unit, string, string, string, unit) client_effect list) \<and>
    startWrite pb_demo 0 c1 = Inr (c2, [ClientWrite d 1] :: (unit, string, string, string, unit) client_effect list) \<and>
    Session_doRead pb_demo False d demo_session = Inr (s', [HandleMessage rq, AsyncRead]) \<and>
    Session_replyMessage pb_demo (Some rq) (Some demo_rsp) = Inr [PostWriteBuffer b] \<and>
    AsioClient_doRead pb_demo False (contents b) c2
      = Inr (c3, [PostResponse q, ClientRead] :: (unit, string, string, string, unit) client_effect list) \<and>
    doResponse 9 q c3
      = Inr (c4, [CallResponse ''f'' eSuccess 0 (Some q)] :: (unit, string, string, string, unit) client_effect list) \<and>
    requestMessage c4 1 = None"
proof -
  have id: "next_msgId (cl_id demo_client) = (1, 1)"
    by (simp add: demo_client_def next_msgId_def wrap32_id c_rem_def INT_MAX_def)
  have c: "isOnline demo_client" "\<not> cl_stopped demo_client" "pendingList demo_client = []"
    "buf_inv (cl_readBuffer demo_client)" "contents (cl_readBuffer demo_client) = []"
    "buf_inv (readBuffer demo_session)" "contents (readBuffer demo_session) = []"
    by (simp_all add: demo_client_def demo_session_def)
  note w = rpc_calls [OF pb_demo_ok c id demo_rsp_ok(1) demo_request_sendable(1) refl demo_rsp_ok(1)
      demo_request_sendable(2), of 0 "''f''" 5000 9, where 'ep = unit]
  obtain p c1 c2 d s' b q c3 c4 where h:
    "postMessage_order pb_demo 0 False (Some demo_rsp) (UserResponse ''f'') 5000 demo_client
      = Inr (eSuccess, c1, [PostStartWrite p] :: (unit, string, string, string, unit) client_effect list)"
    "startWrite pb_demo p c1 = Inr (c2, [ClientWrite d 1] :: (unit, string, string, string, unit) client_effect list)"
    "Session_doRead pb_demo False d demo_session = Inr (s', [HandleMessage
       (received pb_demo (client_package pb_demo REQREP False 1 demo_rsp) demo_rsp), AsyncRead])"
    "Session_replyMessage pb_demo (Some (received pb_demo (client_package pb_demo REQREP False 1 demo_rsp) demo_rsp))
       (Some demo_rsp) = Inr [PostWriteBuffer b]"
    "AsioClient_doRead pb_demo False (contents b) c2
      = Inr (c3, [PostResponse q, ClientRead] :: (unit, string, string, string, unit) client_effect list)"
    "doResponse 9 q c3
      = Inr (c4, [CallResponse ''f'' eSuccess p (Some q)] :: (unit, string, string, string, unit) client_effect list)"
    "requestMessage c4 1 = None"
    using w by blast
  have "p = 0"
    using h(1) by (simp add: postMessage_order_def id new_package_def postPackage_def demo_client_def Let_def
        split: prod.splits)
  with h show ?thesis by (intro exI conjI) (assumption | simp only:)+
qed

section \<open>The subscriptions of a client\<close>

lemma subscribe_names_eq:
  "sub_entries (subscribe_names t ns msg) = sub_entries msg @ map (\<lambda>n. (n, t)) ns \<and>
   length (SubscribeReq_typenamelist_v (subscribe_names t ns msg)) = length (SubscribeReq_typenamelist_v msg) + length ns \<and>
   length (SubscribeReq_msgtypelist_v (subscribe_names t ns msg)) = length (SubscribeReq_msgtypelist_v msg) + length ns \<and>
   SubscribeReq_type_v (subscribe_names t ns msg) = SubscribeReq_type_v msg"
  if "length (SubscribeReq_typenamelist_v msg) = length (SubscribeReq_msgtypelist_v msg)"
  using that
  by (induction t ns msg rule: subscribe_names.induct)
    (simp_all add: SubscribeReq_add_typenamelist_def SubscribeReq_add_msgtypelist_def sub_entries_def)

definition handler_entries :: "('pub, 'del, 'p) handler list \<Rightarrow> (string \<times> int32) list" where
  "handler_entries hs = concat (map (\<lambda>h. map (\<lambda>n. (n, word_of_int (handler_type h))) (handler_typeNames h)) hs)"

lemma subscribe_handlers_eq:
  "sub_entries (subscribe_handlers hs msg) = sub_entries msg @ handler_entries hs \<and>
   length (SubscribeReq_typenamelist_v (subscribe_handlers hs msg))
     = length (SubscribeReq_typenamelist_v msg) + length (handler_entries hs) \<and>
   length (SubscribeReq_msgtypelist_v (subscribe_handlers hs msg))
     = length (SubscribeReq_msgtypelist_v msg) + length (handler_entries hs) \<and>
   SubscribeReq_type_v (subscribe_handlers hs msg) = SubscribeReq_type_v msg"
  if "length (SubscribeReq_typenamelist_v msg) = length (SubscribeReq_msgtypelist_v msg)"
  using that
proof (induction hs msg rule: subscribe_handlers.induct)
  case (2 h hs msg)
  note n = subscribe_names_eq [OF "2.prems", of "word_of_int (handler_type h)" "handler_typeNames h"]
  with "2.prems" have "length (SubscribeReq_typenamelist_v (subscribe_names (word_of_int (handler_type h)) (handler_typeNames h) msg))
      = length (SubscribeReq_msgtypelist_v (subscribe_names (word_of_int (handler_type h)) (handler_typeNames h) msg))" by simp
  from "2.IH" [OF this] n show ?case by (simp add: handler_entries_def)
qed (simp add: handler_entries_def)

lemma startSubscribe_message:
  "handlerList c \<noteq> [] \<Longrightarrow> startSubscribe E W now c =
     rbind (AsioClient_postMessage E now (Some (PbSubscribeReq (subscription_of W (handlerList c))))
       SubscribeResponse kMsTimeout c) (\<lambda>(_, c', effs). Inr (c', effs))"
  by (simp add: startSubscribe_def)

lemma handlers_entered:
  assumes "msgPtr req = Some (PbSubscribeReq (subscription_of W hs))"
    and "length (handler_entries hs) < 2 ^ 31"
    and "rsp = PbSubscribeRsp (SubscribeRsp_set_errorcode 0 (SubscribeRsp_new W))"
    and "net_order_ok E" and "zlib_ok E" and "proto_ok E rsp" and "sendable E (reply_package E req rsp) rsp"
  shows "\<exists>c' b. doSubscribe E W i req c = Inr c' \<and>
    (\<forall>n. i \<in> cached_ids (subscribeCache (room c')) n \<longleftrightarrow> i \<in> cached_ids (subscribeCache (room c)) n \<or>
       (\<exists>h \<in> set hs. handler_type h = sint PUBSUB \<and> n \<in> set (handler_typeNames h))) \<and>
    (\<forall>n. i \<in> cached_ids (deliverCache (room c')) n \<longleftrightarrow> i \<in> cached_ids (deliverCache (room c)) n \<or>
       (\<exists>h \<in> set hs. handler_type h = sint DELIVER \<and> n \<in> set (handler_typeNames h))) \<and>
    sessionCache (room c') = sessionCache (room c) \<and> outbox c' = outbox c @ [(i, PostWriteBuffer b)] \<and>
    is_frame E (contents b) (received E (reply_package E req rsp) rsp)"
proof -
  let ?m = "subscription_of W hs"
  have base: "SubscribeReq_typenamelist_v (SubscribeReq_set_type 1 (SubscribeReq_new W)) = []"
    "SubscribeReq_msgtypelist_v (SubscribeReq_set_type 1 (SubscribeReq_new W)) = []"
    by (simp_all add: SubscribeReq_set_type_def SubscribeReq_new_def)
  have m: "sub_entries ?m = handler_entries hs"
    "length (SubscribeReq_typenamelist_v ?m) = length (handler_entries hs)"
    "length (SubscribeReq_msgtypelist_v ?m) = length (handler_entries hs)" "SubscribeReq_type ?m = 1"
    using subscribe_handlers_eq [of "SubscribeReq_set_type 1 (SubscribeReq_new W)" hs]
    by (simp_all add: subscription_of_def base sub_entries_def SubscribeReq_type_def)
      (simp add: SubscribeReq_set_type_def)
  have kind: "sint (word_of_int (handler_type h) :: int32) = handler_type h" for h :: "('b, 'c, 'd) handler"
    by (cases h) (simp_all add: PUBSUB_def DELIVER_def)
  have l: "n \<in> listed t ?m \<longleftrightarrow> (\<exists>h \<in> set hs. handler_type h = sint t \<and> n \<in> set (handler_typeNames h))" for n t
  proof -
    have "(n, mt) \<in> set (handler_entries hs) \<longleftrightarrow>
        (\<exists>h \<in> set hs. n \<in> set (handler_typeNames h) \<and> mt = word_of_int (handler_type h))" for mt
      by (auto simp: handler_entries_def)
    then show ?thesis unfolding listed_def m(1) mem_Collect_eq using kind by metis
  qed
  obtain c' b where c': "doSubscribe E W i req c = Inr c'"
    and sub: "\<forall>n. cached_ids (subscribeCache (room c')) n =
      (if n \<notin> listed PUBSUB ?m then cached_ids (subscribeCache (room c)) n
       else if SubscribeReq_type ?m = 1 then insert i (cached_ids (subscribeCache (room c)) n)
       else cached_ids (subscribeCache (room c)) n - {i})"
    and del: "\<forall>n. cached_ids (deliverCache (room c')) n =
      (if n \<notin> listed DELIVER ?m then cached_ids (deliverCache (room c)) n
       else if SubscribeReq_type ?m = 1 then insert i (cached_ids (deliverCache (room c)) n)
       else cached_ids (deliverCache (room c)) n - {i})"
    and ses: "sessionCache (room c') = sessionCache (room c)" "outbox c' = outbox c @ [(i, PostWriteBuffer b)]"
      "is_frame E (contents b) (received E (reply_package E req rsp) rsp)"
    using doSubscribe_changes [OF assms(1) _ _ assms(3-7), of i c] m(2,3) assms(2) by auto
  have "i \<in> cached_ids (subscribeCache (room c')) n \<longleftrightarrow> i \<in> cached_ids (subscribeCache (room c)) n \<or>
      n \<in> listed PUBSUB ?m" for n
    using spec [OF sub, of n] m(4) by simp
  moreover have "i \<in> cached_ids (deliverCache (room c')) n \<longleftrightarrow> i \<in> cached_ids (deliverCache (room c)) n \<or>
      n \<in> listed DELIVER ?m" for n
    using spec [OF del, of n] m(4) by simp
  ultimately show ?thesis using c' ses unfolding l by blast
qed

text \<open>
  Property C18. A client's handlers are subscribed. \<^verbatim>\<open>startSubscribe\<close> of a client that is connected posts
  one request, and when the server handles a package that carries this request's message, it enters the
  client's session under every type name of every publish handler of the client in the publish table, under every
  type name of every deliver handler in the deliver table, and under no other name, and posts one answer to it.
\<close>

theorem handlers_subscribed:
  fixes c :: "('u, 'r, 'pub, 'del) client"
  assumes "handlerList c \<noteq> []" and "isOnline c" and "\<not> cl_stopped c"
    and "length (handler_entries (handlerList c)) < 2 ^ 31"
    and "rsp = PbSubscribeRsp (SubscribeRsp_set_errorcode 0 (SubscribeRsp_new W))"
    and "net_order_ok E" and "zlib_ok E" and "proto_ok E rsp"
  shows "\<exists>c1 p. startSubscribe E W now c = Inr (c1, [PostStartWrite p] :: ('u, 'r, 'pub, 'del, 'ep) client_effect list) \<and>
    msgType (header (cl_store c1 ! p)) = REQREP \<and>
    (\<forall>req. msgPtr req = msgPtr (cl_store c1 ! p) \<longrightarrow> sendable E (reply_package E req rsp) rsp \<longrightarrow>
      (\<exists>k1 b. doSubscribe E W i req k = Inr k1 \<and> outbox k1 = outbox k @ [(i, PostWriteBuffer b)] \<and>
        (\<forall>n. i \<in> cached_ids (subscribeCache (room k1)) n \<longleftrightarrow> i \<in> cached_ids (subscribeCache (room k)) n \<or>
           (\<exists>h \<in> set (handlerList c). handler_type h = sint PUBSUB \<and> n \<in> set (handler_typeNames h))) \<and>
        (\<forall>n. i \<in> cached_ids (deliverCache (room k1)) n \<longleftrightarrow> i \<in> cached_ids (deliverCache (room k)) n \<or>
           (\<exists>h \<in> set (handlerList c). handler_type h = sint DELIVER \<and> n \<in> set (handler_typeNames h)))))"
proof -
  let ?m = "PbSubscribeReq (subscription_of W (handlerList c))"
  obtain j n where id: "next_msgId (cl_id c) = (j, n)" by force
  note post = request_posted [OF assms(2,3) id next_msgId_range [OF id], of E now False ?m SubscribeResponse kMsTimeout,
      where 'ep = 'ep]
  obtain c1 where c1: "startSubscribe E W now c
      = Inr (c1, [PostStartWrite (length (cl_store c))] :: ('u, 'r, 'pub, 'del, 'ep) client_effect list)"
    "cl_store c1 = cl_store c @ [client_package E REQREP False j ?m]"
    using post by (simp add: startSubscribe_message [OF assms(1)] AsioClient_postMessage_def)
  have "\<exists>k1 b. doSubscribe E W i req k = Inr k1 \<and> outbox k1 = outbox k @ [(i, PostWriteBuffer b)] \<and>
      (\<forall>n. i \<in> cached_ids (subscribeCache (room k1)) n \<longleftrightarrow> i \<in> cached_ids (subscribeCache (room k)) n \<or>
         (\<exists>h \<in> set (handlerList c). handler_type h = sint PUBSUB \<and> n \<in> set (handler_typeNames h))) \<and>
      (\<forall>n. i \<in> cached_ids (deliverCache (room k1)) n \<longleftrightarrow> i \<in> cached_ids (deliverCache (room k)) n \<or>
         (\<exists>h \<in> set (handlerList c). handler_type h = sint DELIVER \<and> n \<in> set (handler_typeNames h)))"
    if "msgPtr req = msgPtr (cl_store c1 ! length (cl_store c))" "sendable E (reply_package E req rsp) rsp" for req
  proof -
    have "msgPtr req = Some ?m" using that(1) by (simp add: c1(2))
    from handlers_entered [OF this assms(4-8) that(2), of i k] show ?thesis by blast
  qed
  with c1 show ?thesis by (intro exI [of _ c1] exI [of _ "length (cl_store c)"]) simp
qed

theorem handlers_subscribed_witness:
  "\<exists>c1 p k1. startSubscribe pb_demo sample_wire 0 (demo_client\<lparr>handlerList := [PublishHandler [(''A'', ''f'')]]\<rparr>)
      = Inr (c1, [PostStartWrite p] :: (unit, string, string, string, unit) client_effect list) \<and>
    doSubscribe pb_demo sample_wire 5 (demo_req_package\<lparr>msgPtr := msgPtr (cl_store c1 ! p)\<rparr>) core_new = Inr k1 \<and>
    5 \<in> cached_ids (subscribeCache (room k1)) ''A'' \<and> 5 \<notin> cached_ids (subscribeCache (room k1)) ''B'' \<and>
    5 \<notin> cached_ids (deliverCache (room k1)) ''A''"
proof -
  let ?c = "demo_client\<lparr>handlerList := [PublishHandler [(''A'', ''f'')]]\<rparr>"
  have c: "handlerList ?c \<noteq> []" "isOnline ?c" "\<not> cl_stopped ?c" "length (handler_entries (handlerList ?c)) < 2 ^ 31"
    by (simp_all add: demo_client_def handler_entries_def)
  have s: "sendable pb_demo (reply_package pb_demo (demo_req_package\<lparr>msgPtr := m\<rparr>) demo_rsp) demo_rsp" for m
    using demo_rsp_ok(2) by (simp add: reply_package_def)
  have new: "5 \<notin> cached_ids (subscribeCache (room (core_new :: unit core))) n"
    "5 \<notin> cached_ids (deliverCache (room (core_new :: unit core))) n" for n
    by (simp_all add: core_new_def SessionRoom_new_def cached_ids_def)
  obtain c1 p where c1: "startSubscribe pb_demo sample_wire 0 ?c
      = Inr (c1, [PostStartWrite p] :: (unit, string, string, string, unit) client_effect list)"
    and all: "\<forall>req. msgPtr req = msgPtr (cl_store c1 ! p) \<longrightarrow> sendable pb_demo (reply_package pb_demo req demo_rsp) demo_rsp \<longrightarrow>
      (\<exists>k1 b. doSubscribe pb_demo sample_wire 5 req core_new = Inr k1 \<and> outbox k1 = outbox core_new @ [(5, PostWriteBuffer b)] \<and>
        (\<forall>n. 5 \<in> cached_ids (subscribeCache (room k1)) n \<longleftrightarrow> 5 \<in> cached_ids (subscribeCache (room (core_new :: unit core))) n \<or>
           (\<exists>h \<in> set (handlerList ?c). handler_type h = sint PUBSUB \<and> n \<in> set (handler_typeNames h))) \<and>
        (\<forall>n. 5 \<in> cached_ids (deliverCache (room k1)) n \<longleftrightarrow> 5 \<in> cached_ids (deliverCache (room (core_new :: unit core))) n \<or>
           (\<exists>h \<in> set (handlerList ?c). handler_type h = sint DELIVER \<and> n \<in> set (handler_typeNames h))))"
    using handlers_subscribed [OF c demo_rsp_def pb_demo_ok demo_rsp_ok(1), of 0 5 core_new, where 'ep = unit]
    by blast
  from spec [OF all, of "demo_req_package\<lparr>msgPtr := msgPtr (cl_store c1 ! p)\<rparr>"] s new c1 show ?thesis
    by (auto simp: PUBSUB_def DELIVER_def demo_client_def)
qed

end
