(* ===== verification/Server_Main.thy ===== *)
theory Server_Main
  imports Rpc
begin

text \<open>
  The server wrapper \<^verbatim>\<open>asio/msgserver.cpp\<close> and the server program \<^verbatim>\<open>server/main.cpp\<close>. A
  \<^verbatim>\<open>MsgHandler\<close> is a value of a type of handlers; its virtual method \<^verbatim>\<open>advise\<close> is an argument of \<open>run\<close>.
  The local time of the host is a parameter of the formatting of times, the number of processors
  one of the constructor.
\<close>

section \<open>MsgServer\<close>

record ('a, 'h, 'u) msg_server =
  ms_handlers :: "'a list"
  ms_tasks :: "('h task, 'u pb_message) taskManager"
  ms_core :: "'u core"
  ms_io :: io_service

definition MsgServer_of :: "(('h task, 'u pb_message) taskManager \<times> 'u core) result \<Rightarrow> ('a, 'h, 'u) msg_server result" where
  "MsgServer_of r = rbind r (\<lambda>(tm, c).
     Inr \<lparr>ms_handlers = [], ms_tasks = tm, ms_core = c, ms_io = io_service_new\<rparr>)"

definition MsgServer_new :: "nat \<Rightarrow> ('a, 'h, 'u) msg_server result" where
  "MsgServer_new hardware_concurrency = MsgServer_of (AsioServer_new hardware_concurrency hardware_concurrency)"

definition MsgServer_new_sizes :: "nat \<Rightarrow> nat \<Rightarrow> ('a, 'h, 'u) msg_server result" where
  "MsgServer_new_sizes workSize poolSize = MsgServer_of (AsioServer_new workSize poolSize)"

definition MsgServer_run ::
    "('a \<Rightarrow> ('a, 'h, 'u) msg_server \<Rightarrow> ('a, 'h, 'u) msg_server) \<Rightarrow> ('a, 'h, 'u) msg_server \<Rightarrow> ('a, 'h, 'u) msg_server" where
  "MsgServer_run advise s = fold advise (ms_handlers s) s"

definition MsgServer_stop :: "('a, 'h, 'u) msg_server \<Rightarrow> ('a, 'h, 'u) msg_server" where
  "MsgServer_stop s = s\<lparr>ms_io := AsioServer_stop (ms_io s)\<rparr>"

definition addMethodHanlder :: "'a \<Rightarrow> ('a, 'h, 'u) msg_server \<Rightarrow> ('a, 'h, 'u) msg_server" where
  "addMethodHanlder hdl s = s\<lparr>ms_handlers := ms_handlers s @ [hdl]\<rparr>"

definition MsgServer_addHandleMessage ::
    "string \<Rightarrow> 'h task \<Rightarrow> ('a, 'h, 'u) msg_server \<Rightarrow> ('a, 'h, 'u) msg_server" where
  "MsgServer_addHandleMessage protoName task s =
     s\<lparr>ms_tasks := AsioServer_addHandleMessage protoName task (ms_tasks s)\<rparr>"

definition MsgServer_publishMessage ::
    "('d, 'u pb_message) env \<Rightarrow> 'u pb_message option \<Rightarrow> ('a, 'h, 'u) msg_server \<Rightarrow> ('a, 'h, 'u) msg_server result" where
  "MsgServer_publishMessage E msg s =
     rbind (AsioServer_publishMessage E msg (ms_core s)) (\<lambda>c. Inr (s\<lparr>ms_core := c\<rparr>))"

section \<open>The handlers of the server program\<close>

text \<open>\<open>local_time\<close> is the text that \<^verbatim>\<open>localtime\<close> and \<^verbatim>\<open>strftime\<close> give for a number of seconds.\<close>

definition getFormatTime :: "(int \<Rightarrow> string) \<Rightarrow> int \<Rightarrow> string" where
  "getFormatTime local_time t =
     (if t < 0 then []
      else local_time (if 1528959332000 < t then t div 1000 else t))"

definition BaseHandler_PingPong :: "'u PingPongReq \<Rightarrow> 'u PingPongRsp \<Rightarrow> 'u PingPongRsp" where
  "BaseHandler_PingPong req rsp = PingPongRsp_set_content (PingPongReq_content req) rsp"

definition BaseHandler_Daytime ::
    "(int \<Rightarrow> string) \<Rightarrow> int \<Rightarrow> 'u DaytimeReq \<Rightarrow> 'u DaytimeRsp \<Rightarrow> 'u DaytimeRsp" where
  "BaseHandler_Daytime local_time now req rsp = DaytimeRsp_set_time (getFormatTime local_time now) rsp"

text \<open>The static counter \<^verbatim>\<open>s_total\<close> is an atomic \<^verbatim>\<open>int\<close>, which wraps.\<close>

definition BaseHandler_Discard ::
    "int32 \<Rightarrow> 'u DiscardReq \<Rightarrow> 'u DiscardRsp \<Rightarrow> int32 \<times> 'u DiscardRsp" where
  "BaseHandler_Discard s_total req rsp =
     (let s_total' = s_total + word_of_nat (length (DiscardReq_content req))
      in (s_total', DiscardRsp_set_total s_total'
            (DiscardRsp_set_size (word_of_nat (length (DiscardReq_content req))) rsp)))"

text \<open>
  The functions that \<^verbatim>\<open>ADVISE_HANDLER\<close> registers: they cast the request, make the response, call the
  method and reply.
\<close>

datatype base_task = TaskPingPong | TaskDaytime | TaskDiscard

fun base_task_rsp ::
    "'u wire \<Rightarrow> (int \<Rightarrow> string) \<Rightarrow> int \<Rightarrow> base_task \<Rightarrow> 'u pb_message option \<Rightarrow> int32 \<Rightarrow> (int32 \<times> 'u pb_message) result" where
  "base_task_rsp W local_time now t None s_total = Inl NullDeref"
| "base_task_rsp W local_time now TaskPingPong (Some (PbPingPongReq req)) s_total =
     Inr (s_total, PbPingPongRsp (BaseHandler_PingPong req (PingPongRsp_new W)))"
| "base_task_rsp W local_time now TaskDaytime (Some (PbDaytimeReq req)) s_total =
     Inr (s_total, PbDaytimeRsp (BaseHandler_Daytime local_time now req (DaytimeRsp_new W)))"
| "base_task_rsp W local_time now TaskDiscard (Some (PbDiscardReq req)) s_total =
     (let (s_total', rsp) = BaseHandler_Discard s_total req (DiscardRsp_new W)
      in Inr (s_total', PbDiscardRsp rsp))"
| "base_task_rsp W local_time now t (Some m) s_total = Inl BadCast"

definition base_task_call ::
    "('d, 'u pb_message) env \<Rightarrow> 'u wire \<Rightarrow> (int \<Rightarrow> string) \<Rightarrow> int \<Rightarrow> base_task \<Rightarrow> int \<Rightarrow> 'u pb_message Package \<Rightarrow>
     int32 \<times> 'u core \<Rightarrow> (int32 \<times> 'u core) result" where
  "base_task_call E W local_time now t i request = (\<lambda>(s_total, c).
     rbind (base_task_rsp W local_time now t (msgPtr request) s_total) (\<lambda>(s_total', rsp).
     rbind (Session_replyMessage E (Some request) (Some rsp)) (\<lambda>effs. Inr (s_total', emit i effs c))))"

definition BaseHandler_advise :: "('a, base_task, 'u) msg_server \<Rightarrow> ('a, base_task, 'u) msg_server" where
  "BaseHandler_advise server =
     (let server = MsgServer_addHandleMessage PingPongReq_FullMessageName (UserTask TaskPingPong) server;
          server = MsgServer_addHandleMessage DaytimeReq_FullMessageName (UserTask TaskDaytime) server
      in MsgServer_addHandleMessage DiscardReq_FullMessageName (UserTask TaskDiscard) server)"

text \<open>\<^verbatim>\<open>main\<close>, up to the event loop: its only handler is a \<^verbatim>\<open>BaseHandler\<close>.\<close>

definition server_main ::
    "('d, 'u pb_message) env \<Rightarrow> nat \<Rightarrow> (('d, 'u pb_message) env \<times> (unit, base_task, 'u) msg_server) result" where
  "server_main E hardware_concurrency =
     (let E1 = initEnableCompressSize 1024 E
      in rbind (MsgServer_new hardware_concurrency) (\<lambda>server.
           Inr (E1, MsgServer_run (\<lambda>_. BaseHandler_advise) (addMethodHanlder () server))))"

section \<open>What the program answers\<close>

lemma server_main_ok:
  fixes E :: "('d, 'u pb_message) env"
  assumes "hc < 2 ^ 31"
  obtains server where "server_main E hc = Inr (E\<lparr>s_enableCompressSize := 1024\<rparr>, server)"
    "handler (ms_tasks server) =
      [SubscribeReq_FullMessageName \<mapsto> DoSubscribe, HeartbeatReq_FullMessageName \<mapsto> DoHeartbeat,
       PingPongReq_FullMessageName \<mapsto> UserTask TaskPingPong, DaytimeReq_FullMessageName \<mapsto> UserTask TaskDaytime,
       DiscardReq_FullMessageName \<mapsto> UserTask TaskDiscard]"
    "workers (ms_tasks server) \<noteq> []" "threads (pool (ms_tasks server)) \<noteq> []" "preTask (ms_tasks server) = None"
    "ms_core server = core_new"
proof -
  obtain tm :: "(base_task task, 'u pb_message) taskManager"
    where tm: "TaskManager_new hc hc = Inr tm" "threads (pool tm) \<noteq> []"
    using TaskManager_new_ok [OF assms, of hc] by blast
  note n = TaskManager_new_workers [OF tm(1)]
  let ?tm = "tm\<lparr>handler := [SubscribeReq_FullMessageName \<mapsto> DoSubscribe,
    HeartbeatReq_FullMessageName \<mapsto> DoHeartbeat, PingPongReq_FullMessageName \<mapsto> UserTask TaskPingPong,
    DaytimeReq_FullMessageName \<mapsto> UserTask TaskDaytime, DiscardReq_FullMessageName \<mapsto> UserTask TaskDiscard]\<rparr>"
  let ?s = "\<lparr>ms_handlers = [()], ms_tasks = ?tm, ms_core = core_new, ms_io = io_service_new\<rparr>"
  have w: "workers tm \<noteq> []" using n(1) by auto
  have "server_main E hc = Inr (E\<lparr>s_enableCompressSize := 1024\<rparr>, ?s)"
    using tm(1) n(4) by (simp add: server_main_def MsgServer_new_def MsgServer_of_def AsioServer_new_def
      AsioServer_init_def AsioServer_addHandleMessage_def MsgServer_run_def addMethodHanlder_def
      BaseHandler_advise_def MsgServer_addHandleMessage_def addHandleTask_def initEnableCompressSize_def Let_def)
  then show ?thesis by (rule that) (simp_all add: w tm(2) n(3))
qed

lemma sent_isorder: "isorder (sent_header E m h n) = isorder h"
  by (simp add: isorder_def)

lemma client_isorder: "isorder (header (client_package E t isOrder i m)) = isOrder"
  by (simp add: client_package_def)

lemma echo_calls:
  fixes c :: "('u, 'r, 'pub, 'del) client"
  assumes "hc < 2 ^ 31" and "server_main E0 hc = Inr (E, server)"
    and "wire_ok W" and "runtime_ok E W" and "net_order_ok E" and "zlib_ok E" and "pb_string W txt"
    and "isOnline c" and "\<not> cl_stopped c" and "pendingList c = []"
    and "buf_inv (cl_readBuffer c)" and "contents (cl_readBuffer c) = []"
    and "buf_inv (readBuffer s)" and "contents (readBuffer s) = []"
    and "next_msgId (cl_id c) = (i, n)"
    and "req = PbPingPongReq (PingPongReq_set_content txt (PingPongReq_new W))"
    and "sendable E (client_package E REQREP isOrder i req) req"
    and "rq = received E (client_package E REQREP isOrder i req) req"
    and "rsp = PbPingPongRsp (PingPongRsp_set_content txt (PingPongRsp_new W))"
    and "sendable E (reply_package E rq rsp) rsp"
  shows "\<exists>p c1 c2 d s' b q c3 c4.
    postMessage_order E now isOrder (Some req) (UserResponse r) ms c
      = Inr (eSuccess, c1, [PostStartWrite p] :: ('u, 'r, 'pub, 'del, 'ep) client_effect list) \<and>
    startWrite E p c1 = Inr (c2, [ClientWrite d i] :: ('u, 'r, 'pub, 'del, 'ep) client_effect list) \<and>
    Session_doRead E False d s = Inr (s', [HandleMessage rq, AsyncRead]) \<and>
    dispatch rq (sessionId s) (ms_tasks server) =
      (let job = (UserTask TaskPingPong, sessionId s, rq)
       in if isOrder then ToWorker (workId (sessionId s) (length (workers (ms_tasks server)))) job
          else ToPool job) \<and>
    base_task_call E W local_time now' TaskPingPong (sessionId s) rq (tot, cr)
      = Inr (tot, emit (sessionId s) [PostWriteBuffer b] cr) \<and>
    AsioClient_doRead E False (contents b) c2
      = Inr (c3, [PostResponse q, ClientRead] :: ('u, 'r, 'pub, 'del, 'ep) client_effect list) \<and>
    doResponse now'' q c3
      = Inr (c4, [CallResponse r eSuccess p (Some q)] :: ('u, 'r, 'pub, 'del, 'ep) client_effect list) \<and>
    msgPtr (cl_store c4 ! q) = Some rsp \<and> requestMessage c4 i = None"
proof -
  have u: "\<not> have_unknown_fields W (unknown_default W)" using unknown_default_none [OF assms(3)] by simp
  have ok: "proto_ok E req" "proto_ok E rsp"
    using assms(7,16,19) u
    by (auto intro!: pb_proto_ok [OF assms(3,4)] simp: PingPongReq_ok_def PingPongRsp_ok_def
        PingPongReq_set_content_def PingPongReq_new_def PingPongRsp_set_content_def PingPongRsp_new_def)
  obtain p c1 c2 d s' b q c3 c4 where w:
    "postMessage_order E now isOrder (Some req) (UserResponse r) ms c
      = Inr (eSuccess, c1, [PostStartWrite p] :: ('u, 'r, 'pub, 'del, 'ep) client_effect list)"
    "startWrite E p c1 = Inr (c2, [ClientWrite d i] :: ('u, 'r, 'pub, 'del, 'ep) client_effect list)"
    "Session_doRead E False d s = Inr (s', [HandleMessage rq, AsyncRead])"
    "msgPtr rq = Some req"
    "Session_replyMessage E (Some rq) (Some rsp) = Inr [PostWriteBuffer b]"
    "AsioClient_doRead E False (contents b) c2
      = Inr (c3, [PostResponse q, ClientRead] :: ('u, 'r, 'pub, 'del, 'ep) client_effect list)"
    "doResponse now'' q c3
      = Inr (c4, [CallResponse r eSuccess p (Some q)] :: ('u, 'r, 'pub, 'del, 'ep) client_effect list)"
    "msgPtr (cl_store c4 ! q) = Some rsp" "requestMessage c4 i = None"
    using rpc_calls [OF assms(5,6,8-15) ok(1) assms(17,18) ok(2) assms(20), of now r ms now'', where 'ep = 'ep]
    by (elim exE conjE) (rule that)
  have call: "base_task_call E W local_time now' TaskPingPong (sessionId s) rq (tot, cr)
      = Inr (tot, emit (sessionId s) [PostWriteBuffer b] cr)"
    using w(4,5) unfolding assms(16,19)
    by (simp add: base_task_call_def BaseHandler_PingPong_def PingPongReq_content_def
        PingPongReq_set_content_def)
  obtain server' where "server_main E0 hc = Inr (E0\<lparr>s_enableCompressSize := 1024\<rparr>, server')"
    "handler (ms_tasks server') =
      [SubscribeReq_FullMessageName \<mapsto> DoSubscribe, HeartbeatReq_FullMessageName \<mapsto> DoHeartbeat,
       PingPongReq_FullMessageName \<mapsto> UserTask TaskPingPong, DaytimeReq_FullMessageName \<mapsto> UserTask TaskDaytime,
       DiscardReq_FullMessageName \<mapsto> UserTask TaskDiscard]"
    "workers (ms_tasks server') \<noteq> []"
    using server_main_ok [OF assms(1), of E0] by blast
  then have h: "handler (ms_tasks server) PingPongReq_FullMessageName = Some (UserTask TaskPingPong)"
    "workers (ms_tasks server) \<noteq> []"
    using assms(2) by (auto simp: pb_names)
  have "GetTypeName E req = PingPongReq_FullMessageName"
    using assms(4) unfolding assms(16) runtime_ok_def by simp
  then have "typeName rq = PingPongReq_FullMessageName" "isorder (header rq) = isOrder"
    unfolding assms(18) by (simp_all add: received_def sent_isorder client_isorder)
  with h have "dispatch rq (sessionId s) (ms_tasks server) =
      (let job = (UserTask TaskPingPong, sessionId s, rq)
       in if isOrder then ToWorker (workId (sessionId s) (length (workers (ms_tasks server)))) job
          else ToPool job)"
    by (simp add: dispatch_def Let_def)
  with w call show ?thesis by (intro exI conjI)
qed

text \<open>
  Property C1. The echo service, end to end. A client posts a \<^verbatim>\<open>PingPongReq\<close> with some text to the server
  program. The session that reads the frame dispatches the request to the handler that \<^verbatim>\<open>main\<close> has
  registered, on a worker for an ordered message and on the pool otherwise; the handler's reply is one
  frame; and the client that reads it calls the callback of the request once, with the success code
  and a \<^verbatim>\<open>PingPongRsp\<close> that has the same text.
\<close>

theorem echo_call:
  fixes c :: "('u, 'r, 'pub, 'del) client"
  assumes "hc < 2 ^ 31" and "server_main E0 hc = Inr (E, server)"
    and "wire_ok W" and "runtime_ok E W" and "net_order_ok E" and "zlib_ok E" and "pb_string W txt"
    and "isOnline c" and "\<not> cl_stopped c" and "pendingList c = []"
    and "buf_inv (cl_readBuffer c)" and "contents (cl_readBuffer c) = []"
    and "buf_inv (readBuffer s)" and "contents (readBuffer s) = []"
    and "next_msgId (cl_id c) = (i, n)"
    and "req = PbPingPongReq (PingPongReq_set_content txt (PingPongReq_new W))"
    and "sendable E (client_package E REQREP isOrder i req) req"
    and "rq = received E (client_package E REQREP isOrder i req) req"
    and "rsp = PbPingPongRsp (PingPongRsp_set_content txt (PingPongRsp_new W))"
    and "sendable E (reply_package E rq rsp) rsp"
  shows "\<exists>p c1 c2 d s' b q c3 c4.
    postMessage_order E now isOrder (Some req) (UserResponse r) ms c
      = Inr (eSuccess, c1, [PostStartWrite p] :: ('u, 'r, 'pub, 'del, 'ep) client_effect list) \<and>
    startWrite E p c1 = Inr (c2, [ClientWrite d i] :: ('u, 'r, 'pub, 'del, 'ep) client_effect list) \<and>
    Session_doRead E False d s = Inr (s', [HandleMessage rq, AsyncRead]) \<and>
    dispatch rq (sessionId s) (ms_tasks server) =
      (let job = (UserTask TaskPingPong, sessionId s, rq)
       in if isOrder then ToWorker (workId (sessionId s) (length (workers (ms_tasks server)))) job
          else ToPool job) \<and>
    base_task_call E W local_time now' TaskPingPong (sessionId s) rq (tot, cr)
      = Inr (tot, emit (sessionId s) [PostWriteBuffer b] cr) \<and>
    AsioClient_doRead E False (contents b) c2
      = Inr (c3, [PostResponse q, ClientRead] :: ('u, 'r, 'pub, 'del, 'ep) client_effect list) \<and>
    doResponse now'' q c3
      = Inr (c4, [CallResponse r eSuccess p (Some q)] :: ('u, 'r, 'pub, 'del, 'ep) client_effect list) \<and>
    msgPtr (cl_store c4 ! q) = Some rsp \<and> requestMessage c4 i = None"
  by (rule echo_calls [OF assms])

definition demo_ping :: "unit pb_message" where
  "demo_ping = PbPingPongReq (PingPongReq_set_content ''hi'' (PingPongReq_new sample_wire))"

definition demo_pong :: "unit pb_message" where
  "demo_pong = PbPingPongRsp (PingPongRsp_set_content ''hi'' (PingPongRsp_new sample_wire))"

lemma demo_compress_fields [simp]:
  "MSGBUS (pb_demo\<lparr>s_enableCompressSize := k\<rparr>) = False"
  "s_enableCompressSize (pb_demo\<lparr>s_enableCompressSize := k\<rparr>) = k"
  "GetTypeName (pb_demo\<lparr>s_enableCompressSize := k\<rparr>) = pb_GetTypeName"
  "ByteSizeLong (pb_demo\<lparr>s_enableCompressSize := k\<rparr>) m = fst (pb_ByteSizeLong sample_wire m)"
  "SerializePartialToArray (pb_demo\<lparr>s_enableCompressSize := k\<rparr>) m n
     = Some (pb_InternalSerialize sample_wire (snd (pb_ByteSizeLong sample_wire m)))"
  by simp_all

lemma demo_compress_ok:
  "runtime_ok (pb_demo\<lparr>s_enableCompressSize := k\<rparr>) sample_wire"
  "net_order_ok (pb_demo\<lparr>s_enableCompressSize := k\<rparr>)" "zlib_ok (pb_demo\<lparr>s_enableCompressSize := k\<rparr>)"
  using pb_demo_ok pb_env_runtime_ok [of "sample_env False (-1)" sample_wire]
  by (simp_all add: runtime_ok_def net_order_ok_def zlib_ok_def flip: pb_demo_def)

lemma demo_ping_sendable:
  "sendable (pb_demo\<lparr>s_enableCompressSize := 1024\<rparr>)
     (client_package (pb_demo\<lparr>s_enableCompressSize := 1024\<rparr>) REQREP False 1 demo_ping) demo_ping"
  "sendable (pb_demo\<lparr>s_enableCompressSize := 1024\<rparr>) (reply_package (pb_demo\<lparr>s_enableCompressSize := 1024\<rparr>)
     (received (pb_demo\<lparr>s_enableCompressSize := 1024\<rparr>)
        (client_package (pb_demo\<lparr>s_enableCompressSize := 1024\<rparr>) REQREP False 1 demo_ping) demo_ping) demo_pong) demo_pong"
  by (simp_all add: sendable_def client_package_def reply_package_def received_def sent_header_def
      demo_ping_def demo_pong_def PingPongReq_FullMessageName_def PingPongRsp_FullMessageName_def
      set_isorder_def PacHeader_new_def iszip_def encode_content_def enableCompressSize_def
      kPackageHeaderSize_def kMaxPackageLen_def PingPongReq_ByteSizeLong_def PingPongRsp_ByteSizeLong_def
      PingPongReq_InternalSerialize_def PingPongRsp_InternalSerialize_def PingPongReq_set_content_def
      PingPongRsp_set_content_def PingPongReq_new_def PingPongRsp_new_def PingPongReq_content_def
      PingPongRsp_content_def sample_wire_def varint.simps wrap32_id Let_def)

theorem echo_call_witness:
  "\<exists>server p c1 c2 d s' b q c3 c4 rq.
    server_main pb_demo 2 = Inr (pb_demo\<lparr>s_enableCompressSize := 1024\<rparr>, server) \<and>
    postMessage_order (pb_demo\<lparr>s_enableCompressSize := 1024\<rparr>) 0 False (Some demo_ping) (UserResponse ''f'') 5000 demo_client
      = Inr (eSuccess, c1, [PostStartWrite p] :: (unit, string, string, string, unit) client_effect list) \<and>
    startWrite (pb_demo\<lparr>s_enableCompressSize := 1024\<rparr>) p c1
      = Inr (c2, [ClientWrite d 1] :: (unit, string, string, string, unit) client_effect list) \<and>
    Session_doRead (pb_demo\<lparr>s_enableCompressSize := 1024\<rparr>) False d demo_session = Inr (s', [HandleMessage rq, AsyncRead]) \<and>
    dispatch rq (sessionId demo_session) (ms_tasks server) = ToPool (UserTask TaskPingPong, sessionId demo_session, rq) \<and>
    doResponse 9 q c3
      = Inr (c4, [CallResponse ''f'' eSuccess p (Some q)] :: (unit, string, string, string, unit) client_effect list) \<and>
    msgPtr (cl_store c4 ! q) = Some demo_pong"
proof -
  let ?E = "pb_demo\<lparr>s_enableCompressSize := 1024\<rparr>"
  obtain server where m: "server_main pb_demo 2 = Inr (?E, server)"
    using server_main_ok [of 2 pb_demo] by auto
  have id: "next_msgId (cl_id demo_client) = (1, 1)"
    by (simp add: demo_client_def next_msgId_def wrap32_id c_rem_def INT_MAX_def)
  have c: "isOnline demo_client" "\<not> cl_stopped demo_client" "pendingList demo_client = []"
    "buf_inv (cl_readBuffer demo_client)" "contents (cl_readBuffer demo_client) = []"
    "buf_inv (readBuffer demo_session)" "contents (readBuffer demo_session) = []"
    by (simp_all add: demo_client_def demo_session_def)
  have t: "pb_string sample_wire ''hi''" by (simp add: pb_string_def sample_wire_def)
  show ?thesis
    using echo_call [OF _ m sample_wire_ok demo_compress_ok t c id demo_ping_def demo_ping_sendable(1) refl
        demo_pong_def demo_ping_sendable(2), of 0 "''f''" 5000 "\<lambda>_. []" 8 0 core_new 9, where 'ep = unit]
    using m by (auto simp: Let_def) blast
qed

end
