(* ===== verification/Bus_Call.thy ===== *)
theory Bus_Call
  imports MsgBus Msg_Client Server_Main
begin

text \<open>
  A remote call through the message bus: the client, the bus and the provider together. The bus is built
  with \<^verbatim>\<open>MSGBUS\<close> and passes on the packages of the programs without parsing them; client and provider are
  built without it.
\<close>

section \<open>One stream, two builds\<close>

definition bus_env :: "('d, 'm) env \<Rightarrow> ('d, 'm) env" where
  "bus_env E = E\<lparr>MSGBUS := True\<rparr>"

lemma bus_env_same [simp]:
  "MSGBUS (bus_env E)" "net_order_ok (bus_env E) = net_order_ok E" "wire_frame (bus_env E) = wire_frame E"
  by (simp_all add: bus_env_def net_order_ok_def wire_frame_def net_header_def fun_eq_iff int2net_def short2net_def)

lemma frame_ok_msgType [simp]: "frame_ok (h\<lparr>msgType := t\<rparr>) tn content = frame_ok h tn content"
  by (simp add: frame_ok_def)

lemma frame_package_msgType:
  "\<not> MSGBUS E \<Longrightarrow> frame_package E (h\<lparr>msgType := t\<rparr>) tn content = map_option (set_msgType t) (frame_package E h tn content)"
  by (cases h) (simp add: frame_package_def set_msgType_def iszip_def set_iszip_def option.map_comp comp_def
      split: option.splits sum.splits)

lemma frame_package_header:
  assumes "frame_package E h tn content = Some p" and "\<not> MSGBUS E"
  shows "typeName p = tn" "msgType (header p) = msgType h" "msgId (header p) = msgId h"
  using assms by (auto simp: frame_package_def set_iszip_def split: if_splits option.splits sum.splits)

text \<open>
  What the bus makes of a frame that client and provider understand: a raw package, of which every
  forwarded copy is a frame of the same message again, under the new kind.
\<close>

lemma bus_reads:
  assumes "is_frame E d p" and "\<not> MSGBUS E" and "\<not> HasPrefixString (typeName p) ''ProtoBase''"
    and "kPackageHeaderSize + length (typeName p) < length d"
  obtains pac where "is_frame (bus_env E) d pac" "raw_ok (bus_env E) pac" "typeName pac = typeName p"
    "msgType (header pac) = msgType (header p)" "msgId (header pac) = msgId (header p)"
    "\<forall>f t. is_frame (bus_env E) f (set_msgType t pac) \<longrightarrow> is_frame E f (set_msgType t p)"
proof -
  from assms(1) obtain h tn content where f: "d = wire_frame E h tn content" "frame_ok h tn content"
    "frame_package E h tn content = Some p" and net: "net_order_ok E" by (auto simp: is_frame_def)
  note p = frame_package_header [OF f(3) assms(2)]
  have c: "content \<noteq> []" "\<not> HasPrefixString tn ''ProtoBase''" using assms(3,4) f(1) p(1) by auto
  let ?pac = "\<lparr>header = h, typeName = tn, body = content, msgPtr = None\<rparr>"
  have "frame_package (bus_env E) h tn content = Some ?pac" using c by (simp add: frame_package_def)
  then have "is_frame (bus_env E) d ?pac" unfolding is_frame_def using f(1,2) net by auto
  moreover have "raw_ok (bus_env E) ?pac" using f(2) c by (simp add: raw_ok_def)
  moreover have "is_frame E g (set_msgType t p)" if g: "is_frame (bus_env E) g (set_msgType t ?pac)" for g t
  proof -
    from g obtain h' tn' content' where g': "g = wire_frame E h' tn' content'" "frame_ok h' tn' content'"
      "frame_package (bus_env E) h' tn' content' = Some (set_msgType t ?pac)" by (auto simp: is_frame_def)
    then have "h' = h\<lparr>msgType := t\<rparr>" "tn' = tn" "content' = content"
      using c(2) by (auto simp: frame_package_def set_msgType_def split: if_splits option.splits sum.splits)
    moreover have "frame_package E (h\<lparr>msgType := t\<rparr>) tn content = Some (set_msgType t p)"
      using f(3) by (simp add: frame_package_msgType [OF assms(2)])
    ultimately show ?thesis unfolding is_frame_def using g'(1) f(2) net
      by (intro conjI exI [of _ "h\<lparr>msgType := t\<rparr>"] exI [of _ tn] exI [of _ content]) simp_all
  qed
  ultimately show ?thesis using p by (intro that [of ?pac]) simp_all
qed

text \<open>A message that is not empty has a frame with a content, since zlib makes something even of nothing.\<close>

definition zlib_rejects_empty :: "('d, 'm) env \<Rightarrow> bool" where
  "zlib_rejects_empty E \<longleftrightarrow> (\<forall>n. \<exists>e. uncompress E n [] = Inl e)"

lemma message_frame_length:
  assumes "is_frame E d (received E p m)" and "sendable E p m" and "\<not> MSGBUS E"
    and "0 < ByteSizeLong E m" and "zlib_rejects_empty E"
  shows "kPackageHeaderSize + length (typeName (received E p m)) < length d"
proof -
  from assms(1) obtain h tn content where f: "d = wire_frame E h tn content"
    "frame_package E h tn content = Some (received E p m)" by (auto simp: is_frame_def)
  have "content \<noteq> []"
  proof
    assume c: "content = []"
    obtain e where e: "uncompress E (nat (sint (msgSize h))) [] = Inl e"
      using assms(5) unfolding zlib_rejects_empty_def by blast
    have "received E p m = \<lparr>header = h, typeName = tn, body = [], msgPtr = Some m\<rparr> \<and> sint (msgSize h) = 0"
      using f(2) assms(3) e c
      by (auto simp: frame_package_def received_def split: if_splits option.splits sum.splits)
    then have "msgSize (sent_header E m (header p) (ByteSizeLong E m)) = msgSize h" "sint (msgSize h) = 0"
      by (simp_all add: received_def del: sent_header_fields)
    then have "sint (word_of_nat (ByteSizeLong E m) :: int32) = 0" by simp
    with assms(2,4) show False by (simp add: sendable_def sint_word_of_nat)
  qed
  with f(1) frame_package_header(1) [OF f(2) assms(3)] show ?thesis by simp
qed

section \<open>The ends of the call\<close>

lemma sendable_reply_msgType:
  assumes "sendable E (reply_package E p m) m"
  shows "sendable E (reply_package E (set_msgType t p) m) m"
proof -
  have "snd (encode_content E c (h\<lparr>msgType := t\<rparr>)) = snd (encode_content E c h)" for c h
    by (simp add: encode_content_def split: sum.splits)
  with assms show ?thesis by (simp add: sendable_def reply_package_def set_msgType_def iszip_def)
qed

lemma provider_reads:
  fixes c :: "('u, 'r, 'pub, 'del) client" and E :: "('d, 'u pb_message) env"
  assumes "buf_inv (cl_readBuffer c)" and "contents (cl_readBuffer c) = []"
    and "handlerList c = [PublishHandler pm, DeliverHandler dm pl]" and "threads pl \<noteq> []"
    and "isOnline c" and "\<not> cl_stopped c" and "pendingList c = []"
    and "is_frame E d p" and "msgType (header p) = DELIVER"
    and "map_of dm (typeName p) = Some func" and "call func p = Some rsp"
    and "net_order_ok E" and "zlib_ok E" and "proto_ok E rsp" and "sendable E (reply_package E p rsp) rsp"
  obtains c1 c2 c3 c4 q d' where "AsioClient_doRead E False d c = Inr (c1,
      [PostResponse (length (cl_store c)), ClientRead] :: ('u, 'r, 'pub, 'del, 'ep) client_effect list)"
    "doResponse now (length (cl_store c)) c1 = Inr (c2, [] :: ('u, 'r, 'pub, 'del, 'ep) client_effect list)"
    "handlerList c2 = [PublishHandler pm,
       DeliverHandler dm (pl\<lparr>callers := callers pl @ [Calling (func, length (cl_store c))], called := called pl @ [(func, length (cl_store c))]\<rparr>)]"
    "deliver_job E call (func, length (cl_store c)) c2
      = Inr (c3, [PostStartWrite q] :: ('u, 'r, 'pub, 'del, 'ep) client_effect list)"
    "startWrite E q c3 = Inr (c4, [ClientWrite d' (sint (msgId (header p)))] :: ('u, 'r, 'pub, 'del, 'ep) client_effect list)"
    "is_frame E d' (received E (reply_package E p rsp) rsp)"
proof -
  obtain b where rd: "AsioClient_doRead E False d c = Inr (c\<lparr>cl_readBuffer := b, cl_store := cl_store c @ [p]\<rparr>,
      [PostResponse (length (cl_store c)), ClientRead] :: ('u, 'r, 'pub, 'del, 'ep) client_effect list)"
    "buf_inv b" "contents b = []"
    using client_reads_frame [OF assms(1,2,8)] .
  let ?c1 = "c\<lparr>cl_readBuffer := b, cl_store := cl_store c @ [p]\<rparr>" and ?r = "length (cl_store c)"
  have at: "cl_store ?c1 ! ?r = p" "?r < length (cl_store ?c1)" by simp_all
  have h: "handlerList ?c1 = [PublishHandler pm, DeliverHandler dm pl]" "isOnline ?c1" "\<not> cl_stopped ?c1"
    "msgType (header (cl_store ?c1 ! ?r)) = DELIVER" "map_of dm (typeName (cl_store ?c1 ! ?r)) = Some func"
    "call func (cl_store ?c1 ! ?r) = Some rsp"
    using assms(3,5,6,9-11) unfolding at(1) by simp_all
  obtain c2 c3 where c3: "doResponse now ?r ?c1 = Inr (c2, [] :: ('u, 'r, 'pub, 'del, 'ep) client_effect list)"
    "handlerList c2 = [PublishHandler pm, DeliverHandler dm (pl\<lparr>callers := callers pl @ [Calling (func, ?r)], called := called pl @ [(func, ?r)]\<rparr>)]"
    "deliver_job E call (func, ?r) c2
      = Inr (c3, [PostStartWrite (length (cl_store ?c1))] :: ('u, 'r, 'pub, 'del, 'ep) client_effect list)"
    "cl_store c3 = cl_store ?c1 @ [reply_package E p rsp]" "pendingList c3 = []"
    by (rule deliver_answered [where call = call and E = E and now = now, OF h(1) assms(4) at(2) h(4-6,2,3)])
      (simp add: at(1) assms(7))
  let ?q = "length (cl_store ?c1)"
  have q: "cl_store c3 ! ?q = reply_package E p rsp" "?q < length (cl_store c3)"
    unfolding c3(4) by (simp_all add: nth_append)
  obtain c4 d' where "startWrite E ?q c3
      = Inr (c4, [ClientWrite d' (sint (msgId (header p)))] :: ('u, 'r, 'pub, 'del, 'ep) client_effect list)"
    "is_frame E d' (received E (reply_package E p rsp) rsp)"
    using package_written [OF assms(12,13) c3(5) q(2) assms(14)] assms(15) unfolding q(1) by auto
  with rd(1) c3(1-3) show ?thesis by (rule that)
qed

section \<open>The call\<close>

text \<open>
  In the bus the pre-handler is all that happens to such a package: the dispatcher has no handler for it.
\<close>

lemma MsgBus_dispatch:
  assumes "MsgBus_new (bus_env E) = Inr (tm :: ('h task, 'm) taskManager, k)"
    and "\<not> HasPrefixString (typeName pac) ''ProtoBase''"
  shows "preTask tm = Some PreHandle \<and> dispatch pac i tm = Discarded"
proof -
  obtain tm0 :: "('h task, 'm) taskManager" where "TaskManager_new 2 2 = Inr tm0"
    and tm: "tm = AsioServer_setPreHandleTask (Some PreHandle) (AsioServer_init tm0)"
    using assms(1) by (auto simp: MsgBus_new_def AsioServer_new_def rbind_eq_Inr)
  then have "handler tm0 = Map.empty" using TaskManager_new_workers(4) by blast
  moreover have "HasPrefixString SubscribeReq_FullMessageName ''ProtoBase''"
    "HasPrefixString HeartbeatReq_FullMessageName ''ProtoBase''"
    by (simp_all add: SubscribeReq_FullMessageName_def HeartbeatReq_FullMessageName_def HasPrefixString_def)
  ultimately have "handler tm (typeName pac) = None"
    using assms(2) by (auto simp: tm AsioServer_setPreHandleTask_def setPreHandleTask_def AsioServer_init_def
        AsioServer_addHandleMessage_def addHandleTask_def)
  then show ?thesis by (simp add: dispatch_def tm AsioServer_setPreHandleTask_def setPreHandleTask_def)
qed

lemma request_forwarded:
  assumes "\<not> MSGBUS E" and "net_order_ok E" and "is_frame E d p"
    and "\<not> HasPrefixString (typeName p) ''ProtoBase''" and "kPackageHeaderSize + length (typeName p) < length d"
    and "msgType (header p) = REQREP" and "sint (msgId (header p)) = i"
    and "buf_inv (readBuffer s)" and "contents (readBuffer s) = []"
    and "providers (typeName p) (room k) = [pid]"
    and "\<forall>e \<in> set es. event_ok (bus_env E) e" and "\<forall>e \<in> set es. event_id e \<noteq> Some (msgId (header p))"
  obtains s' pac k1 f out where "Session_doRead (bus_env E) False d s = Inr (s', [HandleMessage pac, AsyncRead])"
    "bus_run (bus_env E) (BusPackage cid pac # es) k = Inr k1"
    "outbox k1 = outbox k @ (pid, PostWriteBuffer f) # out"
    "is_frame E (contents f) (set_msgType DELIVER p)"
    "room k1 = room_after (room_ops es) (room k)" "msgSessionCache k1 i = Some cid"
proof -
  let ?E = "bus_env E"
  have net: "net_order_ok ?E" using assms(2) by simp
  obtain pac where pac: "is_frame ?E d pac" "raw_ok ?E pac" "typeName pac = typeName p"
    "msgType (header pac) = msgType (header p)" "msgId (header pac) = msgId (header p)"
    and fwd: "\<forall>f t. is_frame ?E f (set_msgType t pac) \<longrightarrow> is_frame E f (set_msgType t p)"
    by (rule bus_reads [OF assms(3,1,4,5)])
  have pt: "msgType (header pac) = REQREP" by (simp add: pac(4) assms(6))
  obtain s' where s': "Session_doRead ?E False d s = Inr (s', [HandleMessage pac, AsyncRead])"
    using session_reads_frame [OF assms(8,9) pac(1)] .
  obtain k0 where k0: "bus_step ?E (BusPackage cid pac) k = Inr k0"
    "posts_to ?E (set_msgType DELIVER pac) [pid] (k\<lparr>msgSessionCache := (msgSessionCache k)(i \<mapsto> cid)\<rparr>) k0"
    using bus_request [OF net pac(2) pt, of cid k] by (auto simp: pac(3,5) assms(7,10))
  obtain f where f: "is_frame ?E (contents f) (set_msgType DELIVER pac)" "room k0 = room k"
    "outbox k0 = outbox k @ [(pid, PostWriteBuffer f)]" "msgSessionCache k0 i = Some cid"
    by (rule posts_toE [OF k0(2)]) simp
  obtain k1 out where k1: "bus_run ?E es k0 = Inr k1" "room k1 = room_after (room_ops es) (room k)"
    "outbox k1 = outbox k0 @ out" "msgSessionCache k1 i = Some cid"
    using bus_run_keeps [OF net assms(11,12), of k0] f(2,4) by (auto simp: assms(7))
  have "bus_run ?E (BusPackage cid pac # es) k = Inr k1" "outbox k1 = outbox k @ (pid, PostWriteBuffer f) # out"
    using k0(1) k1(1,3) f(3) by (simp_all del: bus_step.simps)
  from that [OF s' this fwd [rule_format, OF f(1)] k1(2,4)] show ?thesis .
qed

lemma answer_returned:
  assumes "\<not> MSGBUS E" and "net_order_ok E" and "is_frame E d p"
    and "\<not> HasPrefixString (typeName p) ''ProtoBase''" and "kPackageHeaderSize + length (typeName p) < length d"
    and "msgType (header p) = DELIVER" and "buf_inv (readBuffer t)" and "contents (readBuffer t) = []"
    and "msgSessionCache k (sint (msgId (header p))) = Some cid" and "0 < cid"
    and "sessionCache (room k) cid = Some cid"
  obtains t' ans k' f where "Session_doRead (bus_env E) False d t = Inr (t', [HandleMessage ans, AsyncRead])"
    "bus_step (bus_env E) (BusPackage pid ans) k = Inr k'" "outbox k' = outbox k @ [(cid, PostWriteBuffer f)]"
    "is_frame E (contents f) (set_msgType REQREP p)"
proof -
  let ?E = "bus_env E"
  have net: "net_order_ok ?E" using assms(2) by simp
  obtain ans where ans: "is_frame ?E d ans" "raw_ok ?E ans" "typeName ans = typeName p"
    "msgType (header ans) = msgType (header p)" "msgId (header ans) = msgId (header p)"
    and ret: "\<forall>f t. is_frame ?E f (set_msgType t ans) \<longrightarrow> is_frame E f (set_msgType t p)"
    by (rule bus_reads [OF assms(3,1,4,5)])
  have at: "msgType (header ans) = DELIVER" "msgSessionCache k (sint (msgId (header ans))) = Some cid"
    by (simp_all only: ans(4,5) assms(6,9))
  obtain t' where t': "Session_doRead ?E False d t = Inr (t', [HandleMessage ans, AsyncRead])"
    using session_reads_frame [OF assms(7,8) ans(1)] .
  obtain k' where k': "bus_step ?E (BusPackage pid ans) k = Inr k'"
    "posts_to ?E (set_msgType REQREP ans) (case sessionCache (room k) cid of None \<Rightarrow> [] | Some p \<Rightarrow> [p])
       (k\<lparr>msgSessionCache := (msgSessionCache k)(sint (msgId (header ans)) := None)\<rparr>) k'"
    using bus_answer [OF net ans(2) at assms(10)] .
  obtain f where f: "is_frame ?E (contents f) (set_msgType REQREP ans)"
    "outbox k' = outbox k @ [(cid, PostWriteBuffer f)]"
    by (rule posts_toE [OF k'(2)]) (simp add: assms(11))
  from that [OF t' k'(1) f(2) ret [rule_format, OF f(1)]] show ?thesis .
qed

text \<open>The way back as a whole: from the frame of the answer to the callback of the request.\<close>

lemma answer_called:
  fixes c :: "('u, 'r, 'pub, 'del) client"
  assumes "\<not> MSGBUS E" and "net_order_ok E" and "is_frame E d p"
    and "\<not> HasPrefixString (typeName p) ''ProtoBase''" and "kPackageHeaderSize + length (typeName p) < length d"
    and "msgType (header p) = DELIVER" and "buf_inv (readBuffer t)" and "contents (readBuffer t) = []"
    and "msgSessionCache k (sint (msgId (header p))) = Some cid" and "0 < cid"
    and "sessionCache (room k) cid = Some cid"
    and "buf_inv (cl_readBuffer c)" and "contents (cl_readBuffer c) = []"
    and "sint (msgId (header p)) = i" and "requestMessage c i = Some data" and "rq_res data = UserResponse cb"
    and "msgPtr p = Some rsp"
  obtains t' ans k' f c3 c4 where "Session_doRead (bus_env E) False d t = Inr (t', [HandleMessage ans, AsyncRead])"
    "bus_step (bus_env E) (BusPackage pid ans) k = Inr k'" "outbox k' = outbox k @ [(cid, PostWriteBuffer f)]"
    "AsioClient_doRead E False (contents f) c
      = Inr (c3, [PostResponse (length (cl_store c)), ClientRead] :: ('u, 'r, 'pub, 'del, 'ep) client_effect list)"
    "doResponse now (length (cl_store c)) c3 = Inr (c4,
      [CallResponse cb eSuccess (rq_pac data) (Some (length (cl_store c)))] :: ('u, 'r, 'pub, 'del, 'ep) client_effect list)"
    "msgPtr (cl_store c4 ! length (cl_store c)) = Some rsp" "requestMessage c4 i = None"
proof -
  obtain t' ans k' f where bus: "Session_doRead (bus_env E) False d t = Inr (t', [HandleMessage ans, AsyncRead])"
    "bus_step (bus_env E) (BusPackage pid ans) k = Inr k'" "outbox k' = outbox k @ [(cid, PostWriteBuffer f)]"
    and f: "is_frame E (contents f) (set_msgType REQREP p)"
    using answer_returned [OF assms(1-11)] .
  have m: "msgType (header (set_msgType REQREP p)) = REQREP" "sint (msgId (header (set_msgType REQREP p))) = i"
    using assms(14) by simp_all
  obtain c3 c4 where c3: "AsioClient_doRead E False (contents f) c
      = Inr (c3, [PostResponse (length (cl_store c)), ClientRead] :: ('u, 'r, 'pub, 'del, 'ep) client_effect list)"
    "doResponse now (length (cl_store c)) c3 = Inr (c4,
      [CallResponse cb eSuccess (rq_pac data) (Some (length (cl_store c)))] :: ('u, 'r, 'pub, 'del, 'ep) client_effect list)"
    "cl_store c4 ! length (cl_store c) = set_msgType REQREP p" "requestMessage c4 = (requestMessage c)(i := None)"
    using response_called [OF assms(12,13) f m assms(15,16)] .
  have "msgPtr (cl_store c4 ! length (cl_store c)) = Some rsp" "requestMessage c4 i = None"
    by (simp_all add: c3(3,4) assms(17))
  from that [OF bus c3(1,2) this] show ?thesis .
qed

text \<open>
  Property C2. A call through the bus, end to end, provided that no package that passes the bus between
  the request and the answer carries the same message id, and that the session that asks stays joined. A
  client posts a request of a type that one provider has registered a function for. The bus forwards it to
  the provider; the provider's function is called with it, on a thread of its pool; the answer goes back
  through the bus to the client's session alone; and the client that reads it calls the callback of the
  request once, with the success code and the answer. Request and answer may not be empty. Without the
  first proviso the answer may go to another session (\<open>bus_id_collision\<close>).
\<close>

theorem bus_call:
  fixes c :: "('u, 'r, 'pub, 'del) client" and b :: "('u, 'r2, 'pub2, 'del2) bus_stub"
    and E :: "('d, 'u pb_message) env"
  assumes "\<not> MSGBUS E" and "net_order_ok E" and "zlib_ok E" and "zlib_rejects_empty E"
    and "isOnline c" and "\<not> cl_stopped c" and "pendingList c = []"
    and "buf_inv (cl_readBuffer c)" and "contents (cl_readBuffer c) = []"
    and "provider b pm dm pl" and "threads pl \<noteq> []"
    and "isOnline (bs_client b)" and "\<not> cl_stopped (bs_client b)" and "pendingList (bs_client b) = []"
    and "buf_inv (cl_readBuffer (bs_client b))" and "contents (cl_readBuffer (bs_client b)) = []"
    and "buf_inv (readBuffer s)" and "contents (readBuffer s) = []"
    and "buf_inv (readBuffer t)" and "contents (readBuffer t) = []"
    and "next_msgId (cl_id c) = (i, n)"
    and "proto_ok E req" and "sendable E (client_package E REQREP isOrder i req) req"
    and "0 < ByteSizeLong E req" and "\<not> HasPrefixString (GetTypeName E req) ''ProtoBase''"
    and "rq = received E (client_package E REQREP isOrder i req) req"
    and "map_of dm (GetTypeName E req) = Some func" and "call func (set_msgType DELIVER rq) = Some rsp"
    and "proto_ok E rsp" and "sendable E (reply_package E rq rsp) rsp"
    and "0 < ByteSizeLong E rsp" and "\<not> HasPrefixString (GetTypeName E rsp) ''ProtoBase''"
    and "providers (GetTypeName E req) (room k) = [pid]" and "0 < cid"
    and "\<forall>e \<in> set es. event_ok (bus_env E) e" and "\<forall>e \<in> set es. event_id e \<noteq> Some (word_of_int i)"
    and "sessionCache (room_after (room_ops es) (room k)) cid = Some cid"
  shows "\<exists>p c1 c2 d s' pac k1 f out r b1 b2 b3 q b4 d' t' ans k2 f' x c3 c4.
    postMessage_order E now isOrder (Some req) (UserResponse cb) ms c
      = Inr (eSuccess, c1, [PostStartWrite p] :: ('u, 'r, 'pub, 'del, 'ep) client_effect list) \<and>
    startWrite E p c1 = Inr (c2, [ClientWrite d i] :: ('u, 'r, 'pub, 'del, 'ep) client_effect list) \<and>
    Session_doRead (bus_env E) False d s = Inr (s', [HandleMessage pac, AsyncRead]) \<and>
    bus_run (bus_env E) (BusPackage cid pac # es) k = Inr k1 \<and>
    outbox k1 = outbox k @ (pid, PostWriteBuffer f) # out \<and>
    AsioClient_doRead E False (contents f) (bs_client b)
      = Inr (b1, [PostResponse r, ClientRead] :: ('u, 'r2, 'pub2, 'del2, 'ep) client_effect list) \<and>
    doResponse now' r b1 = Inr (b2, [] :: ('u, 'r2, 'pub2, 'del2, 'ep) client_effect list) \<and>
    handlerList b2 = [PublishHandler pm, DeliverHandler dm (pl\<lparr>callers := callers pl @ [Calling (func, r)], called := called pl @ [(func, r)]\<rparr>)] \<and>
    deliver_job E call (func, r) b2
      = Inr (b3, [PostStartWrite q] :: ('u, 'r2, 'pub2, 'del2, 'ep) client_effect list) \<and>
    startWrite E q b3 = Inr (b4, [ClientWrite d' i] :: ('u, 'r2, 'pub2, 'del2, 'ep) client_effect list) \<and>
    Session_doRead (bus_env E) False d' t = Inr (t', [HandleMessage ans, AsyncRead]) \<and>
    bus_step (bus_env E) (BusPackage pid ans) k1 = Inr k2 \<and>
    outbox k2 = outbox k1 @ [(cid, PostWriteBuffer f')] \<and>
    AsioClient_doRead E False (contents f') c2
      = Inr (c3, [PostResponse x, ClientRead] :: ('u, 'r, 'pub, 'del, 'ep) client_effect list) \<and>
    doResponse now'' x c3
      = Inr (c4, [CallResponse cb eSuccess p (Some x)] :: ('u, 'r, 'pub, 'del, 'ep) client_effect list) \<and>
    msgPtr (cl_store c4 ! x) = Some rsp \<and> requestMessage c4 i = None"
proof -
  let ?p = "length (cl_store c)" and ?r = "length (cl_store (bs_client b))"
  let ?dq = "set_msgType DELIVER rq" and ?rp = "received E (reply_package E (set_msgType DELIVER rq) rsp) rsp"
  have id: "sint (word_of_int i :: int32) = i" using sint_word_of_int_32 [OF next_msgId_range [OF assms(21)]] .
  obtain c1 c2 d where w: "postMessage_order E now isOrder (Some req) (UserResponse cb) ms c = Inr (eSuccess, c1,
      [PostStartWrite ?p] :: ('u, 'r, 'pub, 'del, 'ep) client_effect list)"
    "startWrite E ?p c1 = Inr (c2, [ClientWrite d i] :: ('u, 'r, 'pub, 'del, 'ep) client_effect list)"
    "is_frame E d rq" "requestMessage c2 = RequestMessage_put now i ?p (UserResponse cb) ms (requestMessage c)"
    "cl_readBuffer c2 = cl_readBuffer c"
    using request_written [OF assms(2,3,5-7,21-23)] unfolding assms(26) .
  have rq: "typeName rq = GetTypeName E req" "msgType (header rq) = REQREP" "msgId (header rq) = word_of_int i"
    by (simp_all add: assms(26)) (simp add: received_def)
  have q: "\<not> HasPrefixString (typeName rq) ''ProtoBase''" "kPackageHeaderSize + length (typeName rq) < length d"
    "sint (msgId (header rq)) = i" "providers (typeName rq) (room k) = [pid]"
    "\<forall>e \<in> set es. event_id e \<noteq> Some (msgId (header rq))"
    using message_frame_length [OF w(3) [unfolded assms(26)] assms(23,1,24,4)] assms(25,33,36)
    by (simp_all add: rq id flip: assms(26))
  obtain s' pac k1 f out where bus: "Session_doRead (bus_env E) False d s = Inr (s', [HandleMessage pac, AsyncRead])"
    "bus_run (bus_env E) (BusPackage cid pac # es) k = Inr k1" "outbox k1 = outbox k @ (pid, PostWriteBuffer f) # out"
    and k1: "is_frame E (contents f) ?dq" "room k1 = room_after (room_ops es) (room k)" "msgSessionCache k1 i = Some cid"
    using request_forwarded [OF assms(1,2) w(3) q(1,2) rq(2) q(3) assms(17,18) q(4) assms(35) q(5)] .
  have snd: "sendable E (reply_package E ?dq rsp) rsp" by (rule sendable_reply_msgType [OF assms(30)])
  have h: "handlerList (bs_client b) = [PublishHandler pm, DeliverHandler dm pl]"
    using assms(10) by (simp add: provider_def)
  have dq: "msgType (header ?dq) = DELIVER" "map_of dm (typeName ?dq) = Some func" "sint (msgId (header ?dq)) = i"
    using assms(27) by (simp_all add: rq(1,3) id)
  obtain b1 b2 b3 b4 q d' where b: "AsioClient_doRead E False (contents f) (bs_client b)
      = Inr (b1, [PostResponse ?r, ClientRead] :: ('u, 'r2, 'pub2, 'del2, 'ep) client_effect list)"
    "doResponse now' ?r b1 = Inr (b2, [] :: ('u, 'r2, 'pub2, 'del2, 'ep) client_effect list)"
    "handlerList b2 = [PublishHandler pm, DeliverHandler dm (pl\<lparr>callers := callers pl @ [Calling (func, ?r)], called := called pl @ [(func, ?r)]\<rparr>)]"
    "deliver_job E call (func, ?r) b2
      = Inr (b3, [PostStartWrite q] :: ('u, 'r2, 'pub2, 'del2, 'ep) client_effect list)"
    "startWrite E q b3 = Inr (b4, [ClientWrite d' i] :: ('u, 'r2, 'pub2, 'del2, 'ep) client_effect list)"
    "is_frame E d' ?rp"
    by (rule provider_reads [where call = call and now = now', OF assms(15,16) h assms(11-14) k1(1) dq(1,2)
      assms(28,2,3,29) snd, unfolded dq(3)])
  have rp: "\<not> HasPrefixString (typeName ?rp) ''ProtoBase''" "kPackageHeaderSize + length (typeName ?rp) < length d'"
    "msgType (header ?rp) = DELIVER" "sint (msgId (header ?rp)) = i" "msgSessionCache k1 (sint (msgId (header ?rp))) = Some cid"
    "sessionCache (room k1) cid = Some cid"
    using message_frame_length [OF b(6) snd assms(1,31,4)] assms(32,37) k1(2,3) by (simp_all add: rq(3) id)
      (simp_all add: received_def)
  let ?x = "length (cl_store c2)" and ?data = "Data_new now ?p (UserResponse cb) ms"
  have data: "rq_pac ?data = ?p" "rq_res ?data = UserResponse cb" "msgPtr ?rp = Some rsp"
    "requestMessage c2 i = Some ?data" "buf_inv (cl_readBuffer c2)" "contents (cl_readBuffer c2) = []"
    using w(4) assms(8,9) by (simp_all add: Data_new_def RequestMessage_put_def w(5))
  obtain t' ans k2 f' c3 c4 where "Session_doRead (bus_env E) False d' t = Inr (t', [HandleMessage ans, AsyncRead])"
    "bus_step (bus_env E) (BusPackage pid ans) k1 = Inr k2" "outbox k2 = outbox k1 @ [(cid, PostWriteBuffer f')]"
    "AsioClient_doRead E False (contents f') c2
      = Inr (c3, [PostResponse ?x, ClientRead] :: ('u, 'r, 'pub, 'del, 'ep) client_effect list)"
    "doResponse now'' ?x c3
      = Inr (c4, [CallResponse cb eSuccess (rq_pac ?data) (Some ?x)] :: ('u, 'r, 'pub, 'del, 'ep) client_effect list)"
    "msgPtr (cl_store c4 ! ?x) = Some rsp" "requestMessage c4 i = None"
    using answer_called [OF assms(1,2) b(6) rp(1-3) assms(19,20) rp(5) assms(34) rp(6) data(5,6) rp(4) data(4,2,3)] .
  note ret = this [unfolded data(1)]
  show ?thesis by (intro exI conjI) (fact w(1) w(2) bus b(1-5) ret)+
qed

text \<open>A bus on which session 3 delivers \<^verbatim>\<open>PingPongReq\<close>, and session 4 asks.\<close>

definition call_core :: "unit core" where
  "call_core = core_new\<lparr>room := SessionRoom_join id (Some 4) (SessionRoom_join id (Some 3)
     (addSubscribe 3 3 PingPongReq_FullMessageName SessionRoom_new))\<rparr>"

lemma call_core_room:
  "sessionCache (room call_core) 4 = Some 4" "providers PingPongReq_FullMessageName (room call_core) = [3]"
  "outbox call_core = []"
  by (simp_all add: call_core_def core_new_def SessionRoom_join_def addSubscribe_def SessionRoom_new_def
      insertId_def PUBSUB_def DELIVER_def cached_ids_def live_publishers_def map_filter_def providers_def)

definition call_pool :: "(string \<times> ref) pool" where
  "call_pool = (ThreadPool_new 1)\<lparr>running := True, threads := [AtWhile]\<rparr>"

definition call_stub :: "(unit, string, string, string) bus_stub" where
  "call_stub = \<lparr>bs_client = demo_client\<lparr>handlerList := [PublishHandler [],
     DeliverHandler [(PingPongReq_FullMessageName, ''g'')] call_pool]\<rparr>,
     bs_publishHandler = 0, bs_deliverHandler = 1\<rparr>"

abbreviation call_env :: "(unit pb_message, unit pb_message) env" where
  "call_env \<equiv> pb_demo\<lparr>s_enableCompressSize := 1024\<rparr>"

abbreviation call_request :: "unit pb_message Package" where
  "call_request \<equiv> received call_env (client_package call_env REQREP False 1 demo_ping) demo_ping"

lemma call_messages:
  "proto_ok call_env demo_ping" "proto_ok call_env demo_pong" "zlib_rejects_empty call_env"
  "GetTypeName call_env demo_ping = PingPongReq_FullMessageName"
  "0 < ByteSizeLong call_env demo_ping" "0 < ByteSizeLong call_env demo_pong"
  "\<not> HasPrefixString (GetTypeName call_env demo_ping) ''ProtoBase''"
  "\<not> HasPrefixString (GetTypeName call_env demo_pong) ''ProtoBase''"
proof -
  have u: "\<not> have_unknown_fields sample_wire (unknown_default sample_wire)"
    using unknown_default_none [OF sample_wire_ok] by simp
  have t: "pb_string sample_wire ''hi''" by (simp add: pb_string_def sample_wire_def)
  show "proto_ok call_env demo_ping" "proto_ok call_env demo_pong"
    using u t by (auto intro!: pb_proto_ok [OF sample_wire_ok demo_compress_ok(1)] simp: demo_ping_def demo_pong_def
        PingPongReq_ok_def PingPongRsp_ok_def PingPongReq_set_content_def PingPongReq_new_def
        PingPongRsp_set_content_def PingPongRsp_new_def)
  show "zlib_rejects_empty call_env"
    by (simp add: zlib_rejects_empty_def pb_demo_def pb_env_def sample_env_def)
  show "GetTypeName call_env demo_ping = PingPongReq_FullMessageName" by (simp add: demo_ping_def)
  show "0 < ByteSizeLong call_env demo_ping" "0 < ByteSizeLong call_env demo_pong"
    by (simp_all add: demo_ping_def demo_pong_def PingPongReq_ByteSizeLong_def PingPongRsp_ByteSizeLong_def
        PingPongReq_set_content_def PingPongRsp_set_content_def PingPongReq_new_def PingPongRsp_new_def
        PingPongReq_content_def PingPongRsp_content_def sample_wire_def Let_def)
  show "\<not> HasPrefixString (GetTypeName call_env demo_ping) ''ProtoBase''"
    "\<not> HasPrefixString (GetTypeName call_env demo_pong) ''ProtoBase''"
    by (simp_all add: demo_ping_def demo_pong_def PingPongReq_FullMessageName_def PingPongRsp_FullMessageName_def
        HasPrefixString_def)
qed

theorem bus_call_witness:
  "\<exists>p c1 pac k1 f out r b2 b3 q ans k2 f' x c3 c4.
    postMessage_order call_env 0 False (Some demo_ping) (UserResponse ''f'') 5000 demo_client
      = Inr (eSuccess, c1, [PostStartWrite p] :: (unit, string, string, string, unit) client_effect list) \<and>
    bus_run (bus_env call_env) [BusPackage 4 pac] call_core = Inr k1 \<and>
    outbox k1 = (3, PostWriteBuffer f) # out \<and>
    deliver_job call_env (\<lambda>g p. Some demo_pong) (''g'', r) b2
      = Inr (b3, [PostStartWrite q] :: (unit, string, string, string, unit) client_effect list) \<and>
    bus_step (bus_env call_env) (BusPackage 3 ans) k1 = Inr k2 \<and>
    outbox k2 = outbox k1 @ [(4, PostWriteBuffer f')] \<and>
    doResponse 9 x c3
      = Inr (c4, [CallResponse ''f'' eSuccess p (Some x)] :: (unit, string, string, string, unit) client_effect list) \<and>
    msgPtr (cl_store c4 ! x) = Some demo_pong"
proof -
  have id: "next_msgId (cl_id demo_client) = (1, 1)"
    by (simp add: demo_client_def next_msgId_def wrap32_id c_rem_def INT_MAX_def)
  have c: "isOnline demo_client" "\<not> cl_stopped demo_client" "pendingList demo_client = []"
    "buf_inv (cl_readBuffer demo_client)" "contents (cl_readBuffer demo_client) = []" "cl_store demo_client = []"
    "buf_inv (readBuffer demo_session)" "contents (readBuffer demo_session) = []"
    by (simp_all add: demo_client_def demo_session_def)
  have b: "provider call_stub [] [(PingPongReq_FullMessageName, ''g'')] call_pool" "threads call_pool \<noteq> []"
    "isOnline (bs_client call_stub)" "\<not> cl_stopped (bs_client call_stub)" "pendingList (bs_client call_stub) = []"
    "buf_inv (cl_readBuffer (bs_client call_stub))" "contents (cl_readBuffer (bs_client call_stub)) = []"
    using c by (simp_all add: provider_def call_stub_def call_pool_def)
  have m: "\<not> MSGBUS call_env" "map_of [(PingPongReq_FullMessageName, ''g'')] (GetTypeName call_env demo_ping) = Some ''g''"
    "providers (GetTypeName call_env demo_ping) (room call_core) = [3]" "(0 :: int) < 4"
    "sessionCache (room_after (room_ops []) (room call_core)) 4 = Some 4"
    "\<forall>e \<in> set []. event_ok (bus_env call_env) e" "\<forall>e \<in> set []. event_id e \<noteq> Some (word_of_int 1)"
    unfolding call_messages(4) by (simp_all add: call_core_room room_after_def room_ops_def map_filter_simps)
  from bus_call [where call = "\<lambda>g p. Some demo_pong" and cb = "''f''" and now = 0 and isOrder = False and ms = 5000
      and now'' = 9 and 'ep = unit, OF m(1) demo_compress_ok(2,3) call_messages(3) c(1-5) b c(7,8,7,8) id
      call_messages(1) demo_ping_sendable(1) call_messages(5,7) refl m(2) refl call_messages(2) demo_ping_sendable(2)
      call_messages(6,8) m(3,4,6,7,5), of 0]
  show ?thesis unfolding call_core_room(3) append_Nil
    by (elim exE conjE) (intro exI conjI, assumption+)
qed

end
