(* ===== verification/Pub_Sub.thy ===== *)
theory Pub_Sub
  imports MsgBus Rpc
begin

text \<open>
  Publishing and subscribing, end to end: the subscription that a client posts when it is connected, and
  a publication of the server, any changes of the server's room later, that is handed to the function the
  client has registered for its type.
\<close>

section \<open>Between the subscription and the publication\<close>

fun keeps_subscription :: "int \<Rightarrow> string \<Rightarrow> int room_op \<Rightarrow> bool" where
  "keeps_subscription i n (Leave p) = (p \<noteq> Some i)"
| "keeps_subscription i n (DelSubscribe j t m) = (j = i \<longrightarrow> t = sint PUBSUB \<longrightarrow> m \<noteq> n)"
| "keeps_subscription i n op = True"

definition subscribed :: "int \<Rightarrow> string \<Rightarrow> int room \<Rightarrow> bool" where
  "subscribed i n r \<longleftrightarrow> i \<in> cached_ids (subscribeCache r) n \<and> sessionCache r i = Some i"

lemma subscribed_step:
  assumes "keeps_subscription i n op" and "subscribed i n r"
  shows "subscribed i n (room_step id op r)"
proof (cases op)
  case (Leave p)
  with assms show ?thesis
    by (cases p) (auto simp: subscribed_def SessionRoom_leave_def leave_protos_def leave_sessions_def st.drop_members)
next
  case (DelSubscribe j t m)
  with assms show ?thesis by (auto simp: subscribed_def delSubscribe_def st.del_members)
next
  case (Join p)
  with assms show ?thesis by (cases p) (auto simp: subscribed_def SessionRoom_join_def)
next
  case (AddSubscribe j t m)
  with assms show ?thesis by (auto simp: subscribed_def addSubscribe_def st.add_members)
qed

lemma subscribed_after:
  "\<forall>op \<in> set ops. keeps_subscription i n op \<Longrightarrow> subscribed i n r \<Longrightarrow> subscribed i n (room_after ops r)"
  unfolding room_after_def by (induction ops arbitrary: r) (simp_all add: subscribed_step)

section \<open>The publication\<close>

lemma filter_zip_one:
  assumes "list_all2 P is bs" and "distinct is" and "i \<in> set is"
  obtains b where "filter (\<lambda>e. fst e = i) (zip is (map f bs)) = [(i, f b)]" "P i b"
proof -
  have none: "filter (\<lambda>e. fst e = i) (zip js (map f ds)) = []" if "i \<notin> set js" for js ds
    using that by (auto simp: filter_empty_conv dest: set_zip_leftD)
  obtain xs ys where split: "is = xs @ i # ys" using assms(3) by (meson split_list)
  then obtain ds b es where bs: "bs = ds @ b # es" "list_all2 P xs ds" "P i b"
    using assms(1) unfolding split by (auto simp: list_all2_append1 list_all2_Cons1)
  have "i \<notin> set xs" "i \<notin> set ys" using assms(2) unfolding split by auto
  then show ?thesis
    using bs list_all2_lengthD [OF bs(2)] by (intro that [of b]) (simp_all add: none split)
qed

lemma publication_posted:
  fixes k :: "'u core"
  assumes "core_wf k" and "net_order_ok E" and "zlib_ok E" and "proto_ok E m"
    and "\<forall>n. sendable E (publish_package E n m) m" and "subscribed i (GetTypeName E m) (room k)"
  obtains k' out b l where "AsioServer_publishMessage E (Some m) k = Inr k'" "outbox k' = outbox k @ out"
    "filter (\<lambda>e. fst e = i) out = [(i, PostWriteBuffer b)]"
    "is_frame E (contents b) (received E (publish_package E l m) m)"
proof -
  let ?ids = "cached_ids (subscribeCache (room k)) (GetTypeName E m)"
  let ?is = "live_publishers (room k) ?ids"
  obtain k' bs where k': "AsioServer_publishMessage E (Some m) k = Inr k'"
    "list_all2 (publication E m (sessions k)) ?is bs"
    "outbox k' = outbox k @ zip ?is (map PostWriteBuffer bs)" "distinct ?is"
    using server_publishes [OF assms(1-5) refl] by blast
  have "finite ?ids" using assms(1) by (simp add: core_wf_def)
  then have "i \<in> set ?is" using assms(6) by (auto simp: set_live_publishers subscribed_def)
  then obtain b where "filter (\<lambda>e. fst e = i) (zip ?is (map PostWriteBuffer bs)) = [(i, PostWriteBuffer b :: 'u pb_message effect)]"
    "publication E m (sessions k) i b"
    using filter_zip_one [OF k'(2,4)] by blast
  then obtain l where "filter (\<lambda>e. fst e = i) (zip ?is (map PostWriteBuffer bs)) = [(i, PostWriteBuffer b :: 'u pb_message effect)]"
    "is_frame E (contents b) (received E (publish_package E l m) m)"
    unfolding publication_def by blast
  then show ?thesis by (rule that [OF k'(1,3)])
qed

lemma no_other_handler:
  assumes "\<forall>h \<in> set hs. handler_type h = sint DELIVER" and "msgType (header p) = PUBSUB"
  shows "handlers_onPackage r p hs = (hs, [])"
  using assms
proof (induction hs)
  case (Cons h hs)
  then show ?case by (cases h) (simp_all add: PUBSUB_def DELIVER_def)
qed simp

lemma publication_called:
  fixes c :: "('u, 'r, 'pub, 'del) client"
  assumes "buf_inv (cl_readBuffer c)" and "contents (cl_readBuffer c) = []"
    and "handlerList c = PublishHandler pm # hs" and "\<forall>h \<in> set hs. handler_type h = sint DELIVER"
    and "is_frame E d (received E (publish_package E l m) m)" and "map_of pm (GetTypeName E m) = Some func"
  obtains c1 c2 where "AsioClient_doRead E False d c = Inr (c1,
      [PostResponse (length (cl_store c)), ClientRead] :: ('u, 'r, 'pub, 'del, 'ep) client_effect list)"
    "doResponse now (length (cl_store c)) c1 = Inr (c2,
      [HandlerCall (CallPublish func 0 (Some m))] :: ('u, 'r, 'pub, 'del, 'ep) client_effect list)"
proof -
  let ?p = "received E (publish_package E l m) m"
  obtain b where b: "AsioClient_doRead E False d c = Inr (c\<lparr>cl_readBuffer := b, cl_store := cl_store c @ [?p]\<rparr>,
      [PostResponse (length (cl_store c)), ClientRead] :: ('u, 'r, 'pub, 'del, 'ep) client_effect list)"
    "buf_inv b" "contents b = []"
    using client_reads_frame [OF assms(1,2,5)] .
  have p: "msgType (header ?p) = PUBSUB" "typeName ?p = GetTypeName E m" "PUBSUB \<noteq> REQREP"
    by (simp_all add: received_def publish_package_def PUBSUB_def REQREP_def)
  have "handlers_onPackage (length (cl_store c)) ?p (PublishHandler pm # hs)
      = (PublishHandler pm # hs, [CallPublish func 0 (Some m)])"
    using no_other_handler [OF assms(4) p(1)] p(1,2) assms(6) by simp
  then show ?thesis using p(1,3) assms(3) by (intro that [OF b(1)]) (simp add: doResponse_def)
qed

lemma publication_arrives:
  fixes c :: "('u, 'r, 'pub, 'del) client"
  assumes "core_wf k" and "net_order_ok E" and "zlib_ok E" and "proto_ok E m"
    and "\<forall>n. sendable E (publish_package E n m) m"
    and "\<forall>op \<in> set ops. keeps_subscription cid (GetTypeName E m) op"
    and "subscribed cid (GetTypeName E m) r0" and "room k = room_after ops r0"
    and "buf_inv (cl_readBuffer c)" and "contents (cl_readBuffer c) = []"
    and "handlerList c = PublishHandler pm # hs" and "\<forall>h \<in> set hs. handler_type h = sint DELIVER"
    and "map_of pm (GetTypeName E m) = Some func"
  shows "\<exists>k' out f r c1 c2. AsioServer_publishMessage E (Some m) k = Inr k' \<and> outbox k' = outbox k @ out \<and>
    filter (\<lambda>e. fst e = cid) out = [(cid, PostWriteBuffer f)] \<and>
    AsioClient_doRead E False (contents f) c
      = Inr (c1, [PostResponse r, ClientRead] :: ('u, 'r, 'pub, 'del, 'ep) client_effect list) \<and>
    doResponse now r c1 = Inr (c2,
      [HandlerCall (CallPublish func 0 (Some m))] :: ('u, 'r, 'pub, 'del, 'ep) client_effect list)"
proof -
  have "subscribed cid (GetTypeName E m) (room k)"
    unfolding assms(8) using assms(6,7) by (rule subscribed_after)
  from publication_posted [OF assms(1-5) this] obtain k' out f l where
    p: "AsioServer_publishMessage E (Some m) k = Inr k'" "outbox k' = outbox k @ out"
      "filter (\<lambda>e. fst e = cid) out = [(cid, PostWriteBuffer f)]"
      "is_frame E (contents f) (received E (publish_package E l m) m)" .
  from publication_called [OF assms(9-12) p(4) assms(13), of now, where 'ep = 'ep] p(1-3)
  show ?thesis by metis
qed

section \<open>The subscription\<close>

lemma startSubscribe_written:
  fixes c :: "('u, 'r, 'pub, 'del) client"
  assumes "net_order_ok E" and "zlib_ok E" and "isOnline c" and "\<not> cl_stopped c" and "pendingList c = []"
    and "handlerList c \<noteq> []" and "next_msgId (cl_id c) = (i, n)"
    and "req = PbSubscribeReq (subscription_of W (handlerList c))"
    and "proto_ok E req" and "sendable E (client_package E REQREP False i req) req"
  obtains c1 c2 d where "startSubscribe E W now c
      = Inr (c1, [PostStartWrite (length (cl_store c))] :: ('u, 'r, 'pub, 'del, 'ep) client_effect list)"
    "startWrite E (length (cl_store c)) c1 = Inr (c2, [ClientWrite d i] :: ('u, 'r, 'pub, 'del, 'ep) client_effect list)"
    "is_frame E d (received E (client_package E REQREP False i req) req)"
    "requestMessage c2 i = Some (Data_new now (length (cl_store c)) SubscribeResponse kMsTimeout)"
    "cl_readBuffer c2 = cl_readBuffer c" "handlerList c2 = handlerList c"
proof -
  obtain c1 c2 d where w: "postMessage_order E now False (Some req) SubscribeResponse kMsTimeout c = Inr (eSuccess, c1,
      [PostStartWrite (length (cl_store c))] :: ('u, 'r, 'pub, 'del, 'ep) client_effect list)"
    "startWrite E (length (cl_store c)) c1 = Inr (c2, [ClientWrite d i] :: ('u, 'r, 'pub, 'del, 'ep) client_effect list)"
    "is_frame E d (received E (client_package E REQREP False i req) req)"
    "requestMessage c2 = RequestMessage_put now i (length (cl_store c)) SubscribeResponse kMsTimeout (requestMessage c)"
    "cl_readBuffer c2 = cl_readBuffer c" "length (cl_store c2) = length (cl_store c) + 1"
    "handlerList c2 = handlerList c"
    using request_written [OF assms(1-5,7,9,10)] .
  have "startSubscribe E W now c
      = Inr (c1, [PostStartWrite (length (cl_store c))] :: ('u, 'r, 'pub, 'del, 'ep) client_effect list)"
    using w(1) by (simp add: startSubscribe_message [OF assms(6)] AsioClient_postMessage_def assms(8))
  then show ?thesis by (rule that [OF _ w(2,3) _ w(5,7)]) (simp add: w(4) RequestMessage_put_def)
qed

lemma subscription_answered:
  fixes c :: "('u, 'r, 'pub, 'del) client"
  assumes "buf_inv (cl_readBuffer c)" and "contents (cl_readBuffer c) = []"
    and "is_frame E d p" and "msgType (header p) = REQREP" and "sint (msgId (header p)) = i"
    and "msgPtr p = Some (PbSubscribeRsp rsp)"
    and "requestMessage c i = Some (Data_new t q SubscribeResponse ms)"
  obtains c1 c2 where "AsioClient_doRead E False d c = Inr (c1,
      [PostResponse (length (cl_store c)), ClientRead] :: ('u, 'r, 'pub, 'del, 'ep) client_effect list)"
    "doResponse now (length (cl_store c)) c1 = Inr (c2, [] :: ('u, 'r, 'pub, 'del, 'ep) client_effect list)"
    "requestMessage c2 i = None" "handlerList c2 = handlerList c"
    "buf_inv (cl_readBuffer c2)" "contents (cl_readBuffer c2) = []"
proof -
  obtain b where b: "AsioClient_doRead E False d c = Inr (c\<lparr>cl_readBuffer := b, cl_store := cl_store c @ [p]\<rparr>,
      [PostResponse (length (cl_store c)), ClientRead] :: ('u, 'r, 'pub, 'del, 'ep) client_effect list)"
    "buf_inv b" "contents b = []"
    using client_reads_frame [OF assms(1-3)] .
  let ?c = "c\<lparr>cl_readBuffer := b, cl_store := cl_store c @ [p], requestMessage := (requestMessage c)(i := None)\<rparr>"
  have "doResponse now (length (cl_store c)) (c\<lparr>cl_readBuffer := b, cl_store := cl_store c @ [p]\<rparr>)
      = Inr (?c, [] :: ('u, 'r, 'pub, 'del, 'ep) client_effect list)"
    using assms(4-7) by (simp add: doResponse_def RequestMessage_pick_def Data_new_def get_package_def
        subscribe_response_def)
  then show ?thesis by (rule that [OF b(1)]) (simp_all add: b)
qed

lemma subscription_entered:
  assumes "core_wf k" and "sessionCache (room k) cid = Some cid"
    and "msgPtr rq = Some (PbSubscribeReq (subscription_of W hs))" and "length (handler_entries hs) < 2 ^ 31"
    and "rsp = PbSubscribeRsp (SubscribeRsp_set_errorcode 0 (SubscribeRsp_new W))"
    and "net_order_ok E" and "zlib_ok E" and "proto_ok E rsp" and "sendable E (reply_package E rq rsp) rsp"
  obtains k1 b where "doSubscribe E W cid rq k = Inr k1" "outbox k1 = outbox k @ [(cid, PostWriteBuffer b)]"
    "is_frame E (contents b) (received E (reply_package E rq rsp) rsp)" "core_wf k1"
    "\<forall>h \<in> set hs. handler_type h = sint PUBSUB \<longrightarrow> (\<forall>n \<in> set (handler_typeNames h). subscribed cid n (room k1))"
proof -
  obtain k1 b where k1: "doSubscribe E W cid rq k = Inr k1"
    "\<forall>n. cid \<in> cached_ids (subscribeCache (room k1)) n \<longleftrightarrow> cid \<in> cached_ids (subscribeCache (room k)) n \<or>
       (\<exists>h \<in> set hs. handler_type h = sint PUBSUB \<and> n \<in> set (handler_typeNames h))"
    "sessionCache (room k1) = sessionCache (room k)" "outbox k1 = outbox k @ [(cid, PostWriteBuffer b)]"
    "is_frame E (contents b) (received E (reply_package E rq rsp) rsp)"
    using handlers_entered [OF assms(3-9), of cid k] by blast
  have "core_wf k1" using core_wf_doSubscribe [OF assms(1) k1(1)] .
  then show ?thesis using k1 assms(2) by (intro that [OF k1(1,4,5)]) (auto simp: subscribed_def)
qed

section \<open>From the subscription to the call\<close>

text \<open>
  Property C3. Publish and subscribe, end to end. A client that has been connected posts the
  subscription of its handlers. The server's session reads it, enters the client and answers; the client takes
  the answer, and the request is no longer outstanding. Whatever the room then goes through, as long as the
  client does not leave and the type is not unsubscribed, a publication of the server posts exactly one
  frame to the session, and the client that reads it calls exactly the function registered for its type, once,
  with the error code 0 and the message that was published.
\<close>

theorem subscribed_publication:
  fixes c :: "('u, 'r, 'pub, 'del) client"
  assumes "net_order_ok E" and "zlib_ok E"
    and "isOnline c" and "\<not> cl_stopped c" and "pendingList c = []"
    and "buf_inv (cl_readBuffer c)" and "contents (cl_readBuffer c) = []"
    and "handlerList c = PublishHandler pm # hs" and "\<forall>h \<in> set hs. handler_type h = sint DELIVER"
    and "length (handler_entries (handlerList c)) < 2 ^ 31"
    and "next_msgId (cl_id c) = (i, n)"
    and "req = PbSubscribeReq (subscription_of W (handlerList c))"
    and "proto_ok E req" and "sendable E (client_package E REQREP False i req) req"
    and "rq = received E (client_package E REQREP False i req) req"
    and "rsp = PbSubscribeRsp (SubscribeRsp_set_errorcode 0 (SubscribeRsp_new W))"
    and "proto_ok E rsp" and "sendable E (reply_package E rq rsp) rsp"
    and "core_wf k" and "sessionCache (room k) cid = Some cid" and "sessions k cid = Some s"
    and "buf_inv (readBuffer s)" and "contents (readBuffer s) = []"
    and "map_of pm (GetTypeName E m) = Some func"
    and "proto_ok E m" and "\<forall>n. sendable E (publish_package E n m) m"
  shows "\<exists>p c1 c2 d s' k1 b q c3 c4.
    startSubscribe E W now c = Inr (c1, [PostStartWrite p] :: ('u, 'r, 'pub, 'del, 'ep) client_effect list) \<and>
    startWrite E p c1 = Inr (c2, [ClientWrite d i] :: ('u, 'r, 'pub, 'del, 'ep) client_effect list) \<and>
    Session_doRead E False d s = Inr (s', [HandleMessage rq, AsyncRead]) \<and>
    doSubscribe E W cid rq (k\<lparr>sessions := (sessions k)(cid \<mapsto> s')\<rparr>) = Inr k1 \<and>
    outbox k1 = outbox k @ [(cid, PostWriteBuffer b)] \<and>
    AsioClient_doRead E False (contents b) c2
      = Inr (c3, [PostResponse q, ClientRead] :: ('u, 'r, 'pub, 'del, 'ep) client_effect list) \<and>
    doResponse now' q c3 = Inr (c4, [] :: ('u, 'r, 'pub, 'del, 'ep) client_effect list) \<and>
    requestMessage c4 i = None \<and>
    (\<forall>ops k2. (\<forall>op \<in> set ops. keeps_subscription cid (GetTypeName E m) op) \<and> core_wf k2 \<and>
        room k2 = room_after ops (room k1) \<longrightarrow>
      (\<exists>k3 out f r c5 c6. AsioServer_publishMessage E (Some m) k2 = Inr k3 \<and> outbox k3 = outbox k2 @ out \<and>
        filter (\<lambda>e. fst e = cid) out = [(cid, PostWriteBuffer f)] \<and>
        AsioClient_doRead E False (contents f) c4
          = Inr (c5, [PostResponse r, ClientRead] :: ('u, 'r, 'pub, 'del, 'ep) client_effect list) \<and>
        doResponse now'' r c5 = Inr (c6,
          [HandlerCall (CallPublish func 0 (Some m))] :: ('u, 'r, 'pub, 'del, 'ep) client_effect list)))"
proof -
  let ?p = "length (cl_store c)"
  have hs: "handlerList c \<noteq> []" using assms(8) by simp
  obtain c1 c2 d where w: "startSubscribe E W now c
      = Inr (c1, [PostStartWrite ?p] :: ('u, 'r, 'pub, 'del, 'ep) client_effect list)"
    "startWrite E ?p c1 = Inr (c2, [ClientWrite d i] :: ('u, 'r, 'pub, 'del, 'ep) client_effect list)"
    "is_frame E d rq" "requestMessage c2 i = Some (Data_new now ?p SubscribeResponse kMsTimeout)"
    "cl_readBuffer c2 = cl_readBuffer c" "handlerList c2 = handlerList c"
    using startSubscribe_written [OF assms(1-5) hs assms(11-14)] unfolding assms(15) .
  obtain s' where s': "Session_doRead E False d s = Inr (s', [HandleMessage rq, AsyncRead])"
    using session_reads_frame [OF assms(22,23) w(3)] .
  let ?k = "k\<lparr>sessions := (sessions k)(cid \<mapsto> s')\<rparr>"
  have rq: "msgPtr rq = Some (PbSubscribeReq (subscription_of W (handlerList c)))"
    "msgType (header rq) = REQREP" "sint (msgId (header rq)) = i"
    using sint_word_of_int_32 [OF next_msgId_range [OF assms(11)]] by (simp_all add: assms(12,15))
  have "core_wf ?k" "sessionCache (room ?k) cid = Some cid"
    using assms(19,20) by (auto simp: core_wf_def)
  from subscription_entered [OF this rq(1) assms(10,16,1,2,17,18)] obtain k1 b where
    k1: "doSubscribe E W cid rq ?k = Inr k1" "outbox k1 = outbox ?k @ [(cid, PostWriteBuffer b)]"
    and b: "is_frame E (contents b) (received E (reply_package E rq rsp) rsp)" and "core_wf k1"
    and sub: "\<forall>h \<in> set (handlerList c). handler_type h = sint PUBSUB \<longrightarrow>
      (\<forall>n \<in> set (handler_typeNames h). subscribed cid n (room k1))" .
  have c2: "buf_inv (cl_readBuffer c2)" "contents (cl_readBuffer c2) = []" using assms(6,7) by (simp_all add: w(5))
  obtain c3 c4 where c4: "AsioClient_doRead E False (contents b) c2
      = Inr (c3, [PostResponse (length (cl_store c2)), ClientRead] :: ('u, 'r, 'pub, 'del, 'ep) client_effect list)"
    "doResponse now' (length (cl_store c2)) c3 = Inr (c4, [] :: ('u, 'r, 'pub, 'del, 'ep) client_effect list)"
    "requestMessage c4 i = None"
    and h4: "handlerList c4 = handlerList c2" "buf_inv (cl_readBuffer c4)" "contents (cl_readBuffer c4) = []"
    by (rule subscription_answered [where now = now', OF c2 b _ _ _ w(4)]) (simp_all add: rq assms(16))
  have h: "handlerList c4 = PublishHandler pm # hs" by (simp add: h4(1) w(6) assms(8))
  have "GetTypeName E m \<in> fst ` set pm" using assms(24) by (metis domI dom_map_of_conv_image_fst)
  then have sub: "subscribed cid (GetTypeName E m) (room k1)" using sub by (auto simp: assms(8))
  have "\<forall>ops k2. (\<forall>op \<in> set ops. keeps_subscription cid (GetTypeName E m) op) \<and> core_wf k2 \<and>
        room k2 = room_after ops (room k1) \<longrightarrow>
      (\<exists>k3 out f r c5 c6. AsioServer_publishMessage E (Some m) k2 = Inr k3 \<and> outbox k3 = outbox k2 @ out \<and>
        filter (\<lambda>e. fst e = cid) out = [(cid, PostWriteBuffer f)] \<and>
        AsioClient_doRead E False (contents f) c4
          = Inr (c5, [PostResponse r, ClientRead] :: ('u, 'r, 'pub, 'del, 'ep) client_effect list) \<and>
        doResponse now'' r c5 = Inr (c6,
          [HandlerCall (CallPublish func 0 (Some m))] :: ('u, 'r, 'pub, 'del, 'ep) client_effect list))"
    using publication_arrives [OF _ assms(1,2,25,26) _ sub _ h4(2,3) h assms(9,24)] by blast
  moreover have "outbox k1 = outbox k @ [(cid, PostWriteBuffer b)]" using k1(2) by simp
  ultimately show ?thesis using w(1,2) s' k1(1) c4 by (intro exI conjI)
qed

text \<open>A client that has a function for \<^verbatim>\<open>SubscribeRsp\<close> messages, and a server that has accepted it.\<close>

definition sub_client :: "(unit, string, string, string) client" where
  "sub_client = demo_client\<lparr>handlerList := [PublishHandler [(SubscribeRsp_FullMessageName, ''f'')]]\<rparr>"

definition sub_core :: "unit core" where
  "sub_core = core_new\<lparr>room := SessionRoom_join id (Some 2) SessionRoom_new, sessions := [2 \<mapsto> demo_session]\<rparr>"

definition sub_msg :: "unit SubscribeReq" where
  "sub_msg = subscription_of sample_wire (handlerList sub_client)"

abbreviation sub_req :: "unit pb_message" where
  "sub_req \<equiv> PbSubscribeReq sub_msg"

lemma sub_msg_fields:
  "SubscribeReq_typenamelist_v sub_msg = [SubscribeRsp_FullMessageName]"
  "SubscribeReq_msgtypelist_v sub_msg = [2]" "SubscribeReq_type_v sub_msg = 1"
  "SubscribeReq_unknown sub_msg = unknown_default sample_wire" "SubscribeReq_cached_size sub_msg = 0"
  "SubscribeReq_msgtypelist_cached_byte_size sub_msg = 0"
  by (simp_all add: sub_msg_def subscription_of_def sub_client_def SubscribeReq_set_type_def SubscribeReq_new_def
      SubscribeReq_add_typenamelist_def SubscribeReq_add_msgtypelist_def PUBSUB_def)

lemma sub_messages:
  "proto_ok pb_demo sub_req"
  "sendable pb_demo (client_package pb_demo REQREP False 1 sub_req) sub_req"
  "sendable pb_demo (reply_package pb_demo
     (received pb_demo (client_package pb_demo REQREP False 1 sub_req) sub_req) demo_rsp) demo_rsp"
proof -
  have u: "\<not> have_unknown_fields sample_wire (unknown_default sample_wire)"
    using unknown_default_none [OF sample_wire_ok] by simp
  show "proto_ok pb_demo sub_req"
    by (rule pb_demo_proto) (simp_all add: u sub_msg_fields SubscribeReq_ok_def pb_string_def
        SubscribeRsp_FullMessageName_def sample_wire_def wr_packed_def wr_word_def varint.simps)
  show "sendable pb_demo (client_package pb_demo REQREP False 1 sub_req) sub_req"
    by (simp add: u sendable_def client_package_def sub_msg_fields SubscribeReq_FullMessageName_def
      SubscribeRsp_FullMessageName_def set_isorder_def PacHeader_new_def iszip_def encode_content_def
      enableCompressSize_def kPackageHeaderSize_def kMaxPackageLen_def SubscribeReq_ByteSizeLong_def
      SubscribeReq_InternalSerialize_def SubscribeReq_type_def sample_wire_def wr_packed_def wr_word_def
      varint.simps wrap32_id Let_def)
  show "sendable pb_demo (reply_package pb_demo
     (received pb_demo (client_package pb_demo REQREP False 1 sub_req) sub_req) demo_rsp) demo_rsp"
    by (simp add: sendable_def client_package_def reply_package_def received_def sent_header_def demo_rsp_def
      SubscribeRsp_FullMessageName_def set_isorder_def PacHeader_new_def iszip_def encode_content_def
      enableCompressSize_def kPackageHeaderSize_def kMaxPackageLen_def SubscribeRsp_ByteSizeLong_def
      SubscribeRsp_InternalSerialize_def SubscribeRsp_set_errorcode_def SubscribeRsp_new_def
      SubscribeRsp_errorcode_def)
qed

abbreviation sub_rq :: "unit pb_message Package" where
  "sub_rq \<equiv> received pb_demo (client_package pb_demo REQREP False 1 sub_req) sub_req"

theorem subscribed_publication_witness:
  "\<exists>p c1 c2 d s' k1 k2 k3 out f r c5 c6.
    startSubscribe pb_demo sample_wire 0 sub_client
      = Inr (c1, [PostStartWrite p] :: (unit, string, string, string, unit) client_effect list) \<and>
    startWrite pb_demo p c1 = Inr (c2, [ClientWrite d 1] :: (unit, string, string, string, unit) client_effect list) \<and>
    Session_doRead pb_demo False d demo_session = Inr (s', [HandleMessage sub_rq, AsyncRead]) \<and>
    doSubscribe pb_demo sample_wire 2 sub_rq (sub_core\<lparr>sessions := (sessions sub_core)(2 \<mapsto> s')\<rparr>) = Inr k1 \<and>
    k2 = k1\<lparr>room := room_after [AddSubscribe 7 2 SubscribeRsp_FullMessageName] (room k1)\<rparr> \<and>
    AsioServer_publishMessage pb_demo (Some demo_rsp) k2 = Inr k3 \<and> outbox k3 = outbox k2 @ out \<and>
    filter (\<lambda>e. fst e = 2) out = [(2, PostWriteBuffer f)] \<and>
    doResponse 9 r c5 = Inr (c6,
      [HandlerCall (CallPublish ''f'' 0 (Some demo_rsp))] :: (unit, string, string, string, unit) client_effect list)"
proof -
  have id: "next_msgId (cl_id sub_client) = (1, 1)"
    by (simp add: sub_client_def demo_client_def next_msgId_def wrap32_id c_rem_def INT_MAX_def)
  have c: "isOnline sub_client" "\<not> cl_stopped sub_client" "pendingList sub_client = []"
    "buf_inv (cl_readBuffer sub_client)" "contents (cl_readBuffer sub_client) = []"
    "handlerList sub_client = [PublishHandler [(SubscribeRsp_FullMessageName, ''f'')]]"
    "\<forall>h \<in> set ([] :: (string, string, ref) handler list). handler_type h = sint DELIVER"
    "length (handler_entries (handlerList sub_client)) < 2 ^ 31"
    by (simp_all add: sub_client_def demo_client_def handler_entries_def)
  have k: "core_wf sub_core" "sessionCache (room sub_core) 2 = Some 2" "sessions sub_core 2 = Some demo_session"
    "buf_inv (readBuffer demo_session)" "contents (readBuffer demo_session) = []"
    by (simp_all add: sub_core_def core_wf_def SessionRoom_join_def SessionRoom_new_def cached_ids_def demo_session_def)
  have m: "map_of [(SubscribeRsp_FullMessageName, ''f'')] (GetTypeName pb_demo demo_rsp) = Some ''f''"
    by (simp add: demo_rsp_def)
  have req: "sub_req = PbSubscribeReq (subscription_of sample_wire (handlerList sub_client))" by (simp add: sub_msg_def)
  obtain p c1 c2 d s' k1 b q c3 c4 where h:
    "startSubscribe pb_demo sample_wire 0 sub_client
      = Inr (c1, [PostStartWrite p] :: (unit, string, string, string, unit) client_effect list)"
    "startWrite pb_demo p c1 = Inr (c2, [ClientWrite d 1] :: (unit, string, string, string, unit) client_effect list)"
    "Session_doRead pb_demo False d demo_session = Inr (s', [HandleMessage sub_rq, AsyncRead])"
    "doSubscribe pb_demo sample_wire 2 sub_rq (sub_core\<lparr>sessions := (sessions sub_core)(2 \<mapsto> s')\<rparr>) = Inr k1"
    and pub: "\<forall>ops k2. (\<forall>op \<in> set ops. keeps_subscription 2 (GetTypeName pb_demo demo_rsp) op) \<and> core_wf k2 \<and>
        room k2 = room_after ops (room k1) \<longrightarrow>
      (\<exists>k3 out f r c5 c6. AsioServer_publishMessage pb_demo (Some demo_rsp) k2 = Inr k3 \<and> outbox k3 = outbox k2 @ out \<and>
        filter (\<lambda>e. fst e = 2) out = [(2, PostWriteBuffer f)] \<and>
        AsioClient_doRead pb_demo False (contents f) c4
          = Inr (c5, [PostResponse r, ClientRead] :: (unit, string, string, string, unit) client_effect list) \<and>
        doResponse 9 r c5 = Inr (c6,
          [HandlerCall (CallPublish ''f'' 0 (Some demo_rsp))] :: (unit, string, string, string, unit) client_effect list))"
    using subscribed_publication [OF pb_demo_ok c id req sub_messages(1,2) refl demo_rsp_def demo_rsp_ok(1)
      sub_messages(3) k m demo_rsp_ok(1) demo_rsp_publishable, of 0 9 9, where 'ep = unit] by (elim exE conjE) (rule that)
  let ?op = "AddSubscribe 7 2 SubscribeRsp_FullMessageName :: int room_op"
  let ?k2 = "k1\<lparr>room := room_after [?op] (room k1)\<rparr>"
  have "core_wf (sub_core\<lparr>sessions := (sessions sub_core)(2 \<mapsto> s')\<rparr>)"
    using k(1) by (auto simp: core_wf_def)
  then have "core_wf k1" using h(4) by (rule core_wf_doSubscribe)
  then have "core_wf ?k2" by (simp add: core_wf_def room_after_def addSubscribe_def st.add_members PUBSUB_def)
  moreover have "\<forall>op \<in> set [?op]. keeps_subscription 2 (GetTypeName pb_demo demo_rsp) op" by simp
  ultimately obtain k3 out f r c5 c6 where
    "AsioServer_publishMessage pb_demo (Some demo_rsp) ?k2 = Inr k3" "outbox k3 = outbox ?k2 @ out"
    "filter (\<lambda>e. fst e = 2) out = [(2, PostWriteBuffer f)]"
    "doResponse 9 r c5 = Inr (c6,
      [HandlerCall (CallPublish ''f'' 0 (Some demo_rsp))] :: (unit, string, string, string, unit) client_effect list)"
    using spec [OF spec [OF pub, of "[?op]"], of ?k2] by auto
  with h show ?thesis by (intro exI [of _ ?k2] exI conjI refl) (assumption | simp only:)+
qed

end
