(* ===== verification/Client_Safety.thy ===== *)
theory Client_Safety
  imports Client_Events
begin

text \<open>
  Type safety of the client, as progress and preservation. The operations of
  \<^verbatim>\<open>asio/internal/AsioClient.cpp\<close> are gathered in one type of events; a live client is a client with what
  it has asked the event loop for and not yet been given. Along every sequence of calls and completions
  the references that a live client holds stay within its store, and an event fails only for one of
  the reasons that \<open>excused\<close> lists. An empty queue is none of them, and a dangling reference is one only where
  the code has it: in the callback of a \<^verbatim>\<open>sendMessage\<close> whose post has been refused.
\<close>

section \<open>Live clients\<close>

text \<open>
  What a call of the program may refer to, and which completions answer a request to the event loop.
  The timer of a request may fire at any time.
\<close>

definition callable :: "nat \<Rightarrow> ('u, 'r) client_event \<Rightarrow> bool" where
  "callable n ev =
     (case ev of
        EvReply req msg \<Rightarrow> req < n
      | EvConnect ec \<Rightarrow> False | EvClose is_open \<Rightarrow> False | EvRead ec d \<Rightarrow> False | EvStartWrite p \<Rightarrow> False
      | EvWritten ec i \<Rightarrow> False | EvHeartbeat e \<Rightarrow> False | EvResponse r \<Rightarrow> False
      | _ \<Rightarrow> True)"

definition answers :: "('u, 'r, 'pub, 'del, 'ep) client_effect \<Rightarrow> ('u, 'r) client_event \<Rightarrow> bool" where
  "answers a ev =
     (case ev of
        EvConnect ec \<Rightarrow> (case a of AsyncConnect ep \<Rightarrow> True | _ \<Rightarrow> False)
      | EvClose is_open \<Rightarrow> a = PostClose
      | EvRead ec d \<Rightarrow> a = ClientRead
      | EvStartWrite p \<Rightarrow> a = PostStartWrite p
      | EvWritten ec i \<Rightarrow> (case a of ClientWrite d j \<Rightarrow> i = j | _ \<Rightarrow> False)
      | EvHeartbeat e \<Rightarrow> a = WaitHeartbeat
      | EvResponse r \<Rightarrow> a = PostResponse r
      | _ \<Rightarrow> False)"

text \<open>A live client: the client and what it is waiting for.\<close>

type_synonym ('u, 'r, 'pub, 'del, 'ep) live =
  "('u, 'r, 'pub, 'del) client \<times> ('u, 'r, 'pub, 'del, 'ep) client_effect list"

fun enabled :: "('u, 'r) client_event \<Rightarrow> ('u, 'r, 'pub, 'del, 'ep) live \<Rightarrow> bool" where
  "enabled ev (c, asked) = (callable (length (cl_store c)) ev \<or> (\<exists>a \<in> set asked. answers a ev))"

inductive live_step ::
    "('d, 'u pb_message) env \<Rightarrow> 'u wire \<Rightarrow> (string \<Rightarrow> string \<Rightarrow> 'ep option) \<Rightarrow>
     ('u, 'r, 'pub, 'del, 'ep) live \<Rightarrow> ('u, 'r, 'pub, 'del, 'ep) live \<Rightarrow> bool"
  for E :: "('d, 'u pb_message) env" and W :: "'u wire" and resolve :: "string \<Rightarrow> string \<Rightarrow> 'ep option" where
  call: "callable (length (cl_store c)) ev \<Longrightarrow> client_run E W resolve now ev c = Inr (c', effs) \<Longrightarrow>
    live_step E W resolve (c, asked) (c', asked @ effs)"
| answer: "answers a ev \<Longrightarrow> client_run E W resolve now ev c = Inr (c', effs) \<Longrightarrow>
    live_step E W resolve (c, asked1 @ a # asked2) (c', asked1 @ asked2 @ effs)"

section \<open>Well-formed clients\<close>

definition wf_request :: "nat \<Rightarrow> nat \<Rightarrow> (ref, 'r response) request \<Rightarrow> bool" where
  "wf_request n w d \<longleftrightarrow> rq_pac d < n \<and> (\<forall>k. rq_res d = SendResponse k \<longrightarrow> k < w)"

definition wf_client :: "('u, 'r, 'pub, 'del) client \<Rightarrow> bool" where
  "wf_client c \<longleftrightarrow> (\<forall>p \<in> set (pendingList c). p < length (cl_store c)) \<and>
     (\<forall>d \<in> ran (requestMessage c). wf_request (length (cl_store c)) (length (waiters c)) d) \<and>
     buf_inv (cl_readBuffer c) \<and> addressList c \<noteq> [] \<and> (\<forall>a \<in> set (addressList c). find_colon a > 0)"

fun wf_effect :: "nat \<Rightarrow> ('u, 'r, 'pub, 'del, 'ep) client_effect \<Rightarrow> bool" where
  "wf_effect n (PostStartWrite p) = (p < n)"
| "wf_effect n (PostResponse r) = (r < n)"
| "wf_effect n (CallResponse r err req rsp) = (req < n \<and> (\<forall>q. rsp = Some q \<longrightarrow> q < n))"
| "wf_effect n _ = True"

text \<open>At most one write is under way, and only while the queue is not empty.\<close>

fun live_inv :: "('u, 'r, 'pub, 'del, 'ep) live \<Rightarrow> bool" where
  "live_inv (c, asked) = (wf_client c \<and> wf_waits c \<and> list_all (wf_effect (length (cl_store c))) asked \<and>
     length (writes asked) \<le> (if pendingList c = [] then 0 else 1))"

lemma wf_request_mono: "wf_request n w d \<Longrightarrow> n \<le> n' \<Longrightarrow> w \<le> w' \<Longrightarrow> wf_request n' w' d"
  by (auto simp: wf_request_def)

lemma wf_effect_mono: "wf_effect n e \<Longrightarrow> n \<le> n' \<Longrightarrow> wf_effect n' e"
  by (cases e) auto

text \<open>
  An operation is safe when it keeps the client well-formed, only adds to the store, and its effects refer
  to the store.
\<close>

definition safe ::
    "('u, 'r, 'pub, 'del) client \<Rightarrow> ('u, 'r, 'pub, 'del) client \<Rightarrow> ('u, 'r, 'pub, 'del, 'ep) client_effect list \<Rightarrow> bool" where
  "safe c c' effs \<longleftrightarrow> (wf_client c \<longrightarrow> wf_client c') \<and> length (cl_store c) \<le> length (cl_store c') \<and>
     (wf_client c \<longrightarrow> list_all (wf_effect (length (cl_store c'))) effs)"

lemma safe_trans:
  assumes "safe c c1 effs" and "safe c1 c2 effs'"
  shows "safe c c2 (effs @ effs')"
  using assms by (auto simp: safe_def list_all_iff dest: wf_effect_mono)

lemma safe_effects: "list_all (wf_effect 0) effs \<Longrightarrow> wf_client c' \<Longrightarrow> length (cl_store c) \<le> length (cl_store c') \<Longrightarrow> safe c c' effs"
  by (auto simp: safe_def list_all_iff dest: wf_effect_mono [where n = 0])

section \<open>Preservation\<close>

lemma ran_updD: "d \<in> ran (m(k \<mapsto> x)) \<Longrightarrow> d = x \<or> d \<in> ran m"
  by (auto simp: ran_def split: if_splits)

lemma wf_client_new_package:
  assumes "wf_client c"
  shows "wf_client (c\<lparr>cl_store := cl_store c @ ps\<rparr>)"
  using assms by (fastforce simp: wf_client_def wf_request_def)

text \<open>Changes of the other fields.\<close>

lemma wf_client_fields [simp]:
  "wf_client (c\<lparr>isOnline := b\<rparr>) = wf_client c" "wf_client (c\<lparr>cl_stopped := b\<rparr>) = wf_client c"
  "wf_client (c\<lparr>addressIndex := i\<rparr>) = wf_client c" "wf_client (c\<lparr>cl_id := n\<rparr>) = wf_client c"
  "wf_client (c\<lparr>cl_runthread := b\<rparr>) = wf_client c" "wf_client (c\<lparr>cl_threadDoResponse := b\<rparr>) = wf_client c"
  "wf_client (c\<lparr>handlerList := hs\<rparr>) = wf_client c"
  by (simp_all add: wf_client_def)

lemma wf_client_store:
  assumes "wf_client c" and "length xs = length (cl_store c)"
  shows "wf_client (c\<lparr>cl_store := xs\<rparr>)"
  using assms by (simp add: wf_client_def)

lemma wf_client_requests:
  assumes "wf_client c" and "\<And>d. d \<in> ran m \<Longrightarrow> wf_request (length (cl_store c)) (length (waiters c)) d"
  shows "wf_client (c\<lparr>requestMessage := m\<rparr>)"
  using assms by (simp add: wf_client_def)

lemma wf_client_waiters:
  assumes "wf_client c" and "length (waiters c) \<le> length ws"
  shows "wf_client (c\<lparr>waiters := ws\<rparr>)"
  using assms by (auto simp: wf_client_def intro: wf_request_mono)

lemma wf_client_request: "wf_client c \<Longrightarrow> requestMessage c i = Some d \<Longrightarrow> wf_request (length (cl_store c)) (length (waiters c)) d"
  by (auto simp: wf_client_def ran_def)

lemma pick_requests:
  "RequestMessage_pick now i m = (r, m') \<Longrightarrow> ran m' \<subseteq> ran m \<and> (\<forall>d. r = Some d \<longrightarrow> (\<exists>d0. m i = Some d0 \<and> d = d0\<lparr>rq_rspTime := now\<rparr>))"
  by (auto simp: RequestMessage_pick_def ran_def split: option.splits if_splits)

lemma startTimer_requests:
  assumes "\<And>d. d \<in> ran m \<Longrightarrow> wf_request n w d"
  shows "d \<in> ran (RequestMessage_startTimer now i m) \<Longrightarrow> wf_request n w d"
  using assms by (fastforce simp: RequestMessage_startTimer_def wf_request_def ran_def split: option.splits if_splits)

lemma postPackage_wf [simp]: "p < n \<Longrightarrow> list_all (wf_effect n) (snd (postPackage (Some p) c))"
  by (simp add: postPackage_def)

lemma safe_request:
  assumes "postMessage_order E now isOrder (Some msg) res ms c = Inr (code, c', effs)"
    and "\<And>k. res = SendResponse k \<Longrightarrow> k < length (waiters c)"
  shows "safe c c' effs"
proof -
  obtain i n where id: "next_msgId (cl_id c) = (i, n)" by (cases "next_msgId (cl_id c)")
  let ?pac = "client_package E REQREP isOrder i msg" and ?p = "length (cl_store c)"
  let ?c1 = "c\<lparr>cl_id := n, cl_store := cl_store c @ [?pac]\<rparr>"
  let ?m = "RequestMessage_put now (sint (msgId (header ?pac))) ?p res ms (requestMessage c)"
  have c': "c' = ?c1\<lparr>requestMessage := ?m\<rparr>" and effs: "postPackage (Some ?p) c' = (code, effs)"
    using assms(1) id by (auto simp: postMessage_order_def new_package_def Let_def split: prod.splits)
  have "wf_client c'" if "wf_client c"
  proof -
    have "wf_client ?c1" using wf_client_new_package [of "c\<lparr>cl_id := n\<rparr>"] that by simp
    moreover have "wf_request (Suc ?p) (length (waiters c)) d" if "d \<in> ran ?m" for d
      using ran_updD [OF that [unfolded RequestMessage_put_def]] \<open>wf_client c\<close> assms(2)
      by (auto simp: wf_request_def Data_new_def wf_client_def less_Suc_eq)
    ultimately show ?thesis unfolding c' by (intro wf_client_requests) simp_all
  qed
  moreover have "list_all (wf_effect (length (cl_store c'))) effs"
  proof -
    have "effs = snd (postPackage (Some ?p) c')" by (simp add: effs)
    then show ?thesis using c' by simp
  qed
  ultimately show ?thesis using c' by (simp add: safe_def)
qed

lemma safe_publish: "AsioClient_publishMessage E (Some msg) c = Inr (c', effs) \<Longrightarrow> safe c c' effs"
  by (auto simp: AsioClient_publishMessage_def new_package_def safe_def Let_def split: prod.splits
      intro: wf_client_new_package [of "c\<lparr>cl_id := _\<rparr>", simplified])

lemma safe_reply: "replyDeliver E req (Some msg) c = Inr (c', effs) \<Longrightarrow> safe c c' effs"
  by (auto simp: replyDeliver_def new_package_def safe_def Let_def split: prod.splits if_splits
      intro: wf_client_new_package)

lemma safe_send:
  assumes "sendMessage_begin E now (Some msg) ms c = Inr (r, c', effs)"
  shows "safe c c' effs"
proof -
  let ?c1 = "c\<lparr>waiters := waiters c @ [\<lparr>wt_frame = InCall, isWait = True, wt_err = 0, wt_rsp = None\<rparr>]\<rparr>"
  obtain code c2 f where p: "postMessage_order E now False (Some msg) (SendResponse (length (waiters c))) ms ?c1
      = Inr (code, c2, effs)"
    "c' = c2\<lparr>waiters := waiters c @ [\<lparr>wt_frame = f, isWait = True, wt_err = 0, wt_rsp = None\<rparr>]\<rparr>"
    using sendMessage_begin_post [OF assms] by blast
  have "safe ?c1 c2 effs" by (rule safe_request [OF p(1)]) simp
  moreover have "wf_client c \<longrightarrow> wf_client ?c1" by (auto intro: wf_client_waiters)
  moreover have "waiters c2 = waiters ?c1"
    using p(1) by (auto simp: postMessage_order_def new_package_def Let_def split: prod.splits)
  then have "wf_client c2 \<longrightarrow> wf_client c'" by (auto simp: p(2) intro!: wf_client_waiters)
  ultimately show ?thesis by (simp add: safe_def p(2))
qed

lemma safe_wake: "safe c (sendMessage_wake k c) []"
  by (auto simp: sendMessage_wake_def safe_def intro: wf_client_waiters)

lemma safe_connect: "connect resolve c = Inr (c', effs) \<Longrightarrow> safe c c' effs"
  by (auto simp: connect_def safe_def Let_def split: option.splits if_splits)

lemma safe_doConnect:
  assumes "doConnect E W resolve now ec c = Inr (c', effs)"
  shows "safe c c' effs"
proof (cases ec)
  case True
  with assms show ?thesis
    by (auto simp: doConnect_def safe_def Let_def rbind_eq_Inr split: if_splits dest!: safe_connect)
next
  case False
  let ?c = "c\<lparr>isOnline := True\<rparr>"
  from assms False obtain effs' where s: "startSubscribe E W now ?c = Inr (c', effs')"
    "effs = startRead @ effs' @ startHeartbeatTimer c' @ (if connectSuccess c' then [CallConnectSuccess] else [])"
    by (auto simp: doConnect_def Let_def rbind_eq_Inr)
  have "safe ?c c' effs'"
    using s(1) by (auto simp: startSubscribe_def AsioClient_postMessage_def rbind_eq_Inr Let_def
        intro: safe_request split: if_splits) (simp add: safe_def)
  then show ?thesis using s(2) by (auto simp: safe_def startRead_def startHeartbeatTimer_def)
qed

lemma safe_doClose: "doClose resolve is_open c = Inr (c', effs) \<Longrightarrow> safe c c' effs"
  by (auto simp: doClose_def Let_def rbind_eq_Inr safe_def split: if_splits dest!: safe_connect)

lemma readLoop_inv: "buf_inv b \<Longrightarrow> readLoop E b = Inr (ps, b') \<Longrightarrow> buf_inv b'"
proof (induction E b arbitrary: ps b' rule: readLoop.induct)
  case (1 E b)
  from "1.prems"(2) obtain q b1 where d: "decode E b = Inr (q, b1)"
    by (subst (asm) readLoop.simps) (auto simp: rbind_eq_Inr)
  then have b1: "buf_inv b1" using decode_consumes [of E b q b1] "1.prems"(1) by (simp add: consumes_def)
  show ?case
  proof (cases q)
    case None
    with "1.prems"(2) d b1 show ?thesis by (simp add: readLoop.simps [of E b])
  next
    case (Some p)
    show ?thesis
    proof (cases "0 < readableBytes b1")
      case True
      with "1.prems"(2) d Some obtain ps' where "readLoop E b1 = Inr (ps', b')"
        by (auto simp: readLoop.simps [of E b] rbind_eq_Inr)
      with "1.IH" [OF d refl Some True b1] show ?thesis .
    next
      case False
      with "1.prems"(2) d Some b1 show ?thesis by (simp add: readLoop.simps [of E b])
    qed
  qed
qed

lemma safe_doRead:
  assumes "AsioClient_doRead E ec d c = Inr (c', effs)"
  shows "safe c c' effs"
proof (cases ec)
  case True
  with assms show ?thesis by (auto simp: AsioClient_doRead_def AsioClient_close_def safe_def)
next
  case False
  with assms obtain b ps b' where r: "append_data d (length d) (cl_readBuffer c) = Inr b" "readLoop E b = Inr (ps, b')"
    "c' = c\<lparr>cl_readBuffer := b', cl_store := cl_store c @ ps\<rparr>"
    "effs = map PostResponse [length (cl_store c)..<length (cl_store c) + length ps] @ startRead"
    by (auto simp: AsioClient_doRead_def rbind_eq_Inr new_packages_eq)
  have "wf_client c'" if "wf_client c"
  proof -
    have "buf_inv b" using append_data_spec [of "cl_readBuffer c" "length d" d] that r(1) by (auto simp: wf_client_def)
    then have "buf_inv b'" using r(2) by (rule readLoop_inv)
    then have "wf_client (c\<lparr>cl_readBuffer := b'\<rparr>)" using that by (simp add: wf_client_def)
    from wf_client_new_package [OF this] show ?thesis by (simp add: r(3))
  qed
  then show ?thesis by (auto simp: safe_def r(3,4) startRead_def list_all_iff)
qed

text \<open>Operations that neither touch the queue nor start a write.\<close>

definition quiet ::
    "('u, 'r, 'pub, 'del) client \<Rightarrow> ('u, 'r, 'pub, 'del) client \<Rightarrow> ('u, 'r, 'pub, 'del, 'ep) client_effect list \<Rightarrow> bool" where
  "quiet c c' effs \<longleftrightarrow> pendingList c' = pendingList c \<and> writes effs = []"

lemma beside_quiet: "beside c c' effs \<Longrightarrow> quiet c c' effs"
  by (simp add: beside_def quiet_def)

lemma quiet_send: "sendMessage_begin E now msg ms c = Inr (r, c', effs) \<Longrightarrow> quiet c c' effs"
  by (auto simp: sendMessage_begin_def AsioClient_postMessage_def rbind_eq_Inr Let_def quiet_def beside_def
      dest!: beside_request split: if_splits)

lemma quiet_wake: "quiet c (sendMessage_wake k c) []"
  by (simp add: sendMessage_wake_def quiet_def)

lemma call_response_safe:
  assumes "call_response res err p rsp c = Inr (c', effs)"
    and "p < length (cl_store c)" and "\<And>q. rsp = Some q \<Longrightarrow> q < length (cl_store c)"
  shows "safe c c' effs \<and> quiet c c' effs"
  using assms
  by (cases res) (auto simp: safe_def quiet_def rbind_eq_Inr split: if_splits intro: wf_client_waiters)

lemma answered_safe:
  assumes "call_response (rq_res d) err (rq_pac d) rsp (c\<lparr>requestMessage := m\<rparr>) = Inr (c', effs)"
    and "wf_client c" and "RequestMessage_pick now i (requestMessage c) = (Some d, m)"
    and "\<And>q. rsp = Some q \<Longrightarrow> q < length (cl_store c)"
  shows "safe c c' effs \<and> quiet c c' effs"
proof -
  from pick_requests [OF assms(3)] obtain d0 where d: "ran m \<subseteq> ran (requestMessage c)"
    "requestMessage c i = Some d0" "d = d0\<lparr>rq_rspTime := now\<rparr>" by blast
  have "rq_pac d < length (cl_store (c\<lparr>requestMessage := m\<rparr>))"
    using wf_client_request [OF assms(2) d(2)] d(3) by (simp add: wf_request_def)
  moreover have "wf_client (c\<lparr>requestMessage := m\<rparr>)"
    using d(1) assms(2) by (intro wf_client_requests) (auto simp: wf_client_def)
  ultimately show ?thesis
    using call_response_safe [OF assms(1)] assms(4) by (simp add: safe_def quiet_def)
qed

lemma safe_timeout:
  assumes "request_timeout now i c = Inr (c', effs)" and "wf_client c"
  shows "safe c c' effs \<and> quiet c c' effs"
proof (cases "RequestMessage_pick now i (requestMessage c)")
  case (Pair r m)
  show ?thesis
  proof (cases r)
    case None
    then have "m = requestMessage c" using Pair by (auto simp: RequestMessage_pick_def split: option.splits)
    then show ?thesis using assms(1) Pair None
      by (simp add: request_timeout_def RequestMessage_onTimeout_def safe_def quiet_def)
  next
    case (Some d)
    then show ?thesis using assms Pair
      by (intro answered_safe [where d = d and m = m]) (auto simp: request_timeout_def RequestMessage_onTimeout_def)
  qed
qed

lemma safe_doResponse:
  assumes "doResponse now r c = Inr (c', effs)" and "wf_client c"
  shows "safe c c' effs \<and> quiet c c' effs"
proof -
  have r: "r < length (cl_store c)" using assms(1) by (auto simp: doResponse_def split: if_splits)
  let ?i = "sint (msgId (header (cl_store c ! r)))"
  show ?thesis
  proof (cases "msgType (header (cl_store c ! r)) = REQREP")
    case rr: True
    obtain d m where p: "RequestMessage_pick now ?i (requestMessage c) = (d, m)" by force
    show ?thesis
    proof (cases d)
      case None
      then have "m = requestMessage c" using p by (auto simp: RequestMessage_pick_def split: option.splits)
      then show ?thesis using assms(1) p None r rr by (simp add: doResponse_def safe_def quiet_def)
    next
      case (Some d)
      then show ?thesis using assms p r rr
        by (intro answered_safe [where d = d and m = m]) (auto simp: doResponse_def)
    qed
  next
    case False
    moreover have "writes (map HandlerCall xs) = []" for xs :: "('u pb_message, 'pub, 'del, ref) handler_call list"
      by (induction xs) simp_all
    ultimately show ?thesis using assms r
      by (auto simp: doResponse_def safe_def quiet_def list_all_iff split: prod.splits)
  qed
qed

lemma safe_startWrite_front:
  assumes "startWrite_front E c = Inr (c', effs)"
  shows "safe c c' effs" "pendingList c' = pendingList c" "length (writes effs) \<le> 1"
  using assms
  by (auto simp: startWrite_front_def rbind_eq_Inr safe_def Let_def split: list.splits if_splits
      intro: wf_client_store)

lemma safe_startWrite:
  assumes "startWrite E p c = Inr (c', effs)" and "p < length (cl_store c)"
  shows "safe c c' effs" "pendingList c' = pendingList c @ [p]"
    "length (writes effs) \<le> (if pendingList c = [] then 1 else 0)"
proof -
  let ?c = "c\<lparr>pendingList := pendingList c @ [p]\<rparr>"
  have wf: "wf_client c \<Longrightarrow> wf_client ?c" using assms(2) by (auto simp: wf_client_def)
  have s: "safe ?c c' effs \<and> pendingList c' = pendingList c @ [p] \<and>
      length (writes effs) \<le> (if pendingList c = [] then 1 else 0)"
  proof (cases "pendingList c = []")
    case True
    with assms(1) have "startWrite_front E ?c = Inr (c', effs)" by (simp add: startWrite_def)
    from safe_startWrite_front [OF this] True show ?thesis by simp
  next
    case False
    with assms(1) show ?thesis by (auto simp: startWrite_def safe_def)
  qed
  then show "safe c c' effs" using wf by (simp add: safe_def)
  from s show "pendingList c' = pendingList c @ [p]"
    "length (writes effs) \<le> (if pendingList c = [] then 1 else 0)" by auto
qed

lemma safe_written:
  assumes "write_completed E now ec i c = Inr (c', effs)"
  shows "safe c c' effs" "pendingList c' = (if ec then pendingList c else tl (pendingList c))"
    "length (writes effs) \<le> (if pendingList c' = [] then 0 else 1)"
proof -
  let ?m = "RequestMessage_startTimer now i (requestMessage c)"
  let ?c1 = "c\<lparr>requestMessage := ?m\<rparr>" and ?c2 = "c\<lparr>requestMessage := ?m, pendingList := tl (pendingList c)\<rparr>"
  have w1: "wf_client c \<Longrightarrow> wf_client ?c1"
    by (rule wf_client_requests) (auto simp: wf_client_def dest: startTimer_requests [rotated])
  then have w2: "wf_client c \<Longrightarrow> wf_client ?c2" by (auto simp: wf_client_def dest: list.set_sel(2) [rotated])
      (metis list.set_sel(2) list.sel(2))
  have "safe c c' effs \<and> pendingList c' = (if ec then pendingList c else tl (pendingList c)) \<and>
    length (writes effs) \<le> (if pendingList c' = [] then 0 else 1)"
  proof (cases "ec \<or> tl (pendingList c) = []")
    case True
    with assms w1 w2 show ?thesis
      by (auto simp: write_completed_def safe_def Let_def split: if_splits list.splits)
  next
    case False
    with assms have "startWrite_front E ?c2 = Inr (c', effs)"
      by (auto simp: write_completed_def Let_def split: if_splits list.splits)
    from safe_startWrite_front [OF this] False w2 show ?thesis by (simp add: safe_def)
  qed
  then show "safe c c' effs" "pendingList c' = (if ec then pendingList c else tl (pendingList c))"
    "length (writes effs) \<le> (if pendingList c' = [] then 0 else 1)" by blast+
qed

lemma safe_refl [simp]: "safe c c []" "quiet c c []"
  by (simp_all add: safe_def quiet_def)

text \<open>The references of an event that is enabled.\<close>

definition event_refs :: "('u, 'r) client_event \<Rightarrow> ref list" where
  "event_refs ev = (case ev of EvStartWrite p \<Rightarrow> [p] | EvResponse r \<Rightarrow> [r] | EvReply r msg \<Rightarrow> [r] | _ \<Rightarrow> [])"

lemma enabled_refs:
  assumes "live_inv (c, asked)" and "enabled ev (c, asked)"
  shows "\<forall>r \<in> set (event_refs ev). r < length (cl_store c)"
  using assms by (cases ev) (auto simp: event_refs_def callable_def answers_def list_all_iff)

lemma client_run_safe:
  assumes "client_run E W resolve now ev c = Inr (c', effs)" and "wf_client c"
    and "\<forall>r \<in> set (event_refs ev). r < length (cl_store c)"
  shows "safe c c' effs"
proof (cases ev)
  case EvStart
  with assms(1) show ?thesis
    by (auto simp: AsioClient_start_def rbind_eq_Inr safe_def dest!: safe_connect)
next
  case EvStop
  with assms(1) show ?thesis by (auto simp: AsioClient_stop_def AsioClient_close_def safe_def)
next
  case (EvRequest isOrder msg r ms)
  with assms(1) show ?thesis
    by (auto simp: map_sum_Inr_eq intro: safe_request [where res = "UserResponse r"])
next
  case (EvSend msg ms)
  with assms(1) show ?thesis by (auto simp: map_sum_Inr_eq intro: safe_send)
next
  case (EvHeartbeat e)
  with assms(1) show ?thesis
    by (auto simp: AsioClient_doHeartbeat_def AsioClient_postMessage_def rbind_eq_Inr Let_def
        intro: safe_request split: if_splits)
qed (use assms in \<open>auto simp: event_refs_def intro: safe_publish safe_reply safe_doConnect safe_doClose safe_doRead
       safe_startWrite(1) safe_written(1) safe_timeout [THEN conjunct1] safe_doResponse [THEN conjunct1]
       safe_wake\<close>)

lemma client_run_quiet:
  assumes "client_run E W resolve now ev c = Inr (c', effs)" and "wf_client c"
    and "\<And>p. ev \<noteq> EvStartWrite p" "\<And>ec i. ev \<noteq> EvWritten ec i"
  shows "quiet c c' effs"
proof (cases ev)
  case EvStart
  with assms(1) show ?thesis
    by (auto simp: AsioClient_start_def rbind_eq_Inr quiet_def dest!: beside_connect beside_quiet)
next
  case EvStop
  with assms(1) show ?thesis by (auto simp: AsioClient_stop_def AsioClient_close_def quiet_def)
next
  case (EvRequest isOrder msg r ms)
  with assms(1) show ?thesis by (auto simp: map_sum_Inr_eq intro: beside_quiet beside_request)
next
  case (EvSend msg ms)
  with assms(1) show ?thesis by (auto simp: map_sum_Inr_eq intro: quiet_send)
next
  case (EvHeartbeat e)
  with assms(1) show ?thesis
    by (auto simp: AsioClient_doHeartbeat_def AsioClient_postMessage_def rbind_eq_Inr Let_def
        intro: beside_quiet beside_request split: if_splits)
qed (use assms in \<open>auto intro: beside_quiet beside_publish beside_reply beside_doConnect beside_doClose beside_read
       safe_timeout [THEN conjunct2] safe_doResponse [THEN conjunct2] quiet_wake\<close>)

lemma live_inv_run:
  assumes "client_run E W resolve now ev c = Inr (c', effs)"
    and wf: "wf_client c" and "\<forall>r \<in> set (event_refs ev). r < length (cl_store c)" and waits: "wf_waits c"
    and "list_all (wf_effect (length (cl_store c))) rest"
    and "length (writes rest) \<le> (if pendingList c = [] then 0 else 1)"
    and "\<And>ec i. ev = EvWritten ec i \<Longrightarrow> writes rest = []"
  shows "live_inv (c', rest @ effs)"
proof -
  have s: "safe c c' effs" using client_run_safe [OF assms(1) wf assms(3)] .
  have "length (writes rest) + length (writes effs) \<le> (if pendingList c' = [] then 0 else 1)"
  proof (cases ev)
    case (EvStartWrite p)
    with assms(1,3) have "startWrite E p c = Inr (c', effs)" "p < length (cl_store c)"
      by (simp_all add: event_refs_def)
    from safe_startWrite(2,3) [OF this] assms(6) show ?thesis by (auto split: if_splits)
  next
    case (EvWritten ec i)
    with assms(1) have "write_completed E now ec i c = Inr (c', effs)" by simp
    from safe_written(3) [OF this] assms(7) [OF EvWritten] show ?thesis by simp
  qed (use client_run_quiet [OF assms(1) wf] assms(6) in \<open>simp_all add: quiet_def\<close>)
  with s wf assms(5) client_run_waits [OF assms(1) waits] show ?thesis
    by (auto simp: safe_def list_all_iff dest: wf_effect_mono)
qed

section \<open>Progress\<close>

text \<open>
  Why an event may fail: the resolver has no endpoint; a package cannot be encoded; the bytes received
  cannot be decoded; the message in the response to a subscription is missing or of another class; the
  callback is that of a \<^verbatim>\<open>sendMessage\<close> whose post has been refused, and writes to locals that are gone.
\<close>

definition fails_to_encode :: "('d, 'u pb_message) env \<Rightarrow> 'u pb_message Package \<Rightarrow> cpp_error \<Rightarrow> bool" where
  "fails_to_encode E pac e \<longleftrightarrow> rbind (Buffer_new kInitialSize) (encode E pac) = Inl e"

definition no_subscribe_rsp :: "'u pb_message option \<Rightarrow> cpp_error \<Rightarrow> bool" where
  "no_subscribe_rsp m e =
     (case m of None \<Rightarrow> e = NullDeref | Some (PbSubscribeRsp p) \<Rightarrow> False | Some _ \<Rightarrow> e = BadCast)"

definition refused_send :: "('u, 'r, 'pub, 'del) client \<Rightarrow> int \<Rightarrow> bool" where
  "refused_send c i \<longleftrightarrow> (case sends (requestMessage c) i of
     Some k \<Rightarrow> wt_frame (waiters c ! k) = Refused | None \<Rightarrow> False)"

definition excused ::
    "('d, 'u pb_message) env \<Rightarrow> (string \<Rightarrow> string \<Rightarrow> 'ep option) \<Rightarrow> ('u, 'r) client_event \<Rightarrow>
     ('u, 'r, 'pub, 'del) client \<Rightarrow> cpp_error \<Rightarrow> bool" where
  "excused E resolve ev c e =
     (case ev of
        EvStart \<Rightarrow> e = SystemError \<and> (\<exists>h p. resolve h p = None)
      | EvConnect ec \<Rightarrow> e = SystemError \<and> (\<exists>h p. resolve h p = None)
      | EvClose is_open \<Rightarrow> e = SystemError \<and> (\<exists>h p. resolve h p = None)
      | EvStartWrite p \<Rightarrow> fails_to_encode E (cl_store c ! p) e
      | EvWritten ec i \<Rightarrow> (\<exists>p \<in> set (pendingList c). fails_to_encode E (cl_store c ! p) e)
      | EvRead ec d \<Rightarrow> rbind (append_data d (length d) (cl_readBuffer c)) (readLoop E) = Inl e
      | EvTimeout i \<Rightarrow> e = DanglingReference \<and> refused_send c i
      | EvResponse r \<Rightarrow> no_subscribe_rsp (msgPtr (cl_store c ! r)) e \<or>
          e = DanglingReference \<and> refused_send c (sint (msgId (header (cl_store c ! r))))
      | _ \<Rightarrow> False)"

lemma connect_fails:
  assumes "connect resolve c = Inl e" and "addressList c \<noteq> []" and "\<forall>a \<in> set (addressList c). find_colon a > 0"
  shows "e = SystemError \<and> (\<exists>h p. resolve h p = None)"
proof -
  let ?c = "if length (addressList c) \<le> addressIndex c then c\<lparr>addressIndex := 0\<rparr> else c"
  have i: "addressIndex ?c < length (addressList ?c)" "addressList ?c = addressList c"
    using assms(2) by simp_all
  then have "find_colon (addressList ?c ! addressIndex ?c) > 0" using assms(3) by (metis nth_mem)
  with assms(1) i(1) show ?thesis by (auto simp: connect_def Let_def split: option.splits if_splits)
qed

lemma request_never_fails: "postMessage_order E now isOrder (Some msg) res ms c
    \<noteq> (Inl e :: (ErrorCode \<times> ('u, 'r, 'pub, 'del) client \<times> ('u, 'r, 'pub, 'del, 'ep) client_effect list) result)"
  for c :: "('u, 'r, 'pub, 'del) client"
  by (simp add: postMessage_order_def new_package_def Let_def split: prod.splits)

lemma startWrite_front_fails:
  assumes "startWrite_front E c = Inl e" and "pendingList c = p # ps" and "p < length (cl_store c)"
  shows "fails_to_encode E (cl_store c ! p) e"
proof -
  obtain b0 where b0: "Buffer_new kInitialSize = Inr b0" "buf_inv b0" using Buffer_new_default by blast
  have "load (peek b) (readableBytes b) b = Inr (contents b)" if "encode E (cl_store c ! p) b0 = Inr (ok, pac', b)" for ok pac' b
    using encode_keeps_inv [OF b0(2) that] by (simp add: load_peek length_contents)
  then show ?thesis
    using assms b0(1) by (auto simp: startWrite_front_def fails_to_encode_def rbind_eq_Inl Let_def split: if_splits)
qed

lemma startWrite_fails:
  assumes "startWrite E p c = Inl e" and "p < length (cl_store c)"
  shows "fails_to_encode E (cl_store c ! p) e"
  using assms startWrite_front_fails [of E "c\<lparr>pendingList := [p]\<rparr>" e p "[]"]
  by (auto simp: startWrite_def Let_def split: if_splits)

lemma written_fails:
  fixes c :: "('u, 'r, 'pub, 'del) client"
  assumes "write_completed E now ec i c = (Inl e :: ('u, 'r, 'pub, 'del, 'ep) client_result)" and "wf_client c" and "pendingList c \<noteq> []"
  shows "\<exists>p \<in> set (pendingList c). fails_to_encode E (cl_store c ! p) e"
proof -
  from assms obtain q p ps where q: "pendingList c = q # p # ps"
    "startWrite_front E (c\<lparr>requestMessage := RequestMessage_startTimer now i (requestMessage c), pendingList := p # ps\<rparr>)
      = (Inl e :: ('u, 'r, 'pub, 'del, 'ep) client_result)"
    by (auto simp: write_completed_def Let_def neq_Nil_conv split: if_splits list.splits)
  with assms(2) have "p < length (cl_store c)" by (simp add: wf_client_def)
  with startWrite_front_fails [OF q(2)] q(1) show ?thesis by auto
qed

lemma send_response_fails: "send_response err rsp w = Inl e \<longleftrightarrow> err = eSuccess \<and> rsp = None \<and> e = NullDeref"
  by (auto simp: send_response_def rbind_eq_Inl split: option.splits)

lemma call_response_fails:
  assumes "call_response res err p rsp c = Inl e" and "err = eSuccess \<Longrightarrow> rsp \<noteq> None"
    and "\<And>k. res = SendResponse k \<Longrightarrow> waits_for (waiters c) k"
  shows "err = eSuccess \<and> no_subscribe_rsp (msgPtr (the (get_package c rsp))) e \<or>
    e = DanglingReference \<and> (\<exists>k. res = SendResponse k \<and> wt_frame (waiters c ! k) = Refused)"
  using assms
  by (cases res) (auto simp: rbind_eq_Inl subscribe_response_def no_subscribe_rsp_def send_response_fails get_package_def
      waits_for_def split: if_splits option.splits pb_message.splits)

text \<open>The same for the callback that a message id picks from the table.\<close>

lemma picked_fails:
  assumes "RequestMessage_pick now i (requestMessage c) = (Some d, m)" and "wf_waits c"
    and "call_response (rq_res d) err p rsp (c\<lparr>requestMessage := m\<rparr>) = Inl e" and "err = eSuccess \<Longrightarrow> rsp \<noteq> None"
  shows "err = eSuccess \<and> no_subscribe_rsp (msgPtr (the (get_package c rsp))) e \<or>
    e = DanglingReference \<and> refused_send c i"
proof -
  have s: "sends (requestMessage c) i = Some k" if "rq_res d = SendResponse k" for k
    using pick_requests [OF assms(1)] that by (auto simp: sends_def)
  then have "waits_for (waiters (c\<lparr>requestMessage := m\<rparr>)) k" if "rq_res d = SendResponse k" for k
    using assms(2) that by (auto simp: wf_waits_def intro: ranI)
  from call_response_fails [OF assms(3,4) this] s show ?thesis
    by (auto simp: refused_send_def get_package_def)
qed

lemma timeout_fails:
  fixes c :: "('u, 'r, 'pub, 'del) client"
  assumes "request_timeout now i c = (Inl e :: ('u, 'r, 'pub, 'del, 'ep) client_result)" and "wf_waits c"
  shows "e = DanglingReference \<and> refused_send c i"
proof -
  obtain d m where d: "RequestMessage_pick now i (requestMessage c) = (Some d, m)"
    "call_response (rq_res d) eTimeout (rq_pac d) None (c\<lparr>requestMessage := m\<rparr>) = (Inl e :: ('u, 'r, 'pub, 'del, 'ep) client_result)"
    using assms(1) by (auto simp: request_timeout_def RequestMessage_onTimeout_def split: prod.splits option.splits)
  from picked_fails [OF d(1) assms(2) d(2)] show ?thesis by simp
qed

lemma doResponse_fails:
  fixes c :: "('u, 'r, 'pub, 'del) client"
  assumes "doResponse now r c = (Inl e :: ('u, 'r, 'pub, 'del, 'ep) client_result)" and "wf_waits c" and "r < length (cl_store c)"
  shows "no_subscribe_rsp (msgPtr (cl_store c ! r)) e \<or>
    e = DanglingReference \<and> refused_send c (sint (msgId (header (cl_store c ! r))))"
proof -
  let ?i = "sint (msgId (header (cl_store c ! r)))"
  from assms(1,3) obtain d m where d: "RequestMessage_pick now ?i (requestMessage c) = (Some d, m)"
    "call_response (rq_res d) eSuccess (rq_pac d) (Some r) (c\<lparr>requestMessage := m\<rparr>) = (Inl e :: ('u, 'r, 'pub, 'del, 'ep) client_result)"
    by (auto simp: doResponse_def Let_def split: prod.splits option.splits if_splits)
  from picked_fails [OF d(1) assms(2) d(2)] show ?thesis by (simp add: get_package_def)
qed

lemma client_run_fails:
  fixes c :: "('u, 'r, 'pub, 'del) client" and asked :: "('u, 'r, 'pub, 'del, 'ep) client_effect list"
  assumes "client_run E W resolve now ev c = (Inl e :: ('u, 'r, 'pub, 'del, 'ep) client_result)"
    and "live_inv (c, asked)" and "enabled ev (c, asked)"
  shows "excused E resolve ev c e"
proof -
  have wf: "wf_client c" and waits: "wf_waits c" and refs: "\<forall>r \<in> set (event_refs ev). r < length (cl_store c)"
    using assms(2) enabled_refs [OF assms(2,3)] by simp_all
  have addr: "addressList c \<noteq> []" "\<forall>a \<in> set (addressList c). find_colon a > 0"
    using wf by (simp_all add: wf_client_def)
  show ?thesis
  proof (cases ev)
    case (EvConnect ec)
    with assms(1) have "connect resolve (c\<lparr>isOnline := False, addressIndex := addressIndex c + 1\<rparr>)
        = (Inl e :: ('u, 'r, 'pub, 'del, 'ep) client_result)"
      by (auto simp: doConnect_def Let_def rbind_eq_Inl startSubscribe_def AsioClient_postMessage_def
          request_never_fails split: if_splits)
    from connect_fails [OF this] addr EvConnect show ?thesis by (simp add: excused_def)
  next
    case (EvClose is_open)
    with assms(1) have "connect resolve (c\<lparr>isOnline := False\<rparr>) = (Inl e :: ('u, 'r, 'pub, 'del, 'ep) client_result)"
      by (auto simp: doClose_def Let_def rbind_eq_Inl split: if_splits)
    from connect_fails [OF this] addr EvClose show ?thesis by (simp add: excused_def)
  next
    case (EvWritten ec i)
    then have "writes asked \<noteq> []"
      using assms(3) by (auto simp: callable_def answers_def in_set_conv_decomp split: client_effect.splits)
    then have "pendingList c \<noteq> []" using assms(2) by (auto split: if_splits)
    with written_fails assms(1) wf EvWritten show ?thesis by (fastforce simp: excused_def)
  next
    case (EvReply req msg)
    with assms(1) refs show ?thesis
      by (auto simp: replyDeliver_def new_package_def Let_def event_refs_def split: if_splits prod.splits)
  next
    case (EvTimeout i)
    with assms(1) have "request_timeout now i c = (Inl e :: ('u, 'r, 'pub, 'del, 'ep) client_result)" by simp
    from timeout_fails [OF this waits] EvTimeout show ?thesis by (simp add: excused_def)
  qed (use assms(1) addr wf waits refs in \<open>auto simp: excused_def event_refs_def AsioClient_start_def rbind_eq_Inl map_sum_Inr_eq
      request_never_fails sendMessage_begin_def AsioClient_postMessage_def AsioClient_publishMessage_def new_package_def
      AsioClient_doRead_def AsioClient_doHeartbeat_def Let_def dest: connect_fails startWrite_fails doResponse_fails
      split: prod.splits if_splits\<close>)
qed

section \<open>Type safety\<close>

lemma live_step_inv:
  assumes "live_step E W resolve l l'" and "live_inv l"
  shows "live_inv l'"
  using assms(1)
proof (cases rule: live_step.cases)
  case (call c ev now c' effs asked)
  have "enabled ev (c, asked)" using call(3) by simp
  then have "\<forall>r \<in> set (event_refs ev). r < length (cl_store c)"
    using enabled_refs assms(2) call(1) by blast
  moreover have "\<And>ec i. ev = EvWritten ec i \<Longrightarrow> writes asked = []" using call(3) by (simp add: callable_def)
  ultimately show ?thesis
    using assms(2) unfolding call(1,2) by (intro live_inv_run [OF call(4)]) simp_all
next
  case (answer a ev now c c' effs asked1 asked2)
  have "enabled ev (c, asked1 @ a # asked2)" using answer(3) by simp
  then have "\<forall>r \<in> set (event_refs ev). r < length (cl_store c)"
    using enabled_refs assms(2) answer(1) by blast
  moreover have "list_all (wf_effect (length (cl_store c))) (asked1 @ asked2)"
    using assms(2) answer(1) by simp
  moreover have w: "length (writes (asked1 @ asked2)) + length (writes [a]) \<le> (if pendingList c = [] then 0 else 1)"
    using assms(2) writes_append [of "[a]" asked2] unfolding answer(1) by simp
  moreover have "writes (asked1 @ asked2) = []" if "ev = EvWritten ec i" for ec i
    using that w answer(3) by (auto simp: answers_def split: client_effect.splits if_splits)
  ultimately have "live_inv (c', (asked1 @ asked2) @ effs)"
    using assms(2) unfolding answer(1) by (intro live_inv_run [OF answer(4)]) auto
  then show ?thesis by (simp add: answer(2))
qed

interpretation cl: step_system "live_step E W resolve" live_inv
  for E :: "('d, 'u pb_message) env" and W :: "'u wire" and resolve :: "string \<Rightarrow> string \<Rightarrow> 'ep option"
  by unfold_locales (rule live_step_inv)

lemma AsioClient_new_live:
  assumes "AsioClient_new addresses reconnect heartbeat = Inr c0" and "addresses \<noteq> []"
    and "\<forall>a \<in> set addresses. find_colon a > 0"
  shows "live_inv (fold addHandler hs c0, [])"
  using assms Buffer_new_default
  by (auto simp: AsioClient_new_def wf_client_def wf_waits_def fold_addHandler RequestMessage_new_def)

text \<open>
  A call of \<^verbatim>\<open>sendMessage\<close> whose post is refused returns the error and leaves its callback in the table.
  The next package with its number, or a timer for the number, calls it, after its locals are gone.
\<close>

lemma refused_send_dangles:
  fixes c :: "('u, 'r, 'pub, 'del) client"
  assumes "cl_stopped c \<or> \<not> isOnline c" and "next_msgId (cl_id c) = (i, n)"
    and "msgType (header pac) = REQREP" and "sint (msgId (header pac)) = i"
  shows "\<exists>code c'. sendMessage_begin E now (Some msg) ms c
      = Inr (Inl code, c', [] :: ('u, 'r, 'pub, 'del, 'ep) client_effect list) \<and> code \<noteq> eSuccess \<and>
    doResponse now' (length (cl_store c')) (c'\<lparr>cl_store := cl_store c' @ [pac]\<rparr>)
      = (Inl DanglingReference :: ('u, 'r, 'pub, 'del, 'ep) client_result) \<and>
    request_timeout now' i c' = (Inl DanglingReference :: ('u, 'r, 'pub, 'del, 'ep) client_result)"
proof -
  have i: "sint (word_of_int i :: int32) = i" unfolding assms(4) [symmetric] by simp
  show ?thesis
    using assms
    by (auto simp: sendMessage_begin_def AsioClient_postMessage_def postMessage_order_def new_package_def postPackage_def
        client_package_def set_isorder_def doResponse_def request_timeout_def RequestMessage_onTimeout_def
        RequestMessage_pick_def RequestMessage_put_def Data_new_def i Let_def)
qed

text \<open>
  Property C11. Type safety of the client. Take a client made for a list of addresses with ports, with any
  handlers, and any sequence of calls of the program and of answers to what the client has asked the event
  loop for. The client is well-formed: every reference in its write queue and in its table of requests,
  and every reference it has handed to the loop, lies within its store, the read buffer is intact, at most
  one write is under way, of a queue that is not empty, and every callback of \<^verbatim>\<open>sendMessage\<close> in the table
  belongs to a call of its own, whose locals it captures, and which is still waiting, unless its post was
  refused. And the next event either succeeds or fails for an excused reason: an address that does not
  resolve, a package that cannot be encoded, received bytes that cannot be decoded, a response to the
  subscription that is not one, or, for a time-out or a package whose message id names the callback of a
  \<^verbatim>\<open>sendMessage\<close> whose post was refused, the references of that callback, which dangle.
\<close>

theorem client_type_safe:
  fixes c0 :: "('u, 'r, 'pub, 'del) client" and resolve :: "string \<Rightarrow> string \<Rightarrow> 'ep option"
  assumes "AsioClient_new addresses reconnect heartbeat = Inr c0" and "addresses \<noteq> []"
    and "\<forall>a \<in> set addresses. find_colon a > 0"
    and "(live_step E W resolve)\<^sup>*\<^sup>* (fold addHandler hs c0, []) (c, asked)" and "enabled ev (c, asked)"
  shows "live_inv (c, asked) \<and>
    (case client_run E W resolve now ev c of
       Inl e \<Rightarrow> excused E resolve ev c e
     | Inr (c', effs) \<Rightarrow> wf_client c' \<and> list_all (wf_effect (length (cl_store c'))) effs)"
proof -
  have inv: "live_inv (c, asked)" using cl.steps_keep [OF assms(4) AsioClient_new_live [OF assms(1-3)]] .
  have "case client_run E W resolve now ev c of Inl e \<Rightarrow> excused E resolve ev c e
     | Inr (c', effs) \<Rightarrow> wf_client c' \<and> list_all (wf_effect (length (cl_store c'))) effs"
  proof (cases "client_run E W resolve now ev c")
    case (Inl e)
    with client_run_fails [OF Inl inv assms(5)] show ?thesis by simp
  next
    case (Inr r)
    obtain c' effs where r: "r = (c', effs)" by (cases r)
    have "safe c c' effs" using client_run_safe [OF _ _ enabled_refs [OF inv assms(5)]] Inr r inv by fastforce
    with Inr r inv show ?thesis by (simp add: safe_def)
  qed
  with inv show ?thesis by blast
qed

theorem client_type_safe_witness:
  "\<exists>c0 c :: (unit, string, string, string) client.
    AsioClient_new [''a:1''] 1 5 = Inr c0 \<and> AsioClient_start (\<lambda>h p. Some h) c0 = Inr (c, [AsyncConnect ''a'']) \<and>
    (case doConnect pb_demo sample_wire (\<lambda>h p. Some h) 0 False c of
       Inl e \<Rightarrow> excused pb_demo (\<lambda>h p. Some h) (EvConnect False) c e
     | Inr (c', effs) \<Rightarrow> wf_client c')"
proof -
  let ?r = "\<lambda>h p :: string. Some (h :: string)"
  obtain b where b: "Buffer_new kInitialSize = Inr b" using Buffer_new_default by blast
  then obtain c0 :: "(unit, string, string, string) client" where
    n: "AsioClient_new [''a:1''] 1 5 = Inr c0" "addressList c0 = [''a:1'']" "addressIndex c0 = 0"
    by (simp add: AsioClient_new_def)
  let ?c = "c0\<lparr>cl_runthread := True, cl_threadDoResponse := True\<rparr>"
  have s: "AsioClient_start ?r c0 = Inr (?c, [AsyncConnect ''a''])"
    using n(2,3) by (simp add: AsioClient_start_def connect_def find_colon_def wrap32_id Let_def)
  have "live_step pb_demo sample_wire ?r (c0, []) (?c, [] @ [AsyncConnect ''a''])"
    by (rule live_step.call [where ev = EvStart and now = 0]) (simp_all add: callable_def s)
  then have run: "(live_step pb_demo sample_wire ?r)\<^sup>*\<^sup>* (fold addHandler [] c0, []) (?c, [AsyncConnect ''a''])"
    by simp
  have a: "\<forall>a \<in> set [''a:1'']. find_colon a > 0" by (simp add: find_colon_def wrap32_id)
  have e: "enabled (EvConnect False) (?c, [AsyncConnect ''a''])" by (simp add: answers_def)
  from client_type_safe [OF n(1) _ a run e, of 0] n(1) s show ?thesis
    by (auto split: sum.splits)
qed

end
