(* ===== verification/Connector_Ui.thy ===== *)
theory Connector_Ui
  imports Prelude
begin

text \<open>
  The form of the test program \<^verbatim>\<open>connector/\<close>, as \<^verbatim>\<open>uic\<close> and \<^verbatim>\<open>moc\<close> have generated it
  (\<^verbatim>\<open>GeneratedFiles/ui_Connector.h\<close> and \<^verbatim>\<open>moc_Connector.cpp\<close>): which widgets there are, where they are
  placed, the texts they start with, and the tables by which Qt finds the methods of the dialog. A widget is
  known by the name of its member. Spacing, margins, size hints and translation are not modelled;
  texts are their UTF-8 bytes.
\<close>

section \<open>The form\<close>

datatype ui_class = QVBoxLayout | QHBoxLayout | QLabel | QLineEdit | QPushButton | QTextEdit | QListWidget | QSpacerItem

text \<open>
  The objects in the order in which they are made, the items added to the layouts, the texts, and the
  items of the list widgets.
\<close>

record form =
  fm_objectName :: string
  fm_title :: string
  fm_size :: "int \<times> int"
  fm_objects :: "(string \<times> ui_class) list"
  fm_items :: "(string \<times> string) list"
  fm_text :: "string \<Rightarrow> string"
  fm_list :: "string \<Rightarrow> string list"

definition form_new :: form where
  "form_new = \<lparr>fm_objectName = [], fm_title = [], fm_size = (0, 0), fm_objects = [], fm_items = [],
     fm_text = \<lambda>_. [], fm_list = \<lambda>_. []\<rparr>"

datatype ui_op = Make ui_class string | AddTo string string

fun ui_step :: "ui_op \<Rightarrow> form \<Rightarrow> form" where
  "ui_step (Make cls name) f = f\<lparr>fm_objects := fm_objects f @ [(name, cls)]\<rparr>"
| "ui_step (AddTo layout item) f = f\<lparr>fm_items := fm_items f @ [(layout, item)]\<rparr>"

definition setText :: "string \<Rightarrow> string \<Rightarrow> form \<Rightarrow> form" where
  "setText name txt f = f\<lparr>fm_text := (fm_text f)(name := txt)\<rparr>"

text \<open>\<^verbatim>\<open>count\<close>, \<^verbatim>\<open>clear\<close> and \<^verbatim>\<open>addItem\<close> of a list widget.\<close>

definition list_count :: "string \<Rightarrow> form \<Rightarrow> nat" where
  "list_count name f = length (fm_list f name)"

definition list_clear :: "string \<Rightarrow> form \<Rightarrow> form" where
  "list_clear name f = f\<lparr>fm_list := (fm_list f)(name := [])\<rparr>"

definition addItem :: "string \<Rightarrow> string \<Rightarrow> form \<Rightarrow> form" where
  "addItem name txt f = f\<lparr>fm_list := (fm_list f)(name := fm_list f name @ [txt])\<rparr>"

definition retranslateUi :: "form \<Rightarrow> form" where
  "retranslateUi f = fold (\<lambda>(name, txt). setText name txt)
     [(''label'', ''Address:''), (''pbConnect'', ''Connect''), (''pbDisconnect'', ''Disconnect''),
      (''label_2'', ''Send data:''), (''leIntervalMillisecond'', ''1000''), (''pbStart'', ''Start''),
      (''pbStop'', ''Stop''), (''pbHello'', ''Hello''), (''label_3'', ''Recieve data''),
      (''pbClear'', ''Clear''), (''labelStatus'', '''')]
     (f\<lparr>fm_title := ''Connector''\<rparr>)"

definition setupUi_ops :: "ui_op list" where
  "setupUi_ops =
     [Make QVBoxLayout ''verticalLayout'',
      Make QHBoxLayout ''horizontalLayout'',
      Make QLabel ''label'', AddTo ''horizontalLayout'' ''label'',
      Make QLineEdit ''leAddress'', AddTo ''horizontalLayout'' ''leAddress'',
      Make QPushButton ''pbConnect'', AddTo ''horizontalLayout'' ''pbConnect'',
      Make QPushButton ''pbDisconnect'', AddTo ''horizontalLayout'' ''pbDisconnect'',
      AddTo ''verticalLayout'' ''horizontalLayout'',
      Make QHBoxLayout ''horizontalLayout_2'',
      Make QLabel ''label_2'', AddTo ''horizontalLayout_2'' ''label_2'',
      Make QLineEdit ''leIntervalMillisecond'', AddTo ''horizontalLayout_2'' ''leIntervalMillisecond'',
      Make QPushButton ''pbStart'', AddTo ''horizontalLayout_2'' ''pbStart'',
      Make QPushButton ''pbStop'', AddTo ''horizontalLayout_2'' ''pbStop'',
      Make QPushButton ''pbHello'', AddTo ''horizontalLayout_2'' ''pbHello'',
      Make QSpacerItem ''horizontalSpacer'', AddTo ''horizontalLayout_2'' ''horizontalSpacer'',
      AddTo ''verticalLayout'' ''horizontalLayout_2'',
      Make QTextEdit ''teSendData'', AddTo ''verticalLayout'' ''teSendData'',
      Make QHBoxLayout ''horizontalLayout_3'',
      Make QLabel ''label_3'', AddTo ''horizontalLayout_3'' ''label_3'',
      Make QPushButton ''pbClear'', AddTo ''horizontalLayout_3'' ''pbClear'',
      Make QSpacerItem ''horizontalSpacer_2'', AddTo ''horizontalLayout_3'' ''horizontalSpacer_2'',
      AddTo ''verticalLayout'' ''horizontalLayout_3'',
      Make QHBoxLayout ''horizontalLayout_4'',
      Make QListWidget ''lwSendData'', AddTo ''horizontalLayout_4'' ''lwSendData'',
      Make QListWidget ''lwRecvData'', AddTo ''horizontalLayout_4'' ''lwRecvData'',
      AddTo ''verticalLayout'' ''horizontalLayout_4'',
      Make QLabel ''labelStatus'', AddTo ''verticalLayout'' ''labelStatus'']"

definition setupUi :: "form \<Rightarrow> form" where
  "setupUi f =
     (let f = (if fm_objectName f = [] then f\<lparr>fm_objectName := ''ConnectorClass''\<rparr> else f);
          f = f\<lparr>fm_size := (595, 407)\<rparr>
      in retranslateUi (fold ui_step setupUi_ops f))"

section \<open>The tables of the dialog's methods\<close>

text \<open>
  The names, as offsets and lengths into one literal, and the table of the methods: a signal and two
  slots. The numbers of the types \<^verbatim>\<open>void\<close> and \<^verbatim>\<open>QString\<close> are Qt's and are arguments.
\<close>

definition stringdata0 :: string where
  "stringdata0 = ''Connector'' @ [CHR 0x00] @ ''sigResult'' @ [CHR 0x00, CHR 0x00] @ ''text'' @ [CHR 0x00]
     @ ''onTimer'' @ [CHR 0x00] @ ''onResult'' @ [CHR 0x00]"

definition qt_meta_stringdata :: "(nat \<times> nat) list" where
  "qt_meta_stringdata = [(0, 9), (10, 9), (20, 0), (21, 4), (26, 7), (34, 8)]"

definition meta_string :: "nat \<Rightarrow> string" where
  "meta_string i = (let (ofs, len) = qt_meta_stringdata ! i in take len (drop ofs stringdata0))"

definition qt_meta_data :: "nat \<Rightarrow> nat \<Rightarrow> nat list" where
  "qt_meta_data void_type qstring_type =
     [8, 0, 0, 0, 3, 14, 0, 0, 0, 0, 0, 0, 0, 1,
      1, 1, 29, 2, 0x06,
      4, 0, 32, 2, 0x0a,
      5, 1, 33, 2, 0x0a,
      void_type, qstring_type, 3,
      void_type,
      void_type, qstring_type, 3,
      0]"

text \<open>Qt's reading of the tables: name, types of the arguments, and whether a method is a signal.\<close>

record meta_method =
  mm_name :: string
  mm_args :: "nat list"
  mm_signal :: bool

definition meta_methods :: "nat list \<Rightarrow> meta_method list" where
  "meta_methods d = map (\<lambda>k.
     let row = d ! 5 + 5 * k; argc = d ! (row + 1); params = d ! (row + 2)
     in \<lparr>mm_name = meta_string (d ! row), mm_args = take argc (drop (params + 1) d), mm_signal = (k < d ! 13)\<rparr>)
     [0..<d ! 4]"

text \<open>What a call through the tables invokes.\<close>

datatype meta_call = InvokeMetaMethod | IndexOfMethod | RegisterMethodArgumentMetaType | OtherMetaCall

datatype invocation = InvokeSigResult string | InvokeOnTimer | InvokeOnResult string

text \<open>
  \<^verbatim>\<open>qt_static_metacall\<close>: \<open>arg\<close> is the first argument, \<open>is_sigResult\<close> whether the method pointer that is
  looked for is \<^verbatim>\<open>sigResult\<close>. The results are the invoked method and the index that was found.
\<close>

definition qt_static_metacall :: "meta_call \<Rightarrow> int \<Rightarrow> string \<Rightarrow> bool \<Rightarrow> invocation option \<times> int option" where
  "qt_static_metacall c i arg is_sigResult =
     (if c = InvokeMetaMethod then
        (if i = 0 then (Some (InvokeSigResult arg), None)
         else if i = 1 then (Some InvokeOnTimer, None)
         else if i = 2 then (Some (InvokeOnResult arg), None)
         else (None, None))
      else if c = IndexOfMethod then (None, if is_sigResult then Some 0 else None)
      else (None, None))"

text \<open>
  \<^verbatim>\<open>qt_metacall\<close>: \<open>base\<close> is that of \<^verbatim>\<open>QDialog\<close>, which takes its own methods off the id. The results are the
  remaining id, the invoked method, and the argument type that is stored.
\<close>

definition qt_metacall ::
    "(meta_call \<Rightarrow> int \<Rightarrow> int) \<Rightarrow> meta_call \<Rightarrow> int \<Rightarrow> string \<Rightarrow> int \<times> invocation option \<times> int option" where
  "qt_metacall base c i arg =
     (let i = base c i
      in if i < 0 then (i, None, None)
         else if c = InvokeMetaMethod then
           (i - 3, if i < 3 then fst (qt_static_metacall c i arg False) else None, None)
         else if c = RegisterMethodArgumentMetaType then (i - 3, None, if i < 3 then Some (- 1) else None)
         else (i, None, None))"

text \<open>\<^verbatim>\<open>qt_metacast\<close>: whether it returns the dialog itself; \<open>base\<close> is that of \<^verbatim>\<open>QDialog\<close>.\<close>

definition qt_metacast :: "(string \<Rightarrow> bool) \<Rightarrow> string option \<Rightarrow> bool" where
  "qt_metacast base clname =
     (case clname of None \<Rightarrow> False
      | Some n \<Rightarrow> if n = takeWhile (\<lambda>ch. ch \<noteq> CHR 0x00) stringdata0 then True else base n)"

section \<open>Consistency\<close>

text \<open>The method that an invocation calls, with the number of its arguments.\<close>

fun invoked_method :: "invocation \<Rightarrow> string \<times> nat" where
  "invoked_method (InvokeSigResult txt) = (''sigResult'', 1)"
| "invoked_method InvokeOnTimer = (''onTimer'', 0)"
| "invoked_method (InvokeOnResult txt) = (''onResult'', 1)"

lemma meta_methods_eq:
  "meta_methods (qt_meta_data v q) =
     [\<lparr>mm_name = ''sigResult'', mm_args = [q], mm_signal = True\<rparr>,
      \<lparr>mm_name = ''onTimer'', mm_args = [], mm_signal = False\<rparr>,
      \<lparr>mm_name = ''onResult'', mm_args = [q], mm_signal = False\<rparr>]"
  by (simp add: meta_methods_def qt_meta_data_def meta_string_def qt_meta_stringdata_def stringdata0_def
      upt_conv_Cons Let_def)

text \<open>
  The tables agree with the dispatch: a call by number that is left for the dialog by its base class invokes
  the method that the tables have at that place, which takes as many arguments as they say.
\<close>

lemma metacall_agrees:
  assumes "base InvokeMetaMethod n = int k" and "k < 3"
  shows "\<exists>inv. qt_metacall base InvokeMetaMethod n arg = (int k - 3, Some inv, None) \<and>
    invoked_method inv = (mm_name (meta_methods (qt_meta_data v q) ! k),
      length (mm_args (meta_methods (qt_meta_data v q) ! k)))"
proof -
  from assms(2) consider "k = 0" | "k = 1" | "k = 2" by linarith
  then show ?thesis
    by cases (simp_all add: assms(1) qt_metacall_def qt_static_metacall_def meta_methods_eq)
qed

text \<open>
  An entry holds the length and the distance from the entry to its text: \<open>at\<close> is the offset of the literal
  in the table, \<open>sz\<close> the size of an entry.
\<close>

definition QT_MOC_LITERAL :: "int \<Rightarrow> int \<Rightarrow> int \<Rightarrow> int \<Rightarrow> nat \<Rightarrow> nat \<times> int" where
  "QT_MOC_LITERAL at sz idx ofs len = (len, at + ofs - idx * sz)"

lemma moc_literal_reads:
  "let (len, d) = QT_MOC_LITERAL at sz (int i) (int (fst (qt_meta_stringdata ! i))) (snd (qt_meta_stringdata ! i))
    in take len (drop (nat (int i * sz + d - at)) stringdata0) = meta_string i"
  by (simp add: QT_MOC_LITERAL_def meta_string_def case_prod_beta)

text \<open>
  The meta object of the class, and the one of an object, which Qt may have replaced; the body of the
  signal: it activates the method of its number with its argument, the result's place being empty.
\<close>

record meta_object =
  mo_superdata :: string
  mo_stringdata :: "string list"
  mo_data :: "nat list"
  mo_static_metacall :: "meta_call \<Rightarrow> int \<Rightarrow> string \<Rightarrow> bool \<Rightarrow> invocation option \<times> int option"

definition staticMetaObject :: "nat \<Rightarrow> nat \<Rightarrow> meta_object" where
  "staticMetaObject void_type qstring_type =
     \<lparr>mo_superdata = ''QDialog'', mo_stringdata = map meta_string [0..<length qt_meta_stringdata],
      mo_data = qt_meta_data void_type qstring_type, mo_static_metacall = qt_static_metacall\<rparr>"

definition metaObject :: "nat \<Rightarrow> nat \<Rightarrow> meta_object option \<Rightarrow> meta_object" where
  "metaObject void_type qstring_type dynamic =
     (case dynamic of Some d \<Rightarrow> d | None \<Rightarrow> staticMetaObject void_type qstring_type)"

datatype activation = Activate meta_object nat "string option list"

definition sigResult :: "nat \<Rightarrow> nat \<Rightarrow> string \<Rightarrow> activation" where
  "sigResult void_type qstring_type t1 =
     Activate (staticMetaObject void_type qstring_type) 0 [None, Some t1]"

text \<open>
  The number that the signal activates is that of \<^verbatim>\<open>sigResult\<close> in the tables, it has one place per argument
  after that of the result, and a call of the method by that number is the signal with the same text.
\<close>

lemma sigResult_activates:
  assumes "sigResult v q txt = Activate m k args"
  shows "mm_name (meta_methods (mo_data m) ! k) = ''sigResult'' \<and> mm_signal (meta_methods (mo_data m) ! k) \<and>
    length args = 1 + length (mm_args (meta_methods (mo_data m) ! k)) \<and>
    mo_static_metacall m InvokeMetaMethod (int k) (the (args ! 1)) False = (Some (InvokeSigResult txt), None) \<and>
    hd (mo_stringdata m) = ''Connector''"
proof -
  from assms have m: "m = staticMetaObject v q" "k = 0" "args = [None, Some txt]"
    by (simp_all add: sigResult_def)
  have "hd (mo_stringdata m) = ''Connector''"
    by (simp add: m staticMetaObject_def qt_meta_stringdata_def meta_string_def stringdata0_def upt_conv_Cons)
  then show ?thesis by (simp add: m staticMetaObject_def meta_methods_eq qt_static_metacall_def)
qed

text \<open>\<^verbatim>\<open>connectSlotsByName\<close> connects the methods named \<^verbatim>\<open>on_...\<close>: there are none.\<close>

lemma no_slots_by_name: "filter (\<lambda>m. prefix ''on_'' (mm_name m)) (meta_methods (qt_meta_data v q)) = []"
  by (simp add: meta_methods_eq)

text \<open>
  The widgets have different names, and each of them is placed exactly once, in a layout; the outermost
  layout is that of the dialog.
\<close>

lemma retranslateUi_layout [simp]:
  "fm_objects (retranslateUi f) = fm_objects f" "fm_items (retranslateUi f) = fm_items f"
  "fm_list (retranslateUi f) = fm_list f" "fm_objectName (retranslateUi f) = fm_objectName f"
  by (simp_all add: retranslateUi_def setText_def)

lemma setupUi_layout:
  "distinct (map fst (fm_objects (setupUi form_new))) \<and> distinct (map snd (fm_items (setupUi form_new))) \<and>
   set (map snd (fm_items (setupUi form_new))) = set (map fst (fm_objects (setupUi form_new))) - {''verticalLayout''} \<and>
   (\<forall>l \<in> set (map fst (fm_items (setupUi form_new))).
      map_of (fm_objects (setupUi form_new)) l \<in> {Some QVBoxLayout, Some QHBoxLayout})"
  by code_simp

end
