(* ===== verification/Str_Num.thy ===== *)
theory Str_Num
  imports Strutil
begin

text \<open>
  Numbers as text, \<^verbatim>\<open>asio/tool/strutil.cpp\<close>: the conversions through a \<^verbatim>\<open>std::stringstream\<close> in the
  classic locale. Writing an integer appends its decimal digits; reading a string skips white space
  and stops at the next; reading an integer skips white space, takes a sign and the digits that
  follow, and stores 0 when there is none and the nearest bound when the number does not fit. A
  stream that has nothing but white space left stores nothing.
\<close>

section \<open>Streams\<close>

definition isspace :: "char \<Rightarrow> bool" where
  "isspace c \<longleftrightarrow> c \<in> {CHR '' '', CHR 0x09, CHR 0x0A, CHR 0x0B, CHR 0x0C, CHR 0x0D}"

definition digit :: "nat \<Rightarrow> char" where
  "digit n = char_of (48 + n)"

definition digit_value :: "char \<Rightarrow> nat" where
  "digit_value c = of_char c - 48"

definition isdigit :: "char \<Rightarrow> bool" where
  "isdigit c \<longleftrightarrow> 48 \<le> (of_char c :: nat) \<and> (of_char c :: nat) \<le> 57"

fun dec_nat :: "nat \<Rightarrow> string" where
  "dec_nat n = (if n < 10 then [digit n] else dec_nat (n div 10) @ [digit (n mod 10)])"

declare dec_nat.simps [simp del]

definition dec_int :: "int \<Rightarrow> string" where
  "dec_int i = (if i < 0 then CHR ''-'' # dec_nat (nat (- i)) else dec_nat (nat i))"

definition stream_word :: "string \<Rightarrow> string" where
  "stream_word buf = takeWhile (\<lambda>c. \<not> isspace c) (dropWhile isspace buf)"

definition digits_value :: "string \<Rightarrow> nat" where
  "digits_value ds = foldl (\<lambda>n c. 10 * n + digit_value c) 0 ds"

definition take_sign :: "string \<Rightarrow> bool \<times> string" where
  "take_sign t = (case t of
     [] \<Rightarrow> (False, [])
   | c # r \<Rightarrow> if c = CHR ''-'' then (True, r) else if c = CHR ''+'' then (False, r) else (False, t))"

text \<open>The value read, if any: of a signed type with the bounds given, and of an unsigned one.\<close>

definition stream_signed :: "int \<Rightarrow> int \<Rightarrow> string \<Rightarrow> int option" where
  "stream_signed lo hi buf =
     (let t = dropWhile isspace buf
      in if t = [] then None
         else (let (neg, r) = take_sign t; ds = takeWhile isdigit r
               in if ds = [] then Some 0
                  else (let v = (if neg then - int (digits_value ds) else int (digits_value ds))
                        in Some (max lo (min hi v)))))"

definition stream_unsigned :: "nat \<Rightarrow> string \<Rightarrow> int option" where
  "stream_unsigned w buf =
     (let t = dropWhile isspace buf
      in if t = [] then None
         else (let (neg, r) = take_sign t; ds = takeWhile isdigit r; v = int (digits_value ds)
               in if ds = [] then Some 0
                  else if 2 ^ w \<le> v then Some (2 ^ w - 1)
                  else Some (if neg then (- v) mod 2 ^ w else v)))"

section \<open>The conversions\<close>

definition operator_plus_int :: "string \<Rightarrow> int32 \<Rightarrow> string" where
  "operator_plus_int s n = stream_word (s @ dec_int (sint n))"

definition GenericSimpleItoa :: "int \<Rightarrow> string" where
  "GenericSimpleItoa n = stream_word (dec_int n)"

definition SimpleItoa_int :: "int32 \<Rightarrow> string" where
  "SimpleItoa_int n = GenericSimpleItoa (sint n)"

definition SimpleItoa_uint64 :: "64 word \<Rightarrow> string" where
  "SimpleItoa_uint64 n = GenericSimpleItoa (uint n)"

definition SimpleItoa_int64 :: "64 word \<Rightarrow> string" where
  "SimpleItoa_int64 n = GenericSimpleItoa (sint n)"

text \<open>The output parameter keeps its value when nothing is stored.\<close>

definition GenericAtoi :: "(string \<Rightarrow> int option) \<Rightarrow> string \<Rightarrow> 'w::len word \<Rightarrow> 'w word" where
  "GenericAtoi get s out = (case get s of None \<Rightarrow> out | Some v \<Rightarrow> word_of_int v)"

definition safe_strto32 :: "string \<Rightarrow> int32 \<Rightarrow> int32" where
  "safe_strto32 s n = GenericAtoi (stream_signed (- (2 ^ 31)) (2 ^ 31 - 1)) s n"

definition safe_strtou64 :: "string \<Rightarrow> 64 word \<Rightarrow> 64 word" where
  "safe_strtou64 s n = GenericAtoi (stream_unsigned 64) s n"

definition safe_strto64 :: "string \<Rightarrow> 64 word \<Rightarrow> 64 word" where
  "safe_strto64 s n = GenericAtoi (stream_signed (- (2 ^ 63)) (2 ^ 63 - 1)) s n"

section \<open>Decimal text\<close>

lemma of_char_digit: "n < 10 \<Longrightarrow> (of_char (digit n) :: nat) = 48 + n"
  by (simp add: digit_def)

lemma digit_simps [simp]:
  assumes "n < 10"
  shows "digit_value (digit n) = n" "isdigit (digit n)"
  using assms by (simp_all add: digit_value_def isdigit_def of_char_digit)

lemma isdigit_not_space: "isdigit c \<Longrightarrow> \<not> isspace c \<and> c \<noteq> CHR ''-'' \<and> c \<noteq> CHR ''+''"
  by (auto simp: isdigit_def isspace_def)

lemma dec_nat_digits: "list_all isdigit (dec_nat n) \<and> dec_nat n \<noteq> []"
proof (induction n rule: dec_nat.induct)
  case (1 n)
  then show ?case by (subst (1 2) dec_nat.simps) simp
qed

lemma dec_nat_value: "digits_value (dec_nat n) = n"
proof (induction n rule: dec_nat.induct)
  case (1 n)
  then show ?case by (subst dec_nat.simps) (simp add: digits_value_def)
qed

lemma dec_nat_hd: "isdigit (hd (dec_nat n))"
  using dec_nat_digits [of n] by (cases "dec_nat n") simp_all

lemma takeWhile_all: "list_all P xs \<Longrightarrow> takeWhile P xs = xs"
  by (induction xs) simp_all

lemma dec_int_no_space: "list_all (\<lambda>c. \<not> isspace c) (dec_int i) \<and> dec_int i \<noteq> []"
proof -
  have "list_all (\<lambda>c. \<not> isspace c) (dec_nat n)" for n
    using dec_nat_digits [of n] isdigit_not_space by (auto simp: list_all_iff)
  then show ?thesis using dec_nat_digits by (simp add: dec_int_def) (simp add: isspace_def)
qed

lemma stream_word_eq:
  assumes "list_all (\<lambda>c. \<not> isspace c) s"
  shows "stream_word s = s"
proof -
  have "dropWhile isspace s = s" using assms by (cases s) simp_all
  with assms show ?thesis by (simp add: stream_word_def takeWhile_all)
qed

lemma Itoa_dec: "GenericSimpleItoa n = dec_int n"
  using dec_int_no_space [of n] by (simp add: GenericSimpleItoa_def stream_word_eq)

lemma dec_int_parts:
  "dropWhile isspace (dec_int i) = dec_int i"
  "take_sign (dec_int i) = (i < 0, dec_nat (nat \<bar>i\<bar>))"
proof -
  show "dropWhile isspace (dec_int i) = dec_int i"
    using dec_int_no_space [of i] by (cases "dec_int i") simp_all
  have "take_sign (dec_nat n) = (False, dec_nat n)" for n
    using isdigit_not_space [OF dec_nat_hd [of n]] dec_nat_digits [of n]
    by (cases "dec_nat n") (simp_all add: take_sign_def)
  then show "take_sign (dec_int i) = (i < 0, dec_nat (nat \<bar>i\<bar>))"
    by (auto simp: dec_int_def take_sign_def)
qed

lemma stream_dec:
  "stream_signed lo hi (dec_int i) = Some (max lo (min hi i))"
  "stream_unsigned w (dec_int i) = Some (if 2 ^ w \<le> \<bar>i\<bar> then 2 ^ w - 1 else i mod 2 ^ w)"
proof -
  note d = dec_nat_digits [of "nat \<bar>i\<bar>"] dec_int_no_space [of i]
  have t: "takeWhile isdigit (dec_nat n) = dec_nat n" for n using dec_nat_digits by (simp add: takeWhile_all)
  have e: "dec_nat n \<noteq> []" for n using dec_nat_digits by simp
  show "stream_signed lo hi (dec_int i) = Some (max lo (min hi i))"
    using d by (simp add: stream_signed_def dec_int_parts t e dec_nat_value Let_def)
  show "stream_unsigned w (dec_int i) = Some (if 2 ^ w \<le> \<bar>i\<bar> then 2 ^ w - 1 else i mod 2 ^ w)"
    using d by (simp add: stream_unsigned_def dec_int_parts t e dec_nat_value Let_def)
qed

text \<open>
  Every number survives the way through its text: \<^verbatim>\<open>safe_strto32\<close>, \<^verbatim>\<open>safe_strto64\<close> and
  \<^verbatim>\<open>safe_strtou64\<close> read what \<^verbatim>\<open>SimpleItoa\<close> has written. The text of an integer that does not fit the type
  is read as the nearest bound.
\<close>

theorem itoa_strto:
  "safe_strto32 (SimpleItoa_int a) x = a \<and>
   safe_strto64 (SimpleItoa_int64 b) y = b \<and>
   safe_strtou64 (SimpleItoa_uint64 c) z = c \<and>
   safe_strto32 (SimpleItoa_int64 b) x = word_of_int (max (- (2 ^ 31)) (min (2 ^ 31 - 1) (sint b))) \<and>
   safe_strto64 (SimpleItoa_uint64 c) y = word_of_int (min (2 ^ 63 - 1) (uint c))"
proof -
  have a: "- (2 ^ 31) \<le> sint a" "sint a < 2 ^ 31" and b: "- (2 ^ 63) \<le> sint b" "sint b < 2 ^ 63"
    and c: "0 \<le> uint c" "uint c < 2 ^ 64"
    using sint_range_size [of a] sint_range_size [of b] uint_range_size [of c] by (simp_all add: word_size)
  note defs = safe_strto32_def safe_strto64_def safe_strtou64_def SimpleItoa_int_def
    SimpleItoa_int64_def SimpleItoa_uint64_def GenericAtoi_def Itoa_dec stream_dec
  have "safe_strto32 (SimpleItoa_int a) x = a" using a by (simp add: defs)
  moreover have "safe_strto64 (SimpleItoa_int64 b) y = b" using b by (simp add: defs)
  moreover have "safe_strtou64 (SimpleItoa_uint64 c) z = c" using c by (simp add: defs)
  moreover have "max (- (2 ^ 63)) (min (2 ^ 63 - 1) (uint c)) = min (2 ^ 63 - 1) (uint c)"
    by (rule max_absorb2) (rule order_trans [OF _ min.boundedI [OF _ c(1)]]; simp)
  ultimately show ?thesis by (simp add: defs)
qed

text \<open>\<^verbatim>\<open>operator+\<close> reads back only the first word of what it has written.\<close>

lemma operator_plus_int_cases:
  "list_all (\<lambda>c. \<not> isspace c) s \<Longrightarrow> operator_plus_int s n = s @ dec_int (sint n)"
  "list_all (\<lambda>c. \<not> isspace c) s \<Longrightarrow> s \<noteq> [] \<Longrightarrow> isspace c \<Longrightarrow> operator_plus_int (s @ c # t) n = s"
proof -
  show "operator_plus_int s n = s @ dec_int (sint n)" if "list_all (\<lambda>c. \<not> isspace c) s"
    using that dec_int_no_space by (simp add: operator_plus_int_def stream_word_eq)
  show "operator_plus_int (s @ c # t) n = s" if "list_all (\<lambda>c. \<not> isspace c) s" "s \<noteq> []" "isspace c"
  proof -
    have "dropWhile isspace (s @ c # t @ dec_int (sint n)) = s @ c # t @ dec_int (sint n)"
      using that(1,2) by (cases s) simp_all
    moreover have "takeWhile (\<lambda>c. \<not> isspace c) (s @ c # u) = s" for u
      using that(1,3) by (induction s) simp_all
    ultimately show ?thesis by (simp add: operator_plus_int_def stream_word_def)
  qed
qed

end
