(* ===== verification/Process_Memory.thy ===== *)
theory Process_Memory
  imports Str_Num
begin

text \<open>
  The memory of the process, \<^verbatim>\<open>asio/tool/process_memory.h\<close>, on every system that the header knows. The
  macros that the compiler predefines are a set of names; what the system's calls return is a record.
\<close>

section \<open>Systems\<close>

type_synonym macros = "string set"

definition on_windows :: "macros \<Rightarrow> bool" where
  "on_windows D = (''_WIN32'' \<in> D)"

definition on_apple :: "macros \<Rightarrow> bool" where
  "on_apple D = (''__APPLE__'' \<in> D \<and> ''__MACH__'' \<in> D)"

definition on_unix :: "macros \<Rightarrow> bool" where
  "on_unix D = (''__unix__'' \<in> D \<or> ''__unix'' \<in> D \<or> ''unix'' \<in> D \<or> on_apple D)"

definition on_aix_solaris :: "macros \<Rightarrow> bool" where
  "on_aix_solaris D =
     ((''_AIX'' \<in> D \<or> ''__TOS__AIX__'' \<in> D) \<or>
      (''__sun__'' \<in> D \<or> ''__sun'' \<in> D \<or> ''sun'' \<in> D \<and> (''__SVR4'' \<in> D \<or> ''__svr4__'' \<in> D)))"

definition on_linux :: "macros \<Rightarrow> bool" where
  "on_linux D = (''__linux__'' \<in> D \<or> ''__linux'' \<in> D \<or> ''linux'' \<in> D \<or> ''__gnu_linux__'' \<in> D)"

text \<open>The headers that are included, or the \<^verbatim>\<open>#error\<close> of an unknown system.\<close>

definition process_memory_headers :: "macros \<Rightarrow> string list option" where
  "process_memory_headers D =
     (if on_windows D then Some [''windows.h'', ''psapi.h'']
      else if on_unix D then
        Some ([''unistd.h'', ''sys/resource.h''] @
          (if on_apple D then [''mach/mach.h'']
           else if on_aix_solaris D then [''fcntl.h'', ''procfs.h'']
           else if on_linux D then [''stdio.h''] else []))
      else None)"

text \<open>
  What the calls return: the counters of \<^verbatim>\<open>GetProcessMemoryInfo\<close>; for \<^verbatim>\<open>/proc/self/psinfo\<close>, whether it can
  be opened, whether all of it can be read, and its \<^verbatim>\<open>pr_rssize\<close>; \<^verbatim>\<open>getrusage\<close>; \<^verbatim>\<open>task_info\<close>, which may
  fail; the text of \<^verbatim>\<open>/proc/self/statm\<close>, if it can be opened; the page size.
\<close>

record process_info =
  PeakWorkingSetSize :: nat
  WorkingSetSize :: nat
  psinfo :: "int option option"
  ru_maxrss :: int
  resident_size :: "nat option"
  statm :: "string option"
  pagesize :: int

section \<open>Peak and current size\<close>

definition getPeakRSS :: "macros \<Rightarrow> process_info \<Rightarrow> nat" where
  "getPeakRSS D info =
     (if on_windows D then PeakWorkingSetSize info
      else if on_aix_solaris D then
        (case psinfo info of
           None \<Rightarrow> 0
         | Some None \<Rightarrow> 0
         | Some (Some pr_rssize) \<Rightarrow> size_of_int (pr_rssize * 1024))
      else if on_unix D then
        (if on_apple D then size_of_int (ru_maxrss info) else size_of_int (ru_maxrss info * 1024))
      else 0)"

text \<open>
  \<^verbatim>\<open>fscanf(fp, "%*s%ld", &rss)\<close>: a word, and then a number, which \<open>stream_signed\<close> reads as \<^verbatim>\<open>scanf\<close> does,
  except that it takes a text without digits for 0.
\<close>

definition scan_statm :: "string \<Rightarrow> int option" where
  "scan_statm txt =
     (let t = dropWhile isspace txt; rest = dropWhile (\<lambda>ch. \<not> isspace ch) t;
          ds = takeWhile isdigit (snd (take_sign (dropWhile isspace rest)))
      in if t = [] \<or> ds = [] then None else stream_signed (- (2 ^ 63)) (2 ^ 63 - 1) rest)"

definition getCurrentRSS :: "macros \<Rightarrow> process_info \<Rightarrow> nat" where
  "getCurrentRSS D info =
     (if on_windows D then WorkingSetSize info
      else if on_apple D then (case resident_size info of None \<Rightarrow> 0 | Some n \<Rightarrow> n)
      else if on_linux D then
        (case statm info of
           None \<Rightarrow> 0
         | Some txt \<Rightarrow> (case scan_statm txt of
               None \<Rightarrow> 0
             | Some rss \<Rightarrow> size_of_int rss * size_of_int (pagesize info) mod 2 ^ 64))
      else 0)"

section \<open>What is reported\<close>

text \<open>On Linux the resident size is read from the second word of \<^verbatim>\<open>statm\<close>.\<close>

lemma getCurrentRSS_reads:
  assumes "on_linux D" and "\<not> on_windows D" and "\<not> on_apple D"
    and "statm info = Some (dec_nat k @ '' '' @ dec_nat r @ '' '' @ rest)"
    and "0 \<le> pagesize info" and "pagesize info < 2 ^ 63" and "int r * pagesize info < 2 ^ 64" and "r < 2 ^ 63"
  shows "getCurrentRSS D info = r * nat (pagesize info)"
proof -
  have w: "dropWhile isspace (dec_nat k @ s) = dec_nat k @ s" "dropWhile (\<lambda>ch. \<not> isspace ch) (dec_nat k @ CHR '' '' # s) = CHR '' '' # s" for s k
  proof -
    have "\<not> isspace (hd (dec_nat k))" "dec_nat k \<noteq> []" "\<forall>ch \<in> set (dec_nat k). \<not> isspace ch"
      using dec_nat_digits [of k] isdigit_not_space by (auto simp: list_all_iff hd_in_set)
    then show "dropWhile isspace (dec_nat k @ s) = dec_nat k @ s"
      "dropWhile (\<lambda>ch. \<not> isspace ch) (dec_nat k @ CHR '' '' # s) = CHR '' '' # s"
      by (cases "dec_nat k"; simp add: isspace_def dropWhile_append2)+
  qed
  have sp: "isspace (CHR '' '')" by (simp add: isspace_def)
  have d: "take_sign (dec_nat r @ s) = (False, dec_nat r @ s)" for s
    using dec_nat_hd [of r] dec_nat_digits [of r] isdigit_not_space by (cases "dec_nat r") (auto simp: take_sign_def)
  have t: "takeWhile isdigit (dec_nat r @ CHR '' '' # rest) = dec_nat r"
    using dec_nat_digits [of r] by (subst takeWhile_append2) (auto simp: list_all_iff isdigit_def)
  have ne: "dec_nat k \<noteq> []" "dec_nat r \<noteq> []" using dec_nat_digits by simp_all
  have "scan_statm (dec_nat k @ '' '' @ dec_nat r @ '' '' @ rest) = Some (int r)"
    using assms(8) by (simp add: scan_statm_def stream_signed_def w sp d t ne dec_nat_value Let_def)
  moreover have "int (r * nat (pagesize info)) < int (2 ^ 64)" using assms(5,7) by simp
  then have "r * nat (pagesize info) < 2 ^ 64" by (simp only: of_nat_less_iff)
  ultimately show ?thesis using assms by (simp add: getCurrentRSS_def size_of_int_nonneg)
qed

text \<open>
  Where the header compiles, \<^verbatim>\<open>getPeakRSS\<close> is never the branch of an unknown system, while \<^verbatim>\<open>getCurrentRSS\<close>
  is on all the systems that are neither Windows, OSX nor Linux: it answers 0 there without asking.
\<close>

lemma getPeakRSS_asks:
  assumes "process_memory_headers D \<noteq> None" and "\<not> on_windows D" and "\<not> on_aix_solaris D"
    and "0 < ru_maxrss info" and "ru_maxrss info < 2 ^ 53"
  shows "int (getPeakRSS D info) = ru_maxrss info * (if on_apple D then 1 else 1024)"
proof -
  have "on_unix D" using assms(1,2) by (auto simp: process_memory_headers_def split: if_splits)
  with assms(2-5) show ?thesis by (simp add: getPeakRSS_def size_of_int_nonneg)
qed

lemma getCurrentRSS_unsupported:
  assumes "process_memory_headers D \<noteq> None" and "\<not> on_windows D" and "\<not> on_apple D" and "\<not> on_linux D"
  shows "getCurrentRSS D info = 0"
  using assms by (simp add: getCurrentRSS_def)

end
