(* ===== verification/Util.thy ===== *)
theory Util
  imports Process_Memory ProtoHelp
begin

text \<open>
  The utilities of \<^verbatim>\<open>asio/tool/util.cpp\<close>. What the operating system supplies is an argument: the clock in
  microseconds since 1970, the files by their paths, the sizes of the process. What the functions ask of it is a list of
  effects. (\<^verbatim>\<open>getFormatTime\<close> is in \<open>Server_Main\<close>.)
\<close>

section \<open>Settings\<close>

datatype setting_effect =
    InstallFailureWriter
  | InitGoogleLogging string
  | MakeDir string
  | SetLogDestination string
  | AlsoLogToStderr bool

text \<open>\<^verbatim>\<open>path.find_last_of('/') + 1\<close>, which is 0 when there is no slash.\<close>

definition after_last_slash :: "string \<Rightarrow> nat" where
  "after_last_slash path = length path - length (takeWhile (\<lambda>ch. ch \<noteq> CHR ''/'') (rev path))"

definition unix_path :: "string \<Rightarrow> string" where
  "unix_path path = map (\<lambda>ch. if ch = CHR 0x5C then CHR ''/'' else ch) path"

definition initlog :: "string \<Rightarrow> bool \<Rightarrow> setting_effect list" where
  "initlog path console =
     (let fileNamePrefix = ''log'';
          path = unix_path path;
          dir = take (after_last_slash path) path @ ''log/''
      in [InstallFailureWriter, InitGoogleLogging path, MakeDir dir, SetLogDestination (dir @ fileNamePrefix),
          AlsoLogToStderr console])"

text \<open>The text that is logged; a negative size is converted to a huge one.\<close>

definition failureWriter :: "char list \<Rightarrow> int \<Rightarrow> string result" where
  "failureWriter data sz = (if sz < 0 then Inl LengthError else load_array data (nat sz))"

definition setting_initEnableCompressSize :: "int \<Rightarrow> ('d, 'm) env \<Rightarrow> ('d, 'm) env" where
  "setting_initEnableCompressSize sz E = initEnableCompressSize sz E"

definition setting_enableCompressSize :: "('d, 'm) env \<Rightarrow> int" where
  "setting_enableCompressSize E = enableCompressSize E"

section \<open>Time and files\<close>

definition currentMillisecond :: "nat \<Rightarrow> int" where
  "currentMillisecond microseconds = int (microseconds div 1000)"

text \<open>The call that is made, with its argument converted to an unsigned 32-bit number.\<close>

datatype sleep_call = Sleep_milliseconds nat | Usleep_microseconds nat

definition util_sleep :: "macros \<Rightarrow> int \<Rightarrow> sleep_call" where
  "util_sleep D millisecond =
     (if ''WIN32'' \<in> D then Sleep_milliseconds (nat (millisecond mod 2 ^ 32))
      else Usleep_microseconds (nat (wrap32 (1000 * millisecond) mod 2 ^ 32)))"

text \<open>
  A file that cannot be opened leaves a stream without contents; a stream throws no exception unless it has
  been asked to.
\<close>

definition readFile :: "(string \<Rightarrow> string option) \<Rightarrow> string \<Rightarrow> string" where
  "readFile files path = (case files path of None \<Rightarrow> [] | Some s \<Rightarrow> s)"

section \<open>Sizes as text\<close>

text \<open>The quotient of two natural numbers, rounded to the nearest one, ties to even.\<close>

definition round_half_even :: "nat \<Rightarrow> nat \<Rightarrow> nat" where
  "round_half_even n d =
     (let q = n div d; r = n mod d
      in if 2 * r < d then q else if d < 2 * r then q + 1 else if even q then q else q + 1)"

fun bit_len :: "nat \<Rightarrow> nat" where
  "bit_len n = (if n = 0 then 0 else 1 + bit_len (n div 2))"

declare bit_len.simps [simp del]

text \<open>\<^verbatim>\<open>size * 1.0\<close>: the nearest \<^verbatim>\<open>double\<close>, which has 53 bits.\<close>

definition to_double :: "nat \<Rightarrow> nat" where
  "to_double n =
     (if n < 2 ^ 53 then n
      else (let e = bit_len n - 53 in round_half_even n (2 ^ e) * 2 ^ e))"

text \<open>
  A \<^verbatim>\<open>double\<close> \<open>n / d\<close> with two decimals. Division by a power of two is exact, and the value is printed
  rounded to the nearest hundredth.
\<close>

definition hundredths :: "nat \<Rightarrow> string" where
  "hundredths h = dec_nat (h div 100) @ [CHR ''.'', digit (h div 10 mod 10), digit (h mod 10)]"

definition fixed2 :: "nat \<Rightarrow> nat \<Rightarrow> string" where
  "fixed2 n d = hundredths (round_half_even (100 * n) d)"

definition bytesFormat :: "nat \<Rightarrow> string" where
  "bytesFormat sz =
     (if sz < 1024 then dec_nat sz @ '' B''
      else if sz < 1024 * 1024 then fixed2 (to_double sz) 1024 @ '' KB''
      else if sz < 1024 * 1024 * 1024 then fixed2 (to_double sz) (1024 * 1024) @ '' MB''
      else fixed2 (to_double sz) (1024 * 1024 * 1024) @ '' GB'')"

definition getFormatRss :: "macros \<Rightarrow> process_info \<Rightarrow> string" where
  "getFormatRss D info = bytesFormat (getCurrentRSS D info)"

section \<open>Accuracy\<close>

lemma round_half_even_error:
  assumes "0 < d"
  shows "2 * \<bar>int n - int (round_half_even n d * d)\<bar> \<le> int d"
proof -
  let ?q = "n div d" and ?r = "n mod d"
  have n: "int n = int (?q * d) + int ?r" by (metis div_mult_mod_eq of_nat_add)
  have r: "?r < d" using assms by simp
  have s: "int ((?q + 1) * d) = int (?q * d) + int d" by (simp add: algebra_simps)
  have "round_half_even n d = ?q \<and> 2 * ?r \<le> d \<or> round_half_even n d = ?q + 1 \<and> d \<le> 2 * ?r"
    by (auto simp: round_half_even_def Let_def)
  then show ?thesis
  proof
    assume "round_half_even n d = ?q \<and> 2 * ?r \<le> d"
    then show ?thesis using n by simp
  next
    assume "round_half_even n d = ?q + 1 \<and> d \<le> 2 * ?r"
    then have "round_half_even n d = ?q + 1" "int d \<le> 2 * int ?r" by linarith+
    then have "int n - int (round_half_even n d * d) = int ?r - int d" using n s by simp
    then show ?thesis using r \<open>int d \<le> 2 * int ?r\<close> by simp
  qed
qed

lemma bit_len_bounds: "0 < n \<Longrightarrow> 2 ^ (bit_len n - 1) \<le> n \<and> n < 2 ^ bit_len n \<and> 0 < bit_len n"
proof (induction n rule: bit_len.induct)
  case (1 n)
  show ?case
  proof (cases "n div 2 = 0")
    case True
    with 1 have "n = 1" by simp
    then show ?thesis by (simp add: bit_len.simps)
  next
    case False
    then have "0 < n div 2" by simp
    with 1 have IH: "2 ^ (bit_len (n div 2) - 1) \<le> n div 2" "n div 2 < 2 ^ bit_len (n div 2)" "0 < bit_len (n div 2)"
      by simp_all
    have b: "bit_len n = Suc (bit_len (n div 2))" using 1(2) by (simp add: bit_len.simps [of n])
    have "2 * 2 ^ (bit_len (n div 2) - 1) \<le> n" "n < 2 * 2 ^ bit_len (n div 2)" using IH(1,2) by linarith+
    moreover have "2 * 2 ^ (bit_len (n div 2) - 1) = (2 :: nat) ^ bit_len (n div 2)" using IH(3) by (simp add: power_eq_if)
    ultimately show ?thesis unfolding b by simp
  qed
qed

lemma to_double_error: "2 ^ 53 * \<bar>int (to_double n) - int n\<bar> \<le> int n"
proof (cases "n < 2 ^ 53")
  case False
  let ?L = "bit_len n" and ?e = "bit_len n - 53"
  have n: "2 ^ (?L - 1) \<le> n" "n < 2 ^ ?L" using bit_len_bounds [of n] False by auto
  have "54 \<le> ?L"
  proof (rule ccontr)
    assume "\<not> 54 \<le> ?L"
    then have "(2 :: nat) ^ ?L \<le> 2 ^ 53" by (intro power_increasing) auto
    with n(2) False show False by simp
  qed
  then have "52 + ?e = ?L - 1" by linarith
  then have e: "2 ^ 52 * 2 ^ ?e = (2 :: nat) ^ (?L - 1)" by (metis power_add)
  have "2 * \<bar>int n - int (round_half_even n (2 ^ ?e) * 2 ^ ?e)\<bar> \<le> int (2 ^ ?e)"
    by (rule round_half_even_error) simp
  then have "2 ^ 52 * (2 * \<bar>int n - int (to_double n)\<bar>) \<le> 2 ^ 52 * int (2 ^ ?e)"
    using False by (intro mult_left_mono) (simp_all add: to_double_def Let_def)
  also have "2 ^ 52 * int (2 ^ ?e) = int (2 ^ 52 * 2 ^ ?e)" by simp
  also have "\<dots> = int (2 ^ (?L - 1))" using e by simp
  also have "\<dots> \<le> int n" using n(1) by (simp only: of_nat_le_iff)
  finally show ?thesis by (simp add: abs_minus_commute)
qed (simp add: to_double_def)


lemma to_double_small: "n < 2 ^ 53 \<longrightarrow> to_double n = n"
  by (simp add: to_double_def)

lemma round_half_even_ge: "0 < d \<Longrightarrow> k * d \<le> n \<Longrightarrow> k \<le> round_half_even n d"
proof -
  assume d: "0 < d" and n: "k * d \<le> n"
  then have "k \<le> n div d" by (simp add: less_eq_div_iff_mult_less_eq)
  then show ?thesis by (simp add: round_half_even_def Let_def)
qed

text \<open>The unit that \<^verbatim>\<open>bytesFormat\<close> chooses, with its number of bytes.\<close>

definition size_unit :: "nat \<Rightarrow> nat \<times> string" where
  "size_unit n = (if n < 1024 ^ 2 then (1024, '' KB'') else if n < 1024 ^ 3 then (1024 ^ 2, '' MB'') else (1024 ^ 3, '' GB''))"

lemma bytesFormat_unit:
  assumes "1024 \<le> n"
  shows "bytesFormat n = hundredths (round_half_even (100 * to_double n) (fst (size_unit n))) @ snd (size_unit n)"
  using assms by (simp add: bytesFormat_def size_unit_def fixed2_def)

text \<open>
  Property C35. Sizes as text. A size below 1024 is printed exactly. Any other is printed in hundredths of
  the unit that it reaches: the number is at least 1.00 and differs from the size, as a \<^verbatim>\<open>double\<close>, by at most
  half a hundredth of the unit; and that \<^verbatim>\<open>double\<close> is the size itself up to one part in \<open>2 ^ 53\<close>. Just below
  the next unit the number is rounded up to 1024.00.
\<close>

theorem bytesFormat_accurate:
  "(n < 1024 \<longrightarrow> bytesFormat n = dec_nat n @ '' B'') \<and>
   (1024 \<le> n \<longrightarrow> (\<exists>h D. bytesFormat n = hundredths h @ snd (size_unit n) \<and> 100 \<le> h \<and>
      2 * \<bar>100 * int D - int h * int (fst (size_unit n))\<bar> \<le> int (fst (size_unit n)) \<and>
      2 ^ 53 * \<bar>int D - int n\<bar> \<le> int n \<and> (n < 2 ^ 53 \<longrightarrow> D = n))) \<and>
   bytesFormat 1048575 = ''1024.00 KB''"
proof (intro conjI impI)
  show "bytesFormat n = dec_nat n @ '' B''" if "n < 1024" using that by (simp add: bytesFormat_def)
  have "digit 0 = CHR ''0''" "digit 1 = CHR ''1''" "digit 2 = CHR ''2''" "digit 4 = CHR ''4''" by code_simp+
  then show "bytesFormat 1048575 = ''1024.00 KB''"
    by (simp add: bytesFormat_def fixed2_def to_double_def round_half_even_def hundredths_def dec_nat.simps Let_def)
  assume n: "1024 \<le> n"
  let ?u = "fst (size_unit n)" and ?D = "to_double n"
  have u: "0 < ?u" "?u \<le> n" using n by (auto simp: size_unit_def)
  have "?u \<le> ?D"
  proof (cases "n < 2 ^ 53")
    case False
    have "2 * \<bar>int ?D - int n\<bar> \<le> 2 ^ 53 * \<bar>int ?D - int n\<bar>" by (rule mult_right_mono) simp_all
    also note to_double_error
    finally have a: "2 * \<bar>int ?D - int n\<bar> \<le> int n" .
    have "int n - int ?D \<le> \<bar>int ?D - int n\<bar>" by simp
    moreover have "N \<le> 2 * D" if "2 * A \<le> N" "N - D \<le> A" for A D N :: int using that by linarith
    ultimately have "int n \<le> 2 * int ?D" using a by blast
    moreover have "?u = 1024 ^ 3" using False by (simp add: size_unit_def)
    ultimately show ?thesis using False by simp
  qed (use u in \<open>simp add: to_double_def\<close>)
  then have "100 \<le> round_half_even (100 * ?D) ?u" using u(1) by (intro round_half_even_ge) simp_all
  moreover have "2 * \<bar>100 * int ?D - int (round_half_even (100 * ?D) ?u) * int ?u\<bar> \<le> int ?u"
    using round_half_even_error [OF u(1), of "100 * ?D"] by simp
  ultimately show "\<exists>h D. bytesFormat n = hundredths h @ snd (size_unit n) \<and> 100 \<le> h \<and>
      2 * \<bar>100 * int D - int h * int ?u\<bar> \<le> int ?u \<and>
      2 ^ 53 * \<bar>int D - int n\<bar> \<le> int n \<and> (n < 2 ^ 53 \<longrightarrow> D = n)"
    using bytesFormat_unit [OF n] to_double_error [of n] to_double_small [of n]
    by (intro exI [of _ "round_half_even (100 * ?D) ?u"] exI [of _ ?D] conjI) simp_all
qed

theorem bytesFormat_accurate_witness: "bytesFormat 1000 = dec_nat 1000 @ '' B''"
  using bytesFormat_accurate [of 1000] by simp

section \<open>Logging\<close>

text \<open>The log of a program goes to the directory \<^verbatim>\<open>log\<close> beside its file, however the path separates its parts.\<close>

lemma unix_path_simps [simp]:
  "unix_path (xs @ ys) = unix_path xs @ unix_path ys"
  "sep \<in> {CHR ''/'', CHR 0x5C} \<Longrightarrow> unix_path (sep # xs) = CHR ''/'' # unix_path xs"
  "set name \<inter> {CHR ''/'', CHR 0x5C} = {} \<Longrightarrow> unix_path name = name"
  by (auto simp: unix_path_def intro: map_idI)

lemma after_last_slash_simps:
  assumes "set name \<inter> {CHR ''/'', CHR 0x5C} = {}"
  shows "after_last_slash (d @ CHR ''/'' # name) = length d + 1" "after_last_slash name = 0"
proof -
  have "takeWhile (\<lambda>ch. ch \<noteq> CHR ''/'') (rev name @ CHR ''/'' # rev d) = rev name"
    using assms by (subst takeWhile_append2) auto
  then show "after_last_slash (d @ CHR ''/'' # name) = length d + 1" by (simp add: after_last_slash_def)
  have "length (takeWhile (\<lambda>ch. ch \<noteq> CHR ''/'') (rev name)) = length (rev name)"
    using assms by (intro arg_cong [where f = length]) (auto simp: takeWhile_eq_all_conv)
  then show "after_last_slash name = 0" by (simp add: after_last_slash_def)
qed

lemma initlog_beside:
  assumes "set name \<inter> {CHR ''/'', CHR 0x5C} = {}" and "sep \<in> {CHR ''/'', CHR 0x5C}"
  shows "initlog (dir @ sep # name) c = [InstallFailureWriter, InitGoogleLogging (unix_path dir @ ''/'' @ name),
    MakeDir (unix_path dir @ ''/log/''), SetLogDestination (unix_path dir @ ''/log/log''), AlsoLogToStderr c]"
  using after_last_slash_simps(1) [OF assms(1)] unix_path_simps(2) [OF assms(2)] unix_path_simps(3) [OF assms(1)]
  by (simp add: initlog_def Let_def)

lemma initlog_no_slash:
  assumes "set name \<inter> {CHR ''/'', CHR 0x5C} = {}"
  shows "initlog name c = [InstallFailureWriter, InitGoogleLogging name, MakeDir ''log/'',
    SetLogDestination ''log/log'', AlsoLogToStderr c]"
  using after_last_slash_simps(2) [OF assms] unix_path_simps(3) [OF assms] by (simp add: initlog_def Let_def)

text \<open>\<^verbatim>\<open>sleep\<close> waits for the time asked for, up to some 35 minutes; beyond, the product does not fit.\<close>

lemma util_sleep_exact:
  "0 \<le> ms \<Longrightarrow> ms \<le> 2147483 \<Longrightarrow> ''WIN32'' \<notin> D \<Longrightarrow>
    util_sleep D ms = Usleep_microseconds (nat (1000 * ms))"
  by (simp add: util_sleep_def wrap32_id)

lemma util_sleep_short: "util_sleep {''__linux__''} 4294968 = Usleep_microseconds 704"
  by (simp add: util_sleep_def wrap32_def)

end
