(* ===== verification/Connector.thy ===== *)
theory Connector
  imports Server_Main Msg_Client Client_Safety Connector_Ui Util
begin

text \<open>
  The test program \<^verbatim>\<open>connector/Connector.cpp\<close>: a dialog with a \<^verbatim>\<open>MsgClient\<close> that sends \<^verbatim>\<open>PingPongReq\<close>
  messages by hand or by a timer, and lists what it has sent and received. Texts are their UTF-8
  bytes. The callback of a request, which the program writes as a lambda over the content, is that content.
  \<^verbatim>\<open>QString::toInt\<close> is the argument \<open>toInt\<close>.
\<close>

section \<open>State\<close>

definition DEFAULT_ADDR :: string where
  "DEFAULT_ADDR = ''81.70.95.6:5566''"

text \<open>Of a \<^verbatim>\<open>QTimer\<close>, the interval and whether it is running.\<close>

record q_timer =
  tm_interval :: int
  tm_active :: bool

record ('u, 'pub, 'del) connector =
  cn_ui :: form
  cn_id :: int
  cn_timer :: q_timer
  cn_conn :: "('u, string, 'pub, 'del) msg_client"

datatype connector_signal = Clicked string | TimerTimeout | SigResult

datatype connector_slot =
  SlotConnect | SlotDisconnect | SlotStart | SlotStop | SlotClear | SlotHello | SlotTimer | SlotResult

text \<open>The connections that the constructor makes; that of \<^verbatim>\<open>sigResult\<close> is queued.\<close>

definition Connector_connections :: "(connector_signal \<times> connector_slot) list" where
  "Connector_connections =
     [(Clicked ''pbConnect'', SlotConnect), (Clicked ''pbDisconnect'', SlotDisconnect),
      (Clicked ''pbStart'', SlotStart), (Clicked ''pbStop'', SlotStop), (Clicked ''pbClear'', SlotClear),
      (Clicked ''pbHello'', SlotHello), (TimerTimeout, SlotTimer), (SigResult, SlotResult)]"

definition Connector_new :: "('u, 'pub, 'del) connector result" where
  "Connector_new = rbind (MsgClient_new [DEFAULT_ADDR] 5) (\<lambda>m.
     Inr \<lparr>cn_ui = setText ''teSendData'' ''hello, world!'' (setText ''leAddress'' DEFAULT_ADDR (setupUi form_new)),
          cn_id = 100, cn_timer = \<lparr>tm_interval = 0, tm_active = False\<rparr>, cn_conn = m\<rparr>)"

section \<open>Slots\<close>

definition onConnect ::
    "(string \<Rightarrow> string \<Rightarrow> 'ep option) \<Rightarrow> ('u, 'pub, 'del) connector \<Rightarrow>
     (('u, 'pub, 'del) connector \<times> ('u, string, 'pub, 'del, 'ep) client_effect list) result" where
  "onConnect resolve c = rbind (MsgClient_start resolve (cn_conn c)) (\<lambda>(m, effs). Inr (c\<lparr>cn_conn := m\<rparr>, effs))"

definition onDisconnect ::
    "('u, 'pub, 'del) connector \<Rightarrow> ('u, 'pub, 'del) connector \<times> ('u, string, 'pub, 'del, 'ep) client_effect list" where
  "onDisconnect c = (let (m, effs) = MsgClient_stop (cn_conn c) in (c\<lparr>cn_conn := m\<rparr>, effs))"

definition onStart :: "(string \<Rightarrow> int) \<Rightarrow> ('u, 'pub, 'del) connector \<Rightarrow> ('u, 'pub, 'del) connector" where
  "onStart toInt c =
     (let ms = toInt (fm_text (cn_ui c) ''leIntervalMillisecond'')
      in if ms \<le> 0 then c
         else
          (let c1 = (if tm_interval (cn_timer c) \<noteq> ms then c\<lparr>cn_timer := \<lparr>tm_interval = ms, tm_active = False\<rparr>\<rparr> else c)
           in c1\<lparr>cn_timer := (cn_timer c1)\<lparr>tm_active := True\<rparr>\<rparr>))"

definition onStop :: "('u, 'pub, 'del) connector \<Rightarrow> ('u, 'pub, 'del) connector" where
  "onStop c = c\<lparr>cn_timer := (cn_timer c)\<lparr>tm_active := False\<rparr>\<rparr>"

definition onResult :: "string \<Rightarrow> ('u, 'pub, 'del) connector \<Rightarrow> ('u, 'pub, 'del) connector" where
  "onResult txt c =
     (let f = (if 1000 < list_count ''lwRecvData'' (cn_ui c) then list_clear ''lwRecvData'' (cn_ui c) else cn_ui c)
      in c\<lparr>cn_ui := addItem ''lwRecvData'' txt f\<rparr>)"

definition onRecvDataClear :: "('u, 'pub, 'del) connector \<Rightarrow> ('u, 'pub, 'del) connector" where
  "onRecvDataClear c = c\<lparr>cn_ui := list_clear ''lwRecvData'' (list_clear ''lwSendData'' (cn_ui c))\<rparr>"

text \<open>\<^verbatim>\<open>QString::number(id) + ":" + text\<close>, and the request with it.\<close>

definition ping_content :: "int \<Rightarrow> string \<Rightarrow> string" where
  "ping_content i txt = dec_int i @ '':'' @ txt"

definition ping_request :: "'u wire \<Rightarrow> string \<Rightarrow> 'u pb_message" where
  "ping_request W content = PbPingPongReq (PingPongReq_set_content content (PingPongReq_new W))"

definition sendMsg ::
    "('d, 'u pb_message) env \<Rightarrow> 'u wire \<Rightarrow> int \<Rightarrow> ('u, 'pub, 'del) connector \<Rightarrow>
     (('u, 'pub, 'del) connector \<times> ('u, string, 'pub, 'del, 'ep) client_effect list) result" where
  "sendMsg E W now c =
     (let i = wrap32 (cn_id c + 1);
          content = ping_content i (fm_text (cn_ui c) ''teSendData'')
      in rbind (MsgClient_postMessage E now (Some (ping_request W content)) (UserResponse content) kMsTimeout (cn_conn c))
           (\<lambda>(_, m, effs).
             let f = (if 1000 < list_count ''lwSendData'' (cn_ui c) then list_clear ''lwSendData'' (cn_ui c) else cn_ui c)
             in Inr (c\<lparr>cn_id := i, cn_conn := m, cn_ui := addItem ''lwSendData'' (dec_int i) f\<rparr>, effs)))"

definition onTimer ::
    "('d, 'u pb_message) env \<Rightarrow> 'u wire \<Rightarrow> int \<Rightarrow> ('u, 'pub, 'del) connector \<Rightarrow>
     (('u, 'pub, 'del) connector \<times> ('u, string, 'pub, 'del, 'ep) client_effect list) result" where
  "onTimer E W now c = sendMsg E W now c"

definition onHello ::
    "('d, 'u pb_message) env \<Rightarrow> 'u wire \<Rightarrow> int \<Rightarrow> ('u, 'pub, 'del) connector \<Rightarrow>
     (('u, 'pub, 'del) connector \<times> ('u, string, 'pub, 'del, 'ep) client_effect list) result" where
  "onHello E W now c = sendMsg E W now c"

text \<open>
  The callback of a request with the given content: the texts that it emits with \<^verbatim>\<open>sigResult\<close>. The position
  of the colon is an \<^verbatim>\<open>int\<close>, which \<^verbatim>\<open>substr\<close> takes as a size.
\<close>

definition ping_response ::
    "string \<Rightarrow> ErrorCode \<Rightarrow> 'u pb_message Package option \<Rightarrow> string list result" where
  "ping_response content error rsp =
     (if error \<noteq> eSuccess then Inr []
      else (case rsp of
        None \<Rightarrow> Inl NullDeref
      | Some pac \<Rightarrow> (case msgPtr pac of
          None \<Rightarrow> Inl NullDeref
        | Some (PbPingPongRsp msg) \<Rightarrow>
            if PingPongRsp_content msg = content
            then Inr [take (size_of_int (find_colon (PingPongRsp_content msg))) (PingPongRsp_content msg)]
            else Inr []
        | Some _ \<Rightarrow> Inl BadCast)))"

text \<open>\<^verbatim>\<open>main\<close>, up to the event loop: the log is set up, and the dialog is made and shown.\<close>

definition connector_main :: "string \<Rightarrow> (setting_effect list \<times> ('u, 'pub, 'del) connector) result" where
  "connector_main argv0 = rbind Connector_new (\<lambda>c. Inr (initlog argv0 True, c))"

section \<open>Events of the dialog\<close>

definition run_slot ::
    "('d, 'u pb_message) env \<Rightarrow> 'u wire \<Rightarrow> (string \<Rightarrow> string \<Rightarrow> 'ep option) \<Rightarrow> (string \<Rightarrow> int) \<Rightarrow> int \<Rightarrow>
     connector_slot \<Rightarrow> string \<Rightarrow> ('u, 'pub, 'del) connector \<Rightarrow>
     (('u, 'pub, 'del) connector \<times> ('u, string, 'pub, 'del, 'ep) client_effect list) result" where
  "run_slot E W resolve toInt now slot txt c =
     (case slot of
        SlotConnect \<Rightarrow> onConnect resolve c
      | SlotDisconnect \<Rightarrow> Inr (onDisconnect c)
      | SlotStart \<Rightarrow> Inr (onStart toInt c, [])
      | SlotStop \<Rightarrow> Inr (onStop c, [])
      | SlotClear \<Rightarrow> Inr (onRecvDataClear c, [])
      | SlotHello \<Rightarrow> onHello E W now c
      | SlotTimer \<Rightarrow> onTimer E W now c
      | SlotResult \<Rightarrow> Inr (onResult txt c, []))"

text \<open>The slots connected to a signal, run one after the other.\<close>

fun run_slots ::
    "('d, 'u pb_message) env \<Rightarrow> 'u wire \<Rightarrow> (string \<Rightarrow> string \<Rightarrow> 'ep option) \<Rightarrow> (string \<Rightarrow> int) \<Rightarrow> int \<Rightarrow>
     connector_slot list \<Rightarrow> string \<Rightarrow> ('u, 'pub, 'del) connector \<Rightarrow>
     (('u, 'pub, 'del) connector \<times> ('u, string, 'pub, 'del, 'ep) client_effect list) result" where
  "run_slots E W resolve toInt now [] txt c = Inr (c, [])"
| "run_slots E W resolve toInt now (slot # slots) txt c =
     rbind (run_slot E W resolve toInt now slot txt c) (\<lambda>(c1, effs).
     rbind (run_slots E W resolve toInt now slots txt c1) (\<lambda>(c2, effs'). Inr (c2, effs @ effs')))"

definition emit_signal ::
    "('d, 'u pb_message) env \<Rightarrow> 'u wire \<Rightarrow> (string \<Rightarrow> string \<Rightarrow> 'ep option) \<Rightarrow> (string \<Rightarrow> int) \<Rightarrow> int \<Rightarrow>
     connector_signal \<Rightarrow> string \<Rightarrow> ('u, 'pub, 'del) connector \<Rightarrow>
     (('u, 'pub, 'del) connector \<times> ('u, string, 'pub, 'del, 'ep) client_effect list) result" where
  "emit_signal E W resolve toInt now sig txt c =
     run_slots E W resolve toInt now (map snd (filter (\<lambda>(s, _). s = sig) Connector_connections)) txt c"

text \<open>
  What happens to the dialog: a signal (that of a queued \<^verbatim>\<open>sigResult\<close> comes with its text), a text that
  the user changes, and an event of the client.
\<close>

datatype 'u connector_event =
    Signal connector_signal string
  | Edit string string
  | ClientEvent "('u, string) client_event"

fun connector_step ::
    "('d, 'u pb_message) env \<Rightarrow> 'u wire \<Rightarrow> (string \<Rightarrow> string \<Rightarrow> 'ep option) \<Rightarrow> (string \<Rightarrow> int) \<Rightarrow>
     int \<times> 'u connector_event \<Rightarrow> ('u, 'pub, 'del) connector \<Rightarrow>
     (('u, 'pub, 'del) connector \<times> ('u, string, 'pub, 'del, 'ep) client_effect list) result" where
  "connector_step E W resolve toInt (now, Signal sig txt) c = emit_signal E W resolve toInt now sig txt c"
| "connector_step E W resolve toInt (now, Edit name txt) c = Inr (c\<lparr>cn_ui := setText name txt (cn_ui c)\<rparr>, [])"
| "connector_step E W resolve toInt (now, ClientEvent ev) c =
     rbind (client_run E W resolve now ev (mc_client (cn_conn c))) (\<lambda>(cl, effs).
       Inr (c\<lparr>cn_conn := (cn_conn c)\<lparr>mc_client := cl\<rparr>\<rparr>, effs))"

fun connector_run ::
    "('d, 'u pb_message) env \<Rightarrow> 'u wire \<Rightarrow> (string \<Rightarrow> string \<Rightarrow> 'ep option) \<Rightarrow> (string \<Rightarrow> int) \<Rightarrow>
     (int \<times> 'u connector_event) list \<Rightarrow> ('u, 'pub, 'del) connector \<Rightarrow>
     (('u, 'pub, 'del) connector \<times> ('u, string, 'pub, 'del, 'ep) client_effect list) result" where
  "connector_run E W resolve toInt [] c = Inr (c, [])"
| "connector_run E W resolve toInt (ev # evs) c =
     rbind (connector_step E W resolve toInt ev c) (\<lambda>(c1, effs).
     rbind (connector_run E W resolve toInt evs c1) (\<lambda>(c2, effs'). Inr (c2, effs @ effs')))"

lemma emit_signal_one:
  "emit_signal E W resolve toInt now (Clicked ''pbHello'') txt c = onHello E W now c"
  "emit_signal E W resolve toInt now (Clicked ''pbDisconnect'') txt c = Inr (onDisconnect c)"
  "emit_signal E W resolve toInt now SigResult txt c = Inr (onResult txt c, [])"
  by (auto simp: emit_signal_def Connector_connections_def run_slot_def rbind_def split: sum.splits)

text \<open>
  \<^verbatim>\<open>Start\<close> leaves the timer running with the interval of the form, or as it is when that is not positive.
  \<^verbatim>\<open>Connect\<close> does not look at the form: the address that the user has typed is ignored.
\<close>

lemma onStart_timer:
  "cn_timer (onStart toInt c) =
     (let ms = toInt (fm_text (cn_ui c) ''leIntervalMillisecond'')
      in if 0 < ms then \<lparr>tm_interval = ms, tm_active = True\<rparr> else cn_timer c)"
  by (simp add: onStart_def Let_def)

lemma onConnect_ignores_form:
  "onConnect resolve (c\<lparr>cn_ui := f\<rparr>) = map_sum id (map_prod (\<lambda>c. c\<lparr>cn_ui := f\<rparr>) id) (onConnect resolve c)"
  by (cases "MsgClient_start resolve (cn_conn c)") (auto simp: onConnect_def)

section \<open>The lists\<close>

text \<open>
  What the two lists always show. The numbers are those of the most recent messages.
\<close>

definition lists_ok :: "('u, 'pub, 'del) connector \<Rightarrow> bool" where
  "lists_ok c \<longleftrightarrow> length (fm_list (cn_ui c) ''lwRecvData'') \<le> 1001 \<and>
     (\<exists>n \<le> 1001. fm_list (cn_ui c) ''lwSendData'' = map (\<lambda>k. dec_int (wrap32 (cn_id c - int k))) (rev [0..<n]))"

lemma lists_okI:
  "length (fm_list (cn_ui c) ''lwRecvData'') \<le> 1001 \<Longrightarrow> n \<le> 1001 \<Longrightarrow>
    fm_list (cn_ui c) ''lwSendData'' = map (\<lambda>k. dec_int (wrap32 (cn_id c - int k))) (rev [0..<n]) \<Longrightarrow> lists_ok c"
  unfolding lists_ok_def by blast

lemma lists_ok_cong: "cn_ui c' = cn_ui c \<Longrightarrow> cn_id c' = cn_id c \<Longrightarrow> lists_ok c' = lists_ok c"
  by (simp add: lists_ok_def)

lemma wrap32_diff: "wrap32 (wrap32 a - b) = wrap32 (a - b)"
  by (simp add: wrap32_def)

lemma wrap32_wrap32: "wrap32 (wrap32 a) = wrap32 a"
  by (simp add: wrap32_def)

lemma recent_ids_Suc:
  "map (\<lambda>k. dec_int (wrap32 (i - int k))) (rev [0..<n]) @ [dec_int (wrap32 (i + 1))] =
   map (\<lambda>k. dec_int (wrap32 (wrap32 (i + 1) - int k))) (rev [0..<Suc n])"
proof -
  have "rev [0..<Suc n] = map Suc (rev [0..<n]) @ [0]"
    by (simp add: upt_conv_Cons map_Suc_upt [symmetric] rev_map del: upt_Suc)
  then show ?thesis by (simp add: wrap32_diff)
qed

lemma sendMsg_result:
  fixes c :: "('u, 'pub, 'del) connector"
  assumes "sendMsg E W now c = Inr (c', effs :: ('u, string, 'pub, 'del, 'ep) client_effect list)"
  shows "cn_id c' = wrap32 (cn_id c + 1)"
    "fm_list (cn_ui c') ''lwSendData'' =
      (if 1000 < length (fm_list (cn_ui c) ''lwSendData'') then [] else fm_list (cn_ui c) ''lwSendData'')
        @ [dec_int (wrap32 (cn_id c + 1))]"
    "fm_list (cn_ui c') ''lwRecvData'' = fm_list (cn_ui c) ''lwRecvData''"
    "fm_text (cn_ui c') = fm_text (cn_ui c)"
  using assms by (auto simp: sendMsg_def rbind_eq_Inr addItem_def list_clear_def list_count_def Let_def)

lemma lists_ok_sendMsg:
  fixes c :: "('u, 'pub, 'del) connector"
  assumes "sendMsg E W now c = Inr (c', effs :: ('u, string, 'pub, 'del, 'ep) client_effect list)" and "lists_ok c"
  shows "lists_ok c'"
proof -
  note r = sendMsg_result [OF assms(1)]
  from assms(2) obtain n where n: "n \<le> 1001" "length (fm_list (cn_ui c) ''lwRecvData'') \<le> 1001"
    "fm_list (cn_ui c) ''lwSendData'' = map (\<lambda>k. dec_int (wrap32 (cn_id c - int k))) (rev [0..<n])"
    by (auto simp: lists_ok_def)
  show ?thesis
  proof (cases "1000 < n")
    case True
    have "length (fm_list (cn_ui c) ''lwSendData'') = n" using n(3) by simp
    with True r(1,2) show ?thesis using n(2) r(3)
      by (intro lists_okI [of _ 1]) (simp_all add: wrap32_wrap32)
  next
    case False
    have "length (fm_list (cn_ui c) ''lwSendData'') = n" using n(3) by simp
    then have "fm_list (cn_ui c') ''lwSendData'' = map (\<lambda>k. dec_int (wrap32 (cn_id c' - int k))) (rev [0..<Suc n])"
      using False r(1,2) n(3) recent_ids_Suc [of "cn_id c" n] by simp
    then show ?thesis using n(2) r(3) False by (intro lists_okI [of _ "Suc n"]) simp_all
  qed
qed

lemma lists_ok_slot:
  fixes c :: "('u, 'pub, 'del) connector"
  assumes "run_slot E W resolve toInt now slot txt c
      = Inr (c', effs :: ('u, string, 'pub, 'del, 'ep) client_effect list)" and "lists_ok c"
  shows "lists_ok c'"
proof (cases slot)
  case SlotClear
  with assms(1) show ?thesis
    by (intro lists_okI [of _ 0]) (auto simp: run_slot_def onRecvDataClear_def list_clear_def)
next
  case SlotResult
  with assms show ?thesis
    by (auto simp: run_slot_def onResult_def lists_ok_def addItem_def list_clear_def list_count_def Let_def)
next
  case SlotHello
  with assms show ?thesis by (auto simp: run_slot_def onHello_def intro: lists_ok_sendMsg)
next
  case SlotTimer
  with assms show ?thesis by (auto simp: run_slot_def onTimer_def intro: lists_ok_sendMsg)
qed (use assms in \<open>auto simp: run_slot_def onConnect_def onDisconnect_def onStart_def onStop_def rbind_eq_Inr Let_def
      split: prod.splits if_splits intro: lists_ok_cong [THEN iffD2]\<close>)

lemma lists_ok_slots:
  "run_slots E W resolve toInt now slots txt c = Inr (c', effs :: ('u, string, 'pub, 'del, 'ep) client_effect list) \<Longrightarrow>
    lists_ok c \<Longrightarrow> lists_ok c'" for c :: "('u, 'pub, 'del) connector"
  by (induction slots arbitrary: c effs) (auto simp: rbind_eq_Inr dest: lists_ok_slot)

lemma lists_ok_step:
  fixes c :: "('u, 'pub, 'del) connector"
  assumes "connector_step E W resolve toInt ev c = Inr (c', effs :: ('u, string, 'pub, 'del, 'ep) client_effect list)"
    and "lists_ok c"
  shows "lists_ok c'"
  using assms
  by (cases "(E, W, resolve, toInt, ev, c)" rule: connector_step.cases)
    (auto simp: emit_signal_def setText_def rbind_eq_Inr lists_ok_def dest: lists_ok_slots [unfolded lists_ok_def])

lemma lists_ok_run:
  "connector_run E W resolve toInt evs c = Inr (c', effs :: ('u, string, 'pub, 'del, 'ep) client_effect list) \<Longrightarrow>
    lists_ok c \<Longrightarrow> lists_ok c'" for c :: "('u, 'pub, 'del) connector"
  by (induction evs arbitrary: c effs) (auto simp: rbind_eq_Inr dest: lists_ok_step)

lemma Connector_new_ok: "Connector_new = Inr c \<Longrightarrow> lists_ok c"
proof -
  assume "Connector_new = Inr c"
  then have "fm_list (cn_ui c) = (\<lambda>_. [])"
    by (auto simp: Connector_new_def rbind_eq_Inr setText_def setupUi_def form_new_def retranslateUi_def
        setupUi_ops_def Let_def)
  then show ?thesis by (intro lists_okI [of _ 0]) simp_all
qed

text \<open>
  Property C24. The lists of the dialog. Whatever the user, the timer and the client do, the list of the sent
  messages shows the numbers of the most recent ones, one after the other up to the current number, and
  neither list ever has more than 1001 entries.
\<close>

theorem connector_lists:
  fixes c :: "('u, 'pub, 'del) connector"
  assumes "Connector_new = Inr c0"
    and "connector_run E W resolve toInt evs c0 = Inr (c, effs :: ('u, string, 'pub, 'del, 'ep) client_effect list)"
  shows "length (fm_list (cn_ui c) ''lwRecvData'') \<le> 1001 \<and>
    (\<exists>n \<le> 1001. fm_list (cn_ui c) ''lwSendData'' = map (\<lambda>k. dec_int (wrap32 (cn_id c - int k))) (rev [0..<n]))"
  using lists_ok_run [OF assms(2) Connector_new_ok [OF assms(1)]] by (simp add: lists_ok_def)

lemma Connector_new_total:
  obtains c :: "('u, 'pub, 'del) connector" where "Connector_new = Inr c" "cn_id c = 100"
    "fm_text (cn_ui c) ''teSendData'' = ''hello, world!''" "fm_text (cn_ui c) ''leIntervalMillisecond'' = ''1000''"
    "\<not> cl_stopped (mc_client (cn_conn c))" "\<not> isOnline (mc_client (cn_conn c))"
    "cl_id (mc_client (cn_conn c)) = 0" "fm_list (cn_ui c) = (\<lambda>_. [])"
proof -
  obtain b where b: "Buffer_new kInitialSize = Inr b" using Buffer_new_default by blast
  then obtain m :: "('u, string, 'pub, 'del) msg_client" where m: "MsgClient_new [DEFAULT_ADDR] 5 = Inr m"
    "\<not> cl_stopped (mc_client m)" "\<not> isOnline (mc_client m)" "cl_id (mc_client m) = 0"
    by (simp add: MsgClient_new_def AsioClient_new_def addHandler_def)
  let ?c = "\<lparr>cn_ui = setText ''teSendData'' ''hello, world!'' (setText ''leAddress'' DEFAULT_ADDR (setupUi form_new)),
    cn_id = 100, cn_timer = \<lparr>tm_interval = 0, tm_active = False\<rparr>, cn_conn = m\<rparr>"
  have "Connector_new = Inr ?c" using m(1) by (simp add: Connector_new_def)
  from that [OF this] m(2-4) show ?thesis
    by (simp add: setText_def setupUi_def retranslateUi_def form_new_def setupUi_ops_def Let_def)
qed

theorem connector_lists_witness:
  "\<exists>c0 c :: (unit, string, string) connector. Connector_new = Inr c0 \<and>
    connector_run pb_demo sample_wire (\<lambda>h p. Some h) (\<lambda>_. 0) [(0, Signal (Clicked ''pbHello'') []), (0, Signal SigResult ''101'')] c0
      = Inr (c, [] :: (unit, string, string, string, string) client_effect list) \<and>
    cn_id c = 101 \<and> length (fm_list (cn_ui c) ''lwRecvData'') \<le> 1001"
proof -
  obtain c0 :: "(unit, string, string) connector" where c0: "Connector_new = Inr c0" "cn_id c0 = 100"
    "\<not> cl_stopped (mc_client (cn_conn c0))" "\<not> isOnline (mc_client (cn_conn c0))"
    using Connector_new_total by metis
  obtain i n where id: "next_msgId (cl_id (mc_client (cn_conn c0))) = (i, n)" by force
  obtain c1 where c1: "onHello pb_demo sample_wire 0 c0 = Inr (c1, [] :: (unit, string, string, string, string) client_effect list)"
    "cn_id c1 = 101"
    using c0 by (auto simp: onHello_def sendMsg_def MsgClient_postMessage_def AsioClient_postMessage_def
        postMessage_order_def new_package_def postPackage_def wrap32_id id Let_def)
  let ?evs = "[(0, Signal (Clicked ''pbHello'') []), (0, Signal SigResult ''101'')] :: (int \<times> unit connector_event) list"
  have r: "connector_run pb_demo sample_wire (\<lambda>h p. Some h) (\<lambda>_. 0) ?evs c0
      = Inr (onResult ''101'' c1, [] :: (unit, string, string, string, string) client_effect list)"
    using c1(1) by (simp add: emit_signal_one)
  have "cn_id (onResult ''101'' c1) = 101" using c1(2) by (simp add: onResult_def Let_def)
  with c0(1) r conjunct1 [OF connector_lists [OF c0(1) r]] show ?thesis by (intro exI conjI)
qed

section \<open>Disconnecting\<close>

text \<open>After \<^verbatim>\<open>Disconnect\<close>.\<close>

abbreviation cn_stopped :: "('u, 'pub, 'del) connector \<Rightarrow> bool" where
  "cn_stopped c \<equiv> cl_stopped (mc_client (cn_conn c))"

lemma slot_stopped:
  fixes c :: "('u, 'pub, 'del) connector"
  assumes "run_slot E W resolve toInt now slot txt c
      = Inr (c', effs :: ('u, string, 'pub, 'del, 'ep) client_effect list)" and "cn_stopped c"
  shows "cn_stopped c' \<and> post_refs effs = []"
  using assms
  by (cases slot) (auto simp: run_slot_def onConnect_def MsgClient_start_def AsioClient_start_def onDisconnect_def
      MsgClient_stop_def AsioClient_stop_def AsioClient_close_def onStart_def onStop_def onRecvDataClear_def
      onHello_def onTimer_def sendMsg_def MsgClient_postMessage_def onResult_def rbind_eq_Inr Let_def
      dest!: connect_stopped split: if_splits)

lemma slots_stopped:
  "run_slots E W resolve toInt now slots txt c = Inr (c', effs :: ('u, string, 'pub, 'del, 'ep) client_effect list) \<Longrightarrow>
    cn_stopped c \<Longrightarrow> cn_stopped c' \<and> post_refs effs = []" for c :: "('u, 'pub, 'del) connector"
  by (induction slots arbitrary: c effs) (auto simp: rbind_eq_Inr dest!: slot_stopped)

lemma step_stopped:
  fixes c :: "('u, 'pub, 'del) connector"
  assumes "connector_step E W resolve toInt ev c = Inr (c', effs :: ('u, string, 'pub, 'del, 'ep) client_effect list)"
    and "cn_stopped c"
  shows "cn_stopped c' \<and> post_refs effs = []"
  using assms
  by (cases "(E, W, resolve, toInt, ev, c)" rule: connector_step.cases)
    (auto simp: emit_signal_def rbind_eq_Inr dest!: slots_stopped client_run_stopped)

lemma run_stopped:
  "connector_run E W resolve toInt evs c = Inr (c', effs :: ('u, string, 'pub, 'del, 'ep) client_effect list) \<Longrightarrow>
    cn_stopped c \<Longrightarrow> cn_stopped c' \<and> post_refs effs = []" for c :: "('u, 'pub, 'del) connector"
  by (induction evs arbitrary: c effs) (auto simp: rbind_eq_Inr dest!: step_stopped)

text \<open>The queue of the client changes only when a write handler of its loop runs.\<close>

abbreviation cn_queue :: "('u, 'pub, 'del) connector \<Rightarrow> ref list" where
  "cn_queue c \<equiv> pendingList (mc_client (cn_conn c))"

lemma sendMsg_queue: "sendMsg E W now c = Inr (c', effs) \<Longrightarrow> cn_queue c' = cn_queue c"
  by (auto simp: sendMsg_def MsgClient_postMessage_def AsioClient_postMessage_def rbind_eq_Inr beside_def Let_def
      dest!: beside_request split: if_splits)

lemma slot_queue: "run_slot E W resolve toInt now slot txt c = Inr (c', effs) \<Longrightarrow> cn_queue c' = cn_queue c"
  by (cases slot) (auto simp: run_slot_def onConnect_def MsgClient_start_def AsioClient_start_def onDisconnect_def
      MsgClient_stop_def AsioClient_stop_def onStart_def onStop_def onRecvDataClear_def
      onHello_def onTimer_def onResult_def rbind_eq_Inr beside_def Let_def
      dest!: beside_connect sendMsg_queue split: if_splits)

lemma slots_queue: "run_slots E W resolve toInt now slots txt c = Inr (c', effs) \<Longrightarrow> cn_queue c' = cn_queue c"
  by (induction slots arbitrary: c effs) (auto simp: rbind_eq_Inr dest!: slot_queue)

definition writes_at :: "'u connector_event \<Rightarrow> bool" where
  "writes_at ev = (case ev of ClientEvent e \<Rightarrow> write_event e | _ \<Rightarrow> False)"

lemma step_queue:
  "connector_step E W resolve toInt (now, ev) c = Inr (c', effs) \<Longrightarrow> \<not> writes_at ev \<Longrightarrow> cn_queue c' = cn_queue c"
  by (cases ev) (auto simp: emit_signal_def rbind_eq_Inr writes_at_def dest!: slots_queue client_run_queue)

lemma run_queue:
  "connector_run E W resolve toInt evs c = Inr (c', effs) \<Longrightarrow> \<forall>ev \<in> snd ` set evs. \<not> writes_at ev \<Longrightarrow>
    cn_queue c' = cn_queue c"
  by (induction evs arbitrary: c effs) (auto simp: rbind_eq_Inr dest!: step_queue)

text \<open>
  Property C38. \<^verbatim>\<open>Disconnect\<close> cannot be undone, and the dialog does not show it. After it nothing that
  the user, the timer or the client does, \<^verbatim>\<open>Connect\<close> included, ever hands a message to the event loop for
  writing again, and the write queue stays as it is, unless a write handler that was posted before still runs
  (a stopped loop runs none). Yet every press of \<^verbatim>\<open>Hello\<close> still takes a new number and shows it in the list
  of sent messages, and leaves the queue alone.
\<close>

theorem disconnected_for_good:
  fixes c :: "('u, 'pub, 'del) connector"
  assumes "connector_run E W resolve toInt ((now, Signal (Clicked ''pbDisconnect'') []) # evs) c
      = Inr (c', effs :: ('u, string, 'pub, 'del, 'ep) client_effect list)"
  shows "post_refs effs = [] \<and>
    ((\<forall>ev \<in> snd ` set evs. \<not> writes_at ev) \<longrightarrow> cn_queue c' = cn_queue c) \<and>
    (\<exists>c''. emit_signal E W resolve toInt now' (Clicked ''pbHello'') [] c'
        = Inr (c'', [] :: ('u, string, 'pub, 'del, 'ep) client_effect list) \<and>
      cn_id c'' = wrap32 (cn_id c' + 1) \<and> last (fm_list (cn_ui c'') ''lwSendData'') = dec_int (cn_id c'') \<and>
      cn_queue c'' = cn_queue c')"
proof -
  obtain c0 and e0 :: "('u, string, 'pub, 'del, 'ep) client_effect list" where d: "onDisconnect c = (c0, e0)"
    by (cases "onDisconnect c :: _ \<times> ('u, string, 'pub, 'del, 'ep) client_effect list")
  then have s0: "cn_stopped c0" "post_refs e0 = []" "cn_queue c0 = cn_queue c"
    by (auto simp: onDisconnect_def MsgClient_stop_def AsioClient_stop_def AsioClient_close_def Let_def)
  from assms d obtain e1 where r: "connector_run E W resolve toInt evs c0
      = Inr (c', e1 :: ('u, string, 'pub, 'del, 'ep) client_effect list)" "effs = e0 @ e1"
    by (auto simp: emit_signal_one rbind_eq_Inr)
  from run_stopped [OF r(1) s0(1)] s0(2) r(2) have s: "cn_stopped c'" "post_refs effs = []" by simp_all
  let ?h = "sendMsg E W now' c' :: (_ \<times> ('u, string, 'pub, 'del, 'ep) client_effect list) result"
  obtain c'' where h: "?h = Inr (c'', [])"
    using s(1) by (simp add: sendMsg_def MsgClient_postMessage_def Let_def)
  from sendMsg_result(1,2) [OF h] sendMsg_queue [OF h] h s(2) run_queue [OF r(1)] s0(3) show ?thesis
    by (simp add: emit_signal_one onHello_def)
qed

theorem disconnected_for_good_witness:
  "\<exists>c0 c' c'' :: (unit, string, string) connector. Connector_new = Inr c0 \<and>
    connector_run pb_demo sample_wire (\<lambda>h p. Some h) (\<lambda>_. 0) [(0, Signal (Clicked ''pbDisconnect'') [])] c0
      = Inr (c', [PostClose] :: (unit, string, string, string, string) client_effect list) \<and>
    emit_signal pb_demo sample_wire (\<lambda>h p. Some h) (\<lambda>_. 0) 0 (Clicked ''pbHello'') [] c'
      = Inr (c'', [] :: (unit, string, string, string, string) client_effect list) \<and>
    last (fm_list (cn_ui c'') ''lwSendData'') = ''101''"
proof -
  obtain c0 :: "(unit, string, string) connector" where c0: "Connector_new = Inr c0" "cn_id c0 = 100"
    using Connector_new_total by metis
  obtain c' where d: "onDisconnect c0 = (c', [PostClose] :: (unit, string, string, string, string) client_effect list)"
    "cn_id c' = 100"
    using c0(2) by (auto simp: onDisconnect_def MsgClient_stop_def AsioClient_stop_def AsioClient_close_def Let_def)
  have r: "connector_run pb_demo sample_wire (\<lambda>h p. Some h) (\<lambda>_. 0) [(0, Signal (Clicked ''pbDisconnect'') [])] c0
      = Inr (c', [PostClose] :: (unit, string, string, string, string) client_effect list)"
    by (simp add: emit_signal_one d(1))
  have n: "dec_int 101 = ''101''" by code_simp
  obtain c'' where "emit_signal pb_demo sample_wire (\<lambda>h p. Some h) (\<lambda>_. 0) 0 (Clicked ''pbHello'') [] c'
      = Inr (c'', [] :: (unit, string, string, string, string) client_effect list)"
    "cn_id c'' = 101" "last (fm_list (cn_ui c'') ''lwSendData'') = dec_int 101"
    using disconnected_for_good [OF r, of 0] d(2) by (auto simp: wrap32_id)
  with c0(1) r n show ?thesis by (intro exI conjI) simp_all
qed

section \<open>An answered Hello\<close>

lemma length_dec_nat: "length (dec_nat n) \<le> 1 + n div 10"
proof (induction n rule: dec_nat.induct)
  case (1 n)
  show ?case
  proof (cases "n < 10")
    case True
    then show ?thesis by (simp add: dec_nat.simps)
  next
    case False
    with 1 have "length (dec_nat (n div 10)) \<le> 1 + n div 10 div 10" by simp
    moreover have "1 + n div 10 div 10 \<le> n div 10" using False by simp
    ultimately show ?thesis using False by (simp add: dec_nat.simps [of n])
  qed
qed

lemma colon_free_dec_int: "CHR '':'' \<notin> set (dec_int i)"
proof -
  have "CHR '':'' \<notin> set (dec_nat n)" for n
    using dec_nat_digits [of n] by (auto simp: list_all_iff isdigit_def)
  then show ?thesis by (simp add: dec_int_def)
qed

lemma length_dec_int:
  assumes "- (2 ^ 31) \<le> i" and "i < 2 ^ 31"
  shows "int (length (dec_int i)) < 2 ^ 31"
proof -
  have "nat \<bar>i\<bar> \<le> 2147483648" using assms by simp
  then have "length (dec_nat (nat \<bar>i\<bar>)) \<le> 214748365" using length_dec_nat [of "nat \<bar>i\<bar>"] by simp
  then show ?thesis by (cases "i < 0") (simp_all add: dec_int_def)
qed

lemma content_id:
  assumes "- (2 ^ 31) \<le> i" and "i < 2 ^ 31"
  shows "take (size_of_int (find_colon (ping_content i txt))) (ping_content i txt) = dec_int i"
proof -
  have "takeWhile (\<lambda>ch. ch \<noteq> CHR '':'') (ping_content i txt) = dec_int i"
    unfolding ping_content_def using colon_free_dec_int [of i] by (subst takeWhile_append2) auto
  then have "find_colon (ping_content i txt) = int (length (dec_int i))"
    using length_dec_int [OF assms] by (simp add: find_colon_def ping_content_def wrap32_id)
  then show ?thesis
    using length_dec_int [OF assms] by (simp add: size_of_int_def ping_content_def)
qed

text \<open>
  Property C19. Hello, end to end. On a dialog whose client is connected and idle, a press of \<^verbatim>\<open>Hello\<close> takes the
  next number and posts one \<^verbatim>\<open>PingPongReq\<close>. Its frame, read by a session of the server program, is the
  request that the registered handler answers; the client that reads the answer calls the callback of
  this request with success; the callback finds its own text in the response and emits the number; and
  the entry that the queued signal adds to the list of received messages is the number that the press of
  \<^verbatim>\<open>Hello\<close> has added to the list of sent ones.
\<close>

theorem hello_answered:
  fixes c :: "('u, 'pub, 'del) connector" and resolve :: "string \<Rightarrow> string \<Rightarrow> 'ep option"
  assumes "hc < 2 ^ 31" and "server_main E0 hc = Inr (E, server)"
    and "wire_ok W" and "runtime_ok E W" and "net_order_ok E" and "zlib_ok E" and "pb_string W content"
    and "cl = mc_client (cn_conn c)" and "isOnline cl" and "\<not> cl_stopped cl" and "pendingList cl = []"
    and "buf_inv (cl_readBuffer cl)" and "contents (cl_readBuffer cl) = []"
    and "buf_inv (readBuffer s)" and "contents (readBuffer s) = []"
    and "next_msgId (cl_id cl) = (k, n)" and "i = wrap32 (cn_id c + 1)"
    and "content = ping_content i (fm_text (cn_ui c) ''teSendData'')"
    and "sendable E (client_package E REQREP False k (ping_request W content)) (ping_request W content)"
    and "rq = received E (client_package E REQREP False k (ping_request W content)) (ping_request W content)"
    and "rsp = PbPingPongRsp (PingPongRsp_set_content content (PingPongRsp_new W))"
    and "sendable E (reply_package E rq rsp) rsp"
  shows "\<exists>c1 p c2 d s' b q c3 c4.
    emit_signal E W resolve toInt now (Clicked ''pbHello'') [] c
      = Inr (c1, [PostStartWrite p] :: ('u, string, 'pub, 'del, 'ep) client_effect list) \<and>
    startWrite E p (mc_client (cn_conn c1))
      = Inr (c2, [ClientWrite d k] :: ('u, string, 'pub, 'del, 'ep) client_effect list) \<and>
    Session_doRead E False d s = Inr (s', [HandleMessage rq, AsyncRead]) \<and>
    base_task_call E W local_time now' TaskPingPong (sessionId s) rq (tot, cr)
      = Inr (tot, emit (sessionId s) [PostWriteBuffer b] cr) \<and>
    AsioClient_doRead E False (contents b) c2
      = Inr (c3, [PostResponse q, ClientRead] :: ('u, string, 'pub, 'del, 'ep) client_effect list) \<and>
    doResponse now'' q c3
      = Inr (c4, [CallResponse content eSuccess p (Some q)] :: ('u, string, 'pub, 'del, 'ep) client_effect list) \<and>
    ping_response content eSuccess (Some (cl_store c4 ! q)) = Inr [dec_int i] \<and>
    last (fm_list (cn_ui (onResult (dec_int i) c1)) ''lwRecvData'') = last (fm_list (cn_ui c1) ''lwSendData'')"
proof -
  have req: "ping_request W content = PbPingPongReq (PingPongReq_set_content content (PingPongReq_new W))"
    by (simp add: ping_request_def)
  obtain p m1 c2 d s' b q c3 c4 where w:
    "postMessage_order E now False (Some (ping_request W content)) (UserResponse content) kMsTimeout cl
      = Inr (eSuccess, m1, [PostStartWrite p] :: ('u, string, 'pub, 'del, 'ep) client_effect list)"
    "startWrite E p m1 = Inr (c2, [ClientWrite d k] :: ('u, string, 'pub, 'del, 'ep) client_effect list)"
    "Session_doRead E False d s = Inr (s', [HandleMessage rq, AsyncRead])"
    "base_task_call E W local_time now' TaskPingPong (sessionId s) rq (tot, cr)
      = Inr (tot, emit (sessionId s) [PostWriteBuffer b] cr)"
    "AsioClient_doRead E False (contents b) c2
      = Inr (c3, [PostResponse q, ClientRead] :: ('u, string, 'pub, 'del, 'ep) client_effect list)"
    "doResponse now'' q c3
      = Inr (c4, [CallResponse content eSuccess p (Some q)] :: ('u, string, 'pub, 'del, 'ep) client_effect list)"
    "msgPtr (cl_store c4 ! q) = Some rsp"
    using echo_calls [OF assms(1-7) assms(9-16) req assms(19-22), of now content kMsTimeout local_time now' tot cr now'',
        where 'ep = 'ep]
    by (elim exE conjE) (rule that)
  obtain c1 where h: "onHello E W now c = Inr (c1, [PostStartWrite p] :: ('u, string, 'pub, 'del, 'ep) client_effect list)"
    "mc_client (cn_conn c1) = m1"
    using w(1) assms(8,10) unfolding assms(17,18)
    by (simp add: onHello_def sendMsg_def MsgClient_postMessage_def AsioClient_postMessage_def Let_def)
  then have hs: "sendMsg E W now c = Inr (c1, [PostStartWrite p] :: ('u, string, 'pub, 'del, 'ep) client_effect list)"
    by (simp add: onHello_def)
  have "last (fm_list (cn_ui c1) ''lwSendData'') = dec_int i" using sendMsg_result(2) [OF hs] assms(17) by simp
  then have "last (fm_list (cn_ui (onResult (dec_int i) c1)) ''lwRecvData'') = last (fm_list (cn_ui c1) ''lwSendData'')"
    by (simp add: onResult_def addItem_def Let_def)
  moreover have "ping_response content eSuccess (Some (cl_store c4 ! q)) = Inr [dec_int i]"
    using w(7) content_id [of i] wrap32_range unfolding assms(17,18,21)
    by (simp add: ping_response_def PingPongRsp_content_def PingPongRsp_set_content_def)
  ultimately show ?thesis using w(2-6) h by (intro exI conjI) (simp_all add: emit_signal_one)
qed

definition demo_connector :: "(unit, string, string) connector" where
  "demo_connector = \<lparr>cn_ui = setText ''teSendData'' ''x'' (setupUi form_new), cn_id = 100,
     cn_timer = \<lparr>tm_interval = 0, tm_active = False\<rparr>, cn_conn = \<lparr>mc_client = demo_client, mc_publishHandler = 0\<rparr>\<rparr>"

lemma demo_content: "ping_content 101 (fm_text (cn_ui demo_connector) ''teSendData'') = ''101:x''"
proof -
  have "dec_int 101 = ''101''" by code_simp
  then show ?thesis by (simp add: ping_content_def demo_connector_def setText_def)
qed

abbreviation demo_env :: "(unit pb_message, unit pb_message) env" where
  "demo_env \<equiv> pb_demo\<lparr>s_enableCompressSize := 1024\<rparr>"

lemma demo_hello_sendable:
  "sendable demo_env (client_package demo_env REQREP False 1 (ping_request sample_wire ''101:x'')) (ping_request sample_wire ''101:x'')"
  "sendable demo_env (reply_package demo_env
     (received demo_env (client_package demo_env REQREP False 1 (ping_request sample_wire ''101:x'')) (ping_request sample_wire ''101:x''))
     (PbPingPongRsp (PingPongRsp_set_content ''101:x'' (PingPongRsp_new sample_wire))))
     (PbPingPongRsp (PingPongRsp_set_content ''101:x'' (PingPongRsp_new sample_wire)))"
  by (simp_all add: sendable_def client_package_def reply_package_def received_def sent_header_def
      ping_request_def PingPongReq_FullMessageName_def PingPongRsp_FullMessageName_def
      set_isorder_def PacHeader_new_def iszip_def encode_content_def enableCompressSize_def
      kPackageHeaderSize_def kMaxPackageLen_def PingPongReq_ByteSizeLong_def PingPongRsp_ByteSizeLong_def
      PingPongReq_InternalSerialize_def PingPongRsp_InternalSerialize_def PingPongReq_set_content_def
      PingPongRsp_set_content_def PingPongReq_new_def PingPongRsp_new_def PingPongReq_content_def
      PingPongRsp_content_def sample_wire_def varint.simps wrap32_id Let_def)

theorem hello_answered_witness:
  "\<exists>server c1 p q c3 c4. server_main pb_demo 2 = Inr (demo_env, server) \<and>
    emit_signal demo_env sample_wire (\<lambda>h p. None) (\<lambda>_. 0) 0 (Clicked ''pbHello'') [] demo_connector
      = Inr (c1, [PostStartWrite p] :: (unit, string, string, string, unit) client_effect list) \<and>
    doResponse 9 q c3
      = Inr (c4, [CallResponse ''101:x'' eSuccess p (Some q)] :: (unit, string, string, string, unit) client_effect list) \<and>
    ping_response ''101:x'' eSuccess (Some (cl_store c4 ! q)) = Inr [dec_int 101] \<and>
    last (fm_list (cn_ui (onResult (dec_int 101) c1)) ''lwRecvData'') = last (fm_list (cn_ui c1) ''lwSendData'')"
proof -
  obtain server where m: "server_main pb_demo 2 = Inr (demo_env, server)"
    using server_main_ok [of 2 pb_demo] by auto
  have id: "next_msgId (cl_id demo_client) = (1, 1)"
    by (simp add: demo_client_def next_msgId_def wrap32_id c_rem_def INT_MAX_def)
  have cl: "demo_client = mc_client (cn_conn demo_connector)" by (simp add: demo_connector_def)
  have c: "isOnline demo_client" "\<not> cl_stopped demo_client" "pendingList demo_client = []"
    "buf_inv (cl_readBuffer demo_client)" "contents (cl_readBuffer demo_client) = []"
    "buf_inv (readBuffer demo_session)" "contents (readBuffer demo_session) = []"
    by (simp_all add: demo_client_def demo_session_def)
  have t: "pb_string sample_wire ''101:x''" by (simp add: pb_string_def sample_wire_def)
  have i: "101 = wrap32 (cn_id demo_connector + 1)" by (simp add: demo_connector_def wrap32_id)
  note w = hello_answered [OF _ m sample_wire_ok demo_compress_ok t cl c id i demo_content [symmetric]
      demo_hello_sendable(1) refl refl demo_hello_sendable(2), of "\<lambda>h p. None :: unit option" "\<lambda>_. 0" 0 "\<lambda>_. []" 8 0 core_new 9]
  then show ?thesis using m by auto blast
qed

end
