(* ===== verification/Pipeline.thy ===== *)
theory Pipeline
  imports Rpc
begin

text \<open>
  Several calls at once. A client posts any number of requests; they travel as one stream of frames, which
  the transport may cut anywhere; the server replies to them in any order; the replies travel as a stream, too.
  Each callback is called once, with its own request and the reply to it.
\<close>

section \<open>Posting\<close>

text \<open>A request: whether it is ordered, its message, its callback, its timeout.\<close>

type_synonym ('u, 'r) call_request = "bool \<times> 'u pb_message \<times> 'r \<times> int"

fun post_requests ::
    "('d, 'u pb_message) env \<Rightarrow> int \<Rightarrow> ('u, 'r) call_request list \<Rightarrow> ('u, 'r, 'pub, 'del) client \<Rightarrow>
     (('u, 'r, 'pub, 'del) client \<times> ('u, 'r, 'pub, 'del, 'ep) client_effect list) result" where
  "post_requests E now [] c = Inr (c, [])"
| "post_requests E now ((isOrder, msg, r, ms) # reqs) c =
     rbind (postMessage_order E now isOrder (Some msg) (UserResponse r) ms c) (\<lambda>(code, c1, effs).
     rbind (post_requests E now reqs c1) (\<lambda>(c2, effs'). Inr (c2, effs @ effs')))"

text \<open>The packages of the requests, numbered from the client's counter.\<close>

fun request_packages :: "('d, 'u pb_message) env \<Rightarrow> int \<Rightarrow> ('u, 'r) call_request list \<Rightarrow> 'u pb_message Package list" where
  "request_packages E m [] = []"
| "request_packages E m ((isOrder, msg, r, ms) # reqs) =
     client_package E REQREP isOrder (m + 1) msg # request_packages E (m + 1) reqs"

lemma length_request_packages [simp]: "length (request_packages E m reqs) = length reqs"
  by (induction E m reqs rule: request_packages.induct) simp_all

lemma request_packages_nth:
  "j < length reqs \<Longrightarrow> request_packages E m reqs ! j =
     (case reqs ! j of (isOrder, msg, r, ms) \<Rightarrow> client_package E REQREP isOrder (m + 1 + int j) msg)"
proof (induction E m reqs arbitrary: j rule: request_packages.induct)
  case (2 E m isOrder msg r ms reqs)
  then show ?case by (cases j) (auto simp: algebra_simps)
qed simp

lemma next_msgId_small: "0 \<le> m \<Longrightarrow> m + 1 < INT_MAX \<Longrightarrow> next_msgId m = (m + 1, m + 1)"
  by (simp add: next_msgId_def wrap32_id c_rem_def INT_MAX_def Let_def)

text \<open>The requests that are outstanding, as far as a callback is concerned.\<close>

definition outstanding :: "('u, 'r, 'pub, 'del) client \<Rightarrow> int \<Rightarrow> (ref \<times> 'r response) option" where
  "outstanding c i = map_option (\<lambda>d. (rq_pac d, rq_res d)) (requestMessage c i)"

definition callback :: "('u, 'r) call_request \<Rightarrow> 'r" where
  "callback rq = (case rq of (isOrder, msg, r, ms) \<Rightarrow> r)"

definition request_msg :: "('u, 'r) call_request \<Rightarrow> 'u pb_message" where
  "request_msg rq = (case rq of (isOrder, msg, r, ms) \<Rightarrow> msg)"

lemma post_requests_ok:
  fixes c :: "('u, 'r, 'pub, 'del) client"
  assumes "isOnline c" and "\<not> cl_stopped c" and "0 \<le> cl_id c" and "cl_id c + int (length reqs) < INT_MAX"
  shows "\<exists>c1. post_requests E now reqs c = Inr (c1, map PostStartWrite
        [length (cl_store c)..<length (cl_store c) + length reqs] :: ('u, 'r, 'pub, 'del, 'ep) client_effect list) \<and>
    cl_store c1 = cl_store c @ request_packages E (cl_id c) reqs \<and> cl_readBuffer c1 = cl_readBuffer c \<and>
    pendingList c1 = pendingList c \<and>
    (\<forall>i. i \<le> cl_id c \<longrightarrow> outstanding c1 i = outstanding c i) \<and>
    (\<forall>j. j < length reqs \<longrightarrow>
       outstanding c1 (cl_id c + 1 + int j) = Some (length (cl_store c) + j, UserResponse (callback (reqs ! j))))"
  using assms
proof (induction reqs arbitrary: c)
  case Nil
  then show ?case by simp
next
  case (Cons rq reqs)
  obtain isOrder msg r ms where rq: "rq = (isOrder, msg, r, ms)" by (cases rq) auto
  let ?i = "cl_id c + 1" and ?p = "length (cl_store c)"
  have id: "next_msgId (cl_id c) = (?i, ?i)" using Cons.prems by (intro next_msgId_small) simp_all
  have rng: "- (2 ^ 31) \<le> ?i" "?i < 2 ^ 31" using Cons.prems by (simp_all add: INT_MAX_def)
  define c1 where "c1 = c\<lparr>cl_id := ?i, cl_store := cl_store c @ [client_package E REQREP isOrder ?i msg],
    requestMessage := RequestMessage_put now ?i ?p (UserResponse r) ms (requestMessage c)\<rparr>"
  have f: "isOnline c1" "\<not> cl_stopped c1" "cl_id c1 = ?i" "length (cl_store c1) = Suc ?p"
    "cl_store c1 = cl_store c @ [client_package E REQREP isOrder ?i msg]" "cl_readBuffer c1 = cl_readBuffer c"
    "pendingList c1 = pendingList c"
    using Cons.prems by (simp_all add: c1_def)
  have o: "outstanding c1 i = (if i = ?i then Some (?p, UserResponse r) else outstanding c i)" for i
    by (simp add: outstanding_def c1_def RequestMessage_put_def Data_new_def)
  note p = request_posted [OF Cons.prems(1,2) id rng, of E now isOrder msg "UserResponse r" ms, where 'ep = 'ep, folded c1_def]
  have "0 \<le> cl_id c1" "cl_id c1 + int (length reqs) < INT_MAX" using Cons.prems f(3) by simp_all
  from Cons.IH [OF f(1,2) this] obtain c2 where c2: "post_requests E now reqs c1 = Inr (c2, map PostStartWrite
        [Suc ?p..<Suc ?p + length reqs] :: ('u, 'r, 'pub, 'del, 'ep) client_effect list)"
    "cl_store c2 = cl_store c1 @ request_packages E ?i reqs" "cl_readBuffer c2 = cl_readBuffer c"
    "pendingList c2 = pendingList c"
    "\<And>i. i \<le> ?i \<Longrightarrow> outstanding c2 i = outstanding c1 i"
    "\<And>j. j < length reqs \<Longrightarrow> outstanding c2 (?i + 1 + int j) = Some (Suc ?p + j, UserResponse (callback (reqs ! j)))"
    unfolding f(3,4,6,7) by blast
  have "outstanding c2 (?i + int j) = Some (?p + j, UserResponse (callback ((rq # reqs) ! j)))"
    if "j < length (rq # reqs)" for j
  proof (cases j)
    case 0
    then show ?thesis using c2(5) [of ?i] o by (simp add: rq callback_def)
  next
    case (Suc k)
    then show ?thesis using c2(6) [of k] that by (simp add: add.assoc)
  qed
  moreover have "outstanding c2 i = outstanding c i" if "i \<le> cl_id c" for i
    using c2(5) [of i] o that by simp
  moreover have "[?p..<?p + length (rq # reqs)] = ?p # [Suc ?p..<Suc ?p + length reqs]"
    by (subst upt_rec) simp
  moreover have "post_requests E now (rq # reqs) c = Inr (c2, PostStartWrite ?p # map PostStartWrite
      [Suc ?p..<Suc ?p + length reqs] :: ('u, 'r, 'pub, 'del, 'ep) client_effect list)"
    using p c2(1) by (simp add: rq del: upt_Suc)
  ultimately show ?case using c2(2-4) f(5)
    by (intro exI [of _ c2]) (simp add: rq del: upt_Suc)
qed

section \<open>Writing keeps the requests outstanding\<close>

lemma writes_keep_outstanding:
  fixes c :: "('u, 'r, 'pub, 'del) client"
  shows "startWrite E p c = Inr (c', effs :: ('u, 'r, 'pub, 'del, 'ep) client_effect list) \<Longrightarrow>
      outstanding c' i = outstanding c i \<and> cl_readBuffer c' = cl_readBuffer c"
    and "write_completed E now ec k c = Inr (c', effs :: ('u, 'r, 'pub, 'del, 'ep) client_effect list) \<Longrightarrow>
      outstanding c' i = outstanding c i \<and> cl_readBuffer c' = cl_readBuffer c"
proof -
  have front: "outstanding c' i = outstanding c i \<and> cl_readBuffer c' = cl_readBuffer c"
    if "startWrite_front E c = Inr (c', effs :: ('u, 'r, 'pub, 'del, 'ep) client_effect list)"
    for c :: "('u, 'r, 'pub, 'del) client"
    using that by (auto simp: startWrite_front_def rbind_eq_Inr outstanding_def Let_def split: list.splits if_splits)
  show "startWrite E p c = Inr (c', effs) \<Longrightarrow> outstanding c' i = outstanding c i \<and> cl_readBuffer c' = cl_readBuffer c"
    using front [of "c\<lparr>pendingList := pendingList c @ [p]\<rparr>"]
    by (auto simp: startWrite_def outstanding_def Let_def split: if_splits)
  let ?c = "c\<lparr>requestMessage := RequestMessage_startTimer now k (requestMessage c), pendingList := tl (pendingList c)\<rparr>"
  have "outstanding ?c i = outstanding c i"
    by (auto simp: outstanding_def RequestMessage_startTimer_def split: option.splits)
  then show "write_completed E now ec k c = Inr (c', effs) \<Longrightarrow> outstanding c' i = outstanding c i \<and> cl_readBuffer c' = cl_readBuffer c"
    using front [of ?c]
    by (auto simp: write_completed_def outstanding_def Let_def split: if_splits list.splits)
qed

section \<open>Responding\<close>

fun respond_all ::
    "int \<Rightarrow> ref list \<Rightarrow> ('u, 'r, 'pub, 'del) client \<Rightarrow>
     (('u, 'r, 'pub, 'del) client \<times> ('u, 'r, 'pub, 'del, 'ep) client_effect list) result" where
  "respond_all now [] c = Inr (c, [])"
| "respond_all now (q # qs) c =
     rbind (doResponse now q c) (\<lambda>(c1, effs).
     rbind (respond_all now qs c1) (\<lambda>(c2, effs'). Inr (c2, effs @ effs')))"

text \<open>A response at \<open>q\<close> to the request \<open>i\<close>, with the package and the callback of that request.\<close>

definition answers_request :: "('u, 'r, 'pub, 'del) client \<Rightarrow> ref \<Rightarrow> int \<times> ref \<times> 'r \<Rightarrow> bool" where
  "answers_request c q = (\<lambda>(i, p, r). q < length (cl_store c) \<and> msgType (header (cl_store c ! q)) = REQREP \<and>
     sint (msgId (header (cl_store c ! q))) = i \<and> outstanding c i = Some (p, UserResponse r))"

lemma doResponse_answers:
  fixes c :: "('u, 'r, 'pub, 'del) client"
  assumes "answers_request c q (i, p, r)"
  obtains c' where "doResponse now q c
      = Inr (c', [CallResponse r eSuccess p (Some q)] :: ('u, 'r, 'pub, 'del, 'ep) client_effect list)"
    "cl_store c' = cl_store c" "\<And>k. outstanding c' k = (if k = i then None else outstanding c k)"
proof -
  from assms obtain d where d: "requestMessage c i = Some d" "rq_pac d = p" "rq_res d = UserResponse r"
    and q: "q < length (cl_store c)" "msgType (header (cl_store c ! q)) = REQREP" "sint (msgId (header (cl_store c ! q))) = i"
    by (auto simp: answers_request_def outstanding_def)
  let ?c = "c\<lparr>requestMessage := (requestMessage c)(i := None)\<rparr>"
  have "doResponse now q c = Inr (?c, [CallResponse r eSuccess p (Some q)] :: ('u, 'r, 'pub, 'del, 'ep) client_effect list)"
    using d q by (simp add: doResponse_def RequestMessage_pick_def)
  then show ?thesis by (rule that) (simp_all add: outstanding_def)
qed

lemma respond_all_answers:
  fixes c :: "('u, 'r, 'pub, 'del) client"
  assumes "list_all2 (answers_request c) qs es" and "distinct (map fst es)"
  shows "\<exists>c'. respond_all now qs c = Inr (c', map2 (\<lambda>(i, p, r) q. CallResponse r eSuccess p (Some q)) es qs
      :: ('u, 'r, 'pub, 'del, 'ep) client_effect list) \<and>
    cl_store c' = cl_store c \<and> (\<forall>k. outstanding c' k = (if k \<in> fst ` set es then None else outstanding c k))"
  using assms
proof (induction es arbitrary: qs c rule: list.induct)
  case (Cons e es)
  obtain i p r where e: "e = (i, p, r)" by (cases e) auto
  from Cons.prems(1) obtain q qs' where q: "qs = q # qs'" "answers_request c q e" "list_all2 (answers_request c) qs' es"
    by (auto simp: list_all2_Cons2)
  obtain c1 where c1: "doResponse now q c
      = Inr (c1, [CallResponse r eSuccess p (Some q)] :: ('u, 'r, 'pub, 'del, 'ep) client_effect list)"
    "cl_store c1 = cl_store c" "\<And>k. outstanding c1 k = (if k = i then None else outstanding c k)"
    using doResponse_answers [OF q(2) [unfolded e], where 'ep = 'ep] by blast
  have "answers_request c1 q' e'" if "answers_request c q' e'" "e' \<in> set es" for q' e'
  proof -
    have "fst e' \<noteq> i" using that(2) Cons.prems(2) e by (auto simp: image_iff)
    then show ?thesis using that(1) c1(2,3) by (auto simp: answers_request_def split: prod.splits)
  qed
  then have "list_all2 (answers_request c1) qs' es"
    using q(3) by (auto simp: list_all2_conv_all_nth)
  from Cons.IH [OF this] Cons.prems(2) obtain c2 where
    c2: "respond_all now qs' c1 = Inr (c2, map2 (\<lambda>(i, p, r) q. CallResponse r eSuccess p (Some q)) es qs'
      :: ('u, 'r, 'pub, 'del, 'ep) client_effect list)"
    "cl_store c2 = cl_store c1" "\<And>k. outstanding c2 k = (if k \<in> fst ` set es then None else outstanding c1 k)"
    by auto
  have "outstanding c2 k = (if k \<in> fst ` set (e # es) then None else outstanding c k)" for k
    by (simp add: c2(3) c1(3) e)
  then show ?case using c1(1,2) c2(1,2) by (intro exI [of _ c2]) (simp add: q(1) e)
qed simp

section \<open>All together\<close>

text \<open>The requests as the server receives them.\<close>

definition received_requests :: "('d, 'u pb_message) env \<Rightarrow> int \<Rightarrow> ('u, 'r) call_request list \<Rightarrow> 'u pb_message Package list" where
  "received_requests E m reqs = map2 (received E) (request_packages E m reqs) (map request_msg reqs)"

lemma received_requests_nth:
  assumes "j < length reqs"
  shows "msgType (header (received_requests E m reqs ! j)) = REQREP"
    "msgId (header (received_requests E m reqs ! j)) = word_of_int (m + 1 + int j)"
    "msgPtr (received_requests E m reqs ! j) = Some (request_msg (reqs ! j))"
  using assms
  by (cases "reqs ! j"; simp add: received_requests_def request_packages_nth request_msg_def)+

lemma frames_of_requests:
  assumes "list_all2 (frame_of E) (request_packages E m reqs) ds"
  shows "list_all2 (is_frame E) ds (received_requests E m reqs)"
proof -
  have "is_frame E (ds ! j) (received_requests E m reqs ! j)" if "j < length reqs" for j
  proof -
    have "frame_of E (request_packages E m reqs ! j) (ds ! j)"
      using assms that by (simp add: list_all2_conv_all_nth)
    then show ?thesis using that
      by (cases "reqs ! j") (auto simp: frame_of_def received_requests_def request_packages_nth request_msg_def)
  qed
  then show ?thesis using list_all2_lengthD [OF assms]
    by (simp add: list_all2_conv_all_nth received_requests_def)
qed

lemma feed_all_frames:
  assumes "buf_inv b" and "contents b = []" and "list_all2 (is_frame E) fs ps" and "concat chunks = concat fs"
  obtains b' where "feed (\<lambda>d b. rbind (append_data d (length d) b) (readLoop E)) chunks b = Inr (ps, b')" "buf_inv b'"
proof -
  have "concat chunks = take (length (concat fs)) (concat fs)" using assms(4) by simp
  from rd.feed_stream [OF assms(1-3) this order_refl] obtain b' where
    "feed (\<lambda>d b. rbind (append_data d (length d) b) (readLoop E)) chunks b
      = Inr (take (frames_in fs (length (concat fs))) ps, b')" "buf_inv b'" by blast
  moreover have "take (frames_in fs (length (concat fs))) ps = ps"
    using frames_in_all [of fs "length (concat fs)"] list_all2_lengthD [OF assms(3)] by simp
  ultimately show ?thesis using that by metis
qed

lemma replies_sent:
  assumes "net_order_ok E" and "zlib_ok E"
    and "\<And>j. j \<in> set js \<Longrightarrow> proto_ok E (answer j) \<and> sendable E (reply_package E (rqs ! j) (answer j)) (answer j)"
  obtains bs where
    "list_all2 (\<lambda>j b. Session_replyMessage E (Some (rqs ! j)) (Some (answer j)) = Inr [PostWriteBuffer b]) js bs"
    "list_all2 (is_frame E) (map contents bs) (map (\<lambda>j. received E (reply_package E (rqs ! j) (answer j)) (answer j)) js)"
proof -
  have "\<exists>b. Session_replyMessage E (Some (rqs ! j)) (Some (answer j)) = Inr [PostWriteBuffer b] \<and>
      is_frame E (contents b) (received E (reply_package E (rqs ! j) (answer j)) (answer j))" if "j \<in> set js" for j
  proof -
    note m = assms(3) [OF that]
    obtain p b where "Session_postPackage E (reply_package E (rqs ! j) (answer j)) = Inr (p, [PostWriteBuffer b])"
      "is_frame E (contents b) (received E (reply_package E (rqs ! j) (answer j)) (answer j))"
      using postPackage_sendable [OF assms(1,2) conjunct1 [OF m] conjunct2 [OF m]] by blast
    then show ?thesis by (simp add: Session_replyMessage_def)
  qed
  then obtain f where f: "\<And>j. j \<in> set js \<Longrightarrow> Session_replyMessage E (Some (rqs ! j)) (Some (answer j)) = Inr [PostWriteBuffer (f j)] \<and>
      is_frame E (contents (f j)) (received E (reply_package E (rqs ! j) (answer j)) (answer j))" by metis
  show ?thesis by (rule that [of "map f js"]) (simp_all add: list_all2_conv_all_nth f)
qed

text \<open>What the client reads when the replies arrive: packages and the entries they answer.\<close>

lemma replies_answer:
  fixes c2 c3 :: "('u, 'r, 'pub, 'del) client"
  assumes "set js \<subseteq> {..<length reqs}" and "0 \<le> m" "m + int (length reqs) < INT_MAX"
    and "rqs = received_requests E m reqs"
    and "cl_store c3 = cl_store c2 @ map (\<lambda>j. received E (reply_package E (rqs ! j) (answer j)) (answer j)) js"
    and "\<And>j. j < length reqs \<Longrightarrow> outstanding c3 (m + 1 + int j) = Some (p + j, UserResponse (callback (reqs ! j)))"
  shows "list_all2 (answers_request c3) [length (cl_store c2)..<length (cl_store c2) + length js]
    (map (\<lambda>j. (m + 1 + int j, p + j, callback (reqs ! j))) js)"
proof (rule list_all2_all_nthI)
  fix k assume "k < length [length (cl_store c2)..<length (cl_store c2) + length js]"
  then have k: "k < length js" by simp
  then have j: "js ! k < length reqs" using assms(1) by (meson lessThan_iff nth_mem subset_iff)
  have id: "sint (word_of_int (m + 1 + int (js ! k)) :: int32) = m + 1 + int (js ! k)"
    using assms(2,3) j by (intro sint_word_of_int_32) (simp_all add: INT_MAX_def)
  show "answers_request c3 ([length (cl_store c2)..<length (cl_store c2) + length js] ! k)
      (map (\<lambda>j. (m + 1 + int j, p + j, callback (reqs ! j))) js ! k)"
    using k assms(6) [OF j] received_requests_nth(1,2) [OF j, of E m] id
    by (simp add: answers_request_def assms(4,5) nth_append)
qed simp

text \<open>
  Property C4. Pipelined calls. A connected client posts any number of requests, whose frames go out in order
  (as \<open>client_writes_in_order\<close> says), cut by the transport in any way. The session hands over exactly these
  requests, in order. The server replies to any of them, each once, in any order; the client reads the frames of
  the replies, again cut in any way, with the requests still outstanding. Then the callback of each request
  that was replied to is called exactly once, in the order of the replies, with success, with the package of
  its own request and a package that carries the reply to it; and the request is no longer outstanding.
\<close>

theorem pipelined_calls:
  fixes c :: "('u, 'r, 'pub, 'del) client"
  assumes "net_order_ok E" and "zlib_ok E" and "isOnline c" and "\<not> cl_stopped c"
    and "0 \<le> cl_id c" and "cl_id c + int (length reqs) < INT_MAX"
    and "list_all2 (frame_of E) (request_packages E (cl_id c) reqs) ds" and "concat chunks = concat ds"
    and "buf_inv (readBuffer s)" and "contents (readBuffer s) = []"
    and "rqs = received_requests E (cl_id c) reqs" and "distinct js" and "set js \<subseteq> {..<length reqs}"
    and "\<And>j. j \<in> set js \<Longrightarrow> proto_ok E (answer j) \<and> sendable E (reply_package E (rqs ! j) (answer j)) (answer j)"
  shows "\<exists>c1 s' bs.
    post_requests E now reqs c = Inr (c1, map PostStartWrite
      [length (cl_store c)..<length (cl_store c) + length reqs] :: ('u, 'r, 'pub, 'del, 'ep) client_effect list) \<and>
    cl_store c1 = cl_store c @ request_packages E (cl_id c) reqs \<and>
    feed (read_chunk E) chunks s = Inr (rqs, s') \<and>
    list_all2 (\<lambda>j b. Session_replyMessage E (Some (rqs ! j)) (Some (answer j)) = Inr [PostWriteBuffer b]) js bs \<and>
    (\<forall>c2 chunks'. (\<forall>i. outstanding c2 i = outstanding c1 i) \<and> buf_inv (cl_readBuffer c2) \<and>
       contents (cl_readBuffer c2) = [] \<and> concat chunks' = concat (map contents bs) \<longrightarrow>
       (\<exists>packs c3 c4. let qs = [length (cl_store c2)..<length (cl_store c2) + length js] in
          feed (client_chunk E) chunks' c2 = Inr (packs, c3) \<and> map (\<lambda>q. cl_store c3 ! q) qs = packs \<and>
          respond_all now' qs c3 = Inr (c4, map2 (\<lambda>j q. CallResponse (callback (reqs ! j)) eSuccess
              (length (cl_store c) + j) (Some q)) js qs :: ('u, 'r, 'pub, 'del, 'ep) client_effect list) \<and>
          map (\<lambda>q. msgPtr (cl_store c4 ! q)) qs = map (\<lambda>j. Some (answer j)) js \<and>
          (\<forall>j \<in> set js. outstanding c4 (cl_id c + 1 + int j) = None)))"
proof -
  let ?p = "length (cl_store c)" and ?E = "[] :: ('u, 'r, 'pub, 'del, 'ep) client_effect list"
  obtain c1 where c1: "post_requests E now reqs c = Inr (c1, map PostStartWrite
      [?p..<?p + length reqs] :: ('u, 'r, 'pub, 'del, 'ep) client_effect list)"
    "cl_store c1 = cl_store c @ request_packages E (cl_id c) reqs"
    and o: "\<And>j. j < length reqs \<Longrightarrow> outstanding c1 (cl_id c + 1 + int j) = Some (?p + j, UserResponse (callback (reqs ! j)))"
    using post_requests_ok [OF assms(3-6), of E now, where 'ep = 'ep] by blast
  have fr: "list_all2 (is_frame E) ds rqs" using frames_of_requests [OF assms(7)] by (simp add: assms(11))
  obtain b' where "feed (\<lambda>d b. rbind (append_data d (length d) b) (readLoop E)) chunks (readBuffer s) = Inr (rqs, b')"
    using feed_all_frames [OF assms(9,10) fr assms(8)] .
  then have s': "feed (read_chunk E) chunks s = Inr (rqs, s\<lparr>readBuffer := b'\<rparr>)" by (simp add: feed_read_chunk)
  let ?rp = "\<lambda>j. received E (reply_package E (rqs ! j) (answer j)) (answer j)"
  obtain bs where bs:
    "list_all2 (\<lambda>j b. Session_replyMessage E (Some (rqs ! j)) (Some (answer j)) = Inr [PostWriteBuffer b]) js bs"
    "list_all2 (is_frame E) (map contents bs) (map ?rp js)"
    using replies_sent [OF assms(1,2,14)] .
  have "\<exists>packs c3 c4. let qs = [length (cl_store c2)..<length (cl_store c2) + length js] in
      feed (client_chunk E) chunks' c2 = Inr (packs, c3) \<and> map (\<lambda>q. cl_store c3 ! q) qs = packs \<and>
      respond_all now' qs c3 = Inr (c4, map2 (\<lambda>j q. CallResponse (callback (reqs ! j)) eSuccess
          (?p + j) (Some q)) js qs :: ('u, 'r, 'pub, 'del, 'ep) client_effect list) \<and>
      map (\<lambda>q. msgPtr (cl_store c4 ! q)) qs = map (\<lambda>j. Some (answer j)) js \<and>
      (\<forall>j \<in> set js. outstanding c4 (cl_id c + 1 + int j) = None)"
    if c2: "\<And>i. outstanding c2 i = outstanding c1 i" "buf_inv (cl_readBuffer c2)" "contents (cl_readBuffer c2) = []"
      "concat chunks' = concat (map contents bs)" for c2 :: "('u, 'r, 'pub, 'del) client" and chunks'
  proof -
    obtain b2 where "feed (\<lambda>d b. rbind (append_data d (length d) b) (readLoop E)) chunks' (cl_readBuffer c2)
        = Inr (map ?rp js, b2)"
      using feed_all_frames [OF c2(2,3) bs(2) c2(4)] .
    note f = feed_client_chunk [OF this]
    define c3 where "c3 = c2\<lparr>cl_readBuffer := b2, cl_store := cl_store c2 @ map ?rp js\<rparr>"
    let ?qs = "[length (cl_store c2)..<length (cl_store c2) + length js]"
      and ?es = "map (\<lambda>j. (cl_id c + 1 + int j, ?p + j, callback (reqs ! j))) js"
    have st: "cl_store c3 = cl_store c2 @ map ?rp js" by (simp add: c3_def)
    have o3: "outstanding c3 i = outstanding c1 i" for i using c2(1) by (simp add: c3_def outstanding_def)
    have "list_all2 (answers_request c3) ?qs ?es"
      using replies_answer [OF assms(13,5,6,11) st] o o3 by simp
    moreover have "distinct (map fst ?es)" using assms(12) by (simp add: distinct_map inj_on_def comp_def)
    ultimately obtain c4 where c4: "respond_all now' ?qs c3 = Inr (c4, map2 (\<lambda>(i, p, r) q. CallResponse r eSuccess p (Some q)) ?es ?qs
        :: ('u, 'r, 'pub, 'del, 'ep) client_effect list)"
      "cl_store c4 = cl_store c3" "\<And>k. outstanding c4 k = (if k \<in> fst ` set ?es then None else outstanding c3 k)"
      using respond_all_answers [where 'ep = 'ep] by blast
    have "map2 (\<lambda>(i, p, r) q. CallResponse r eSuccess p (Some q)) ?es ?qs
        = (map2 (\<lambda>j q. CallResponse (callback (reqs ! j)) eSuccess (?p + j) (Some q)) js ?qs
            :: ('u, 'r, 'pub, 'del, 'ep) client_effect list)"
      by (rule nth_equalityI) simp_all
    moreover have "map (\<lambda>q. msgPtr (cl_store c4 ! q)) ?qs = map (\<lambda>j. Some (answer j)) js"
      by (rule nth_equalityI) (simp_all add: c4(2) st nth_append)
    moreover have "map (\<lambda>q. cl_store c3 ! q) ?qs = map ?rp js"
      by (rule nth_equalityI) (simp_all add: st nth_append)
    moreover have "\<forall>j \<in> set js. outstanding c4 (cl_id c + 1 + int j) = None"
      by (auto simp: c4(3) image_image)
    ultimately show ?thesis using f c4(1)
      by (intro exI [of _ "map ?rp js"] exI [of _ c3] exI [of _ c4]) (simp add: c3_def Let_def)
  qed
  with c1 s' bs(1) show ?thesis by (intro exI [of _ c1] exI [of _ "s\<lparr>readBuffer := b'\<rparr>"] exI [of _ bs]) auto
qed

definition demo_calls :: "(unit, string) call_request list" where
  "demo_calls = [(False, demo_rsp, ''f'', 5000), (False, demo_rsp, ''g'', 5000)]"

lemma demo_calls_sendable:
  "sendable pb_demo (client_package pb_demo REQREP False i demo_rsp) demo_rsp"
  "sendable pb_demo (reply_package pb_demo
     (received pb_demo (client_package pb_demo REQREP False i demo_rsp) demo_rsp) demo_rsp) demo_rsp"
  by (simp_all add: sendable_def client_package_def reply_package_def received_def sent_header_def demo_rsp_def
      SubscribeRsp_FullMessageName_def set_isorder_def PacHeader_new_def iszip_def encode_content_def
      enableCompressSize_def kPackageHeaderSize_def kMaxPackageLen_def SubscribeRsp_ByteSizeLong_def
      SubscribeRsp_InternalSerialize_def SubscribeRsp_set_errorcode_def SubscribeRsp_new_def
      SubscribeRsp_errorcode_def)

lemma demo_frame: "\<exists>d. frame_of pb_demo (client_package pb_demo REQREP False i demo_rsp) d"
proof -
  obtain p b where "is_frame pb_demo (contents b) (received pb_demo (client_package pb_demo REQREP False i demo_rsp) demo_rsp)"
    using postPackage_sendable [OF pb_demo_ok demo_rsp_ok(1) demo_calls_sendable(1)] by metis
  then show ?thesis by (auto simp: frame_of_def)
qed

theorem pipelined_calls_witness:
  "\<exists>c1 c3 c4 bs chunks'.
    post_requests pb_demo 0 demo_calls demo_client
      = Inr (c1, [PostStartWrite 0, PostStartWrite 1] :: (unit, string, string, string, unit) client_effect list) \<and>
    concat chunks' = concat (map contents bs) \<and> length bs = 2 \<and>
    feed (client_chunk pb_demo) chunks' c1 = Inr ([cl_store c3 ! 2, cl_store c3 ! 3], c3) \<and>
    respond_all 9 [2, 3] c3 = Inr (c4, [CallResponse ''g'' eSuccess 1 (Some 2), CallResponse ''f'' eSuccess 0 (Some 3)]
      :: (unit, string, string, string, unit) client_effect list)"
proof -
  let ?pk = "request_packages pb_demo (cl_id demo_client) demo_calls"
  have pk: "?pk = [client_package pb_demo REQREP False 1 demo_rsp, client_package pb_demo REQREP False 2 demo_rsp]"
    by (simp add: demo_calls_def demo_client_def)
  obtain d1 d2 where "frame_of pb_demo (client_package pb_demo REQREP False 1 demo_rsp) d1"
    "frame_of pb_demo (client_package pb_demo REQREP False 2 demo_rsp) d2"
    using demo_frame [of 1] demo_frame [of 2] by blast
  then have d: "list_all2 (frame_of pb_demo) ?pk [d1, d2]" by (simp add: pk)
  have c: "isOnline demo_client" "\<not> cl_stopped demo_client" "0 \<le> cl_id demo_client"
    "cl_id demo_client + int (length demo_calls) < INT_MAX"
    by (simp_all add: demo_client_def demo_calls_def INT_MAX_def)
  have s: "buf_inv (readBuffer demo_session)" "contents (readBuffer demo_session) = []"
    by (simp_all add: demo_session_def)
  have js: "distinct [1, 0 :: nat]" "set [1, 0] \<subseteq> {..<length demo_calls}" by (simp_all add: demo_calls_def)
  have a: "proto_ok pb_demo demo_rsp \<and> sendable pb_demo (reply_package pb_demo
      (received_requests pb_demo (cl_id demo_client) demo_calls ! j) demo_rsp) demo_rsp" if "j \<in> set [1, 0]" for j
    using that demo_rsp_ok(1) demo_calls_sendable
    by (auto simp: received_requests_def pk demo_calls_def request_msg_def)
  obtain c1 bs where r: "post_requests pb_demo 0 demo_calls demo_client = Inr (c1, map PostStartWrite
        [length (cl_store demo_client)..<length (cl_store demo_client) + length demo_calls]
        :: (unit, string, string, string, unit) client_effect list)"
    and bs: "list_all2 (\<lambda>j b. Session_replyMessage pb_demo
        (Some (received_requests pb_demo (cl_id demo_client) demo_calls ! j)) (Some demo_rsp) = Inr [PostWriteBuffer b]) [1, 0] bs"
    and st: "cl_store c1 = cl_store demo_client @ ?pk"
    and w: "\<forall>c2 chunks'. (\<forall>i. outstanding c2 i = outstanding c1 i) \<and> buf_inv (cl_readBuffer c2) \<and>
       contents (cl_readBuffer c2) = [] \<and> concat chunks' = concat (map contents bs) \<longrightarrow>
       (\<exists>packs c3 c4. let qs = [length (cl_store c2)..<length (cl_store c2) + length [1, 0 :: nat]] in
          feed (client_chunk pb_demo) chunks' c2 = Inr (packs, c3) \<and> map (\<lambda>q. cl_store c3 ! q) qs = packs \<and>
          respond_all 9 qs c3 = Inr (c4, map2 (\<lambda>j q. CallResponse (callback (demo_calls ! j)) eSuccess
              (length (cl_store demo_client) + j) (Some q)) [1, 0] qs :: (unit, string, string, string, unit) client_effect list) \<and>
          map (\<lambda>q. msgPtr (cl_store c4 ! q)) qs = map (\<lambda>j. Some demo_rsp) [1, 0 :: nat] \<and>
          (\<forall>j \<in> set [1, 0]. outstanding c4 (cl_id demo_client + 1 + int j) = None))"
    using pipelined_calls [OF pb_demo_ok c d _ s refl js a, of "[d1, d2]" 0 9, where 'ep = unit] by auto
  have "cl_readBuffer c1 = cl_readBuffer demo_client"
    using post_requests_ok [OF c, of pb_demo 0, where 'ep = unit] r by auto
  then have b: "buf_inv (cl_readBuffer c1)" "contents (cl_readBuffer c1) = []" by (simp_all add: demo_client_def)
  have l: "length (cl_store c1) = 2" "length (cl_store demo_client) = 0" "length bs = 2"
    using st list_all2_lengthD [OF bs] by (simp_all add: pk demo_client_def demo_calls_def)
  have q: "[length (cl_store c1)..<length (cl_store c1) + length [1, 0 :: nat]] = [2, 3]"
    by (simp add: l(1) upt_conv_Cons)
  obtain packs c3 c4 where "feed (client_chunk pb_demo) [concat (map contents bs)] c1 = Inr (packs, c3)"
    "map (\<lambda>q. cl_store c3 ! q) [2, 3] = packs"
    "respond_all 9 [2, 3] c3 = Inr (c4, map2 (\<lambda>j q. CallResponse (callback (demo_calls ! j)) eSuccess
              (length (cl_store demo_client) + j) (Some q)) [1, 0] [2, 3] :: (unit, string, string, string, unit) client_effect list)"
    using w [rule_format, of c1 "[concat (map contents bs)]"] b unfolding q Let_def by auto
  with r l show ?thesis
    by (intro exI [of _ c1] exI [of _ c3] exI [of _ c4] exI [of _ bs] exI [of _ "[concat (map contents bs)]"])
      (auto simp: demo_calls_def callback_def upt_conv_Cons)
qed

end
