(* ===== verification/Text_Tools.thy ===== *)
theory Text_Tools
  imports Strutil
begin

text \<open>
  Searching, splitting, joining, stripping and replacing of \<^verbatim>\<open>asio/tool/strutil.cpp\<close>. An output
  pointer that the sources assert is an option; a position that is \<^verbatim>\<open>npos\<close> is \<open>None\<close>; a C string
  argument is its characters before the terminating NUL. The strings a loop overwrites are its
  arguments, with the position the loop keeps.
\<close>

section \<open>The operations of \<open>std::string\<close> the sources use\<close>

text \<open>\<^verbatim>\<open>s.find(sub, pos)\<close> and \<^verbatim>\<open>s.substr(pos, n)\<close>.\<close>

fun find_at :: "string \<Rightarrow> string \<Rightarrow> nat option" where
  "find_at sub [] = (if sub = [] then Some 0 else None)"
| "find_at sub (c # s) = (if prefix sub (c # s) then Some 0 else map_option Suc (find_at sub s))"

definition str_find :: "string \<Rightarrow> string \<Rightarrow> nat \<Rightarrow> nat option" where
  "str_find s sub pos = (if pos \<le> length s then map_option ((+) pos) (find_at sub (drop pos s)) else None)"

definition substr :: "string \<Rightarrow> nat \<Rightarrow> nat \<Rightarrow> string" where
  "substr s pos n = take n (drop pos s)"

lemma find_at_Some: "find_at sub s = Some i \<Longrightarrow> i + length sub \<le> length s \<and> prefix sub (drop i s)"
  by (induction sub s arbitrary: i rule: find_at.induct)
    (auto split: if_splits dest: prefix_length_le)

lemma find_at_shorter:
  assumes "find_at sub s = Some p" "sub \<noteq> []"
  shows "length s - (p + length sub) < length s"
proof -
  have "0 < length sub" using assms(2) by simp
  with find_at_Some [OF assms(1)] show ?thesis by linarith
qed

lemma find_at_before: "find_at sub s = Some i \<Longrightarrow> j < i \<Longrightarrow> \<not> prefix sub (drop j s)"
proof (induction sub s arbitrary: i j rule: find_at.induct)
  case (2 sub c s)
  show ?case
  proof (cases "prefix sub (c # s)")
    case True
    with "2.prems" show ?thesis by simp
  next
    case False
    with "2.prems" obtain k where k: "find_at sub s = Some k" "i = Suc k" by auto
    show ?thesis
    proof (cases j)
      case 0
      with False show ?thesis by simp
    next
      case (Suc j')
      with "2.IH" [OF False k(1), of j'] "2.prems"(2) k(2) show ?thesis by simp
    qed
  qed
qed (auto split: if_splits)

lemma find_at_None: "find_at sub s = None \<longleftrightarrow> \<not> sublist sub s"
proof (induction sub s rule: find_at.induct)
  case (2 sub c s)
  then show ?case by (auto simp: sublist_Cons_right)
qed auto

lemma str_find_Some:
  assumes "str_find s sub pos = Some i"
  shows "pos \<le> i" "i + length sub \<le> length s" "find_at sub (drop pos s) = Some (i - pos)"
proof -
  from assms obtain j where j: "pos \<le> length s" "find_at sub (drop pos s) = Some j" "i = pos + j"
    by (auto simp: str_find_def split: if_splits)
  with find_at_Some [OF j(2)]
  show "pos \<le> i" "i + length sub \<le> length s" "find_at sub (drop pos s) = Some (i - pos)" by auto
qed

lemma str_find_drop: "pos \<le> length s \<Longrightarrow> str_find s sub pos = map_option ((+) pos) (find_at sub (drop pos s))"
  by (simp add: str_find_def)

section \<open>The n-th occurrence of a character\<close>

text \<open>\<^verbatim>\<open>npos + 1\<close> is 0.\<close>

fun find_nth_loop :: "string \<Rightarrow> char \<Rightarrow> nat \<Rightarrow> nat option \<Rightarrow> nat option" where
  "find_nth_loop s c 0 pos = pos"
| "find_nth_loop s c (Suc n) pos =
     (case str_find s [c] (case pos of None \<Rightarrow> 0 | Some p \<Rightarrow> p + 1) of
        None \<Rightarrow> None
      | Some p \<Rightarrow> find_nth_loop s c n (Some p))"

definition FindNth :: "string \<Rightarrow> char \<Rightarrow> int \<Rightarrow> nat option" where
  "FindNth s c n = find_nth_loop s c (nat n) None"

section \<open>Splitting and joining\<close>

text \<open>
  The test for an empty delimiter in the loop is the one that \<^verbatim>\<open>SplitStringUsing\<close> makes before it.
\<close>

function split_loop :: "string \<Rightarrow> string \<Rightarrow> nat \<Rightarrow> string list \<Rightarrow> nat \<times> string list" where
  "split_loop s delimiter start_pos res =
     (case str_find s delimiter start_pos of
        None \<Rightarrow> (start_pos, res)
      | Some find_pos \<Rightarrow>
         if delimiter = [] then (start_pos, res)
         else (let substring = substr s start_pos (find_pos - start_pos)
               in split_loop s delimiter (find_pos + length delimiter)
                    (if substring \<noteq> [] then res @ [substring] else res)))"
  by pat_completeness auto
termination
proof (relation "measure (\<lambda>(s, delimiter, start_pos, res). Suc (length s) - start_pos)")
  fix s delimiter substring :: string and start_pos find_pos :: nat and res :: "string list"
  assume "str_find s delimiter start_pos = Some find_pos" "delimiter \<noteq> []"
  moreover from this have "length delimiter > 0" by simp
  moreover have "a + n \<le> l \<Longrightarrow> 0 < n \<Longrightarrow> b \<le> a \<Longrightarrow> Suc l - (a + n) < Suc l - b" for a b n l :: nat by linarith
  ultimately show "((s, delimiter, find_pos + length delimiter, if substring \<noteq> [] then res @ [substring] else res),
      (s, delimiter, start_pos, res)) \<in> measure (\<lambda>(s, delimiter, start_pos, res). Suc (length s) - start_pos)"
    using str_find_Some(1,2) [of s delimiter start_pos find_pos] by simp
qed simp

declare split_loop.simps [simp del]

definition SplitStringUsing :: "string \<Rightarrow> string \<Rightarrow> string list option \<Rightarrow> string list result" where
  "SplitStringUsing s delimiter res =
     (case res of
        None \<Rightarrow> Inl AssertionFailed
      | Some res \<Rightarrow>
         if delimiter = [] then Inr res
         else (let (start_pos, res1) = split_loop s delimiter 0 res
               in Inr (if start_pos \<noteq> length s then res1 @ [drop start_pos s] else res1)))"

function from_vector_loop :: "string list \<Rightarrow> string \<Rightarrow> nat \<Rightarrow> string \<Rightarrow> string" where
  "from_vector_loop v delimiter i acc =
     (if i < length v then
        from_vector_loop v delimiter (i + 1)
          (let acc1 = acc @ v ! i in if i \<noteq> length v - 1 then acc1 @ delimiter else acc1)
      else acc)"
  by pat_completeness auto
termination
  by (relation "measure (\<lambda>(v, delimiter, i, acc). length v - i)") auto

declare from_vector_loop.simps [simp del]

definition FromVector :: "string list \<Rightarrow> string \<Rightarrow> string" where
  "FromVector v delimiter = from_vector_loop v delimiter 0 []"

section \<open>Stripping\<close>

text \<open>\<^verbatim>\<open>strpbrk\<close> from position \<open>i\<close> on: the first character before a NUL that is one of \<open>remove\<close>.\<close>

function strpbrk :: "string \<Rightarrow> string \<Rightarrow> nat \<Rightarrow> nat option" where
  "strpbrk s remove i =
     (if i < length s \<and> s ! i \<noteq> CHR 0x00 then
        (if s ! i \<in> set remove then Some i else strpbrk s remove (i + 1))
      else None)"
  by pat_completeness auto
termination
  by (relation "measure (\<lambda>(s, remove, i). length s - i)") auto

declare strpbrk.simps [simp del]

lemma strpbrk_Some:
  "strpbrk s remove i = Some j \<Longrightarrow> i \<le> j \<and> j < length s"
proof (induction s remove i rule: strpbrk.induct)
  case (1 s remove i)
  from "1.prems" show ?case
    using "1.IH" by (subst (asm) strpbrk.simps) (fastforce split: if_splits)
qed

function strip_loop :: "string \<Rightarrow> string \<Rightarrow> char \<Rightarrow> nat option \<Rightarrow> string" where
  "strip_loop s remove replacewith None = s"
| "strip_loop s remove replacewith (Some i) =
     (let s1 = s[i := replacewith] in strip_loop s1 remove replacewith (strpbrk s1 remove (i + 1)))"
  by pat_completeness auto
termination
proof (relation "measure (\<lambda>(s, remove, replacewith, p). case p of None \<Rightarrow> 0 | Some i \<Rightarrow> Suc (length s - i))")
  fix s remove :: string and replacewith :: char and i :: nat and s1 :: string
  assume "s1 = s[i := replacewith]"
  then show "((s1, remove, replacewith, strpbrk s1 remove (i + 1)), s, remove, replacewith, Some i)
      \<in> measure (\<lambda>(s, remove, replacewith, p). case p of None \<Rightarrow> 0 | Some i \<Rightarrow> Suc (length s - i))"
    using strpbrk_Some [of s1 remove "i + 1"] by (auto split: option.splits)
qed simp

definition StripString :: "string \<Rightarrow> string \<Rightarrow> char \<Rightarrow> string" where
  "StripString s remove replacewith = strip_loop s remove replacewith (strpbrk s remove 0)"

definition TryStripPrefixString :: "string \<Rightarrow> string \<Rightarrow> string option \<Rightarrow> (bool \<times> string) result" where
  "TryStripPrefixString inp pre out =
     (case out of
        None \<Rightarrow> Inl AssertionFailed
      | Some _ \<Rightarrow>
         (let has_prefix = (substr inp 0 (length pre) = pre)
          in Inr (has_prefix, if has_prefix then drop (length pre) inp else inp)))"

definition HasSuffixString :: "string \<Rightarrow> string \<Rightarrow> bool" where
  "HasSuffixString s suf =
     (if length s < length suf then False
      else substr s (length s - length suf) (length suf) = suf)"

function strrmm_loop :: "string \<Rightarrow> string \<Rightarrow> nat \<Rightarrow> string" where
  "strrmm_loop s chars it =
     (if it < length s then
        (if s ! it \<in> set chars then strrmm_loop (take it s @ drop (Suc it) s) chars it
         else strrmm_loop s chars (it + 1))
      else s)"
  by pat_completeness auto
termination
  by (relation "measure (\<lambda>(s, chars, it). length s - it)") auto

declare strrmm_loop.simps [simp del]

definition strrmm :: "string \<Rightarrow> string \<Rightarrow> string" where
  "strrmm s chars = strrmm_loop s chars 0"

section \<open>Random strings\<close>

text \<open>\<open>r k\<close> is the value of the \<open>k\<close>-th call of \<^verbatim>\<open>rand()\<close>; a negative length is a huge \<^verbatim>\<open>size_t\<close>.\<close>

definition charset :: string where
  "charset = ''0123456789ABCDEFGHIJKLMNOPQRSTUVWXYZabcdefghijklmnopqrstuvwxyz''"

definition random_string :: "(nat \<Rightarrow> int) \<Rightarrow> int \<Rightarrow> string result" where
  "random_string r len =
     (if len < 0 then Inl LengthError
      else Inr (map (\<lambda>k. charset ! (size_of_int (r k) mod length charset)) [0..<nat len]))"

lemma random_string_chars:
  assumes "random_string r len = Inr s"
  shows "int (length s) = len \<and> set s \<subseteq> set charset"
proof -
  have "charset ! (k mod length charset) \<in> set charset" for k
    by (rule nth_mem) (simp add: charset_def)
  with assms show ?thesis by (auto simp: random_string_def split: if_splits)
qed

section \<open>Replacing\<close>

text \<open>
  The position is an \<^verbatim>\<open>int\<close>: it is converted to \<^verbatim>\<open>size_t\<close> where it is passed on, and the new position
  is cut to 32 bits. \<^verbatim>\<open>append(s, pos, n)\<close> throws when \<open>pos\<close> is past the end. A loop that does not
  end is \<open>None\<close>.
\<close>

definition append_sub :: "string \<Rightarrow> string \<Rightarrow> int \<Rightarrow> nat \<Rightarrow> string result" where
  "append_sub tmp s pos n =
     (if size_of_int pos > length s then Inl OutOfBounds else Inr (tmp @ substr s (size_of_int pos) n))"

partial_function (option) replace_loop ::
    "string \<Rightarrow> string \<Rightarrow> string \<Rightarrow> string \<Rightarrow> int \<Rightarrow> int \<Rightarrow> nat option \<Rightarrow> (string \<times> int \<times> int) result option" where
  "replace_loop s sub rep tmp num_replacements pos match_pos =
     (case match_pos of
        None \<Rightarrow> Some (Inr (tmp, num_replacements, pos))
      | Some m \<Rightarrow>
         (case append_sub tmp s pos (m - size_of_int pos) of
            Inl e \<Rightarrow> Some (Inl e)
          | Inr tmp1 \<Rightarrow>
             (let pos1 = wrap32 (int (m + length sub))
              in replace_loop s sub rep (tmp1 @ rep) (wrap32 (num_replacements + 1)) pos1
                   (str_find s sub (size_of_int pos1)))))"

definition GlobalReplaceSubstring ::
    "string \<Rightarrow> string \<Rightarrow> string option \<Rightarrow> (int \<times> string) result option" where
  "GlobalReplaceSubstring sub rep sp =
     (case sp of
        None \<Rightarrow> Some (Inl AssertionFailed)
      | Some s \<Rightarrow>
         if s = [] \<or> sub = [] then Some (Inr (0, s))
         else
           (case replace_loop s sub rep [] 0 0 (str_find s sub (size_of_int 0)) of
              None \<Rightarrow> None
            | Some r \<Rightarrow> Some (rbind r (\<lambda>(tmp, num_replacements, pos).
                rbind (append_sub tmp s pos (length s - size_of_int pos)) (\<lambda>tmp1.
                  Inr (num_replacements, tmp1))))))"

section \<open>Pieces of a string\<close>

text \<open>The reference: a string is cut at the leftmost occurrences of a separator, and joined again.\<close>

function pieces :: "string \<Rightarrow> string \<Rightarrow> string list" where
  "pieces sub s =
     (case find_at sub s of
        None \<Rightarrow> [s]
      | Some p \<Rightarrow> if sub = [] then [s] else take p s # pieces sub (drop (p + length sub) s))"
  by pat_completeness auto
termination
proof (relation "measure (length \<circ> snd)")
  fix sub s :: string and p :: nat
  assume "find_at sub s = Some p" "sub \<noteq> []"
  from find_at_shorter [OF this] show "((sub, drop (p + length sub) s), (sub, s)) \<in> measure (length \<circ> snd)"
    by simp
qed simp

declare pieces.simps [simp del]

fun join :: "string \<Rightarrow> string list \<Rightarrow> string" where
  "join d [] = []"
| "join d [x] = x"
| "join d (x # y # v) = x @ d @ join d (y # v)"

lemma join_Cons: "v \<noteq> [] \<Longrightarrow> join d (x # v) = x @ d @ join d v"
  by (cases v) simp_all

lemma pieces_ne [simp]: "pieces sub s \<noteq> []"
  by (subst pieces.simps) (simp split: option.splits)

lemma join_pieces: "join sub (pieces sub s) = s"
proof (induction sub s rule: pieces.induct)
  case (1 sub s)
  show ?case
  proof (cases "find_at sub s")
    case None
    then show ?thesis by (subst pieces.simps) simp
  next
    case (Some p)
    show ?thesis
    proof (cases "sub = []")
      case False
      from find_at_Some [OF Some] have "s = take p s @ sub @ drop (p + length sub) s"
        by (metis append_take_drop_id add.commute drop_drop prefixE append_eq_conv_conj)
      with "1.IH" [OF Some False] show ?thesis
        by (subst pieces.simps) (simp add: Some False join_Cons)
    next
      case True
      then show ?thesis by (subst pieces.simps) (simp split: option.splits)
    qed
  qed
qed

lemma pieces_free: "sub \<noteq> [] \<Longrightarrow> x \<in> set (pieces sub s) \<Longrightarrow> \<not> sublist sub x"
proof (induction sub s arbitrary: x rule: pieces.induct)
  case (1 sub s)
  show ?case
  proof (cases "find_at sub s")
    case None
    with "1.prems"(2) find_at_None [of sub s] show ?thesis by (subst (asm) pieces.simps) simp
  next
    case (Some p)
    have "\<not> sublist sub (take p s)"
    proof
      assume "sublist sub (take p s)"
      then obtain xs ys where "take p s = xs @ sub @ ys" by (auto simp: sublist_def)
      then have t: "take p s = xs @ sub @ ys" "length xs + length sub \<le> p"
        using find_at_Some [OF Some] by (auto dest: arg_cong [of _ _ length])
      then have "prefix sub (drop (length xs) s)"
        by (metis append_take_drop_id append.assoc append_eq_conv_conj prefixI)
      moreover have "length xs < p" using t(2) "1.prems"(1) by (cases sub) simp_all
      ultimately show False using find_at_before [OF Some] by blast
    qed
    with "1.prems" "1.IH" [OF Some] Some show ?thesis
      by (subst (asm) pieces.simps) auto
  qed
qed

lemma find_at_join:
  assumes "d \<noteq> []" and "hd d \<notin> set x"
  shows "find_at d (x @ d @ t) = Some (length x)" "find_at d x = None"
proof -
  have "\<not> prefix d (c # y)" if "hd d \<noteq> c" for c y
    using that assms(1) by (cases d) auto
  with assms show "find_at d (x @ d @ t) = Some (length x)"
  proof (induction x)
    case Nil
    then show ?case by (cases d) (simp_all add: prefix_def)
  qed simp
  from \<open>\<And>c y. hd d \<noteq> c \<Longrightarrow> \<not> prefix d (c # y)\<close> assms show "find_at d x = None"
    by (induction x) simp_all
qed

lemma pieces_join:
  "v \<noteq> [] \<Longrightarrow> d \<noteq> [] \<Longrightarrow> \<forall>x \<in> set v. hd d \<notin> set x \<Longrightarrow> pieces d (join d v) = v"
proof (induction d v rule: join.induct)
  case (2 d x)
  then show ?case by (subst pieces.simps) (simp add: find_at_join)
next
  case (3 d x y v)
  then show ?case by (subst pieces.simps) (simp add: find_at_join)
qed simp

text \<open>The loops of the sources compute with the pieces.\<close>

lemma split_loop_pieces:
  assumes "delimiter \<noteq> []" "start_pos \<le> length s"
  shows "(let (st, r) = split_loop s delimiter start_pos acc in if st \<noteq> length s then r @ [drop st s] else r)
    = acc @ filter (\<lambda>x. x \<noteq> []) (pieces delimiter (drop start_pos s))"
  using assms
proof (induction s delimiter start_pos acc rule: split_loop.induct)
  case (1 s delimiter start_pos acc)
  show ?case
  proof (cases "str_find s delimiter start_pos")
    case None
    with "1.prems" have "find_at delimiter (drop start_pos s) = None" by (simp add: str_find_drop)
    with None "1.prems" show ?thesis
      by (subst split_loop.simps, subst pieces.simps) auto
  next
    case (Some p)
    note f = str_find_Some [OF Some]
    let ?r = "if substr s start_pos (p - start_pos) \<noteq> [] then acc @ [substr s start_pos (p - start_pos)] else acc"
    have "(let (st, r) = split_loop s delimiter (p + length delimiter) ?r in if st \<noteq> length s then r @ [drop st s] else r)
        = ?r @ filter (\<lambda>x. x \<noteq> []) (pieces delimiter (drop (p + length delimiter) s))"
      by (rule "1.IH" [OF Some "1.prems"(1) refl "1.prems"(1) f(2)])
    moreover have "split_loop s delimiter start_pos acc = split_loop s delimiter (p + length delimiter) ?r"
      by (subst split_loop.simps) (simp add: Some "1.prems"(1))
    moreover have "pieces delimiter (drop start_pos s)
        = substr s start_pos (p - start_pos) # pieces delimiter (drop (p + length delimiter) s)"
      using f by (subst pieces.simps) (simp add: "1.prems"(1) substr_def)
    ultimately show ?thesis by simp
  qed
qed

lemma Split_pieces:
  "delimiter \<noteq> [] \<Longrightarrow>
   SplitStringUsing s delimiter (Some acc) = Inr (acc @ filter (\<lambda>x. x \<noteq> []) (pieces delimiter s))"
  using split_loop_pieces [of delimiter 0 s acc]
  by (cases "split_loop s delimiter 0 acc") (simp add: SplitStringUsing_def)

lemma from_vector_loop_join:
  "i \<le> length v \<Longrightarrow> from_vector_loop v d i acc = acc @ join d (drop i v)"
proof (induction v d i acc rule: from_vector_loop.induct)
  case (1 v d i acc)
  show ?case
  proof (cases "i < length v")
    case True
    with "1.IH" [OF True] show ?thesis
      by (cases "Suc i < length v")
        (subst from_vector_loop.simps, auto simp: Cons_nth_drop_Suc [symmetric] join_Cons Let_def)+
  next
    case False
    then show ?thesis by (subst from_vector_loop.simps) simp
  qed
qed

lemma FromVector_join: "FromVector v d = join d v"
  by (simp add: FromVector_def from_vector_loop_join)

lemma size_of_int_nat [simp]: "n < 2 ^ 31 \<Longrightarrow> size_of_int (int n) = n"
  by (simp add: size_of_int_def)

lemma replace_loop_pieces:
  assumes "sub \<noteq> []" "length s < 2 ^ 31" "pos \<le> length s"
    "num + int (length (pieces sub (drop pos s))) < 2 ^ 31" "0 \<le> num"
  shows "\<exists>tmp' pos'. replace_loop s sub rep tmp num (int pos) (str_find s sub pos)
      = Some (Inr (tmp', num + int (length (pieces sub (drop pos s))) - 1, int pos')) \<and>
    pos' \<le> length s \<and> tmp' @ drop pos' s = tmp @ join rep (pieces sub (drop pos s))"
  using assms(3-5)
proof (induction "length s - pos" arbitrary: pos tmp num rule: less_induct)
  case less
  show ?case
  proof (cases "str_find s sub pos")
    case None
    with less.prems have "find_at sub (drop pos s) = None" by (simp add: str_find_drop)
    then have "pieces sub (drop pos s) = [drop pos s]" by (subst pieces.simps) simp
    with None less.prems(1) show ?thesis
      by (intro exI [of _ tmp] exI [of _ pos]) (subst replace_loop.simps; simp)
  next
    case (Some m)
    note f = str_find_Some [OF Some]
    let ?p = "m + length sub"
    have pc: "pieces sub (drop pos s) = substr s pos (m - pos) # pieces sub (drop ?p s)"
      using f by (subst pieces.simps) (simp add: assms(1) substr_def)
    have w: "wrap32 (int ?p) = int ?p" "wrap32 (num + 1) = num + 1"
      using f(2) assms(2) less.prems(2,3) pc by (auto intro!: wrap32_id)
    have "0 < length sub" using assms(1) by simp
    with f(1,2) have "length s - ?p < length s - pos" by linarith
    moreover have "num + 1 + int (length (pieces sub (drop ?p s))) < 2 ^ 31"
      using less.prems(2) pc by simp
    ultimately obtain tmp' pos' where t: "replace_loop s sub rep ((tmp @ substr s pos (m - pos)) @ rep)
          (num + 1) (int ?p) (str_find s sub ?p)
        = Some (Inr (tmp', num + 1 + int (length (pieces sub (drop ?p s))) - 1, int pos'))"
      "pos' \<le> length s"
      "tmp' @ drop pos' s = ((tmp @ substr s pos (m - pos)) @ rep) @ join rep (pieces sub (drop ?p s))"
      using less.hyps [of ?p "num + 1" "(tmp @ substr s pos (m - pos)) @ rep"] f(2) less.prems(3)
      by (auto simp only:) (metis add_nonneg_nonneg zero_le_one)
    have s: "size_of_int (int pos) = pos" "size_of_int (int ?p) = ?p"
      using less.prems(1) f(2) assms(2) by (simp_all del: of_nat_add)
    show ?thesis
    proof (intro exI conjI)
      show "replace_loop s sub rep tmp num (int pos) (str_find s sub pos)
          = Some (Inr (tmp', num + int (length (pieces sub (drop pos s))) - 1, int pos'))"
        using t(1) less.prems(1) unfolding Some
        by (subst replace_loop.simps) (simp add: append_sub_def w s pc Let_def del: of_nat_add)
      show "pos' \<le> length s" by (fact t(2))
      show "tmp' @ drop pos' s = tmp @ join rep (pieces sub (drop pos s))"
        using t(3) by (simp add: pc join_Cons)
    qed
  qed
qed

section \<open>What the tools compute\<close>

lemma pieces_length: "sub \<noteq> [] \<Longrightarrow> length (pieces sub s) \<le> Suc (length s)"
proof (induction sub s rule: pieces.induct)
  case (1 sub s)
  show ?case
  proof (cases "find_at sub s")
    case None
    then show ?thesis by (subst pieces.simps) simp
  next
    case (Some p)
    from "1.IH" [OF Some "1.prems" "1.prems"] find_at_shorter [OF Some "1.prems"] show ?thesis
      by (subst pieces.simps) (simp add: Some)
  qed
qed

lemma Replace_pieces:
  assumes "sub \<noteq> []" "length s < 2 ^ 31 - 1"
  shows "GlobalReplaceSubstring sub rep (Some s)
    = Some (Inr (int (length (pieces sub s)) - 1, join rep (pieces sub s)))"
proof (cases "s = []")
  case True
  have "pieces sub [] = [[]]" using assms(1) by (subst pieces.simps) simp
  with True show ?thesis by (simp add: GlobalReplaceSubstring_def)
next
  case False
  have "int (length (pieces sub s)) < 2 ^ 31" using pieces_length [OF assms(1), of s] assms(2) by simp
  then obtain tmp pos where l: "replace_loop s sub rep [] 0 0 (str_find s sub 0)
      = Some (Inr (tmp, int (length (pieces sub s)) - 1, int pos))"
    "pos \<le> length s" "tmp @ drop pos s = join rep (pieces sub s)"
    using replace_loop_pieces [of sub s 0 0 rep "[]"] assms by auto
  have "size_of_int 0 = 0" "size_of_int (int pos) = pos"
    using l(2) assms(2) by (simp_all add: size_of_int_def)
  with l False assms(1) show ?thesis
    by (simp add: GlobalReplaceSubstring_def append_sub_def substr_def)
qed

text \<open>Every cut is at the leftmost occurrence of the separator in what remains.\<close>

lemma pieces_leftmost:
  "sub \<noteq> [] \<Longrightarrow> Suc k < length (pieces sub s) \<Longrightarrow> j < length (pieces sub s ! k) \<Longrightarrow>
    \<not> prefix sub (drop j (join sub (drop k (pieces sub s))))"
proof (induction sub s arbitrary: k rule: pieces.induct)
  case (1 sub s)
  then obtain p where p: "find_at sub s = Some p"
    by (subst (asm) pieces.simps) (auto split: option.splits)
  have pc: "pieces sub s = take p s # pieces sub (drop (p + length sub) s)"
    using p "1.prems"(1) by (subst pieces.simps) simp
  show ?case
  proof (cases k)
    case 0
    with "1.prems"(3) have "j < p" by (simp add: pc)
    with find_at_before [OF p this] 0 show ?thesis by (simp add: join_pieces)
  next
    case (Suc k')
    with "1.IH" [OF p "1.prems"(1,1), of k'] "1.prems"(2,3) show ?thesis by (simp add: pc)
  qed
qed

text \<open>
  Property C27. Splitting and replacing cut a string at the same places. Every string is the join of
  pieces in which the separator does not occur, and which end at the leftmost occurrence: no occurrence of
  the separator in what remains of the string begins within the piece. \<^verbatim>\<open>SplitStringUsing\<close> appends the non-empty pieces to
  the vector, and \<^verbatim>\<open>GlobalReplaceSubstring\<close> returns, with the number of joints, the join of the pieces
  by the replacement. The replacing loop ends, and its \<^verbatim>\<open>int\<close> position does not overflow, for
  every string shorter than the largest \<^verbatim>\<open>int\<close>.
\<close>

theorem split_and_replace:
  assumes "sub \<noteq> []" and "length s < 2 ^ 31 - 1"
  shows "\<exists>v. v \<noteq> [] \<and> FromVector v sub = s \<and> (\<forall>x \<in> set v. \<not> sublist sub x) \<and>
    (\<forall>k j. Suc k < length v \<longrightarrow> j < length (v ! k) \<longrightarrow> \<not> prefix sub (drop j (FromVector (drop k v) sub))) \<and>
    SplitStringUsing s sub (Some acc) = Inr (acc @ filter (\<lambda>x. x \<noteq> []) v) \<and>
    GlobalReplaceSubstring sub rep (Some s) = Some (Inr (int (length v) - 1, FromVector v rep))"
  by (rule exI [of _ "pieces sub s"])
    (simp add: Split_pieces Replace_pieces [OF assms] FromVector_join join_pieces pieces_free pieces_leftmost assms(1))

theorem split_and_replace_witness:
  "\<exists>v. FromVector v ''aa'' = ''xaaay'' \<and> (\<forall>x \<in> set v. \<not> sublist ''aa'' x) \<and>
    (\<forall>k j. Suc k < length v \<longrightarrow> j < length (v ! k) \<longrightarrow> \<not> prefix ''aa'' (drop j (FromVector (drop k v) ''aa''))) \<and>
    SplitStringUsing ''xaaay'' ''aa'' (Some []) = Inr (filter (\<lambda>x. x \<noteq> []) v) \<and>
    GlobalReplaceSubstring ''aa'' ''b'' (Some ''xaaay'') = Some (Inr (int (length v) - 1, FromVector v ''b''))"
  using split_and_replace [of "''aa''" "''xaaay''" "[]" "''b''"] by fastforce

text \<open>
  Splitting undoes joining: when no element of a vector is empty or contains the first
  character of the delimiter, \<^verbatim>\<open>SplitStringUsing\<close> appends exactly the elements that
  \<^verbatim>\<open>FromVector\<close> has joined, in order.
\<close>

theorem split_join:
  assumes "d \<noteq> []" and "\<forall>x \<in> set v. x \<noteq> [] \<and> hd d \<notin> set x"
  shows "SplitStringUsing (FromVector v d) d (Some acc) = Inr (acc @ v)"
proof (cases "v = []")
  case True
  with assms(1) show ?thesis by (simp add: Split_pieces FromVector_join) (subst pieces.simps; simp)
next
  case False
  with assms show ?thesis by (simp add: Split_pieces FromVector_join pieces_join)
qed

theorem split_join_witness:
  "SplitStringUsing (FromVector [''a'', ''bc''] '', '') '', '' (Some [''z'']) = Inr [''z'', ''a'', ''bc'']"
  using split_join [of "'', ''" "[''a'', ''bc'']" "[''z'']"] by simp

lemma FindNth_Suc:
  "find_nth_loop s c (Suc n) pos =
     (let ps = filter (\<lambda>i. s ! i = c) [(case pos of None \<Rightarrow> 0 | Some p \<Rightarrow> Suc p)..<length s]
      in if n < length ps then Some (ps ! n) else None)"
proof -
  have find: "str_find s [c] k = (case filter (\<lambda>i. s ! i = c) [k..<length s] of [] \<Rightarrow> None | p # ps \<Rightarrow> Some p)" for k
  proof (induction "length s - k" arbitrary: k)
    case 0
    then show ?case by (cases "k = length s") (simp_all add: str_find_def)
  next
    case (Suc m)
    then have k: "k < length s" "m = length s - Suc k" by simp_all
    from Suc.hyps(1) [OF k(2)] k(1) show ?case
      by (simp add: str_find_def Cons_nth_drop_Suc [symmetric] upt_conv_Cons option.map_comp o_def
          split: list.splits)
  qed
  have rest: "filter P [k..<l] = p # ps \<Longrightarrow> filter P [Suc p..<l] = ps" for P and k l p :: nat and ps
  proof (induction "l - k" arbitrary: k)
    case (Suc m)
    then have "k < l" "m = l - Suc k" by simp_all
    with Suc show ?case by (cases "P k") (auto simp: upt_conv_Cons)
  qed simp
  show ?thesis
  proof (induction n arbitrary: pos)
    case 0
    show ?case
      by (cases "filter (\<lambda>i. s ! i = c) [(case pos of None \<Rightarrow> 0 | Some p \<Rightarrow> Suc p)..<length s]"; cases pos)
        (simp_all add: find)
  next
    case (Suc n)
    show ?case
    proof (cases "filter (\<lambda>i. s ! i = c) [(case pos of None \<Rightarrow> 0 | Some p \<Rightarrow> Suc p)..<length s]")
      case Nil
      then show ?thesis by (subst find_nth_loop.simps(2)) (cases pos; simp add: find)
    next
      case (Cons p ps)
      note r = rest [OF Cons]
      have "find_nth_loop s c (Suc (Suc n)) pos = find_nth_loop s c (Suc n) (Some p)"
        using Cons by (subst find_nth_loop.simps(2)) (cases pos; simp add: find del: find_nth_loop.simps)
      with Suc [of "Some p"] r Cons show ?thesis by (simp del: find_nth_loop.simps)
    qed
  qed
qed

lemma strrmm_filter: "strrmm s chars = filter (\<lambda>c. c \<notin> set chars) s"
proof -
  have "it \<le> length s \<Longrightarrow> strrmm_loop s chars it = take it s @ filter (\<lambda>c. c \<notin> set chars) (drop it s)" for it
  proof (induction s chars it rule: strrmm_loop.induct)
    case (1 s chars it)
    show ?case
    proof (cases "it < length s")
      case True
      with "1.IH" show ?thesis
        by (subst strrmm_loop.simps)
          (auto simp: Cons_nth_drop_Suc [symmetric] take_Suc_conv_app_nth min_def)
    next
      case False
      with "1.prems" show ?thesis by (subst strrmm_loop.simps) simp
    qed
  qed
  from this [of 0] show ?thesis by (simp add: strrmm_def)
qed

lemma StripString_map:
  "StripString s remove c =
     map (\<lambda>x. if x \<in> set remove then c else x) (takeWhile (\<lambda>x. x \<noteq> CHR 0x00) s)
     @ dropWhile (\<lambda>x. x \<noteq> CHR 0x00) s"
proof -
  let ?f = "\<lambda>x. if x \<in> set remove then c else x" and ?nz = "\<lambda>x. x \<noteq> CHR 0x00"
  have "i \<le> length s \<Longrightarrow> strip_loop s remove c (strpbrk s remove i)
      = take i s @ map ?f (takeWhile ?nz (drop i s)) @ dropWhile ?nz (drop i s)" for i
  proof (induction "length s - i" arbitrary: i s)
    case 0
    then show ?case by (subst strpbrk.simps) simp
  next
    case (Suc m)
    then have i: "i < length s" "m = length s - Suc i" by simp_all
    have d: "drop i s = s ! i # drop (Suc i) s" using i(1) by (simp add: Cons_nth_drop_Suc)
    consider "s ! i = CHR 0x00" | "s ! i \<noteq> CHR 0x00" "s ! i \<in> set remove" | "s ! i \<noteq> CHR 0x00" "s ! i \<notin> set remove"
      by blast
    then show ?case
    proof cases
      case 1
      then show ?thesis using id_take_nth_drop [OF i(1)]
        by (subst strpbrk.simps) (simp add: d)
    next
      case 2
      with i Suc.hyps(1) [of "s[i := c]" "Suc i"] show ?thesis
        by (subst strpbrk.simps) (simp add: d take_Suc_conv_app_nth)
    next
      case 3
      with i Suc.hyps(1) [of s "Suc i"] show ?thesis
        by (subst strpbrk.simps) (simp add: d take_Suc_conv_app_nth)
    qed
  qed
  from this [of 0] show ?thesis by (simp add: StripString_def)
qed

lemma StripPrefix_iff:
  "TryStripPrefixString s pre (Some out) =
     Inr (HasPrefixString s pre, if HasPrefixString s pre then drop (length pre) s else s)"
proof -
  have "take (length pre) s = pre \<longleftrightarrow> HasPrefixString s pre"
    unfolding HasPrefixString_def by (metis length_take min.absorb_iff2 min.commute)
  then show ?thesis by (simp add: TryStripPrefixString_def substr_def Let_def)
qed

lemma HasSuffixString_iff: "HasSuffixString s suf \<longleftrightarrow> suffix suf s"
  by (auto simp: HasSuffixString_def substr_def suffix_def)
    (metis append_take_drop_id)

end
