(* ===== verification/Str_Cat.thy ===== *)
theory Str_Cat
  imports Str_Num
begin

text \<open>
  Concatenation, \<^verbatim>\<open>asio/tool/strutil.cpp\<close> and \<^verbatim>\<open>strutil.h\<close>. A \<^verbatim>\<open>StringHolder\<close> refers to a
  \<^verbatim>\<open>std::string\<close> of its caller, which lives in a store, to its own text of a number, or to a C
  string, which is its characters. \<open>StrAppend\<close> writes a string of the store that its holders may
  refer to. \<^verbatim>\<open>reserve\<close> does not change the contents, and is left out; a C string that points into
  the destination is outside the model.
\<close>

section \<open>StringHolder\<close>

type_synonym string_store = "nat \<Rightarrow> string"

datatype string_ptr = Own | Ref nat

record StringHolder =
  converted_string :: string
  held_string :: "string_ptr option"
  held_cstring :: "string option"
  held_len :: nat

definition StringHolder_string :: "string_store \<Rightarrow> nat \<Rightarrow> StringHolder" where
  "StringHolder_string h a =
     \<lparr>converted_string = [], held_string = Some (Ref a), held_cstring = None, held_len = length (h a)\<rparr>"

definition StringHolder_cstring :: "string \<Rightarrow> StringHolder" where
  "StringHolder_cstring s = \<lparr>converted_string = [], held_string = None, held_cstring = Some s, held_len = length s\<rparr>"

definition StringHolder_uint64 :: "64 word \<Rightarrow> StringHolder" where
  "StringHolder_uint64 n =
     \<lparr>converted_string = SimpleItoa_uint64 n, held_string = Some Own, held_cstring = None,
      held_len = length (SimpleItoa_uint64 n)\<rparr>"

definition GetString :: "string_store \<Rightarrow> StringHolder \<Rightarrow> string option" where
  "GetString h sh =
     (case held_string sh of None \<Rightarrow> None | Some Own \<Rightarrow> Some (converted_string sh) | Some (Ref a) \<Rightarrow> Some (h a))"

definition GetCString :: "StringHolder \<Rightarrow> string option" where
  "GetCString sh = held_cstring sh"

definition StringHolder_Length :: "StringHolder \<Rightarrow> nat" where
  "StringHolder_Length sh = held_len sh"

text \<open>\<^verbatim>\<open>lhs += rhs\<close>: the new value of \<open>lhs\<close>.\<close>

definition plus_assign :: "string_store \<Rightarrow> string \<Rightarrow> StringHolder \<Rightarrow> string" where
  "plus_assign h lhs rhs =
     (case GetString h rhs of
        Some s \<Rightarrow> lhs @ s
      | None \<Rightarrow> (case GetCString rhs of
          Some cs \<Rightarrow> lhs @ take (StringHolder_Length rhs) cs
        | None \<Rightarrow> lhs))"

definition plus_assign_at :: "nat \<Rightarrow> StringHolder \<Rightarrow> string_store \<Rightarrow> string_store" where
  "plus_assign_at dest sh h = h(dest := plus_assign h (h dest) sh)"

section \<open>StrCat\<close>

definition StrCat_2 ::
    "string_store \<Rightarrow> StringHolder \<Rightarrow> StringHolder \<Rightarrow> string" where
  "StrCat_2 h s1 s2 =
     (let result = [];
          result = plus_assign h result s1;
          result = plus_assign h result s2
      in result)"

definition StrCat_3 ::
    "string_store \<Rightarrow> StringHolder \<Rightarrow> StringHolder \<Rightarrow>
     StringHolder \<Rightarrow> string" where
  "StrCat_3 h s1 s2 s3 =
     (let result = [];
          result = plus_assign h result s1;
          result = plus_assign h result s2;
          result = plus_assign h result s3
      in result)"

definition StrCat_4 ::
    "string_store \<Rightarrow> StringHolder \<Rightarrow> StringHolder \<Rightarrow>
     StringHolder \<Rightarrow> StringHolder \<Rightarrow> string" where
  "StrCat_4 h s1 s2 s3 s4 =
     (let result = [];
          result = plus_assign h result s1;
          result = plus_assign h result s2;
          result = plus_assign h result s3;
          result = plus_assign h result s4
      in result)"

definition StrCat_5 ::
    "string_store \<Rightarrow> StringHolder \<Rightarrow> StringHolder \<Rightarrow>
     StringHolder \<Rightarrow> StringHolder \<Rightarrow> StringHolder \<Rightarrow> string" where
  "StrCat_5 h s1 s2 s3 s4 s5 =
     (let result = [];
          result = plus_assign h result s1;
          result = plus_assign h result s2;
          result = plus_assign h result s3;
          result = plus_assign h result s4;
          result = plus_assign h result s5
      in result)"

definition StrCat_6 ::
    "string_store \<Rightarrow> StringHolder \<Rightarrow> StringHolder \<Rightarrow>
     StringHolder \<Rightarrow> StringHolder \<Rightarrow> StringHolder \<Rightarrow>
     StringHolder \<Rightarrow> string" where
  "StrCat_6 h s1 s2 s3 s4 s5 s6 =
     (let result = [];
          result = plus_assign h result s1;
          result = plus_assign h result s2;
          result = plus_assign h result s3;
          result = plus_assign h result s4;
          result = plus_assign h result s5;
          result = plus_assign h result s6
      in result)"

definition StrCat_7 ::
    "string_store \<Rightarrow> StringHolder \<Rightarrow> StringHolder \<Rightarrow>
     StringHolder \<Rightarrow> StringHolder \<Rightarrow> StringHolder \<Rightarrow>
     StringHolder \<Rightarrow> StringHolder \<Rightarrow> string" where
  "StrCat_7 h s1 s2 s3 s4 s5 s6 s7 =
     (let result = [];
          result = plus_assign h result s1;
          result = plus_assign h result s2;
          result = plus_assign h result s3;
          result = plus_assign h result s4;
          result = plus_assign h result s5;
          result = plus_assign h result s6;
          result = plus_assign h result s7
      in result)"

definition StrCat_8 ::
    "string_store \<Rightarrow> StringHolder \<Rightarrow> StringHolder \<Rightarrow>
     StringHolder \<Rightarrow> StringHolder \<Rightarrow> StringHolder \<Rightarrow>
     StringHolder \<Rightarrow> StringHolder \<Rightarrow> StringHolder \<Rightarrow> string" where
  "StrCat_8 h s1 s2 s3 s4 s5 s6 s7 s8 =
     (let result = [];
          result = plus_assign h result s1;
          result = plus_assign h result s2;
          result = plus_assign h result s3;
          result = plus_assign h result s4;
          result = plus_assign h result s5;
          result = plus_assign h result s6;
          result = plus_assign h result s7;
          result = plus_assign h result s8
      in result)"

definition StrCat_9 ::
    "string_store \<Rightarrow> StringHolder \<Rightarrow> StringHolder \<Rightarrow>
     StringHolder \<Rightarrow> StringHolder \<Rightarrow> StringHolder \<Rightarrow>
     StringHolder \<Rightarrow> StringHolder \<Rightarrow> StringHolder \<Rightarrow>
     StringHolder \<Rightarrow> string" where
  "StrCat_9 h s1 s2 s3 s4 s5 s6 s7 s8 s9 =
     (let result = [];
          result = plus_assign h result s1;
          result = plus_assign h result s2;
          result = plus_assign h result s3;
          result = plus_assign h result s4;
          result = plus_assign h result s5;
          result = plus_assign h result s6;
          result = plus_assign h result s7;
          result = plus_assign h result s8;
          result = plus_assign h result s9
      in result)"

definition StrCat_11 ::
    "string_store \<Rightarrow> StringHolder \<Rightarrow> StringHolder \<Rightarrow>
     StringHolder \<Rightarrow> StringHolder \<Rightarrow> StringHolder \<Rightarrow>
     StringHolder \<Rightarrow> StringHolder \<Rightarrow> StringHolder \<Rightarrow>
     StringHolder \<Rightarrow> StringHolder \<Rightarrow> StringHolder \<Rightarrow> string" where
  "StrCat_11 h s1 s2 s3 s4 s5 s6 s7 s8 s9 s10 s11 =
     (let result = [];
          result = plus_assign h result s1;
          result = plus_assign h result s2;
          result = plus_assign h result s3;
          result = plus_assign h result s4;
          result = plus_assign h result s5;
          result = plus_assign h result s6;
          result = plus_assign h result s7;
          result = plus_assign h result s8;
          result = plus_assign h result s9;
          result = plus_assign h result s10;
          result = plus_assign h result s11
      in result)"

definition StrCat_12 ::
    "string_store \<Rightarrow> StringHolder \<Rightarrow> StringHolder \<Rightarrow>
     StringHolder \<Rightarrow> StringHolder \<Rightarrow> StringHolder \<Rightarrow>
     StringHolder \<Rightarrow> StringHolder \<Rightarrow> StringHolder \<Rightarrow>
     StringHolder \<Rightarrow> StringHolder \<Rightarrow> StringHolder \<Rightarrow>
     StringHolder \<Rightarrow> string" where
  "StrCat_12 h s1 s2 s3 s4 s5 s6 s7 s8 s9 s10 s11 s12 =
     (let result = [];
          result = plus_assign h result s1;
          result = plus_assign h result s2;
          result = plus_assign h result s3;
          result = plus_assign h result s4;
          result = plus_assign h result s5;
          result = plus_assign h result s6;
          result = plus_assign h result s7;
          result = plus_assign h result s8;
          result = plus_assign h result s9;
          result = plus_assign h result s10;
          result = plus_assign h result s11;
          result = plus_assign h result s12
      in result)"

definition StrCat_13 ::
    "string_store \<Rightarrow> StringHolder \<Rightarrow> StringHolder \<Rightarrow>
     StringHolder \<Rightarrow> StringHolder \<Rightarrow> StringHolder \<Rightarrow>
     StringHolder \<Rightarrow> StringHolder \<Rightarrow> StringHolder \<Rightarrow>
     StringHolder \<Rightarrow> StringHolder \<Rightarrow> StringHolder \<Rightarrow>
     StringHolder \<Rightarrow> StringHolder \<Rightarrow> string" where
  "StrCat_13 h s1 s2 s3 s4 s5 s6 s7 s8 s9 s10 s11 s12 s13 =
     (let result = [];
          result = plus_assign h result s1;
          result = plus_assign h result s2;
          result = plus_assign h result s3;
          result = plus_assign h result s4;
          result = plus_assign h result s5;
          result = plus_assign h result s6;
          result = plus_assign h result s7;
          result = plus_assign h result s8;
          result = plus_assign h result s9;
          result = plus_assign h result s10;
          result = plus_assign h result s11;
          result = plus_assign h result s12;
          result = plus_assign h result s13
      in result)"

definition StrCat_14 ::
    "string_store \<Rightarrow> StringHolder \<Rightarrow> StringHolder \<Rightarrow>
     StringHolder \<Rightarrow> StringHolder \<Rightarrow> StringHolder \<Rightarrow>
     StringHolder \<Rightarrow> StringHolder \<Rightarrow> StringHolder \<Rightarrow>
     StringHolder \<Rightarrow> StringHolder \<Rightarrow> StringHolder \<Rightarrow>
     StringHolder \<Rightarrow> StringHolder \<Rightarrow> StringHolder \<Rightarrow> string" where
  "StrCat_14 h s1 s2 s3 s4 s5 s6 s7 s8 s9 s10 s11 s12 s13 s14 =
     (let result = [];
          result = plus_assign h result s1;
          result = plus_assign h result s2;
          result = plus_assign h result s3;
          result = plus_assign h result s4;
          result = plus_assign h result s5;
          result = plus_assign h result s6;
          result = plus_assign h result s7;
          result = plus_assign h result s8;
          result = plus_assign h result s9;
          result = plus_assign h result s10;
          result = plus_assign h result s11;
          result = plus_assign h result s12;
          result = plus_assign h result s13;
          result = plus_assign h result s14
      in result)"

definition StrCat_15 ::
    "string_store \<Rightarrow> StringHolder \<Rightarrow> StringHolder \<Rightarrow>
     StringHolder \<Rightarrow> StringHolder \<Rightarrow> StringHolder \<Rightarrow>
     StringHolder \<Rightarrow> StringHolder \<Rightarrow> StringHolder \<Rightarrow>
     StringHolder \<Rightarrow> StringHolder \<Rightarrow> StringHolder \<Rightarrow>
     StringHolder \<Rightarrow> StringHolder \<Rightarrow> StringHolder \<Rightarrow>
     StringHolder \<Rightarrow> string" where
  "StrCat_15 h s1 s2 s3 s4 s5 s6 s7 s8 s9 s10 s11 s12 s13 s14 s15 =
     (let result = [];
          result = plus_assign h result s1;
          result = plus_assign h result s2;
          result = plus_assign h result s3;
          result = plus_assign h result s4;
          result = plus_assign h result s5;
          result = plus_assign h result s6;
          result = plus_assign h result s7;
          result = plus_assign h result s8;
          result = plus_assign h result s9;
          result = plus_assign h result s10;
          result = plus_assign h result s11;
          result = plus_assign h result s12;
          result = plus_assign h result s13;
          result = plus_assign h result s14;
          result = plus_assign h result s15
      in result)"

definition StrCat_16 ::
    "string_store \<Rightarrow> StringHolder \<Rightarrow> StringHolder \<Rightarrow>
     StringHolder \<Rightarrow> StringHolder \<Rightarrow> StringHolder \<Rightarrow>
     StringHolder \<Rightarrow> StringHolder \<Rightarrow> StringHolder \<Rightarrow>
     StringHolder \<Rightarrow> StringHolder \<Rightarrow> StringHolder \<Rightarrow>
     StringHolder \<Rightarrow> StringHolder \<Rightarrow> StringHolder \<Rightarrow>
     StringHolder \<Rightarrow> StringHolder \<Rightarrow> string" where
  "StrCat_16 h s1 s2 s3 s4 s5 s6 s7 s8 s9 s10 s11 s12 s13 s14 s15 s16 =
     (let result = [];
          result = plus_assign h result s1;
          result = plus_assign h result s2;
          result = plus_assign h result s3;
          result = plus_assign h result s4;
          result = plus_assign h result s5;
          result = plus_assign h result s6;
          result = plus_assign h result s7;
          result = plus_assign h result s8;
          result = plus_assign h result s9;
          result = plus_assign h result s10;
          result = plus_assign h result s11;
          result = plus_assign h result s12;
          result = plus_assign h result s13;
          result = plus_assign h result s14;
          result = plus_assign h result s15;
          result = plus_assign h result s16
      in result)"

section \<open>StrAppend\<close>

definition StrAppend_1 ::
    "nat option \<Rightarrow> StringHolder \<Rightarrow>
     string_store \<Rightarrow> string_store result" where
  "StrAppend_1 dest s1 h =
     (case dest of
        None \<Rightarrow> Inl AssertionFailed
      | Some d \<Rightarrow>
         (let h = plus_assign_at d s1 h
          in Inr h))"

definition StrAppend_2 ::
    "nat option \<Rightarrow> StringHolder \<Rightarrow> StringHolder \<Rightarrow>
     string_store \<Rightarrow> string_store result" where
  "StrAppend_2 dest s1 s2 h =
     (case dest of
        None \<Rightarrow> Inl AssertionFailed
      | Some d \<Rightarrow>
         (let h = plus_assign_at d s1 h;
              h = plus_assign_at d s2 h
          in Inr h))"

definition StrAppend_3 ::
    "nat option \<Rightarrow> StringHolder \<Rightarrow> StringHolder \<Rightarrow> StringHolder \<Rightarrow>
     string_store \<Rightarrow> string_store result" where
  "StrAppend_3 dest s1 s2 s3 h =
     (case dest of
        None \<Rightarrow> Inl AssertionFailed
      | Some d \<Rightarrow>
         (let h = plus_assign_at d s1 h;
              h = plus_assign_at d s2 h;
              h = plus_assign_at d s3 h
          in Inr h))"

definition StrAppend_4 ::
    "nat option \<Rightarrow> StringHolder \<Rightarrow> StringHolder \<Rightarrow> StringHolder \<Rightarrow> StringHolder \<Rightarrow>
     string_store \<Rightarrow> string_store result" where
  "StrAppend_4 dest s1 s2 s3 s4 h =
     (case dest of
        None \<Rightarrow> Inl AssertionFailed
      | Some d \<Rightarrow>
         (let h = plus_assign_at d s1 h;
              h = plus_assign_at d s2 h;
              h = plus_assign_at d s3 h;
              h = plus_assign_at d s4 h
          in Inr h))"

definition StrAppend_5 ::
    "nat option \<Rightarrow> StringHolder \<Rightarrow> StringHolder \<Rightarrow> StringHolder \<Rightarrow> StringHolder \<Rightarrow> StringHolder \<Rightarrow>
     string_store \<Rightarrow> string_store result" where
  "StrAppend_5 dest s1 s2 s3 s4 s5 h =
     (case dest of
        None \<Rightarrow> Inl AssertionFailed
      | Some d \<Rightarrow>
         (let h = plus_assign_at d s1 h;
              h = plus_assign_at d s2 h;
              h = plus_assign_at d s3 h;
              h = plus_assign_at d s4 h;
              h = plus_assign_at d s5 h
          in Inr h))"

section \<open>Concatenation\<close>

text \<open>The text a holder stands for.\<close>

definition holder_text :: "string_store \<Rightarrow> StringHolder \<Rightarrow> string" where
  "holder_text h sh =
     (case GetString h sh of
        Some s \<Rightarrow> s
      | None \<Rightarrow> (case GetCString sh of Some cs \<Rightarrow> take (StringHolder_Length sh) cs | None \<Rightarrow> []))"

lemma plus_assign_text: "plus_assign h lhs sh = lhs @ holder_text h sh"
  by (simp add: plus_assign_def holder_text_def split: option.splits)

lemma holder_text_new [simp]:
  "holder_text h (StringHolder_string h a) = h a"
  "holder_text h (StringHolder_cstring s) = s"
  "holder_text h (StringHolder_uint64 n) = dec_int (uint n)"
  by (simp_all add: holder_text_def StringHolder_string_def StringHolder_cstring_def
      StringHolder_uint64_def GetString_def GetCString_def StringHolder_Length_def
      SimpleItoa_uint64_def Itoa_dec)

lemma holder_text_other:
  "held_string sh \<noteq> Some (Ref d) \<Longrightarrow> holder_text (h(d := s)) sh = holder_text h sh"
  by (auto simp: holder_text_def GetString_def split: option.splits string_ptr.splits)

lemma plus_assign_at_text: "plus_assign_at d sh h = h(d := h d @ holder_text h sh)"
  by (simp add: plus_assign_at_def plus_assign_text)

lemmas StrCat_defs = StrCat_2_def StrCat_3_def StrCat_4_def StrCat_5_def StrCat_6_def StrCat_7_def StrCat_8_def
  StrCat_9_def StrCat_11_def StrCat_12_def StrCat_13_def StrCat_14_def StrCat_15_def StrCat_16_def

lemmas StrAppend_defs = StrAppend_1_def StrAppend_2_def StrAppend_3_def StrAppend_4_def StrAppend_5_def

text \<open>
  Every overload of \<^verbatim>\<open>StrCat\<close> concatenates the texts of its arguments, in the order of
  the arguments.
\<close>

theorem StrCat_concat:
  "StrCat_2 h s1 s2 = concat (map (holder_text h) [s1, s2]) \<and>
   StrCat_3 h s1 s2 s3 = concat (map (holder_text h) [s1, s2, s3]) \<and>
   StrCat_4 h s1 s2 s3 s4 = concat (map (holder_text h) [s1, s2, s3, s4]) \<and>
   StrCat_5 h s1 s2 s3 s4 s5 =
     concat (map (holder_text h)
       [s1, s2, s3, s4, s5]) \<and>
   StrCat_6 h s1 s2 s3 s4 s5 s6 =
     concat (map (holder_text h)
       [s1, s2, s3, s4, s5, s6]) \<and>
   StrCat_7 h s1 s2 s3 s4 s5 s6 s7 =
     concat (map (holder_text h)
       [s1, s2, s3, s4, s5, s6, s7]) \<and>
   StrCat_8 h s1 s2 s3 s4 s5 s6 s7 s8 =
     concat (map (holder_text h)
       [s1, s2, s3, s4, s5, s6, s7, s8]) \<and>
   StrCat_9 h s1 s2 s3 s4 s5 s6 s7 s8 s9 =
     concat (map (holder_text h)
       [s1, s2, s3, s4, s5, s6, s7, s8, s9]) \<and>
   StrCat_11 h s1 s2 s3 s4 s5 s6 s7 s8 s9 s10 s11 =
     concat (map (holder_text h)
       [s1, s2, s3, s4, s5, s6, s7, s8, s9, s10, s11]) \<and>
   StrCat_12 h s1 s2 s3 s4 s5 s6 s7 s8 s9 s10 s11 s12 =
     concat (map (holder_text h)
       [s1, s2, s3, s4, s5, s6, s7, s8, s9, s10, s11, s12]) \<and>
   StrCat_13 h s1 s2 s3 s4 s5 s6 s7 s8 s9 s10 s11 s12 s13 =
     concat (map (holder_text h)
       [s1, s2, s3, s4, s5, s6, s7, s8, s9, s10, s11, s12, s13]) \<and>
   StrCat_14 h s1 s2 s3 s4 s5 s6 s7 s8 s9 s10 s11 s12 s13 s14 =
     concat (map (holder_text h)
       [s1, s2, s3, s4, s5, s6, s7, s8, s9, s10, s11, s12, s13, s14]) \<and>
   StrCat_15 h s1 s2 s3 s4 s5 s6 s7 s8 s9 s10 s11 s12 s13 s14 s15 =
     concat (map (holder_text h)
       [s1, s2, s3, s4, s5, s6, s7, s8, s9, s10, s11, s12, s13, s14, s15]) \<and>
   StrCat_16 h s1 s2 s3 s4 s5 s6 s7 s8 s9 s10 s11 s12 s13 s14 s15 s16 =
     concat (map (holder_text h)
       [s1, s2, s3, s4, s5, s6, s7, s8, s9, s10, s11, s12, s13, s14, s15, s16])"
  by (simp add: StrCat_defs plus_assign_text Let_def)

text \<open>
  Every overload of \<^verbatim>\<open>StrAppend\<close> appends the texts of its arguments to the destination and
  changes no other string, provided that no argument refers to the destination.
\<close>

theorem StrAppend_concat:
  assumes "\<forall>sh \<in> {s1, s2, s3, s4, s5}. held_string sh \<noteq> Some (Ref d)"
  shows "StrAppend_1 (Some d) s1 h = Inr (h(d := h d @ concat (map (holder_text h) [s1]))) \<and>
   StrAppend_2 (Some d) s1 s2 h = Inr (h(d := h d @ concat (map (holder_text h) [s1, s2]))) \<and>
   StrAppend_3 (Some d) s1 s2 s3 h = Inr (h(d := h d @ concat (map (holder_text h) [s1, s2, s3]))) \<and>
   StrAppend_4 (Some d) s1 s2 s3 s4 h = Inr (h(d := h d @ concat (map (holder_text h) [s1, s2, s3, s4]))) \<and>
   StrAppend_5 (Some d) s1 s2 s3 s4 s5 h = Inr (h(d := h d @ concat (map (holder_text h) [s1, s2, s3, s4, s5])))"
  using assms by (simp add: StrAppend_defs plus_assign_at_text holder_text_other Let_def)

theorem StrAppend_concat_witness:
  "StrAppend_3 (Some 0) (StringHolder_string ((\<lambda>_. [])(1 := ''b'')) 1) (StringHolder_cstring ''c'')
     (StringHolder_uint64 42) ((\<lambda>_. [])(1 := ''b'')) = Inr ((\<lambda>_. [])(0 := ''bc'' @ dec_int 42, 1 := ''b''))"
proof -
  let ?h = "(\<lambda>_. [])(1 := ''b'') :: string_store"
  let ?s1 = "StringHolder_string ?h 1" and ?s2 = "StringHolder_cstring ''c''" and ?s3 = "StringHolder_uint64 42"
  have "\<forall>sh \<in> {?s1, ?s2, ?s3, ?s3, ?s3}. held_string sh \<noteq> Some (Ref 0)"
    by (simp add: StringHolder_string_def StringHolder_cstring_def StringHolder_uint64_def)
  from StrAppend_concat [OF this, of ?h] show ?thesis by (simp add: fun_upd_twist)
qed

text \<open>
  An argument that refers to the destination is read when its turn has come: the second one sees what
  the first has appended.
\<close>

lemma StrAppend_alias:
  "StrAppend_2 (Some d) (StringHolder_string h d) (StringHolder_string h d) h
     = Inr (h(d := h d @ h d @ h d @ h d))"
proof -
  have "holder_text h' (StringHolder_string h d) = h' d" for h'
    by (simp add: holder_text_def StringHolder_string_def GetString_def)
  then show ?thesis by (simp add: StrAppend_2_def plus_assign_at_text)
qed

end
