(* ===== verification/Spec2Isabelle.thy ===== *)
theory Spec2Isabelle
  imports Bus_Call Pub_Sub Connector Pipeline Text_Tools Str_Cat
begin

text \<open>
  Verification of the messaging library under \<^verbatim>\<open>asio/\<close> and of the programs under \<^verbatim>\<open>server/\<close>
  and \<^verbatim>\<open>connector/\<close>.

  The program. Clients and servers exchange protocol buffer messages over TCP. A message travels as
  a \<^verbatim>\<open>Package\<close> (a packed header, the type name, the serialised content), which \<^verbatim>\<open>ProtoHelp\<close>
  writes into and reads from a \<^verbatim>\<open>Buffer\<close>. A server accepts connections; each \<^verbatim>\<open>Session\<close> cuts
  the received stream into packages, hands them to the \<^verbatim>\<open>TaskManager\<close>, which dispatches them to
  workers and to a \<^verbatim>\<open>ThreadPool\<close>, and writes replies through a queue; the \<^verbatim>\<open>SessionRoom\<close> knows
  the live sessions and their subscriptions. A client has one connection, a write queue, a table of
  outstanding requests with timers, and handlers for publications. A message bus is a server that
  forwards packages between clients. The server program answers three services; the connector is a
  dialog that calls one of them.

  Conventions. Every definition is a translation of the C++ function of the same name (prefixed by the
  class where two classes have a function of that name). Assertions, accesses out of range, null
  dereferences, bad casts and exceptions are values \<open>Inl e\<close> of \<open>cpp_error + 'a\<close>. Machine integers
  are words, or integers with \<open>wrap32\<close> and \<open>size_of_int\<close> written out where the sources convert. The
  handlers of an event loop are functions of the state that return the new state and the list of what
  they ask of the loop (writes, reads, posts, calls of user functions). Threads that share data under a
  mutex are interleaved by step relations whose steps are the critical sections. The objects that are
  shared and mutated (packages of a client, strings of a caller) live in a store.

  Theories and the sources they model:

  \<^item> \<open>Prelude\<close>: errors, C++ integer conversions, bytes of integers; shared lemmas.
  \<^item> \<open>Step_System\<close>: the locale \<open>step_system\<close> of a step relation with its invariant, and
    \<open>draining_system\<close>, whose work comes to an end. The thread pool, the write queues of server and client
    and the client among its callers are interpretations.
  \<^item> \<open>Buffer\<close>: \<^verbatim>\<open>internal/Buffer.h\<close>, \<^verbatim>\<open>Buffer.cpp\<close>. The invariant \<open>buf_inv\<close> is kept by every
    operation, and every sequence of operations behaves as a queue of bytes. The locale
    \<open>byte_stream\<close> is what the codec relies on.
  \<^item> \<open>Package\<close>, \<open>ProtoHelp\<close>: \<^verbatim>\<open>internal/Package.h\<close>, \<^verbatim>\<open>ProtoHelp.cpp\<close>. The codec with
    its failures: round trips with and without compression, for parsed and raw packages, resynchronisation
    after junk, and three ways in which a received header blocks or breaks the reader. Byte order,
    reflection and zlib are the fields of the record \<open>env\<close>, with the documented behaviour
    \<open>net_order_ok\<close>, \<open>proto_ok\<close>, \<open>zlib_ok\<close>; \<open>Sample_Env\<close> is a concrete environment.
  \<^item> \<open>Frame_Stream\<close>: the locale \<open>frame_decoder\<close>, the contract between the codec and the two read
    loops: however a stream is cut, the packages of its complete frames come out in order.
  \<^item> \<open>Session\<close>, \<open>SessionRoom\<close>: \<^verbatim>\<open>internal/Session.h\<close>, \<^verbatim>\<open>Session.cpp\<close>. The write queue
    with its event loop is the step relation \<open>wstep\<close>; the room is a subscription table (a
    locale) and a map of sessions, with histories of operations and interleaved critical sections.
  \<^item> \<open>ThreadPool\<close>, \<open>TaskManager\<close>: \<^verbatim>\<open>internal/ThreadPool.h\<close>, \<^verbatim>\<open>TaskManager.cpp\<close>. The pool is
    the step relation \<open>pool_step\<close> of its threads, with condition variables that may wake up spuriously. It
    accounts for every task handed to \<^verbatim>\<open>run\<close>, in ghost fields that record what was handed over, queued,
    taken, executed and refused.
  \<^item> \<open>Pb_Wire\<close>, \<open>Pb_Base\<close>, \<open>Pb_Simple\<close>, \<open>Pb_Messages\<close>: the generated classes of
    \<^verbatim>\<open>asio/proto\<close> over the protocol buffers runtime, which is the record \<open>wire\<close>. Each class is an
    interpretation of the locale \<open>pb_class\<close>; together they meet the codec's hypothesis \<open>proto_ok\<close>.
    \<open>Sample_Wire\<close> and \<open>Sample_Pb\<close> are a concrete runtime and concrete messages for the witnesses.
  \<^item> \<open>AsioServer\<close>, \<open>MsgBus\<close>: \<^verbatim>\<open>internal/AsioServer.cpp\<close>, \<^verbatim>\<open>msgbus.cpp\<close>. Subscription requests,
    publications, and the forwarding of requests and answers.
  \<^item> \<open>Pending_Table\<close>, \<open>RequestMessage\<close>, \<open>Handlers\<close>, \<open>AsioClient\<close>, \<open>Client_Queue\<close>:
    \<^verbatim>\<open>internal/AsioClient.h\<close>, \<^verbatim>\<open>AsioClient.cpp\<close>. The table of requests is an interpretation of the
    locale \<open>pending_table\<close>; the client with its event loop is the step relation \<open>cstep\<close>, whose queue
    keeps the order of the posts (\<open>client_writes_in_order\<close>), drains as long as no write has failed
    (\<open>client_queue_drains\<close>), and never moves again otherwise (\<open>client_silent\<close>).
  \<^item> \<open>Client_Events\<close>: all operations of the client as one type of events. Which calls of \<^verbatim>\<open>sendMessage\<close> the
    callbacks in the table of requests belong to, what a stopped client still does, and how the messages are
    numbered.
  \<^item> \<open>Client_Safety\<close>: type safety: along every sequence of calls and completions no empty queue is popped, and
    no reference dangles but those of the callback that a refused \<^verbatim>\<open>sendMessage\<close> leaves behind.
  \<^item> \<open>Rpc\<close>, \<open>Pipeline\<close>: client and server together: a remote call, any number of calls at once, and the
    subscriptions of a client's handlers.
  \<^item> \<open>Server_Main\<close>: \<^verbatim>\<open>msgserver.cpp\<close>, \<^verbatim>\<open>server/main.cpp\<close>: the server program, and its echo service
    from the call of the client to its callback.
  \<^item> \<open>Msg_Client\<close>: \<^verbatim>\<open>msgclient.cpp\<close> and \<^verbatim>\<open>BusStub\<close> of \<^verbatim>\<open>msgbus.cpp\<close>: a provider on the bus, and what
    remains of a client that has been stopped.
  \<^item> \<open>Bus_Call\<close>: client, bus and provider together. The bus reads the same frames in another build, without
    parsing them; a call goes from the client's \<^verbatim>\<open>postMessage\<close> through the bus to the provider's function and
    back to the client's callback, provided that no package with the same message id passes in between.
  \<^item> \<open>Pub_Sub\<close>: publish and subscribe. From the subscription that a client posts to the call of the function it
    has registered, for a publication at any later time up to which it is still subscribed.
  \<^item> \<open>Connector_Ui\<close>, \<open>Connector\<close>: \<^verbatim>\<open>connector/\<close>. The form and the method tables as Qt's tools have generated
    them, and the dialog: its slots, its timer, its lists, and the callback of its requests. A press of a
    button is followed through client, wire and server back to the list of the answers.
  \<^item> \<open>Util\<close>, \<open>Process_Memory\<close>: \<^verbatim>\<open>tool/util.cpp\<close>, and \<^verbatim>\<open>tool/process_memory.h\<close> on all its systems. A \<^verbatim>\<open>double\<close> is the
    number that it stands for, rounded to 53 bits where the code converts.
  \<^item> \<open>Strutil\<close>, \<open>Text_Tools\<close>, \<open>Str_Num\<close>, \<open>Str_Cat\<close>: \<^verbatim>\<open>tool/strutil.cpp\<close>. Splitting, joining and
    replacing against the pieces of a string; decimal text; concatenation over a store of strings.

  Loops. The loops of the codec, of the read loop, of \<^verbatim>\<open>waitConnected\<close> and of the string tools are
  \<open>function\<close>s with a measure, so they end on every input. The parse loops of the generated classes and the
  loop of \<^verbatim>\<open>GlobalReplaceSubstring\<close>, which may not end (a runtime that consumes nothing; an
  \<^verbatim>\<open>int\<close> position that wraps), are partial functions whose value is \<open>None\<close> then; the theorems
  about them say that they return. No fuel is used.

  Defects that the proofs have brought to light are theorems too: \<open>decode_negative_size_blocks\<close>,
  \<open>decode_name_past_end\<close> and \<open>decode_unparsable_content\<close> of the codec; \<open>write_failure_final\<close> and
  \<open>client_silent\<close> of the two write queues; \<open>bus_id_collision\<close> and \<open>bus_publication_to_providers\<close> of the
  bus; \<open>pool_stop_abandons_queue\<close>, \<open>late_subscription_stays\<close>, \<open>doSubscribe_size_mismatch\<close>,
  \<open>Buffer_new_only_default_size\<close>, \<open>refused_send_dangles\<close>, \<open>stopped_for_ever\<close>, \<open>disconnected_for_good\<close>, \<open>StrAppend_alias\<close> and
  \<open>operator_plus_int_cases\<close>. \<open>message_ids\<close> states how the ids of a client wrap.

  Not modelled, and why: sockets, timers, the resolver and the scheduling of the event loops, which are
  Boost and Qt (their results are arguments of the handlers, or events); the clock, the local time, the
  files and the statistics of the process, which the operating system supplies as arguments, and the log itself;
  the descriptor tables and arenas of
  the generated classes, which belong to the runtime; spacing and sizes in the form of the connector, its
  empty resource file, and \<^verbatim>\<open>connector/Constant.h\<close>, which nothing includes. C strings that point into the
  destination of \<^verbatim>\<open>StrAppend\<close>, tasks that throw, and exhausted memory are outside of the model.
\<close>

end
